(* ===== verification/Prelude.thy ===== *)
theory Prelude
  imports Main "HOL-Library.Sublist" "HOL-Library.AList"
begin

text \<open>
  Shared library of the development: the functions of Go's \<open>strings\<close>, \<open>strconv\<close> and
  \<open>path\<close> packages that the modelled sources call, on byte strings (a Go string is a sequence
  of bytes and an Isabelle \<open>string\<close> is a list of 8-bit characters), Go maps as association
  lists, and the generic lemmas and hint collections the component theories share.

  Case mapping and white space are those of Go on ASCII. A byte of 128 or more is an ordinary
  character that is neither a letter nor white space here, so the functions that go through
  \<open>strings.ToLower\<close>, \<open>strings.ToUpper\<close>, \<open>strings.EqualFold\<close> and
  \<open>strings.TrimSpace\<close> agree with Go on inputs whose letters and blanks are ASCII.
\<close>

named_theorems go_defs \<open>definitions unfolded when a string function is evaluated\<close>
named_theorems tok_defs \<open>definitions of the shell scanners\<close>

section \<open>Bytes\<close>

definition byte :: "char \<Rightarrow> int" where
  "byte c = of_char c"

definition is_digit :: "char \<Rightarrow> bool" where
  "is_digit c \<longleftrightarrow> 48 \<le> byte c \<and> byte c \<le> 57"

definition is_upper :: "char \<Rightarrow> bool" where
  "is_upper c \<longleftrightarrow> 65 \<le> byte c \<and> byte c \<le> 90"

definition is_lower :: "char \<Rightarrow> bool" where
  "is_lower c \<longleftrightarrow> 97 \<le> byte c \<and> byte c \<le> 122"

definition is_alpha :: "char \<Rightarrow> bool" where
  "is_alpha c \<longleftrightarrow> is_upper c \<or> is_lower c"

text \<open>The ASCII part of \<open>unicode.IsSpace\<close>: tab, newline, vertical tab, form feed, carriage
  return and blank.\<close>

definition is_space :: "char \<Rightarrow> bool" where
  "is_space c \<longleftrightarrow> c = CHR '' '' \<or> (9 \<le> byte c \<and> byte c \<le> 13)"

definition lower_char :: "char \<Rightarrow> char" where
  "lower_char c = (if is_upper c then char_of (byte c + 32) else c)"

definition upper_char :: "char \<Rightarrow> char" where
  "upper_char c = (if is_lower c then char_of (byte c - 32) else c)"

lemma byte_char_of [simp]: "0 \<le> n \<Longrightarrow> n < 256 \<Longrightarrow> byte (char_of n) = n"
  by (simp add: byte_def)

lemma byte_lower_char: "byte (lower_char c) = (if is_upper c then byte c + 32 else byte c)"
  by (auto simp: lower_char_def is_upper_def)

lemma byte_upper_char: "byte (upper_char c) = (if is_lower c then byte c - 32 else byte c)"
  by (auto simp: upper_char_def is_lower_def)

lemma byte_inject: "byte a = byte b \<longleftrightarrow> a = b"
  by (simp add: byte_def)

lemma lower_lower [simp]: "lower_char (lower_char c) = lower_char c"
  by (simp add: byte_inject [symmetric] byte_lower_char is_upper_def)

lemma lower_upper [simp]: "lower_char (upper_char c) = lower_char c"
  by (auto simp: byte_inject [symmetric] byte_lower_char byte_upper_char is_upper_def is_lower_def)

lemma upper_lower [simp]: "upper_char (lower_char c) = upper_char c"
  by (auto simp: byte_inject [symmetric] byte_lower_char byte_upper_char is_upper_def is_lower_def)

lemma upper_upper [simp]: "upper_char (upper_char c) = upper_char c"
  by (auto simp: byte_inject [symmetric] byte_upper_char is_lower_def)

section \<open>Package strings\<close>

definition ToLower :: "string \<Rightarrow> string" where
  "ToLower s = map lower_char s"

definition ToUpper :: "string \<Rightarrow> string" where
  "ToUpper s = map upper_char s"

definition EqualFold :: "string \<Rightarrow> string \<Rightarrow> bool" where
  "EqualFold a b \<longleftrightarrow> ToLower a = ToLower b"

definition HasPrefix :: "string \<Rightarrow> string \<Rightarrow> bool" where
  "HasPrefix s p \<longleftrightarrow> take (length p) s = p"

definition HasSuffix :: "string \<Rightarrow> string \<Rightarrow> bool" where
  "HasSuffix s p \<longleftrightarrow> length p \<le> length s \<and> drop (length s - length p) s = p"

definition TrimPrefix :: "string \<Rightarrow> string \<Rightarrow> string" where
  "TrimPrefix s p = (if HasPrefix s p then drop (length p) s else s)"

definition TrimSuffix :: "string \<Rightarrow> string \<Rightarrow> string" where
  "TrimSuffix s p = (if HasSuffix s p then take (length s - length p) s else s)"

definition TrimSpace :: "string \<Rightarrow> string" where
  "TrimSpace s = rev (dropWhile is_space (rev (dropWhile is_space s)))"

lemma space_lower: "is_space (lower_char ch) \<longleftrightarrow> is_space ch"
proof -
  have "is_space x \<longleftrightarrow> byte x = 32 \<or> (9 \<le> byte x \<and> byte x \<le> 13)" for x
    using byte_inject [of x "CHR '' ''"] by (auto simp: is_space_def byte_def)
  then show ?thesis by (auto simp: byte_lower_char is_upper_def)
qed

lemma TrimSpace_ToLower: "TrimSpace (ToLower s) = ToLower (TrimSpace s)"
  by (simp add: TrimSpace_def ToLower_def dropWhile_map rev_map space_lower comp_def)

lemma dropWhile_twice: "dropWhile P (dropWhile P xs) = dropWhile P xs"
  by (induction xs) auto

lemma TrimSpace_TrimSpace: "TrimSpace (TrimSpace s) = TrimSpace s"
proof -
  let ?d = "dropWhile is_space s"
  have "dropWhile is_space (rev (dropWhile is_space (rev ?d))) = rev (dropWhile is_space (rev ?d))"
  proof (cases ?d)
    case (Cons c cs)
    have c: "\<not> is_space c" using hd_dropWhile [of is_space s] Cons by simp
    have "dropWhile is_space (rev cs @ [c]) = dropWhile is_space (rev cs) @ [c]"
      using c by (auto simp: dropWhile_append)
    with c Cons show ?thesis by auto
  next
    case Nil
    show ?thesis by (simp only: Nil rev.simps dropWhile.simps)
  qed
  then show ?thesis by (simp add: TrimSpace_def dropWhile_twice)
qed

text \<open>\<open>IndexByte\<close> and \<open>Index\<close> return an option where Go returns \<open>-1\<close>.\<close>

fun IndexByte :: "string \<Rightarrow> char \<Rightarrow> nat option" where
  "IndexByte [] c = None"
| "IndexByte (x # xs) c = (if x = c then Some 0 else map_option Suc (IndexByte xs c))"

fun Index :: "string \<Rightarrow> string \<Rightarrow> nat option" where
  "Index [] p = (if p = [] then Some 0 else None)"
| "Index (x # xs) p =
     (if HasPrefix (x # xs) p then Some 0 else map_option Suc (Index xs p))"

definition Contains :: "string \<Rightarrow> string \<Rightarrow> bool" where
  "Contains s p \<longleftrightarrow> Index s p \<noteq> None"

text \<open>\<open>strings.Split\<close> on a one-byte separator; the result always has a first part.\<close>

fun SplitByte :: "string \<Rightarrow> char \<Rightarrow> string list" where
  "SplitByte [] c = [[]]"
| "SplitByte (x # xs) c =
     (if x = c then [] # SplitByte xs c
      else (case SplitByte xs c of [] \<Rightarrow> [[x]] | p # ps \<Rightarrow> (x # p) # ps))"

fun Join :: "string list \<Rightarrow> string \<Rightarrow> string" where
  "Join [] sep = []"
| "Join [x] sep = x"
| "Join (x # y # ys) sep = x @ sep @ Join (y # ys) sep"

definition ReplaceByte :: "string \<Rightarrow> char \<Rightarrow> char \<Rightarrow> string" where
  "ReplaceByte s a b = map (\<lambda>c. if c = a then b else c) s"

text \<open>\<open>strings.FieldsFunc\<close>: the maximal runs of characters that are not separators.\<close>

fun fields_loop :: "(char \<Rightarrow> bool) \<Rightarrow> string \<Rightarrow> string \<Rightarrow> string list" where
  "fields_loop sep cur [] = (if cur = [] then [] else [rev cur])"
| "fields_loop sep cur (x # xs) =
     (if sep x then (if cur = [] then fields_loop sep [] xs else rev cur # fields_loop sep [] xs)
      else fields_loop sep (x # cur) xs)"

definition FieldsFunc :: "string \<Rightarrow> (char \<Rightarrow> bool) \<Rightarrow> string list" where
  "FieldsFunc s sep = fields_loop sep [] s"

text \<open>A Go slice expression \<open>s[a:b]\<close> with \<open>a \<le> b \<le> len(s)\<close>.\<close>

definition substr :: "'a list \<Rightarrow> nat \<Rightarrow> nat \<Rightarrow> 'a list" where
  "substr s a b = take (b - a) (drop a s)"

lemma length_ToLower [simp]: "length (ToLower s) = length s"
  and length_ToUpper [simp]: "length (ToUpper s) = length s"
  by (simp_all add: ToLower_def ToUpper_def)

lemma ToLower_ToLower [simp]: "ToLower (ToLower s) = ToLower s"
  and ToLower_ToUpper [simp]: "ToLower (ToUpper s) = ToLower s"
  and ToUpper_ToLower [simp]: "ToUpper (ToLower s) = ToUpper s"
  and ToUpper_ToUpper [simp]: "ToUpper (ToUpper s) = ToUpper s"
  by (simp_all add: ToLower_def ToUpper_def)

lemma EqualFold_refl [simp]: "EqualFold s s"
  by (simp add: EqualFold_def)

lemma EqualFold_sym: "EqualFold a b \<longleftrightarrow> EqualFold b a"
  by (auto simp: EqualFold_def)

lemma EqualFold_trans [trans]: "EqualFold a b \<Longrightarrow> EqualFold b c \<Longrightarrow> EqualFold a c"
  by (simp add: EqualFold_def)

lemma HasPrefix_iff_prefix: "HasPrefix s p \<longleftrightarrow> prefix p s"
  by (auto simp: HasPrefix_def prefix_def) (metis append_take_drop_id)

lemma HasSuffix_iff_suffix: "HasSuffix s p \<longleftrightarrow> suffix p s"
  by (auto simp: HasSuffix_def suffix_def) (metis append_take_drop_id)

lemma HasPrefix_self [simp]: "HasPrefix s s"
  and HasPrefix_Nil [simp]: "HasPrefix s []"
  and HasPrefix_append [simp]: "HasPrefix (p @ s) p"
  by (simp_all add: HasPrefix_def)

lemma HasPrefix_Cons [simp]: "HasPrefix (x # xs) (y # ys) \<longleftrightarrow> x = y \<and> HasPrefix xs ys"
  by (auto simp: HasPrefix_def)

lemma HasPrefix_Nil_Cons [simp]: "\<not> HasPrefix [] (y # ys)"
  by (simp add: HasPrefix_def)

lemma IndexByte_Some_iff:
  "IndexByte s c = Some i \<longleftrightarrow> i < length s \<and> s ! i = c \<and> (\<forall>j<i. s ! j \<noteq> c)"
proof (induction s arbitrary: i)
  case Nil
  then show ?case by simp
next
  case (Cons x xs)
  show ?case
  proof (cases i)
    case 0
    then show ?thesis by auto
  next
    case (Suc k)
    then show ?thesis
      using Cons.IH [of k] by (auto simp: nth_Cons split: nat.splits)
  qed
qed

lemma IndexByte_None_iff: "IndexByte s c = None \<longleftrightarrow> c \<notin> set s"
  by (induction s) auto

lemma SplitByte_not_Nil [simp]: "SplitByte s c \<noteq> []"
  by (induction s) (auto split: list.splits)

lemma SplitByte_noocc: "c \<notin> set s \<Longrightarrow> SplitByte s c = [s]"
  by (induction s) auto

lemma SplitByte_append: "SplitByte (a @ c # b) c = SplitByte a c @ SplitByte b c"
  by (induction a) (auto split: list.splits)

lemma SplitByte_append_sep:
  "c \<notin> set a \<Longrightarrow> SplitByte (a @ c # b) c = a # SplitByte b c"
  by (induction a) auto

lemma in_SplitByte: "p \<in> set (SplitByte s c) \<Longrightarrow> c \<notin> set p"
proof (induction s arbitrary: p)
  case Nil
  then show ?case by simp
next
  case (Cons x xs)
  then show ?case by (auto split: if_splits list.splits)
qed

lemma Join_SplitByte: "Join (SplitByte s c) [c] = s"
proof (induction s)
  case Nil
  then show ?case by simp
next
  case (Cons x xs)
  obtain p ps where ps: "SplitByte xs c = p # ps"
    by (cases "SplitByte xs c") auto
  show ?case
    using Cons.IH by (cases ps) (auto simp: ps)
qed

lemma SplitByte_Join:
  "ps \<noteq> [] \<Longrightarrow> (\<forall>p\<in>set ps. c \<notin> set p) \<Longrightarrow> SplitByte (Join ps [c]) c = ps"
proof (induction ps "[c]" rule: Join.induct)
  case (3 x y ys)
  then show ?case by (simp add: SplitByte_append_sep)
qed (auto simp: SplitByte_noocc)

lemma length_substr: "length (substr s a b) = min (b - a) (length s - a)"
  by (simp add: substr_def min.commute)

lemma substr_full [simp]: "substr s 0 (length s) = s"
  by (simp add: substr_def)

section \<open>Package strconv\<close>

text \<open>
  \<open>strconv.Atoi\<close>: an optional sign, then one or more decimal digits, within the range of
  a 64-bit \<open>int\<close>. \<open>None\<close> is the error return.
\<close>

fun digits_val :: "int \<Rightarrow> string \<Rightarrow> int" where
  "digits_val acc [] = acc"
| "digits_val acc (c # cs) = digits_val (10 * acc + (byte c - 48)) cs"

definition all_digits :: "string \<Rightarrow> bool" where
  "all_digits s \<longleftrightarrow> s \<noteq> [] \<and> list_all is_digit s"

definition Atoi :: "string \<Rightarrow> int option" where
  "Atoi s =
     (let (neg, ds) = (case s of [] \<Rightarrow> (False, [])
        | c # cs \<Rightarrow> if c = CHR ''-'' then (True, cs)
                   else if c = CHR ''+'' then (False, cs) else (False, s))
      in if \<not> all_digits ds then None
         else let n = digits_val 0 ds; v = (if neg then - n else n)
              in if - (2 ^ 63) \<le> v \<and> v < 2 ^ 63 then Some v else None)"

text \<open>Decimal printing of integers (\<open>%d\<close>, \<open>%v\<close>).\<close>

function int_digits :: "int \<Rightarrow> string" where
  "int_digits n = (if n < 10 then [char_of (48 + n)] else int_digits (n div 10) @ [char_of (48 + n mod 10)])"
  by pat_completeness auto
termination
  by (relation "measure nat") auto

declare int_digits.simps [simp del]

definition show_int :: "int \<Rightarrow> string" where
  "show_int i = (if i < 0 then CHR ''-'' # int_digits (- i) else int_digits i)"

section \<open>Package path (and path/filepath on a POSIX system)\<close>

text \<open>
  \<open>path.Clean\<close>, by components: \<open>acc\<close> is the stack of components kept so far, last
  one first.
\<close>

fun clean_comps :: "bool \<Rightarrow> string list \<Rightarrow> string list \<Rightarrow> string list" where
  "clean_comps rooted acc [] = rev acc"
| "clean_comps rooted acc (c # cs) =
     (if c = [] \<or> c = ''.'' then clean_comps rooted acc cs
      else if c = ''..'' then
        (case acc of
           [] \<Rightarrow> clean_comps rooted (if rooted then [] else [''..'']) cs
         | t # ts \<Rightarrow> clean_comps rooted (if t = ''..'' then ''..'' # acc else ts) cs)
      else clean_comps rooted (c # acc) cs)"

definition path_Clean :: "string \<Rightarrow> string" where
  "path_Clean p =
     (if p = [] then ''.''
      else let rooted = HasPrefix p ''/'';
               body = Join (clean_comps rooted [] (SplitByte p (CHR ''/''))) ''/''
           in if rooted then CHR ''/'' # body
              else if body = [] then ''.'' else body)"

text \<open>\<open>filepath.IsAbs\<close>, \<open>filepath.Join\<close>, \<open>filepath.Base\<close>, \<open>filepath.Dir\<close>.\<close>

definition filepath_IsAbs :: "string \<Rightarrow> bool" where
  "filepath_IsAbs p \<longleftrightarrow> HasPrefix p ''/''"

definition filepath_Join :: "string \<Rightarrow> string \<Rightarrow> string" where
  "filepath_Join a b =
     (if a = [] then (if b = [] then [] else path_Clean b)
      else if b = [] then path_Clean a else path_Clean (a @ ''/'' @ b))"

definition filepath_Base :: "string \<Rightarrow> string" where
  "filepath_Base p =
     (if p = [] then ''.''
      else let q = rev (dropWhile (\<lambda>c. c = CHR ''/'') (rev p))
           in if q = [] then ''/'' else last (SplitByte q (CHR ''/'')))"

definition filepath_Dir :: "string \<Rightarrow> string" where
  "filepath_Dir p = path_Clean (rev (dropWhile (\<lambda>c. c \<noteq> CHR ''/'') (rev p)))"

section \<open>Go maps\<close>

text \<open>
  A Go map with string keys as an association list without duplicate keys; the order of the
  list stands for the iteration order, which no modelled code relies on.
\<close>

type_synonym 'v gomap = "(string \<times> 'v) list"

definition mput :: "string \<Rightarrow> 'v \<Rightarrow> 'v gomap \<Rightarrow> 'v gomap" where
  "mput k v m = AList.update k v m"

abbreviation mget :: "'v gomap \<Rightarrow> string \<Rightarrow> 'v option" where
  "mget m k \<equiv> map_of m k"

lemma mget_mput [simp]: "mget (mput k v m) k' = (if k' = k then Some v else mget m k')"
  by (simp add: mput_def update_conv')

lemma distinct_mput: "distinct (map fst m) \<Longrightarrow> distinct (map fst (mput k v m))"
  by (simp add: mput_def distinct_update)

text \<open>First \<open>Some\<close> of a list of attempts: a Go loop that returns from its body.\<close>

fun first_some :: "('a \<Rightarrow> 'b option) \<Rightarrow> 'a list \<Rightarrow> 'b option" where
  "first_some f [] = None"
| "first_some f (x # xs) = (case f x of Some y \<Rightarrow> Some y | None \<Rightarrow> first_some f xs)"

lemma first_some_None_iff: "first_some f xs = None \<longleftrightarrow> (\<forall>x\<in>set xs. f x = None)"
  by (induction xs) (auto split: option.splits)

lemma first_some_SomeD: "first_some f xs = Some y \<Longrightarrow> \<exists>x\<in>set xs. f x = Some y"
  by (induction xs) (auto split: option.splits)

lemma first_some_ex: "x \<in> set xs \<Longrightarrow> f x \<noteq> None \<Longrightarrow> first_some f xs \<noteq> None"
  by (auto simp: first_some_None_iff)

end
