(* ===== verification/Values.thy ===== *)
theory Values
  imports Prelude "HOL-Library.Word" "HOL-Library.Multiset"
begin

unbundle bit_operations_syntax

text \<open>
  The dynamic values of the program: IEEE-754 doubles as their 64-bit patterns, JSON documents,
  Go \<open>interface{}\<close> values, and the run-time services of the host that the engine calls (the
  regular expression compiler, the float parser and printer, the file system, the URL parser).
  The services are parameters: every theorem holds whatever they answer.
\<close>

section \<open>float64\<close>

text \<open>
  A \<open>float64\<close> is its bit pattern. Comparison needs no rounding: two numbers that are not NaN
  compare like the signed magnitudes of their patterns, where both zeros have magnitude 0.
\<close>

type_synonym f64 = "64 word"

definition f64_mag :: "f64 \<Rightarrow> int" where
  "f64_mag b = uint b mod 2 ^ 63"

definition f64_IsNaN :: "f64 \<Rightarrow> bool" where
  "f64_IsNaN b \<longleftrightarrow> 0x7FF0000000000000 < f64_mag b"

definition f64_IsInf :: "f64 \<Rightarrow> bool" where
  "f64_IsInf b \<longleftrightarrow> f64_mag b = 0x7FF0000000000000"

definition f64_key :: "f64 \<Rightarrow> int" where
  "f64_key b = (if 2 ^ 63 \<le> uint b then - f64_mag b else f64_mag b)"

definition f64_lt :: "f64 \<Rightarrow> f64 \<Rightarrow> bool" where
  "f64_lt a b \<longleftrightarrow> \<not> f64_IsNaN a \<and> \<not> f64_IsNaN b \<and> f64_key a < f64_key b"

definition f64_eq :: "f64 \<Rightarrow> f64 \<Rightarrow> bool" where
  "f64_eq a b \<longleftrightarrow> \<not> f64_IsNaN a \<and> \<not> f64_IsNaN b \<and> f64_key a = f64_key b"

text \<open>The constant \<open>1e18\<close>.\<close>

definition f64_1e18 :: f64 where
  "f64_1e18 = 0x43ABC16D674EC800"

text \<open>
  Conversion \<open>float64(n)\<close> of an integer: the 53 leading bits of the magnitude, rounded to
  nearest, ties to even; a carry out of the mantissa increments the exponent field, as the
  addition of the two fields does.
\<close>

function bitlen :: "int \<Rightarrow> nat" where
  "bitlen n = (if n \<le> 0 then 0 else Suc (bitlen (n div 2)))"
  by pat_completeness auto
termination
  by (relation "measure nat") auto

declare bitlen.simps [simp del]

definition f64_of_pos :: "int \<Rightarrow> int" where
  "f64_of_pos n =
     (if n = 0 then 0
      else let l = bitlen n;
               m = (if l \<le> 53 then n * 2 ^ (53 - l)
                    else let d = 2 ^ (l - 53); q = n div d; r = n mod d
                         in if 2 * r < d \<or> (2 * r = d \<and> even q) then q else q + 1)
           in (int l + 1021) * 2 ^ 52 + m)"

definition f64_of_int :: "int \<Rightarrow> f64" where
  "f64_of_int i =
     (if i < 0 then word_of_int (2 ^ 63 + f64_of_pos (- i)) else word_of_int (f64_of_pos i))"

lemma f64_lt_irrefl [simp]: "\<not> f64_lt a a"
  by (simp add: f64_lt_def)

lemma f64_lt_trans: "f64_lt a b \<Longrightarrow> f64_lt b c \<Longrightarrow> f64_lt a c"
  by (simp add: f64_lt_def)

lemma f64_trichotomy:
  "\<not> f64_IsNaN a \<Longrightarrow> \<not> f64_IsNaN b \<Longrightarrow> f64_lt a b \<or> f64_eq a b \<or> f64_lt b a"
  by (auto simp: f64_lt_def f64_eq_def)

lemma f64_lt_not_eq: "f64_lt a b \<Longrightarrow> \<not> f64_eq a b \<and> \<not> f64_lt b a"
  by (auto simp: f64_lt_def f64_eq_def)

section \<open>JSON documents\<close>

text \<open>
  A JSON document as the decoder's scanner reads it: a number is its source text, an object
  keeps the members in order (the decoder lets the last duplicate win).
\<close>

datatype json =
    JNull
  | JBool bool
  | JNum string
  | JStr string
  | JArr "json list"
  | JObj "(string \<times> json) list"

text \<open>
  A \<open>json.RawMessage\<close>: nil, empty but not nil, one document, one document with trailing data
  (\<open>json.Unmarshal\<close> rejects it, \<open>Decoder.Decode\<close> reads the first value), or bytes that
  do not start with a document.
\<close>

datatype raw =
    RawNil
  | RawEmpty
  | RawJson json
  | RawTrailing json
  | RawBad

section \<open>Dynamic values\<close>

text \<open>
  The dynamic types that the engine's type switches tell apart. Integers of every Go width
  that the code converts with \<open>float64(n)\<close> are \<open>VInt\<close>.
\<close>

datatype val =
    VNil
  | VBool bool
  | VStr string
  | VInt int
  | VFloat f64
  | VNum string
  | VList "val list"
  | VStrs "string list"
  | VBytes string
  | VMap "(string \<times> val) list"

section \<open>Services of the host\<close>

text \<open>A parsed URL, as far as the engine reads it (\<open>u.Scheme\<close>, \<open>u.Host\<close>,
  \<open>u.Hostname()\<close>, \<open>u.Port()\<close>).\<close>

record url =
  url_Scheme :: string
  url_Host :: string
  url_Hostname :: string
  url_Port :: string

text \<open>
  \<^item> \<open>rt_regex p\<close>: \<open>regexp.Compile\<close> with the compiled pattern's \<open>MatchString\<close>;
  \<^item> \<open>rt_parse_float\<close>: \<open>strconv.ParseFloat(s, 64)\<close>, \<open>None\<close> for a syntax or range error;
  \<^item> \<open>rt_show_float\<close>: \<open>fmt.Sprintf("%v", f)\<close>;
  \<^item> \<open>rt_json\<close>: the JSON document at a byte string, \<open>None\<close> if it is not one document;
  \<^item> \<open>rt_symlinks\<close>: \<open>filepath.EvalSymlinks\<close>; \<open>rt_cwd\<close>: \<open>os.Getwd\<close>;
  \<^item> \<open>rt_url\<close>: \<open>url.Parse\<close>.
\<close>

record runtime =
  rt_regex :: "string \<Rightarrow> (string \<Rightarrow> bool) option"
  rt_parse_float :: "string \<Rightarrow> f64 option"
  rt_show_float :: "f64 \<Rightarrow> string"
  rt_json :: "string \<Rightarrow> json option"
  rt_symlinks :: "string \<Rightarrow> string option"
  rt_cwd :: "string option"
  rt_url :: "string \<Rightarrow> url option"

section \<open>Decoding JSON into dynamic values\<close>

text \<open>
  \<open>json.Unmarshal\<close> into \<open>interface{}\<close>: every number becomes a \<open>float64\<close>, and a
  number outside its range is an error of the whole call.
\<close>

fun json_to_val :: "runtime \<Rightarrow> json \<Rightarrow> val option"
  and json_to_vals :: "runtime \<Rightarrow> json list \<Rightarrow> val list option"
  and json_to_map :: "runtime \<Rightarrow> (string \<times> json) list \<Rightarrow> (string \<times> val) list \<Rightarrow> (string \<times> val) list option" where
  "json_to_val rt JNull = Some VNil"
| "json_to_val rt (JBool b) = Some (VBool b)"
| "json_to_val rt (JNum s) = map_option VFloat (rt_parse_float rt s)"
| "json_to_val rt (JStr s) = Some (VStr s)"
| "json_to_val rt (JArr js) = map_option VList (json_to_vals rt js)"
| "json_to_val rt (JObj ms) = map_option VMap (json_to_map rt ms [])"
| "json_to_vals rt [] = Some []"
| "json_to_vals rt (j # js) =
     (case json_to_val rt j of None \<Rightarrow> None
      | Some v \<Rightarrow> map_option (Cons v) (json_to_vals rt js))"
| "json_to_map rt [] acc = Some acc"
| "json_to_map rt ((k, j) # ms) acc =
     (case json_to_val rt j of None \<Rightarrow> None
      | Some v \<Rightarrow> json_to_map rt ms (mput k v acc))"

text \<open>The same with \<open>UseNumber\<close>: numbers keep their text and nothing fails.\<close>

fun json_use_number :: "json \<Rightarrow> val"
  and json_use_number_map :: "(string \<times> json) list \<Rightarrow> (string \<times> val) list \<Rightarrow> (string \<times> val) list" where
  "json_use_number JNull = VNil"
| "json_use_number (JBool b) = VBool b"
| "json_use_number (JNum s) = VNum s"
| "json_use_number (JStr s) = VStr s"
| "json_use_number (JArr js) = VList (map json_use_number js)"
| "json_use_number (JObj ms) = VMap (json_use_number_map ms [])"
| "json_use_number_map [] acc = acc"
| "json_use_number_map ((k, j) # ms) acc = json_use_number_map ms (mput k (json_use_number j) acc)"

text \<open>
  \<open>json.Unmarshal(raw, &m)\<close> into \<open>map[string]interface{}\<close>: \<open>null\<close> leaves the map
  nil, any other non-object is an error.
\<close>

definition unmarshal_map :: "runtime \<Rightarrow> raw \<Rightarrow> (string \<times> val) list option option" where
  "unmarshal_map rt r =
     (case r of
        RawJson JNull \<Rightarrow> Some None
      | RawJson (JObj ms) \<Rightarrow> map_option Some (json_to_map rt ms [])
      | _ \<Rightarrow> None)"

section \<open>Printing with \%v\<close>

fun str_le :: "string \<Rightarrow> string \<Rightarrow> bool" where
  "str_le [] ys = True"
| "str_le (x # xs) [] = False"
| "str_le (x # xs) (y # ys) = (byte x < byte y \<or> (x = y \<and> str_le xs ys))"

fun insert_by :: "('a \<Rightarrow> 'a \<Rightarrow> bool) \<Rightarrow> 'a \<Rightarrow> 'a list \<Rightarrow> 'a list" where
  "insert_by le x [] = [x]"
| "insert_by le x (y # ys) = (if le x y then x # y # ys else y # insert_by le x ys)"

definition sort_by :: "('a \<Rightarrow> 'a \<Rightarrow> bool) \<Rightarrow> 'a list \<Rightarrow> 'a list" where
  "sort_by le xs = foldr (insert_by le) xs []"

fun Sprint_v :: "runtime \<Rightarrow> val \<Rightarrow> string" where
  "Sprint_v rt VNil = ''<nil>''"
| "Sprint_v rt (VBool b) = (if b then ''true'' else ''false'')"
| "Sprint_v rt (VStr s) = s"
| "Sprint_v rt (VInt i) = show_int i"
| "Sprint_v rt (VFloat f) = rt_show_float rt f"
| "Sprint_v rt (VNum s) = s"
| "Sprint_v rt (VList vs) = ''['' @ Join (map (Sprint_v rt) vs) '' '' @ '']''"
| "Sprint_v rt (VStrs ss) = ''['' @ Join ss '' '' @ '']''"
| "Sprint_v rt (VBytes s) = ''['' @ Join (map (\<lambda>c. show_int (byte c)) s) '' '' @ '']''"
| "Sprint_v rt (VMap ms) =
     ''map['' @ Join (map snd (sort_by (\<lambda>a b. str_le (fst a) (fst b))
        (map (\<lambda>(k, v). (k, k @ '':'' @ Sprint_v rt v)) ms))) '' '' @ '']''"

lemma mset_insert_by: "mset (insert_by le x ys) = add_mset x (mset ys)"
  by (induction ys) auto

lemma mset_sort_by: "mset (sort_by le xs) = mset xs"
  unfolding sort_by_def by (induction xs) (auto simp: mset_insert_by)

end
