(* ===== verification/Domain.thy ===== *)
theory Domain
  imports Values
begin

text \<open>
  Package \<open>pkg/domain\<close>: policies, envelopes, decisions and evaluation results, as records
  with the source's fields (prefixed by their struct), enumerations as datatypes with one extra
  constructor for the strings the constants do not name, and \<open>ActionEnvelope.Amount\<close>.
  A time is the number of nanoseconds since Go's zero time, so that \<open>IsZero\<close> is
  \<open>t = 0\<close>; a pointer that may be nil is an option.
\<close>

type_synonym time = int

section \<open>Policies (policy.go)\<close>

datatype PolicyStatus =
    PolicyStatusDraft | PolicyStatusReview | PolicyStatusApproved | PolicyStatusArchived
  | PolicyStatusOther string

datatype PolicyMode = PolicyModeShadow | PolicyModeEnforcement | PolicyModeOther string

datatype Effect = EffectAllow | EffectFlag | EffectEscalate | EffectDeny | EffectOther string

fun EffectSeverity :: "Effect \<Rightarrow> nat" where
  "EffectSeverity EffectDeny = 4"
| "EffectSeverity EffectEscalate = 3"
| "EffectSeverity EffectFlag = 2"
| "EffectSeverity EffectAllow = 1"
| "EffectSeverity (EffectOther _) = 0"

fun effect_string :: "Effect \<Rightarrow> string" where
  "effect_string EffectAllow = ''allow''"
| "effect_string EffectFlag = ''flag''"
| "effect_string EffectEscalate = ''escalate''"
| "effect_string EffectDeny = ''deny''"
| "effect_string (EffectOther s) = s"

text \<open>\<open>OpNone\<close> is the empty operator string, \<open>OpOther\<close> an operator outside the
  known set.\<close>

datatype Operator =
    OpEq | OpNeq | OpGt | OpGte | OpLt | OpLte | OpIn | OpContains | OpRegex
  | OpGtField | OpLtField
  | OpNotIn | OpNotContains | OpStartsWith | OpEndsWith | OpExists
  | OpNone | OpOther string

record PolicyScope =
  sc_OrgIDs :: "string list"
  sc_AgentIDs :: "string list"
  sc_ToolNames :: "string list"
  sc_ToolGroups :: "string list"
  sc_IntentionallyGlobal :: bool

record SourceDocument =
  sd_DocumentID :: string
  sd_Title :: string
  sd_Version :: string
  sd_Path :: string
  sd_ContentHash :: string
  sd_UploadedAt :: "time option"

record SQLRequire =
  sr_TopLevelKinds :: "string list"
  sr_DeniedTopLevelKinds :: "string list"
  sr_NoDynamicSQL :: bool
  sr_NoProgramExec :: bool
  sr_AllowedFunctions :: "string list"
  sr_NoFunctions :: bool
  sr_DeniedFunctionClasses :: "string list"
  sr_AllowedFunctionClasses :: "string list"
  sr_DeniedTables :: "string list"
  sr_AllowedTables :: "string list"

record SQLClassify =
  sq_Field :: string
  sq_Dialect :: string
  sq_Require :: SQLRequire

record PathRequire =
  pr_CleanFirst :: bool
  pr_AbsoluteOnly :: bool
  pr_ResolveSymlinks :: bool
  pr_DenyOnResolveFailure :: bool
  pr_DeniedCanonicalPrefixes :: "string list"
  pr_AllowedCanonicalPrefixes :: "string list"
  pr_DenyShellMetas :: bool
  pr_IncludeBackslash :: bool
  pr_MaxPathLength :: int

record PathClassify =
  pc_Field :: string
  pc_Require :: PathRequire

record ShellRequire =
  sh_Argv0Allowlist :: "string list"
  sh_ArgvDenyPatterns :: "string list"
  sh_MaxArgc :: int
  sh_DeniedArgvPaths :: "string list"
  sh_ResolveSymlinks :: bool
  sh_ArgvEnvPatternDeny :: string

record ShellClassify =
  shc_Field :: string
  shc_Require :: ShellRequire

record WriteRequire =
  wr_AllowedPathPrefixes :: "string list"
  wr_DeniedPathPrefixes :: "string list"
  wr_ResolveSymlinks :: bool
  wr_MaxBytes :: int
  wr_DeniedContentRegex :: "string list"

record WriteClassify =
  wc_PathField :: string
  wc_ContentField :: string
  wc_Require :: WriteRequire

record HTTPRequire =
  hr_AllowedHosts :: "string list"
  hr_DeniedHosts :: "string list"
  hr_AllowedSchemes :: "string list"
  hr_AllowedMethods :: "string list"
  hr_DeniedMethods :: "string list"
  hr_AllowedPorts :: "int list"
  hr_DeniedPorts :: "int list"

record HTTPClassify =
  hc_URLField :: string
  hc_MethodField :: string
  hc_Require :: HTTPRequire

definition LLMBackendOllama :: string where
  "LLMBackendOllama = ''ollama''"

definition LLMBackendSystemOne :: string where
  "LLMBackendSystemOne = ''systemone''"

record LLMClassify =
  lc_PromptField :: string
  lc_ImageURLField :: string
  lc_Forbidden :: "string list"
  lc_Backend :: string
  lc_Model :: string
  lc_OllamaURL :: string
  lc_TimeoutSeconds :: int

text \<open>
  A condition node with all the fields the struct has; nothing forces a node to use only one
  of its forms (\<open>validateCondition\<close> checks that at load).
\<close>

datatype Condition =
  Condition
    (c_And: "Condition list")
    (c_Or: "Condition list")
    (c_Not: "Condition option")
    (c_Field: string)
    (c_Operator: Operator)
    (c_Value: val)
    (c_SQLClassify: "SQLClassify option")
    (c_PathClassify: "PathClassify option")
    (c_ShellClassify: "ShellClassify option")
    (c_LLMClassify: "LLMClassify option")
    (c_WriteClassify: "WriteClassify option")
    (c_HTTPClassify: "HTTPClassify option")

definition IsLeaf :: "Condition \<Rightarrow> bool" where
  "IsLeaf c \<longleftrightarrow>
     c_SQLClassify c \<noteq> None \<or> c_PathClassify c \<noteq> None \<or> c_ShellClassify c \<noteq> None \<or>
     c_LLMClassify c \<noteq> None \<or> c_WriteClassify c \<noteq> None \<or> c_HTTPClassify c \<noteq> None \<or>
     (c_Field c \<noteq> [] \<and> c_Operator c \<noteq> OpNone)"

record EffectConfig =
  ec_Severity :: string
  ec_EscalateTo :: string
  ec_TimeoutMinutes :: int
  ec_SuggestedResponse :: string

record Citation =
  ci_DocumentID :: string
  ci_DocumentTitle :: string
  ci_Section :: string
  ci_Page :: int
  ci_Line :: int
  ci_Excerpt :: string

record Rule =
  r_RuleID :: string
  r_Name :: string
  r_Description :: string
  r_RuleType :: string
  r_Enabled :: "bool option"
  r_Conditions :: Condition
  r_Effect :: Effect
  r_EffectConfig :: EffectConfig
  r_Citation :: Citation
  r_Priority :: int

definition IsEnabled :: "Rule \<Rightarrow> bool" where
  "IsEnabled r \<longleftrightarrow> (case r_Enabled r of None \<Rightarrow> True | Some b \<Rightarrow> b)"

record Policy =
  p_SchemaVersion :: int
  p_PolicyID :: string
  p_OrgID :: string
  p_Name :: string
  p_Description :: string
  p_Version :: int
  p_Priority :: int
  p_Status :: PolicyStatus
  p_Mode :: PolicyMode
  p_Scope :: PolicyScope
  p_SourceDocuments :: "SourceDocument list"
  p_Rules :: "Rule list"
  p_Compliance :: "(string \<times> string list) list"
  p_CreatedBy :: string
  p_ApprovedBy :: string
  p_CreatedAt :: time
  p_UpdatedAt :: time
  p_ApprovedAt :: "time option"

section \<open>Envelopes (envelope.go)\<close>

record EnvelopeIntegrity =
  ei_Hash :: string
  ei_SignedBy :: string

record AgentBudgetContext =
  ab_TotalLimit :: f64
  ab_UsedToday :: f64
  ab_Remaining :: f64
  ab_TransactionsToday :: int

record AgentVelocityContext =
  av_MonetaryCount1h :: int
  av_MonetarySum1h :: f64
  av_MonetaryCount24h :: int
  av_MonetarySum24h :: f64
  av_TokenCount1h :: int
  av_TokenCount24h :: int
  av_LLMCostUSD1h :: f64
  av_LLMCostUSD24h :: f64

record JustificationContext =
  jc_ReasonCode :: string
  jc_Verified :: bool
  jc_VerificationSource :: string
  jc_VerificationDetails :: string

record SessionStateContext =
  ss_CumulativeAmount :: f64
  ss_ActionsInSession :: int
  ss_EscalationsInSession :: int
  ss_DeniedInSession :: int
  ss_ToolSequence :: "string list"
  ss_AmountTrajectory :: "f64 list"

record VerifiedContext =
  vc_CustomerTier :: string
  vc_CustomerAccountAgeDays :: int
  vc_CustomerLifetimeValue :: f64
  vc_CustomerOrderCount :: int
  vc_OrderTotal :: f64
  vc_OrderAge :: int
  vc_OrderCurrency :: string
  vc_CustomerID :: string
  vc_OrderID :: string
  vc_OrderItemCount :: int
  vc_ProductCategory :: string
  vc_ProductCategoryAvgPrice :: f64
  vc_ReturnRequestReason :: string
  vc_ReturnRequestStatus :: string
  vc_EconomicValueImpact :: f64
  vc_Rolling24hTotal :: f64
  vc_Rolling24hCount :: int
  vc_Rolling7dTotal :: f64
  vc_Rolling7dCount :: int
  vc_AgentBudget :: "AgentBudgetContext option"
  vc_AgentVelocity :: "AgentVelocityContext option"
  vc_Justification :: "JustificationContext option"
  vc_ContentRisk :: string
  vc_ContentCategories :: "string list"
  vc_ContentClassifierTier :: string
  vc_CounterAgentRisk :: string
  vc_CounterAgentCategories :: "string list"
  vc_CounterAgentReasoning :: string

record EnvelopeContext =
  cx_Verified :: VerifiedContext
  cx_SessionState :: SessionStateContext
  cx_AgentSupplied :: raw

record ActionEnvelope =
  e_EnvelopeID :: string
  e_Timestamp :: time
  e_AgentID :: string
  e_SessionID :: string
  e_OrgID :: string
  e_AgentVersion :: string
  e_Framework :: string
  e_TurnNumber :: int
  e_Department :: string
  e_ToolName :: string
  e_ToolServer :: string
  e_ToolGroup :: string
  e_Parameters :: raw
  e_ParametersRedacted :: raw
  e_Context :: EnvelopeContext
  e_IntegrationType :: string
  e_ProxyVersion :: string
  e_TLSVerified :: bool
  e_Integrity :: "EnvelopeIntegrity option"

text \<open>
  \<open>Amount\<close>: each \<open>AmountError\<close> is a constructor in place of its message. The decoder
  keeps the numbers' text (\<open>UseNumber\<close>) and reads the first value only, so trailing data
  does not make it fail.
\<close>

datatype amount_error =
    AmtNotObject
  | AmtInvalidNumber string
  | AmtNotFinite string
  | AmtNegative f64
  | AmtNotNumberString string
  | AmtNotNumber val

definition amount_finite :: "string \<Rightarrow> f64 \<Rightarrow> amount_error + f64" where
  "amount_finite src f =
     (if f64_IsNaN f \<or> f64_IsInf f then Inl (AmtNotFinite src)
      else if f64_lt f 0 then Inl (AmtNegative f)
      else Inr f)"

definition is_blank_tab :: "char \<Rightarrow> bool" where
  "is_blank_tab c \<longleftrightarrow> c = CHR '' '' \<or> c = CHR 0x09"

definition amount_of_val :: "runtime \<Rightarrow> val \<Rightarrow> amount_error + f64" where
  "amount_of_val rt v =
     (case v of
        VNum s \<Rightarrow> (case rt_parse_float rt s of
            None \<Rightarrow> Inl (AmtInvalidNumber s)
          | Some f \<Rightarrow> amount_finite s f)
      | VFloat f \<Rightarrow> amount_finite (rt_show_float rt f) f
      | VStr a \<Rightarrow>
          (let trimmed = rev (dropWhile is_blank_tab (rev (dropWhile is_blank_tab a)))
           in if trimmed = [] then Inr 0
              else case rt_parse_float rt trimmed of
                  None \<Rightarrow> Inl (AmtNotNumberString a)
                | Some f \<Rightarrow> amount_finite a f)
      | _ \<Rightarrow> Inl (AmtNotNumber v))"

definition Amount :: "runtime \<Rightarrow> ActionEnvelope \<Rightarrow> amount_error + f64" where
  "Amount rt e =
     (case e_Parameters e of
        RawNil \<Rightarrow> Inr 0
      | RawEmpty \<Rightarrow> Inl AmtNotObject
      | RawBad \<Rightarrow> Inl AmtNotObject
      | RawJson JNull \<Rightarrow> Inr 0
      | RawTrailing JNull \<Rightarrow> Inr 0
      | RawJson (JObj ms) \<Rightarrow>
          (case mget (json_use_number_map ms []) ''amount'' of
             None \<Rightarrow> Inr 0 | Some v \<Rightarrow> amount_of_val rt v)
      | RawTrailing (JObj ms) \<Rightarrow>
          (case mget (json_use_number_map ms []) ''amount'' of
             None \<Rightarrow> Inr 0 | Some v \<Rightarrow> amount_of_val rt v)
      | RawJson _ \<Rightarrow> Inl AmtNotObject
      | RawTrailing _ \<Rightarrow> Inl AmtNotObject)"

section \<open>Decisions and results (trace.go)\<close>

datatype Decision = DecisionAllowed | DecisionDenied | DecisionEscalated | DecisionFlagged

fun decision_string :: "Decision \<Rightarrow> string" where
  "decision_string DecisionAllowed = ''allowed''"
| "decision_string DecisionDenied = ''denied''"
| "decision_string DecisionEscalated = ''escalated''"
| "decision_string DecisionFlagged = ''flagged''"

datatype ActionTaken =
    ActionAllowed | ActionDenied | ActionEscalated | ActionFlagged | ActionAllowedShadow

fun action_string :: "ActionTaken \<Rightarrow> string" where
  "action_string ActionAllowed = ''allowed''"
| "action_string ActionDenied = ''denied''"
| "action_string ActionEscalated = ''escalated''"
| "action_string ActionFlagged = ''flagged''"
| "action_string ActionAllowedShadow = ''allowed_shadow''"

text \<open>
  The diagnostic a classifier leaf reports: one constructor per message of the sources, with the
  values the message prints. \<open>NoDetail\<close> is the empty string.
\<close>

datatype detail =
    NoDetail
  | SqlFieldMissing string
  | SqlFieldNotString string
  | SqlClassifyError string string
  | SqlDeniedKind string
  | SqlMultiStmt nat
  | SqlKindNotIn string
  | SqlModifyingCTE
  | SqlDynamic
  | SqlProgramExec
  | SqlFunctionNotAllowed string
  | SqlFunctionsPresent "string list"
  | SqlDeniedTable string
  | SqlTableNotAllowed string
  | SqlNoRegistry
  | SqlFunctionDeniedClass string string
  | SqlFunctionNoAllowedClass string
  | LlmPromptMissing string
  | LlmPromptNotString string
  | LlmImageFetch
  | LlmError string
  | LlmNilResult
  | LlmCategory string f64 string
  | WriteNoPath
  | WriteDeniedPrefix string string
  | WriteNotAllowed string
  | WriteNoContent
  | WriteTooLarge nat int
  | WriteBadRegex string
  | WriteDeniedContent string
  | HttpUrlMissing string
  | HttpUrlEmpty
  | HttpUnparseable string
  | HttpNoScheme string
  | HttpHostDenied string string
  | HttpMethodDenied string
  | HttpPortDenied int
  | HttpHostNotAllowed string
  | HttpSchemeNotAllowed string
  | HttpMethodUnknown
  | HttpMethodNotAllowed string
  | HttpPortUnknown
  | HttpPortNotAllowed int

record RuleResult =
  rr_RuleID :: string
  rr_RuleName :: string
  rr_PolicyID :: string
  rr_PolicyVersion :: int
  rr_Matched :: bool
  rr_Effect :: Effect
  rr_Severity :: string
  rr_Citation :: Citation
  rr_Details :: detail

record EvaluationResult =
  ev_Decision :: Decision
  ev_ActionTaken :: ActionTaken
  ev_DecisionReason :: string
  ev_EffectiveMode :: PolicyMode
  ev_PoliciesMatched :: nat
  ev_RulesEvaluated :: nat
  ev_RulesTriggered :: nat
  ev_RuleResults :: "RuleResult list"
  ev_AppliedRuleResults :: "RuleResult list"
  ev_PrimaryCitation :: "Citation option"
  ev_AppliedPrimaryCitation :: "Citation option"
  ev_IsNearMiss :: bool
  ev_SuggestedResponse :: string

lemma amount_finite_Inr:
  "amount_finite s f = Inr a \<Longrightarrow> a = f \<and> \<not> f64_IsNaN a \<and> \<not> f64_IsInf a \<and> \<not> f64_lt a 0"
  by (auto simp: amount_finite_def split: if_splits)

lemma zero_finite [simp]: "\<not> f64_IsNaN 0" "\<not> f64_IsInf 0"
  by (simp_all add: f64_IsNaN_def f64_IsInf_def f64_mag_def)

lemma amount_of_val_Inr:
  "amount_of_val rt v = Inr a \<Longrightarrow> \<not> f64_IsNaN a \<and> \<not> f64_IsInf a \<and> \<not> f64_lt a 0"
  by (cases v) (auto simp: amount_of_val_def Let_def dest: amount_finite_Inr split: option.splits if_splits)

end
