(* ===== verification/Sql_Guard.thy ===== *)
theory Sql_Guard
  imports Domain
begin

text \<open>
  Package \<open>pkg/sqlguard\<close>: the dialect-neutral classification of a SQL text, the dialect
  table, and the registry of function classes (classification.go, parser.go, registry.go). The
  process-global variables (\<open>classifiers\<close>, \<open>regFn\<close>) are arguments of the functions
  that read them.
\<close>

section \<open>Classifications\<close>

datatype Kind =
    KindUnknown | KindSelect | KindInsert | KindUpdate | KindDelete | KindCreate | KindDrop
  | KindTruncate | KindAlter | KindGrant | KindRevoke | KindDo | KindCall | KindExecute
  | KindPrepare | KindCopy | KindLoad | KindSet | KindDiscard | KindTransaction | KindOther

fun kind_string :: "Kind \<Rightarrow> string" where
  "kind_string KindUnknown = []"
| "kind_string KindSelect = ''SELECT''"
| "kind_string KindInsert = ''INSERT''"
| "kind_string KindUpdate = ''UPDATE''"
| "kind_string KindDelete = ''DELETE''"
| "kind_string KindCreate = ''CREATE''"
| "kind_string KindDrop = ''DROP''"
| "kind_string KindTruncate = ''TRUNCATE''"
| "kind_string KindAlter = ''ALTER''"
| "kind_string KindGrant = ''GRANT''"
| "kind_string KindRevoke = ''REVOKE''"
| "kind_string KindDo = ''DO''"
| "kind_string KindCall = ''CALL''"
| "kind_string KindExecute = ''EXECUTE''"
| "kind_string KindPrepare = ''PREPARE''"
| "kind_string KindCopy = ''COPY''"
| "kind_string KindLoad = ''LOAD''"
| "kind_string KindSet = ''SET''"
| "kind_string KindDiscard = ''DISCARD''"
| "kind_string KindTransaction = ''TRANSACTION''"
| "kind_string KindOther = ''OTHER''"

record Classification =
  cl_Dialect :: string
  cl_StmtCount :: nat
  cl_TopLevelKinds :: "Kind list"
  cl_Functions :: "string list"
  cl_FunctionsQualified :: "string list"
  cl_UsesProgram :: bool
  cl_UsesDynamicSQL :: bool
  cl_ReadOnly :: bool
  cl_MutatesViaCTE :: bool
  cl_Tables :: "string list"

text \<open>The lookups return the offending name, \<open>None\<close> for Go's \<open>("", false)\<close>.\<close>

definition HasDeniedTable :: "Classification \<Rightarrow> string list \<Rightarrow> string option" where
  "HasDeniedTable c denied =
     (if denied = [] then None
      else List.find (\<lambda>t. list_ex (\<lambda>d. HasPrefix (ToLower t) (ToLower d)) denied) (cl_Tables c))"

definition HasTableOutsideAllowed :: "Classification \<Rightarrow> string list \<Rightarrow> string option" where
  "HasTableOutsideAllowed c allowed =
     (if allowed = [] then None
      else List.find (\<lambda>t. ToLower t \<notin> set (map ToLower allowed)) (cl_Tables c))"

definition IsPureSelect :: "Classification \<Rightarrow> bool" where
  "IsPureSelect c \<longleftrightarrow>
     cl_StmtCount c = 1 \<and> length (cl_TopLevelKinds c) = 1 \<and> hd (cl_TopLevelKinds c) = KindSelect"

definition HasDisallowedFunction :: "Classification \<Rightarrow> string list \<Rightarrow> string option" where
  "HasDisallowedFunction c allow =
     (if allow = [] then None else List.find (\<lambda>fn. fn \<notin> set allow) (cl_Functions c))"

section \<open>The dialect table\<close>

text \<open>A parser's error, or the lookup's \<open>ErrUnsupportedDialect\<close> with the dialects linked.\<close>

datatype sql_error =
    ErrUnsupportedDialect string "string list"
  | ParseError string string

type_synonym classifier = "string \<Rightarrow> sql_error + Classification"

definition Register :: "string \<Rightarrow> classifier \<Rightarrow> classifier gomap \<Rightarrow> classifier gomap" where
  "Register d c reg = mput d c reg"

definition Dialects :: "classifier gomap \<Rightarrow> string list" where
  "Dialects reg = sort_by str_le (map fst reg)"

definition Classify :: "classifier gomap \<Rightarrow> string \<Rightarrow> string \<Rightarrow> sql_error + Classification" where
  "Classify reg dialect sql =
     (case mget reg dialect of
        None \<Rightarrow> Inl (ErrUnsupportedDialect dialect (Dialects reg))
      | Some c \<Rightarrow> c sql)"

section \<open>The function registry\<close>

record Registry =
  reg_FunctionClass :: "string list gomap"
  reg_functionClasses :: "string list gomap"

definition ClassesOf :: "Registry option \<Rightarrow> string \<Rightarrow> string list" where
  "ClassesOf r fn =
     (case r of None \<Rightarrow> []
      | Some g \<Rightarrow> (case mget (reg_functionClasses g) (ToLower fn) of None \<Rightarrow> [] | Some cs \<Rightarrow> cs))"

definition FunctionInClass :: "Registry option \<Rightarrow> string \<Rightarrow> string \<Rightarrow> bool" where
  "FunctionInClass r fn cname =
     (case r of None \<Rightarrow> False
      | Some g \<Rightarrow> (case mget (reg_FunctionClass g) (ToLower cname) of
          None \<Rightarrow> False | Some bag \<Rightarrow> ToLower fn \<in> set bag))"

text \<open>
  \<open>ParseRegistry\<close> on the decoded YAML document: the classes with their function names, in the
  order in which Go's map iteration visits them. A bag is the list of its members.
\<close>

definition add_class :: "string \<Rightarrow> string list gomap \<Rightarrow> string \<Rightarrow> string list gomap" where
  "add_class cname fc fn = mput fn ((case mget fc fn of None \<Rightarrow> [] | Some cs \<Rightarrow> cs) @ [cname]) fc"

definition class_members :: "string list \<Rightarrow> string list" where
  "class_members fns = filter (\<lambda>f. f \<noteq> []) (map (\<lambda>fn. ToLower (TrimSpace fn)) fns)"

definition registry_step :: "Registry \<Rightarrow> string \<times> string list \<Rightarrow> Registry" where
  "registry_step r entry =
     (let cname = ToLower (fst entry); bag = class_members (snd entry)
      in \<lparr> reg_FunctionClass = mput cname bag (reg_FunctionClass r),
           reg_functionClasses = foldl (add_class cname) (reg_functionClasses r) bag \<rparr>)"

definition ParseRegistry :: "(string \<times> string list) list \<Rightarrow> Registry" where
  "ParseRegistry entries = foldl registry_step \<lparr> reg_FunctionClass = [], reg_functionClasses = [] \<rparr> entries"

section \<open>Lemmas\<close>

lemma find_None_iff: "List.find P xs = None \<longleftrightarrow> (\<forall>x\<in>set xs. \<not> P x)"
  by (induction xs) auto

lemma find_SomeD: "List.find P xs = Some x \<Longrightarrow> x \<in> set xs \<and> P x"
  by (induction xs) (auto split: if_splits)

lemma HasDeniedTable_None_iff:
  "HasDeniedTable c denied = None \<longleftrightarrow>
     (\<forall>t\<in>set (cl_Tables c). \<forall>d\<in>set denied. \<not> HasPrefix (ToLower t) (ToLower d))"
  by (auto simp: HasDeniedTable_def find_None_iff list_ex_iff)

lemma HasTableOutsideAllowed_None_iff:
  "HasTableOutsideAllowed c allowed = None \<longleftrightarrow>
     allowed = [] \<or> (\<forall>t\<in>set (cl_Tables c). \<exists>a\<in>set allowed. EqualFold a t)"
  by (auto simp: HasTableOutsideAllowed_def find_None_iff EqualFold_def image_iff) metis+

lemma HasDisallowedFunction_None_iff:
  "HasDisallowedFunction c allow = None \<longleftrightarrow> allow = [] \<or> set (cl_Functions c) \<subseteq> set allow"
  by (auto simp: HasDisallowedFunction_def find_None_iff)

lemma mget_add_class:
  "mget (add_class cname fc f) fn =
     (if fn = f then Some ((case mget fc f of None \<Rightarrow> [] | Some cs \<Rightarrow> cs) @ [cname]) else mget fc fn)"
  by (simp add: add_class_def)

lemma mget_add_classes:
  "mget (foldl (add_class cname) fc fns) fn =
     (if fn \<in> set fns
      then Some ((case mget fc fn of None \<Rightarrow> [] | Some cs \<Rightarrow> cs) @ replicate (count_list fns fn) cname)
      else mget fc fn)"
proof (induction fns arbitrary: fc)
  case Nil
  then show ?case by simp
next
  case (Cons f fns)
  show ?case
    by (cases "f = fn") (auto simp: Cons.IH mget_add_class split: option.splits)
qed

text \<open>The two indexes of a parsed registry agree in one direction always, and both ways when no
  two cname names differ only by case.\<close>

definition classes_listed :: "Registry \<Rightarrow> bool" where
  "classes_listed r \<longleftrightarrow>
     (\<forall>cname bag fn. mget (reg_FunctionClass r) cname = Some bag \<and> fn \<in> set bag \<longrightarrow>
        (\<exists>cs. mget (reg_functionClasses r) fn = Some cs \<and> cname \<in> set cs))"

lemma classes_listed_step: "classes_listed r \<Longrightarrow> classes_listed (registry_step r e)"
  unfolding classes_listed_def
proof (intro allI impI, elim conjE)
  fix cname bag fn
  assume r: "\<forall>cname bag fn. mget (reg_FunctionClass r) cname = Some bag \<and> fn \<in> set bag \<longrightarrow>
      (\<exists>cs. mget (reg_functionClasses r) fn = Some cs \<and> cname \<in> set cs)"
    and b: "mget (reg_FunctionClass (registry_step r e)) cname = Some bag" and fn: "fn \<in> set bag"
  let ?C = "ToLower (fst e)" and ?B = "class_members (snd e)"
  show "\<exists>cs. mget (reg_functionClasses (registry_step r e)) fn = Some cs \<and> cname \<in> set cs"
  proof (cases "cname = ?C")
    case True
    with b have "bag = ?B" by (simp add: registry_step_def Let_def)
    with fn have "count_list ?B fn \<noteq> 0" by (simp add: count_list_0_iff)
    with fn True \<open>bag = ?B\<close> show ?thesis
      by (auto simp: registry_step_def Let_def mget_add_classes)
  next
    case False
    with b have "mget (reg_FunctionClass r) cname = Some bag" by (simp add: registry_step_def Let_def)
    with r fn obtain cs where "mget (reg_functionClasses r) fn = Some cs" "cname \<in> set cs"
      by blast
    then show ?thesis
      by (auto simp: registry_step_def Let_def mget_add_classes)
  qed
qed

lemma classes_listed_parse: "classes_listed (ParseRegistry entries)"
proof -
  have "classes_listed (foldl registry_step r entries)" if "classes_listed r" for r
    using that by (induction entries arbitrary: r) (auto intro: classes_listed_step)
  from this [of "\<lparr> reg_FunctionClass = [], reg_functionClasses = [] \<rparr>"] show ?thesis
    by (simp add: ParseRegistry_def classes_listed_def)
qed

end
