(* ===== verification/Sql_Lite.thy ===== *)
theory Sql_Lite
  imports Sql_Guard
begin

text \<open>
  The tokenizer-based SQL classifiers: \<open>pkg/sqlguard/lite\<close> (postgres, mysql, sqlite). The
  source's strip phase overwrites a byte buffer left to right and reads only bytes it has not
  reached yet; here it consumes the input list and produces the output list. The two regular
  expressions are written out as the scans they denote.
\<close>

section \<open>Comments and strings\<close>

record DialectQuirks =
  dq_DollarQuotes :: bool
  dq_BacktickIdentifiers :: bool
  dq_BracketIdentifiers :: bool
  dq_DoubleQuoteIdentifiers :: bool

datatype unclosed = UnclosedComment | UnclosedString | UnclosedDollar string

text \<open>\<open>UnclosedConstructError.Error\<close>.\<close>

fun unclosed_string :: "unclosed \<Rightarrow> string" where
  "unclosed_string UnclosedComment = ''unclosed block comment before EOF''"
| "unclosed_string UnclosedString = ''unclosed string literal before EOF''"
| "unclosed_string (UnclosedDollar tag) = ''unclosed dollar-quoted string '' @ tag @ '' before EOF''"

definition blank :: "char \<Rightarrow> char" where
  "blank c = (if c = CHR 0x0A then CHR 0x0A else CHR '' '')"

definition isDollarTagCont :: "char \<Rightarrow> bool" where
  "isDollarTagCont c \<longleftrightarrow> is_alpha c \<or> is_digit c \<or> c = CHR ''_''"

text \<open>Each inner loop returns what it wrote, what is left, and whether it saw the end.\<close>

fun block_comment :: "nat \<Rightarrow> string \<Rightarrow> string \<times> string \<times> nat" where
  "block_comment 0 s = ([], s, 0)"
| "block_comment (Suc d) [] = ([], [], Suc d)"
| "block_comment (Suc d) [c] = ([blank c], [], Suc d)"
| "block_comment (Suc d) (c # c' # cs) =
     (if c = CHR ''/'' \<and> c' = CHR ''*'' then
        (let (out, rest, e) = block_comment (Suc (Suc d)) cs in ('' '' @ '' '' @ out, rest, e))
      else if c = CHR ''*'' \<and> c' = CHR ''/'' then
        (let (out, rest, e) = block_comment d cs in ('' '' @ '' '' @ out, rest, e))
      else (let (out, rest, e) = block_comment (Suc d) (c' # cs) in (blank c # out, rest, e)))"

fun quoted_run :: "char \<Rightarrow> string \<Rightarrow> string \<times> string \<times> bool" where
  "quoted_run q [] = ([], [], False)"
| "quoted_run q (c # cs) =
     (if c = q then
        (case cs of
           c' # cs' \<Rightarrow> (if c' = q then (let (out, rest, ok) = quoted_run q cs' in ('' '' @ '' '' @ out, rest, ok))
                        else ('' '', cs, True))
         | [] \<Rightarrow> ('' '', [], True))
      else (let (out, rest, ok) = quoted_run q cs in (blank c # out, rest, ok)))"

fun until_char :: "char \<Rightarrow> string \<Rightarrow> string \<times> string" where
  "until_char q [] = ([], [])"
| "until_char q (c # cs) =
     (if c = q then ('' '', cs)
      else (let (out, rest) = until_char q cs in (blank c # out, rest)))"

text \<open>
  The scan for the closing tag of a dollar quote. Where fewer bytes than the tag are left the
  source stops without erasing them.
\<close>

fun dollar_body :: "string \<Rightarrow> string \<Rightarrow> string \<times> string \<times> bool" where
  "dollar_body tag [] = ([], [], False)"
| "dollar_body tag (c # cs) =
     (if length (c # cs) < length tag then (c # cs, [], False)
      else if HasPrefix (c # cs) tag then (replicate (length tag) (CHR '' ''), drop (length tag) (c # cs), True)
      else (let (out, rest, ok) = dollar_body tag cs in (blank c # out, rest, ok)))"

text \<open>
  What every loop does to the buffer: the part it passes is copied or blanked byte by byte, no
  newline is blanked, and what is left is the rest of the text.
\<close>

definition keeps :: "char \<Rightarrow> char \<Rightarrow> bool" where
  "keeps a b \<longleftrightarrow> a = b \<or> (a = CHR '' '' \<and> b \<noteq> CHR 0x0A)"

definition blanked :: "string \<Rightarrow> string \<Rightarrow> string \<Rightarrow> bool" where
  "blanked out s rest \<longleftrightarrow> (\<exists>done. s = done @ rest \<and> list_all2 keeps out done)"

lemma keeps_blank [simp]: "keeps (blank c) c"
  by (simp add: keeps_def blank_def)

lemma keeps_refl [simp]: "keeps c c"
  by (simp add: keeps_def)

lemma keeps_space [simp]: "keeps (CHR '' '') c \<longleftrightarrow> c \<noteq> CHR 0x0A"
  by (auto simp: keeps_def)

lemma blanked_Nil [simp]: "blanked [] s s"
  by (simp add: blanked_def)

lemma blanked_Cons: "keeps a c \<Longrightarrow> blanked out cs rest \<Longrightarrow> blanked (a # out) (c # cs) rest"
  by (auto simp: blanked_def intro: exI [of _ "c # _"])

lemma blanked_append: "blanked o1 s1 s2 \<Longrightarrow> blanked o2 s2 s3 \<Longrightarrow> blanked (o1 @ o2) s1 s3"
  by (auto simp: blanked_def) (metis append_assoc list_all2_appendI)

lemma blanked_all: "list_all2 keeps out s \<Longrightarrow> blanked out s []"
  by (simp add: blanked_def)

lemma keeps_same [simp]: "list_all2 keeps s s"
  by (simp add: list_all2_same)

lemma blanked_length: "blanked out s rest \<Longrightarrow> length out + length rest = length s"
  by (auto simp: blanked_def dest: list_all2_lengthD)

lemma block_comment_blanked: "block_comment d s = (out, rest, e) \<Longrightarrow> blanked out s rest"
  by (induction d s arbitrary: out rest e rule: block_comment.induct)
     (auto split: prod.splits if_splits intro!: blanked_Cons)

lemma quoted_run_blanked: "q \<noteq> CHR 0x0A \<Longrightarrow> quoted_run q s = (out, rest, ok) \<Longrightarrow> blanked out s rest"
  by (induction q s arbitrary: out rest ok rule: quoted_run.induct)
     (auto split: prod.splits if_splits list.splits intro!: blanked_Cons)

lemma until_char_blanked: "q \<noteq> CHR 0x0A \<Longrightarrow> until_char q s = (out, rest) \<Longrightarrow> blanked out s rest"
  by (induction q s arbitrary: out rest rule: until_char.induct)
     (auto split: prod.splits if_splits intro!: blanked_Cons)

lemma blanked_prefix:
  assumes "HasPrefix s p" "CHR 0x0A \<notin> set p"
  shows "blanked (replicate (length p) (CHR '' '')) s (drop (length p) s)"
proof -
  have "s = p @ drop (length p) s" using assms(1) by (metis HasPrefix_def append_take_drop_id)
  moreover have "list_all2 keeps (replicate (length p) (CHR '' '')) p"
    using assms(2) by (auto simp: list_all2_conv_all_nth in_set_conv_nth)
  ultimately show ?thesis unfolding blanked_def by blast
qed

lemma dollar_body_blanked:
  "CHR 0x0A \<notin> set tag \<Longrightarrow> dollar_body tag s = (out, rest, ok) \<Longrightarrow> blanked out s rest"
proof (induction tag s arbitrary: out rest ok rule: dollar_body.induct)
  case (2 tag c cs)
  then show ?case
    by (auto split: prod.splits if_splits intro!: blanked_Cons blanked_all
        dest: blanked_prefix simp del: replicate.simps)
qed simp

text \<open>The tag of a dollar quote that opens the text \<open>$ # cs\<close>: \<open>$body$\<close> or \<open>$$\<close>.\<close>

definition dollar_tag :: "string \<Rightarrow> string option" where
  "dollar_tag cs =
     (let body = takeWhile isDollarTagCont cs
      in case dropWhile isDollarTagCont cs of
           c # _ \<Rightarrow> (if c = CHR ''$'' then Some (''$'' @ body @ ''$'') else None)
         | [] \<Rightarrow> None)"

text \<open>The body of the main loop at \<open>c # cs\<close>: the bytes written, the rest, and the error that
  ends the scan (the rest is then left as it is).\<close>

definition strip_step :: "DialectQuirks \<Rightarrow> char \<Rightarrow> string \<Rightarrow> string \<times> string \<times> unclosed option" where
  "strip_step q c cs =
     (if c = CHR ''-'' \<and> HasPrefix cs ''-'' then
        (map (\<lambda>_. CHR '' '') (takeWhile (\<lambda>x. x \<noteq> CHR 0x0A) (c # cs)), dropWhile (\<lambda>x. x \<noteq> CHR 0x0A) (c # cs), None)
      else if c = CHR ''/'' \<and> HasPrefix cs ''*'' then
        (let (out, rest, d) = block_comment 1 (tl cs)
         in ('' '' @ '' '' @ out, rest, if 0 < d then Some UnclosedComment else None))
      else if c = CHR 0x27 then
        (let (out, rest, ok) = quoted_run (CHR 0x27) cs
         in ('' '' @ out, rest, if ok then None else Some UnclosedString))
      else if dq_DollarQuotes q \<and> c = CHR ''$'' \<and> dollar_tag cs \<noteq> None then
        (let tag = the (dollar_tag cs);
             (out, rest, ok) = dollar_body tag (drop (length tag - 1) cs)
         in (replicate (length tag) (CHR '' '') @ out, rest, if ok then None else Some (UnclosedDollar tag)))
      else if dq_BacktickIdentifiers q \<and> c = CHR 0x60 then
        (let (out, rest) = until_char (CHR 0x60) cs in ('' '' @ out, rest, None))
      else if dq_BracketIdentifiers q \<and> c = CHR ''['' then
        (let (out, rest) = until_char (CHR '']'') cs in ('' '' @ out, rest, None))
      else if dq_DoubleQuoteIdentifiers q \<and> c = CHR 0x22 then
        (let (out, rest, ok) = quoted_run (CHR 0x22) cs in ('' '' @ out, rest, None))
      else ([c], cs, None))"

lemma dollar_tag_Some:
  assumes "dollar_tag cs = Some tag"
  shows "HasPrefix (CHR ''$'' # cs) tag \<and> CHR 0x0A \<notin> set tag \<and> 2 \<le> length tag"
proof -
  obtain r where r: "dropWhile isDollarTagCont cs = CHR ''$'' # r" "tag = ''$'' @ takeWhile isDollarTagCont cs @ ''$''"
    using assms by (auto simp: dollar_tag_def Let_def split: list.splits if_splits)
  have "cs = takeWhile isDollarTagCont cs @ CHR ''$'' # r"
    using r(1) by (metis takeWhile_dropWhile_id)
  then have "HasPrefix (CHR ''$'' # cs) tag"
    unfolding r(2) HasPrefix_iff_prefix prefix_def by force
  moreover have "CHR 0x0A \<notin> set (takeWhile isDollarTagCont cs)"
    by (auto dest: set_takeWhileD simp: isDollarTagCont_def is_alpha_def is_upper_def is_lower_def is_digit_def byte_def)
  ultimately show ?thesis using r(2) by simp
qed

lemma line_comment_blanked:
  "blanked (map (\<lambda>_. CHR '' '') (takeWhile (\<lambda>x. x \<noteq> CHR 0x0A) s)) s (dropWhile (\<lambda>x. x \<noteq> CHR 0x0A) s)"
  by (induction s) (auto intro: blanked_Cons)

lemma strip_step_blanked:
  assumes "strip_step q c cs = (out, rest, e)"
  shows "blanked out (c # cs) rest \<and> out \<noteq> []"
proof -
  consider (line) "c = CHR ''-''" "HasPrefix cs ''-''"
    | (block) "c = CHR ''/''" "HasPrefix cs ''*''"
    | (str) "c = CHR 0x27"
    | (dollar) tag where "dq_DollarQuotes q" "c = CHR ''$''" "dollar_tag cs = Some tag"
    | (tick) "dq_BacktickIdentifiers q" "c = CHR 0x60"
    | (bracket) "dq_BracketIdentifiers q" "c = CHR ''[''"
    | (dquote) "dq_DoubleQuoteIdentifiers q" "c = CHR 0x22"
    | (plain) "\<not> (c = CHR ''-'' \<and> HasPrefix cs ''-'')" "\<not> (c = CHR ''/'' \<and> HasPrefix cs ''*'')"
        "c \<noteq> CHR 0x27" "\<not> (dq_DollarQuotes q \<and> c = CHR ''$'' \<and> dollar_tag cs \<noteq> None)"
        "\<not> (dq_BacktickIdentifiers q \<and> c = CHR 0x60)" "\<not> (dq_BracketIdentifiers q \<and> c = CHR ''['')"
        "\<not> (dq_DoubleQuoteIdentifiers q \<and> c = CHR 0x22)"
    by (cases "dollar_tag cs") blast+
  then show ?thesis
  proof cases
    case line
    with assms line_comment_blanked [of "c # cs"] show ?thesis by (auto simp: strip_step_def)
  next
    case block
    obtain o1 r1 d where b: "block_comment 1 (tl cs) = (o1, r1, d)" by (metis surj_pair)
    obtain cs' where "cs = CHR ''*'' # cs'" using block(2) by (cases cs) auto
    with assms block b block_comment_blanked [OF b] show ?thesis
      by (auto simp: strip_step_def intro!: blanked_Cons)
  next
    case str
    obtain o1 r1 ok where b: "quoted_run (CHR 0x27) cs = (o1, r1, ok)" by (metis surj_pair)
    with assms str quoted_run_blanked [OF _ b] show ?thesis
      by (auto simp: strip_step_def intro!: blanked_Cons)
  next
    case (dollar tag)
    obtain o1 r1 ok where b: "dollar_body tag (drop (length tag - 1) cs) = (o1, r1, ok)" by (metis surj_pair)
    note t = dollar_tag_Some [OF dollar(3)]
    have d: "drop (length tag - 1) cs = drop (length tag) (c # cs)"
      using t by (cases tag) auto
    have "blanked (replicate (length tag) (CHR '' '') @ o1) (c # cs) r1"
      using t b d dollar(2) by (intro blanked_append [OF blanked_prefix dollar_body_blanked]) auto
    moreover have "out = replicate (length tag) (CHR '' '') @ o1 \<and> rest = r1"
      using assms dollar b by (auto simp: strip_step_def)
    ultimately show ?thesis using t by auto
  next
    case tick
    obtain o1 r1 where b: "until_char (CHR 0x60) cs = (o1, r1)" by (metis surj_pair)
    with assms tick until_char_blanked [OF _ b] show ?thesis
      by (auto simp: strip_step_def intro!: blanked_Cons)
  next
    case bracket
    obtain o1 r1 where b: "until_char (CHR '']'') cs = (o1, r1)" by (metis surj_pair)
    with assms bracket until_char_blanked [OF _ b] show ?thesis
      by (auto simp: strip_step_def intro!: blanked_Cons)
  next
    case dquote
    obtain o1 r1 ok where b: "quoted_run (CHR 0x22) cs = (o1, r1, ok)" by (metis surj_pair)
    with assms dquote quoted_run_blanked [OF _ b] show ?thesis
      by (auto simp: strip_step_def intro!: blanked_Cons)
  next
    case plain
    then have "strip_step q c cs = ([c], cs, None)" unfolding strip_step_def by presburger
    with assms show ?thesis by (auto intro: blanked_Cons)
  qed
qed

lemma strip_step_shrinks: "strip_step q c cs = (out, rest, e) \<Longrightarrow> length rest < Suc (length cs)"
  using strip_step_blanked [of q c cs out rest e] blanked_length [of out "c # cs" rest]
  by (cases out) auto

function StripCommentsAndStrings :: "string \<Rightarrow> DialectQuirks \<Rightarrow> string \<times> unclosed option" where
  "StripCommentsAndStrings [] q = ([], None)"
| "StripCommentsAndStrings (c # cs) q =
     (case strip_step q c cs of
        (out, rest, Some e) \<Rightarrow> (out @ rest, Some e)
      | (out, rest, None) \<Rightarrow>
          (let (out', e) = StripCommentsAndStrings rest q in (out @ out', e)))"
  by pat_completeness auto
termination
  by (relation "measure (\<lambda>(s, q). length s)") (auto dest!: strip_step_shrinks [OF sym])

lemma strip_preserves: "list_all2 keeps (fst (StripCommentsAndStrings s q)) s"
proof (induction s q rule: StripCommentsAndStrings.induct)
  case (2 c cs q)
  obtain out rest e where st: "strip_step q c cs = (out, rest, e)" by (metis surj_pair)
  obtain d where d: "c # cs = d @ rest" "list_all2 keeps out d"
    using strip_step_blanked [OF st] by (auto simp: blanked_def)
  show ?case
  proof (cases e)
    case None
    obtain o' e' where r: "StripCommentsAndStrings rest q = (o', e')" by (metis surj_pair)
    with 2 [OF st [symmetric] refl None] have o': "list_all2 keeps o' rest" by simp
    with None st r have "fst (StripCommentsAndStrings (c # cs) q) = out @ o'" by simp
    with d o' show ?thesis by (simp only: list_all2_appendI)
  next
    case (Some x)
    with st have "fst (StripCommentsAndStrings (c # cs) q) = out @ rest" by simp
    with d show ?thesis by (simp only: list_all2_appendI keeps_same)
  qed
qed simp

section \<open>Statements and tokens\<close>

text \<open>White space of the regular expressions, and of \<open>flatTokenize\<close>.\<close>

definition re_space :: "char \<Rightarrow> bool" where
  "re_space c \<longleftrightarrow> c \<in> {CHR 0x09, CHR 0x0A, CHR 0x0C, CHR 0x0D, CHR '' ''}"

definition tok_space :: "char \<Rightarrow> bool" where
  "tok_space c \<longleftrightarrow> c \<in> {CHR '' '', CHR 0x09, CHR 0x0A, CHR 0x0D}"

text \<open>
  Splitting at \<open>(?im)^\s*GO\s*$\<close>: the lines that hold only \<open>GO\<close> separate. The pieces of
  the regular expression differ from these by white space at their ends, which the next step trims.
\<close>

definition is_go_line :: "string \<Rightarrow> bool" where
  "is_go_line l \<longleftrightarrow> ToUpper (rev (dropWhile re_space (rev (dropWhile re_space l)))) = ''GO''"

fun go_chunks :: "string list \<Rightarrow> string list \<Rightarrow> string list" where
  "go_chunks cur [] = [Join (rev cur) [CHR 0x0A]]"
| "go_chunks cur (l # ls) =
     (if is_go_line l then Join (rev cur) [CHR 0x0A] # go_chunks [] ls else go_chunks (l # cur) ls)"

definition SplitTopLevelStatements :: "string \<Rightarrow> string list" where
  "SplitTopLevelStatements stripped =
     concat (map (\<lambda>c. filter (\<lambda>p. p \<noteq> []) (map TrimSpace (SplitByte c (CHR '';''))))
       (go_chunks [] (SplitByte stripped (CHR 0x0A))))"

definition FirstKeyword :: "string \<Rightarrow> string" where
  "FirstKeyword s = ToUpper (takeWhile (\<lambda>c. is_alpha c \<or> c = CHR ''_'') (TrimSpace s))"

definition ContainsAnyCI :: "string \<Rightarrow> string list \<Rightarrow> bool" where
  "ContainsAnyCI s needles \<longleftrightarrow> list_ex (\<lambda>n. Contains (ToLower s) (ToLower n)) needles"

definition lite_isSQLKeyword :: "string \<Rightarrow> bool" where
  "lite_isSQLKeyword s \<longleftrightarrow>
     s \<in> {''values'', ''in'', ''exists'', ''case'', ''when'', ''then'', ''else'', ''end'',
          ''if'', ''while'', ''for'', ''with'', ''as'', ''on'', ''and'', ''or'', ''not'',
          ''select'', ''from'', ''where'', ''group'', ''by'', ''having'', ''order'',
          ''union'', ''intersect'', ''except'', ''all'', ''distinct'', ''any'', ''some'',
          ''using'', ''into'', ''returning'', ''limit'', ''offset''}"

text \<open>
  The matches of \<open>(?i)\b([a-z_][a-z0-9_]*)\s*\(\<close>: the whole words that do not start with a
  digit and are followed by white space and an opening parenthesis.
\<close>

definition word_char :: "char \<Rightarrow> bool" where
  "word_char c \<longleftrightarrow> is_alpha c \<or> is_digit c \<or> c = CHR ''_''"

function call_words :: "string \<Rightarrow> string list" where
  "call_words [] = []"
| "call_words (c # cs) =
     (if word_char c then
        (let w = takeWhile word_char (c # cs); rest = dropWhile word_char (c # cs)
         in (if \<not> is_digit c \<and> HasPrefix (dropWhile re_space rest) ''('' then [w] else []) @ call_words rest)
      else call_words cs)"
  by pat_completeness auto
termination
  by (relation "measure length") (auto simp: length_dropWhile_le less_Suc_eq_le)

fun dedupe_calls :: "(string \<Rightarrow> bool) \<Rightarrow> string list \<Rightarrow> string list \<Rightarrow> string list" where
  "dedupe_calls isKeyword out [] = out"
| "dedupe_calls isKeyword out (w # ws) =
     (let name = ToLower w
      in dedupe_calls isKeyword (if isKeyword name \<or> name \<in> set out then out else out @ [name]) ws)"

definition CollectFunctions :: "string \<Rightarrow> string list" where
  "CollectFunctions s = dedupe_calls lite_isSQLKeyword [] (call_words s)"

definition isIdentStart :: "char \<Rightarrow> bool" where
  "isIdentStart c \<longleftrightarrow> is_alpha c \<or> c \<in> {CHR ''_'', CHR ''@'', CHR ''#''}"

definition isIdentCont :: "char \<Rightarrow> bool" where
  "isIdentCont c \<longleftrightarrow> is_alpha c \<or> is_digit c \<or> c \<in> {CHR ''_'', CHR ''@'', CHR ''#'', CHR ''.''}"

text \<open>The token loop, which the mssql package repeats with other identifier characters.\<close>

function flat_tokens :: "(char \<Rightarrow> bool) \<Rightarrow> (char \<Rightarrow> bool) \<Rightarrow> string \<Rightarrow> string list" where
  "flat_tokens start cont [] = []"
| "flat_tokens start cont (c # cs) =
     (if tok_space c then flat_tokens start cont cs
      else if c = CHR ''('' \<or> c = CHR '')'' then [c] # flat_tokens start cont cs
      else if start c then
        (c # takeWhile cont cs) # flat_tokens start cont (dropWhile cont cs)
      else flat_tokens start cont cs)"
  by pat_completeness auto
termination
  by (relation "measure (\<lambda>(start, cont, s). length s)") (auto simp: length_dropWhile_le less_Suc_eq_le)

definition flatTokenize :: "string \<Rightarrow> string list" where
  "flatTokenize s = flat_tokens isIdentStart isIdentCont s"

definition isIdentLike :: "string \<Rightarrow> bool" where
  "isIdentLike tok \<longleftrightarrow> (case tok of [] \<Rightarrow> False | c # _ \<Rightarrow> is_alpha c \<or> c \<in> {CHR ''_'', CHR ''@'', CHR ''#''})"

definition isJoinModifier :: "string \<Rightarrow> bool" where
  "isJoinModifier tok \<longleftrightarrow>
     tok \<in> {''LATERAL'', ''ONLY'', ''OUTER'', ''INNER'', ''CROSS'', ''FULL'', ''LEFT'', ''RIGHT'', ''NATURAL''}"

definition isTableNoiseToken :: "string \<Rightarrow> bool" where
  "isTableNoiseToken tok \<longleftrightarrow>
     tok \<in> {''select'', ''with'', ''values'', ''case'', ''when'', ''exists'', ''null'',
            ''true'', ''false'', ''where'', ''having'', ''group'', ''order'', ''limit'',
            ''by'', ''as'', ''on'', ''using'', ''set'', ''default'', ''return'',
            ''returning'', ''fetch'', ''for'', ''update'', ''into''}"

text \<open>The scan of a parenthesised group whose opening parenthesis is passed: what follows it.\<close>

fun skip_group :: "nat \<Rightarrow> string list \<Rightarrow> string list" where
  "skip_group 0 ts = ts"
| "skip_group (Suc d) [] = []"
| "skip_group (Suc d) (t # ts) =
     (if t = ''('' then skip_group (Suc (Suc d)) ts
      else if t = '')'' then skip_group d ts
      else skip_group (Suc d) ts)"

definition skip_token :: "string \<Rightarrow> string list \<Rightarrow> string list" where
  "skip_token t ts = (case ts of x # xs \<Rightarrow> if x = t then xs else ts | [] \<Rightarrow> [])"

definition skip_optional_group :: "string list \<Rightarrow> string list" where
  "skip_optional_group ts = (case ts of x # xs \<Rightarrow> if x = ''('' then skip_group 1 xs else ts | [] \<Rightarrow> [])"

lemma skip_group_le: "length (skip_group d ts) \<le> length ts"
  by (induction d ts rule: skip_group.induct) auto

lemma skip_token_le: "length (skip_token t ts) \<le> length ts"
  by (auto simp: skip_token_def split: list.splits)

lemma skip_optional_group_le: "length (skip_optional_group ts) \<le> length ts"
  using skip_group_le [of 1 "tl ts"]
  by (auto simp: skip_optional_group_def split: list.splits intro: le_SucI)

text \<open>
  One CTE definition after its name: the tokens after the body, \<open>None\<close> where the structure
  does not match. Both loops over CTE definitions use it.
\<close>

definition after_cte :: "string list \<Rightarrow> string list option" where
  "after_cte ts =
     (case skip_optional_group ts of
        [] \<Rightarrow> None
      | a # ts1 \<Rightarrow>
          (if a \<noteq> ''AS'' then None
           else case skip_token ''MATERIALIZED'' (skip_token ''NOT'' ts1) of
               [] \<Rightarrow> None
             | p # ts2 \<Rightarrow> (if p \<noteq> ''('' then None else Some (skip_group 1 ts2))))"

lemma after_cte_le:
  assumes "after_cte ts = Some ts'"
  shows "length ts' < length ts"
proof -
  obtain ts1 ts2 where t: "skip_optional_group ts = ''AS'' # ts1"
    "skip_token ''MATERIALIZED'' (skip_token ''NOT'' ts1) = ''('' # ts2" "ts' = skip_group 1 ts2"
    using assms by (auto simp: after_cte_def split: list.splits if_splits)
  have "length ts' \<le> length ts2" using t skip_group_le by simp
  also have "\<dots> < length ts1"
    using t(2) skip_token_le [of "''MATERIALIZED''" "skip_token ''NOT'' ts1"] skip_token_le [of "''NOT''" ts1]
    by simp
  also have "\<dots> < length ts" using t(1) skip_optional_group_le [of ts] by simp
  finally show ?thesis .
qed

text \<open>The tokenizer emits no comma; the branch that continues with the next definition is in the
  source and is kept.\<close>

function cte_names :: "string list \<Rightarrow> string list" where
  "cte_names [] = []"
| "cte_names (t # ts) =
     (if \<not> isIdentLike t then []
      else ToLower t #
        (case after_cte ts of
           None \<Rightarrow> []
         | Some ts' \<Rightarrow> (case ts' of [] \<Rightarrow> [] | c # ts'' \<Rightarrow> if c = '','' then cte_names ts'' else [])))"
  by pat_completeness auto
termination
  by (relation "measure length") (auto dest!: after_cte_le)

fun collectCTENames :: "string list \<Rightarrow> string list" where
  "collectCTENames [] = []"
| "collectCTENames (t # ts) =
     (if t = ''WITH'' then cte_names (skip_token ''RECURSIVE'' ts) else []) @ collectCTENames ts"

definition tableIntroducers :: "string list" where
  "tableIntroducers = [''FROM'', ''JOIN'', ''INTO'', ''UPDATE'', ''TABLE'']"

fun table_refs :: "string list \<Rightarrow> string list" where
  "table_refs [] = []"
| "table_refs (tok # ts) =
     (if tok \<in> set tableIntroducers then
        (case dropWhile isJoinModifier ts of
           t # _ \<Rightarrow> (if t \<noteq> ''('' \<and> isIdentLike t then [t] else [])
         | [] \<Rightarrow> [])
      else []) @ table_refs ts"

fun add_tables :: "string list \<Rightarrow> string list \<Rightarrow> string list \<Rightarrow> string list" where
  "add_tables cte out [] = out"
| "add_tables cte out (t # ts) =
     (let low = ToLower t
      in add_tables cte
           (if t = [] \<or> isTableNoiseToken low \<or> low \<in> set cte \<or> low \<in> set out then out else out @ [low]) ts)"

definition CollectTables :: "string \<Rightarrow> string list" where
  "CollectTables stripped =
     (let tokens = flatTokenize (ToUpper stripped)
      in add_tables (collectCTENames tokens) [] (table_refs tokens))"

definition modifying_body :: "string list \<Rightarrow> bool" where
  "modifying_body ts =
     (case dropWhile isIdentLike ts of
        p # k # ks \<Rightarrow>
          p = ''('' \<and>
          (let kw = (if k = ''RECURSIVE'' \<and> ks \<noteq> [] then hd ks else k)
           in kw \<in> {''DELETE'', ''UPDATE'', ''INSERT'', ''MERGE''})
      | _ \<Rightarrow> False)"

fun modifying_cte :: "string list \<Rightarrow> bool" where
  "modifying_cte [] = False"
| "modifying_cte (tok # ts) = ((tok = ''AS'' \<and> modifying_body ts) \<or> modifying_cte ts)"

definition HasModifyingCTE :: "string \<Rightarrow> bool" where
  "HasModifyingCTE stripped = modifying_cte (flatTokenize (ToUpper stripped))"

text \<open>The loop of \<open>KeywordPastWith\<close>: the tokens after the last definition, \<open>None\<close> for
  its \<open>return ""\<close>.\<close>

function past_ctes :: "string list \<Rightarrow> string list option" where
  "past_ctes [] = Some []"
| "past_ctes (t # ts) =
     (if \<not> isIdentLike t then None
      else case after_cte ts of
          None \<Rightarrow> None
        | Some ts' \<Rightarrow> (case ts' of [] \<Rightarrow> Some [] | c # ts'' \<Rightarrow> if c = '','' then past_ctes ts'' else Some ts'))"
  by pat_completeness auto
termination
  by (relation "measure length") (auto dest!: after_cte_le)

definition KeywordPastWith :: "string \<Rightarrow> string" where
  "KeywordPastWith stripped =
     (case dropWhile (\<lambda>t. t \<noteq> ''WITH'') (flatTokenize (ToUpper stripped)) of
        [] \<Rightarrow> []
      | _ # ts \<Rightarrow>
          (case past_ctes (skip_token ''RECURSIVE'' ts) of
             None \<Rightarrow> []
           | Some rest \<Rightarrow> (case List.find isIdentLike rest of None \<Rightarrow> [] | Some t \<Rightarrow> t)))"

section \<open>The dialects\<close>

definition pgKeywordToKind :: "string \<Rightarrow> Kind" where
  "pgKeywordToKind kw =
     (if kw \<in> {''SELECT'', ''WITH'', ''TABLE'', ''VALUES''} then KindSelect
      else if kw = ''INSERT'' then KindInsert
      else if kw = ''UPDATE'' then KindUpdate
      else if kw = ''DELETE'' then KindDelete
      else if kw = ''MERGE'' then KindUpdate
      else if kw = ''CREATE'' then KindCreate
      else if kw = ''DROP'' then KindDrop
      else if kw = ''TRUNCATE'' then KindTruncate
      else if kw = ''ALTER'' then KindAlter
      else if kw = ''GRANT'' then KindGrant
      else if kw = ''REVOKE'' then KindRevoke
      else if kw = ''DO'' then KindDo
      else if kw = ''CALL'' then KindCall
      else if kw = ''EXECUTE'' then KindExecute
      else if kw = ''PREPARE'' then KindPrepare
      else if kw = ''COPY'' then KindCopy
      else if kw = ''LOAD'' then KindLoad
      else if kw = ''SET'' then KindSet
      else if kw = ''DISCARD'' then KindDiscard
      else if kw \<in> {''BEGIN'', ''COMMIT'', ''ROLLBACK'', ''START'', ''END'', ''ABORT'', ''SAVE'', ''RELEASE''} then KindTransaction
      else KindOther)"

definition mysqlKeywordToKind :: "string \<Rightarrow> Kind" where
  "mysqlKeywordToKind kw =
     (if kw \<in> {''SELECT'', ''WITH'', ''TABLE'', ''VALUES''} then KindSelect
      else if kw \<in> {''INSERT'', ''REPLACE''} then KindInsert
      else if kw = ''UPDATE'' then KindUpdate
      else if kw = ''DELETE'' then KindDelete
      else if kw = ''CREATE'' then KindCreate
      else if kw = ''DROP'' then KindDrop
      else if kw = ''TRUNCATE'' then KindTruncate
      else if kw \<in> {''ALTER'', ''RENAME''} then KindAlter
      else if kw = ''GRANT'' then KindGrant
      else if kw = ''REVOKE'' then KindRevoke
      else if kw = ''DO'' then KindDo
      else if kw = ''CALL'' then KindCall
      else if kw = ''EXECUTE'' then KindExecute
      else if kw \<in> {''PREPARE'', ''DEALLOCATE''} then KindPrepare
      else if kw = ''LOAD'' then KindLoad
      else if kw \<in> {''SET'', ''DECLARE''} then KindSet
      else if kw \<in> {''BEGIN'', ''COMMIT'', ''ROLLBACK'', ''START'', ''SAVEPOINT'', ''RELEASE''} then KindTransaction
      else KindOther)"

definition sqliteKeywordToKind :: "string \<Rightarrow> Kind" where
  "sqliteKeywordToKind kw =
     (if kw \<in> {''SELECT'', ''WITH'', ''TABLE'', ''VALUES''} then KindSelect
      else if kw \<in> {''INSERT'', ''REPLACE''} then KindInsert
      else if kw = ''UPDATE'' then KindUpdate
      else if kw = ''DELETE'' then KindDelete
      else if kw = ''CREATE'' then KindCreate
      else if kw = ''DROP'' then KindDrop
      else if kw = ''ALTER'' then KindAlter
      else if kw = ''PRAGMA'' then KindSet
      else if kw \<in> {''BEGIN'', ''COMMIT'', ''ROLLBACK'', ''END'', ''SAVEPOINT'', ''RELEASE''} then KindTransaction
      else KindOther)"

definition pgQuirks :: DialectQuirks where
  "pgQuirks = \<lparr> dq_DollarQuotes = True, dq_BacktickIdentifiers = False,
     dq_BracketIdentifiers = False, dq_DoubleQuoteIdentifiers = True \<rparr>"

definition mysqlQuirks :: DialectQuirks where
  "mysqlQuirks = \<lparr> dq_DollarQuotes = False, dq_BacktickIdentifiers = True,
     dq_BracketIdentifiers = False, dq_DoubleQuoteIdentifiers = True \<rparr>"

definition sqliteQuirks :: DialectQuirks where
  "sqliteQuirks = \<lparr> dq_DollarQuotes = False, dq_BacktickIdentifiers = False,
     dq_BracketIdentifiers = True, dq_DoubleQuoteIdentifiers = True \<rparr>"

text \<open>
  What the three \<open>Classify\<close> methods share: the early errors, and the record built from the
  per-statement kind and the three flags, each set by some statement.
\<close>

definition lite_parts :: "string \<Rightarrow> DialectQuirks \<Rightarrow> string \<Rightarrow> sql_error + string \<times> string list" where
  "lite_parts dialect q input =
     (if TrimSpace input = [] then Inl (ParseError dialect ''empty input'')
      else case StripCommentsAndStrings input q of
          (_, Some e) \<Rightarrow> Inl (ParseError dialect (unclosed_string e))
        | (stripped, None) \<Rightarrow>
            (let parts = SplitTopLevelStatements stripped
             in if parts = [] then Inl (ParseError dialect ''no statements'') else Inr (stripped, parts)))"

definition lite_build ::
  "string \<Rightarrow> (string \<Rightarrow> Kind) \<Rightarrow> (string \<Rightarrow> bool) \<Rightarrow> (string \<Rightarrow> bool) \<Rightarrow> string \<Rightarrow> string list \<Rightarrow> Classification" where
  "lite_build dialect kind dynamic program stripped parts =
     (let fns = CollectFunctions stripped;
          dyn = list_ex dynamic parts;
          prog = list_ex program parts;
          mcte = list_ex (\<lambda>p. kind p = KindSelect \<and> HasModifyingCTE p) parts;
          cl = \<lparr> cl_Dialect = dialect, cl_StmtCount = length parts, cl_TopLevelKinds = map kind parts,
                 cl_Functions = fns, cl_FunctionsQualified = fns, cl_UsesProgram = prog,
                 cl_UsesDynamicSQL = dyn, cl_ReadOnly = False, cl_MutatesViaCTE = mcte,
                 cl_Tables = CollectTables stripped \<rparr>
      in cl\<lparr> cl_ReadOnly := IsPureSelect cl \<and> \<not> dyn \<and> \<not> prog \<and> \<not> mcte \<rparr>)"

definition pg_kind :: "string \<Rightarrow> Kind" where
  "pg_kind part =
     (let first = FirstKeyword part; past = KeywordPastWith part
      in pgKeywordToKind (if first = ''WITH'' \<and> past \<noteq> [] then past else first))"

definition pg_dynamic :: "string \<Rightarrow> bool" where
  "pg_dynamic part \<longleftrightarrow>
     pg_kind part \<in> {KindDo, KindExecute, KindPrepare, KindCall} \<or>
     (pg_kind part = KindCreate \<and> ContainsAnyCI part
        [''create function'', ''create or replace function'', ''create procedure'',
         ''create or replace procedure'', ''create trigger''])"

definition pg_program :: "string \<Rightarrow> bool" where
  "pg_program part \<longleftrightarrow>
     pg_kind part = KindCopy \<and> ContainsAnyCI part [''from program'', ''to program'']"

definition pg_Classify :: classifier where
  "pg_Classify input =
     (case lite_parts ''postgres'' pgQuirks input of
        Inl e \<Rightarrow> Inl e
      | Inr (stripped, parts) \<Rightarrow> Inr (lite_build ''postgres'' pg_kind pg_dynamic pg_program stripped parts))"

definition mysql_kind :: "string \<Rightarrow> Kind" where
  "mysql_kind part = mysqlKeywordToKind (FirstKeyword part)"

definition mysql_dynamic :: "string \<Rightarrow> bool" where
  "mysql_dynamic part \<longleftrightarrow>
     mysql_kind part \<in> {KindCall, KindExecute, KindPrepare, KindDo} \<or>
     (mysql_kind part = KindCreate \<and> ContainsAnyCI part
        [''create function'', ''create procedure'', ''create trigger'', ''create event''])"

definition mysql_program :: "string \<Rightarrow> bool" where
  "mysql_program part \<longleftrightarrow>
     mysql_kind part = KindLoad \<or>
     ContainsAnyCI part [''load data infile'', ''load data local infile'', ''load_file''] \<or>
     (mysql_kind part = KindSelect \<and> ContainsAnyCI part [''into outfile'', ''into dumpfile''])"

definition mysql_Classify :: classifier where
  "mysql_Classify input =
     (case lite_parts ''mysql'' mysqlQuirks input of
        Inl e \<Rightarrow> Inl e
      | Inr (stripped, parts) \<Rightarrow>
          Inr (lite_build ''mysql'' mysql_kind mysql_dynamic mysql_program stripped parts))"

definition sqlite_kind :: "string \<Rightarrow> Kind" where
  "sqlite_kind part = sqliteKeywordToKind (FirstKeyword part)"

definition sqlite_dynamic :: "string \<Rightarrow> bool" where
  "sqlite_dynamic part \<longleftrightarrow> FirstKeyword part = ''CREATE'' \<and> ContainsAnyCI part [''create trigger'']"

definition sqlite_program :: "string \<Rightarrow> bool" where
  "sqlite_program part \<longleftrightarrow> FirstKeyword part = ''ATTACH''"

definition sqlite_Classify :: classifier where
  "sqlite_Classify input =
     (case lite_parts ''sqlite'' sqliteQuirks input of
        Inl e \<Rightarrow> Inl e
      | Inr (stripped, parts) \<Rightarrow>
          Inr (lite_build ''sqlite'' sqlite_kind sqlite_dynamic sqlite_program stripped parts))"

text \<open>The dialect table after the package's \<open>init\<close> functions.\<close>

definition lite_dialects :: "classifier gomap" where
  "lite_dialects =
     Register ''sqlite'' sqlite_Classify (Register ''postgres'' pg_Classify (Register ''mysql'' mysql_Classify []))"

section \<open>Lemmas\<close>

text \<open>Text with no quote, comment or dollar sign passes the strip phase unchanged.\<close>

definition plain_sql :: "string \<Rightarrow> bool" where
  "plain_sql s \<longleftrightarrow>
     list_all (\<lambda>c. c \<notin> {CHR ''-'', CHR ''/'', CHR 0x27, CHR ''$'', CHR 0x60, CHR ''['', CHR 0x22, CHR 0x0A}) s"

lemma strip_plain: "plain_sql s \<Longrightarrow> StripCommentsAndStrings s q = (s, None)"
  by (induction s) (auto simp: plain_sql_def strip_step_def)

lemma in_dropWhile: "x \<in> set s \<Longrightarrow> \<not> P x \<Longrightarrow> x \<in> set (dropWhile P s)"
  by (induction s) auto

lemma nonblank_iff: "TrimSpace s \<noteq> [] \<longleftrightarrow> \<not> list_all is_space s"
  by (auto simp: TrimSpace_def dropWhile_eq_Nil_conv list_all_iff dest: set_dropWhileD intro: in_dropWhile)

lemma nonblank_part:
  assumes "TrimSpace s \<noteq> []" "c = CHR '';''" "\<not> list_all (\<lambda>x. is_space x \<or> x = c) s"
  shows "\<exists>p\<in>set (SplitByte s c). TrimSpace p \<noteq> []"
proof -
  have "\<not> list_all (\<lambda>x. is_space x \<or> x = c) s \<Longrightarrow> \<exists>p\<in>set (SplitByte s c). \<not> list_all is_space p" for s
  proof (induction s)
    case (Cons x xs)
    obtain p ps where ps: "SplitByte xs c = p # ps" by (cases "SplitByte xs c") auto
    from Cons show ?case by (cases "x = c") (auto simp: ps)
  qed simp
  with assms(3) show ?thesis by (simp add: nonblank_iff)
qed

definition sql_parts :: "string \<Rightarrow> string list" where
  "sql_parts s = filter (\<lambda>p. p \<noteq> []) (map TrimSpace (SplitByte s (CHR '';'')))"

lemma sql_parts_append: "sql_parts (a @ CHR '';'' # b) = sql_parts a @ sql_parts b"
  by (simp add: sql_parts_def SplitByte_append)

lemma sql_parts_nonempty: "\<not> list_all (\<lambda>x. is_space x \<or> x = CHR '';'') s \<Longrightarrow> sql_parts s \<noteq> []"
proof -
  assume n: "\<not> list_all (\<lambda>x. is_space x \<or> x = CHR '';'') s"
  then have "TrimSpace s \<noteq> []" unfolding nonblank_iff by (auto simp: list_all_iff)
  from nonblank_part [OF this refl n] show ?thesis by (auto simp: sql_parts_def filter_empty_conv)
qed

lemma go_line_no_semicolon: "is_go_line s \<Longrightarrow> CHR '';'' \<notin> set s"
proof
  assume g: "is_go_line s" and c: "CHR '';'' \<in> set s"
  let ?d = "dropWhile re_space s"
  have sp: "\<not> re_space (CHR '';'')" by (simp add: re_space_def)
  have "CHR '';'' \<in> set (rev (dropWhile re_space (rev ?d)))"
    using c sp by (auto intro!: in_dropWhile)
  then have "upper_char (CHR '';'') \<in> set (ToUpper (rev (dropWhile re_space (rev ?d))))"
    unfolding ToUpper_def by simp
  then show False using g by (simp add: is_go_line_def upper_char_def is_lower_def byte_def)
qed

lemma plain_split: "plain_sql s \<Longrightarrow> CHR '';'' \<in> set s \<Longrightarrow> SplitTopLevelStatements s = sql_parts s"
proof -
  assume p: "plain_sql s" and c: "CHR '';'' \<in> set s"
  then have "SplitByte s (CHR 0x0A) = [s]"
    by (intro SplitByte_noocc) (auto simp: plain_sql_def list_all_iff)
  moreover have "\<not> is_go_line s" using c go_line_no_semicolon by blast
  ultimately show ?thesis by (simp add: SplitTopLevelStatements_def sql_parts_def)
qed

lemma lite_parts_plain:
  assumes "plain_sql a" "plain_sql b"
    "\<not> list_all (\<lambda>x. is_space x \<or> x = CHR '';'') a" "\<not> list_all (\<lambda>x. is_space x \<or> x = CHR '';'') b"
  shows "lite_parts d q (a @ CHR '';'' # b) = Inr (a @ CHR '';'' # b, sql_parts a @ sql_parts b)"
proof -
  let ?s = "a @ CHR '';'' # b"
  have p: "plain_sql ?s" using assms by (simp add: plain_sql_def)
  have "TrimSpace ?s \<noteq> []" unfolding nonblank_iff using assms(3) by (auto simp: list_all_iff)
  moreover have "SplitTopLevelStatements ?s = sql_parts a @ sql_parts b"
    using plain_split [OF p] by (simp add: sql_parts_append)
  ultimately show ?thesis
    using strip_plain [OF p] sql_parts_nonempty [OF assms(3)] by (simp add: lite_parts_def Let_def)
qed

lemma lite_build_counts:
  "cl_StmtCount (lite_build d k dy pr st parts) = length parts"
  "cl_TopLevelKinds (lite_build d k dy pr st parts) = map k parts"
  by (simp_all add: lite_build_def Let_def)

lemma two_statements_not_pure:
  assumes "lite_parts d q s = Inr (st, parts)" "2 \<le> length parts"
  shows "\<not> IsPureSelect (lite_build d k dy pr st parts) \<and> \<not> cl_ReadOnly (lite_build d k dy pr st parts)"
  using assms(2) by (simp add: lite_build_def IsPureSelect_def Let_def)

text \<open>Well-formed classifications.\<close>

definition wf_classification :: "Classification \<Rightarrow> bool" where
  "wf_classification c \<longleftrightarrow>
     cl_StmtCount c = length (cl_TopLevelKinds c) \<and> cl_TopLevelKinds c \<noteq> [] \<and>
     distinct (cl_Functions c) \<and> list_all (\<lambda>f. ToLower f = f \<and> \<not> lite_isSQLKeyword f) (cl_Functions c) \<and>
     distinct (cl_Tables c) \<and> list_all (\<lambda>t. ToLower t = t) (cl_Tables c)"

lemma dedupe_calls_wf:
  "distinct out \<and> list_all (\<lambda>f. ToLower f = f \<and> \<not> isk f) out \<Longrightarrow>
   distinct (dedupe_calls isk out ws) \<and> list_all (\<lambda>f. ToLower f = f \<and> \<not> isk f) (dedupe_calls isk out ws)"
  by (induction isk out ws rule: dedupe_calls.induct) (auto simp: Let_def)

lemma add_tables_wf:
  "distinct out \<and> list_all (\<lambda>t. ToLower t = t) out \<Longrightarrow>
   distinct (add_tables cte out ts) \<and> list_all (\<lambda>t. ToLower t = t) (add_tables cte out ts)"
  by (induction cte out ts rule: add_tables.induct) (auto simp: Let_def)

lemma lite_build_wf: "parts \<noteq> [] \<Longrightarrow> wf_classification (lite_build d k dy pr st parts)"
  using dedupe_calls_wf [of "[]" lite_isSQLKeyword "call_words st"]
    add_tables_wf [of "[]" "collectCTENames (flatTokenize (ToUpper st))" "table_refs (flatTokenize (ToUpper st))"]
  by (simp add: wf_classification_def lite_build_def Let_def CollectFunctions_def CollectTables_def)

lemma lite_parts_nonempty: "lite_parts d q s = Inr (st, parts) \<Longrightarrow> parts \<noteq> []"
  by (auto simp: lite_parts_def Let_def split: if_splits prod.splits option.splits)

lemma lite_Classify_wf:
  "pg_Classify s = Inr c \<or> mysql_Classify s = Inr c \<or> sqlite_Classify s = Inr c \<Longrightarrow> wf_classification c"
  by (auto simp: pg_Classify_def mysql_Classify_def sqlite_Classify_def split: sum.splits prod.splits
      intro!: lite_build_wf dest!: lite_parts_nonempty)

section \<open>Properties\<close>

text \<open>The strip phase keeps every byte position: its output has the input's length, and each byte
  is the input's byte or a blank in place of a byte that is not a newline.\<close>

theorem strip_keeps_positions:
  "list_all2 keeps (fst (StripCommentsAndStrings s q)) s \<and>
   length (fst (StripCommentsAndStrings s q)) = length s"
  using strip_preserves [of s q] list_all2_lengthD by blast

text \<open>A second statement after a semicolon cannot be smuggled past the lite classifiers in text
  without quotes and comments: every dialect counts it, and none calls the input a pure or
  read-only SELECT.\<close>

theorem second_statement_is_seen:
  assumes "plain_sql a" "plain_sql b"
    "\<not> list_all (\<lambda>x. is_space x \<or> x = CHR '';'') a" "\<not> list_all (\<lambda>x. is_space x \<or> x = CHR '';'') b"
    "C \<in> {pg_Classify, mysql_Classify, sqlite_Classify}"
  shows "\<exists>c. C (a @ CHR '';'' # b) = Inr c \<and> 2 \<le> cl_StmtCount c \<and> \<not> IsPureSelect c \<and> \<not> cl_ReadOnly c"
proof -
  let ?ps = "sql_parts a @ sql_parts b"
  have n: "2 \<le> length ?ps"
    using sql_parts_nonempty [OF assms(3)] sql_parts_nonempty [OF assms(4)]
    by (cases "sql_parts a"; cases "sql_parts b") auto
  note lp = lite_parts_plain [OF assms(1-4)]
  from assms(5) show ?thesis
    using n two_statements_not_pure [OF lp n]
    by (auto simp: pg_Classify_def mysql_Classify_def sqlite_Classify_def lp lite_build_counts)
qed

theorem second_statement_is_seen_witness:
  "\<exists>c. pg_Classify (''SELECT 1'' @ CHR '';'' # '' DROP TABLE users'') = Inr c \<and> \<not> IsPureSelect c"
proof -
  have "plain_sql ''SELECT 1''" "plain_sql '' DROP TABLE users''"
    "\<not> list_all (\<lambda>x. is_space x \<or> x = CHR '';'') ''SELECT 1''"
    "\<not> list_all (\<lambda>x. is_space x \<or> x = CHR '';'') '' DROP TABLE users''"
    by code_simp+
  from second_statement_is_seen [OF this, of pg_Classify] show ?thesis by auto
qed

text \<open>C39: every classification the lite dialects return is well formed: one kind per statement and at
  least one, lower-case function names without duplicates or SQL keywords, lower-case table names
  without duplicates.\<close>

theorem lite_classification_wf:
  assumes "pg_Classify s = Inr c \<or> mysql_Classify s = Inr c \<or> sqlite_Classify s = Inr c"
  shows "wf_classification c"
  using assms by (rule lite_Classify_wf)

theorem lite_classification_wf_witness:
  "\<exists>c. pg_Classify ''SELECT Count(*) FROM T'' = Inr c \<and> wf_classification c"
proof -
  have "\<not> isl (pg_Classify ''SELECT Count(*) FROM T'')" by code_simp
  then obtain c where "pg_Classify ''SELECT Count(*) FROM T'' = Inr c"
    by (cases "pg_Classify ''SELECT Count(*) FROM T''") auto
  with lite_classification_wf [of "''SELECT Count(*) FROM T''" c] show ?thesis by blast
qed

text \<open>A write statement behind a WITH clause is reported as a read-only SELECT by the mysql and
  sqlite classifiers, and by the postgres one when the CTE's name is quoted.\<close>

theorem with_clause_hides_write:
  "(case mysql_Classify ''WITH a AS (SELECT 1) DELETE FROM users'' of
      Inr c \<Rightarrow> cl_ReadOnly c | Inl _ \<Rightarrow> False) \<and>
   (case sqlite_Classify ''WITH a AS (SELECT 1) DELETE FROM users'' of
      Inr c \<Rightarrow> cl_ReadOnly c | Inl _ \<Rightarrow> False) \<and>
   (case pg_Classify (''WITH '' @ [CHR 0x22] @ ''a'' @ [CHR 0x22] @ '' AS (SELECT 1) DELETE FROM users'') of
      Inr c \<Rightarrow> cl_ReadOnly c | Inl _ \<Rightarrow> False)"
  by code_simp

text \<open>A quoted table or function name leaves no trace in the classification, so the table and
  function lists of a rule never see it.\<close>

theorem quoted_names_not_collected:
  "(case pg_Classify (''SELECT '' @ [CHR 0x22] @ ''pg_read_file'' @ [CHR 0x22] @ ''(1) FROM '' @
        [CHR 0x22] @ ''pg_authid'' @ [CHR 0x22]) of
      Inr c \<Rightarrow> cl_ReadOnly c \<and> cl_Tables c = [] \<and> cl_Functions c = [] | Inl _ \<Rightarrow> False)"
  by code_simp

text \<open>The registry's two indexes agree: a function the registry puts in a class is listed with
  that class.\<close>

theorem registry_indexes_agree:
  assumes "FunctionInClass (Some (ParseRegistry entries)) fn cname"
  shows "ToLower cname \<in> set (ClassesOf (Some (ParseRegistry entries)) fn)"
  using assms classes_listed_parse [of entries]
  by (auto simp: FunctionInClass_def ClassesOf_def classes_listed_def split: option.splits) fastforce+

theorem registry_indexes_agree_witness:
  "''destructive'' \<in> set (ClassesOf (Some (ParseRegistry [(''Destructive'', ['' Cleanup_Users '', '' ''])])) ''cleanup_users'')"
proof -
  have "FunctionInClass (Some (ParseRegistry [(''Destructive'', ['' Cleanup_Users '', '' ''])]))
      ''cleanup_users'' ''DESTRUCTIVE''" and "ToLower ''DESTRUCTIVE'' = ''destructive''"
    by code_simp+
  with registry_indexes_agree show ?thesis by metis
qed

end
