(* ===== verification/Sql_Mssql.thy ===== *)
theory Sql_Mssql
  imports Sql_Lite
begin

text \<open>
  The heuristic T-SQL classifier, \<open>pkg/sqlguard/mssql\<close>. The package repeats the strip, split
  and token loops of the lite package: its strip phase is the one for bracket identifiers only and
  ignores an unclosed construct (whose tail both erase), so they are reused here.
\<close>

definition mssqlQuirks :: DialectQuirks where
  "mssqlQuirks = \<lparr> dq_DollarQuotes = False, dq_BacktickIdentifiers = False,
     dq_BracketIdentifiers = True, dq_DoubleQuoteIdentifiers = False \<rparr>"

definition mssql_stripCommentsAndStrings :: "string \<Rightarrow> string" where
  "mssql_stripCommentsAndStrings s = fst (StripCommentsAndStrings s mssqlQuirks)"

definition mssql_firstKeyword :: "string \<Rightarrow> string \<times> string" where
  "mssql_firstKeyword s0 =
     (let s = TrimSpace s0; w = takeWhile (\<lambda>c. is_alpha c \<or> c = CHR ''_'') s
      in if s = [] then ([], []) else if w = [] then ([], s) else (w, TrimSpace (drop (length w) s)))"

definition mssql_keywordToKind :: "string \<Rightarrow> Kind" where
  "mssql_keywordToKind kw0 =
     (let kw = ToUpper kw0
      in if kw \<in> {''SELECT'', ''WITH''} then KindSelect
      else if kw = ''INSERT'' then KindInsert
      else if kw = ''UPDATE'' then KindUpdate
      else if kw = ''DELETE'' then KindDelete
      else if kw = ''MERGE'' then KindUpdate
      else if kw = ''CREATE'' then KindCreate
      else if kw = ''DROP'' then KindDrop
      else if kw = ''TRUNCATE'' then KindTruncate
      else if kw = ''ALTER'' then KindAlter
      else if kw = ''GRANT'' then KindGrant
      else if kw = ''REVOKE'' then KindRevoke
      else if kw = ''DENY'' then KindRevoke
      else if kw \<in> {''EXEC'', ''EXECUTE''} then KindExecute
      else if kw \<in> {''BEGIN'', ''COMMIT'', ''ROLLBACK'', ''SAVE''} then KindTransaction
      else if kw \<in> {''SET'', ''DECLARE''} then KindSet
      else if kw = ''USE'' then KindSet
      else KindOther)"

definition mssql_isSQLKeyword :: "string \<Rightarrow> bool" where
  "mssql_isSQLKeyword s \<longleftrightarrow>
     s \<in> {''values'', ''in'', ''exists'', ''case'', ''when'', ''then'', ''else'', ''end'',
          ''if'', ''while'', ''for'', ''with'', ''as'', ''on'', ''and'', ''or'', ''not'',
          ''select'', ''from'', ''where'', ''group'', ''by'', ''having'', ''order'',
          ''union'', ''intersect'', ''except'', ''all'', ''distinct'', ''any'', ''some''}"

definition mssql_collectFunctions :: "string \<Rightarrow> string list" where
  "mssql_collectFunctions s = dedupe_calls mssql_isSQLKeyword [] (call_words s)"

text \<open>\<open>sortStrings\<close> is an insertion sort on the byte order.\<close>

definition sortedKeys :: "string list \<Rightarrow> string list" where
  "sortedKeys m = sort_by str_le m"

text \<open>
  \<open>fourPartRegex\<close>: four name segments joined by dots, each an identifier that starts at a word
  boundary or a non-empty bracketed name. \<open>match_segment prev s\<close> is the rest after one segment;
  \<open>prev\<close> tells whether the byte before \<open>s\<close> is a word character.
\<close>

definition match_segment :: "bool \<Rightarrow> string \<Rightarrow> string option" where
  "match_segment prev s =
     (case s of
        [] \<Rightarrow> None
      | c # cs \<Rightarrow>
          (if (is_alpha c \<or> c = CHR ''_'') \<and> \<not> prev then Some (dropWhile word_char s)
           else if c = CHR ''['' then
             (let body = takeWhile (\<lambda>x. x \<noteq> CHR '']'') cs
              in if body \<noteq> [] \<and> length body < length cs then Some (drop (Suc (length body)) cs) else None)
           else None))"

fun match_dotted :: "nat \<Rightarrow> bool \<Rightarrow> string \<Rightarrow> bool" where
  "match_dotted 0 prev s = (match_segment prev s \<noteq> None)"
| "match_dotted (Suc n) prev s =
     (case match_segment prev s of
        Some (c # cs) \<Rightarrow> c = CHR ''.'' \<and> match_dotted n False cs
      | _ \<Rightarrow> False)"

fun four_part_from :: "bool \<Rightarrow> string \<Rightarrow> bool" where
  "four_part_from prev [] = False"
| "four_part_from prev (c # cs) = (match_dotted 3 prev (c # cs) \<or> four_part_from (word_char c) cs)"

definition hasFourPartName :: "string \<Rightarrow> bool" where
  "hasFourPartName s = four_part_from False s"

definition mssql_isIdentStart :: "char \<Rightarrow> bool" where
  "mssql_isIdentStart c \<longleftrightarrow> is_alpha c \<or> c \<in> {CHR ''_'', CHR ''@'', CHR ''#'', CHR ''[''}"

definition mssql_isIdentCont :: "char \<Rightarrow> bool" where
  "mssql_isIdentCont c \<longleftrightarrow>
     is_alpha c \<or> is_digit c \<or> c \<in> {CHR ''_'', CHR ''@'', CHR ''#'', CHR ''.'', CHR ''['', CHR '']''}"

definition mssql_tokenize :: "string \<Rightarrow> string list" where
  "mssql_tokenize s = flat_tokens mssql_isIdentStart mssql_isIdentCont s"

text \<open>
  The state machine of \<open>hasModifyingCTE\<close>: \<open>state\<close>, \<open>parenDepth\<close>,
  \<open>cteBodyStart\<close> (\<open>None\<close> for -1) and the token's index.
\<close>

fun cte_machine :: "nat \<Rightarrow> int \<Rightarrow> nat option \<Rightarrow> nat \<Rightarrow> string list \<Rightarrow> bool" where
  "cte_machine state depth bodyStart i [] = False"
| "cte_machine state depth bodyStart i (tok # ts) =
     (if state = 0 then cte_machine (if tok = ''WITH'' then 1 else 0) depth bodyStart (Suc i) ts
      else if state = 1 then
        (if tok = ''('' then cte_machine 2 1 (Some (Suc i)) (Suc i) ts
         else cte_machine 1 depth bodyStart (Suc i) ts)
      else if tok = ''('' then cte_machine 2 (depth + 1) bodyStart (Suc i) ts
      else if tok = '')'' then cte_machine (if depth - 1 = 0 then 1 else 2) (depth - 1) bodyStart (Suc i) ts
      else if depth = 1 \<and> bodyStart = Some i \<and> tok \<in> {''DELETE'', ''UPDATE'', ''INSERT'', ''MERGE''} then True
      else cte_machine 2 depth (if depth = 1 then None else bodyStart) (Suc i) ts)"

definition mssql_hasModifyingCTE :: "string \<Rightarrow> bool" where
  "mssql_hasModifyingCTE s = cte_machine 0 0 (Some 0) 0 (mssql_tokenize (ToUpper s))"

definition mssql_kind :: "string \<Rightarrow> Kind" where
  "mssql_kind part = mssql_keywordToKind (fst (mssql_firstKeyword part))"

definition mssql_dynamic :: "string \<Rightarrow> bool" where
  "mssql_dynamic part \<longleftrightarrow>
     (let (first, rest) = mssql_firstKeyword part; kind = mssql_keywordToKind first in
      kind = KindExecute \<or> kind = KindCall \<or>
      ContainsAnyCI rest [''sp_executesql''] \<or>
      ContainsAnyCI part [''sp_configure'', ''reconfigure''] \<or>
      ContainsAnyCI part [''waitfor delay'', ''waitfor time''] \<or>
      (ContainsAnyCI first [''declare''] \<and> ContainsAnyCI rest [''cursor'']) \<or>
      (kind = KindCreate \<and>
        ContainsAnyCI part [''create procedure'', ''create proc '', ''create trigger'', ''create function'']))"

definition mssql_program :: "string \<Rightarrow> string \<Rightarrow> bool" where
  "mssql_program input part \<longleftrightarrow>
     (let (first, rest) = mssql_firstKeyword part in
      ContainsAnyCI rest [''xp_cmdshell'', ''sp_oacreate'', ''sp_oamethod'', ''sp_oadestroy'', ''sp_oageterrorinfo''] \<or>
      ContainsAnyCI first [''xp_cmdshell''] \<or>
      ContainsAnyCI part [''openrowset'', ''opendatasource'', ''bulk insert'', ''openquery'', ''openxml'',
        ''openjson'', ''sp_xml_preparedocument'', ''sp_oacreate''] \<or>
      hasFourPartName input)"

definition mssql_Classify :: classifier where
  "mssql_Classify input =
     (if TrimSpace input = [] then Inl (ParseError ''mssql'' ''empty input'')
      else
        let stripped = mssql_stripCommentsAndStrings input;
            parts = SplitTopLevelStatements stripped
        in if parts = [] then Inl (ParseError ''mssql'' ''no statements'')
           else
             let fns = sortedKeys (mssql_collectFunctions input);
                 dyn = list_ex mssql_dynamic parts;
                 prog = list_ex (mssql_program input) parts;
                 cl = \<lparr> cl_Dialect = ''mssql'', cl_StmtCount = length parts,
                   cl_TopLevelKinds = map mssql_kind parts,
                   cl_Functions = fns, cl_FunctionsQualified = fns, cl_UsesProgram = prog,
                   cl_UsesDynamicSQL = dyn, cl_ReadOnly = False,
                   cl_MutatesViaCTE = list_ex (\<lambda>p. mssql_kind p = KindSelect \<and> mssql_hasModifyingCTE p) parts,
                   cl_Tables = [] \<rparr>
             in Inr (cl\<lparr> cl_ReadOnly := IsPureSelect cl \<and> \<not> dyn \<and> \<not> prog \<rparr>))"

text \<open>The dialect table of \<open>tg\<close> and \<open>tg-proxy\<close>, which link the lite and mssql packages.\<close>

definition linked_dialects :: "classifier gomap" where
  "linked_dialects = Register ''mssql'' mssql_Classify lite_dialects"

section \<open>Properties\<close>

text \<open>The T-SQL classifier never reports a table, and calls a SELECT with a modifying CTE read
  only: the table lists of a rule do not restrict this dialect.\<close>

theorem mssql_reports_no_table:
  "(case mssql_Classify s of Inr c \<Rightarrow> cl_Tables c = [] | Inl _ \<Rightarrow> True) \<and>
   (case mssql_Classify ''WITH d AS (DELETE FROM users OUTPUT deleted.id) SELECT id FROM d'' of
      Inr c \<Rightarrow> cl_ReadOnly c \<and> cl_MutatesViaCTE c | Inl _ \<Rightarrow> False)"
proof
  show "case mssql_Classify s of Inr c \<Rightarrow> cl_Tables c = [] | Inl _ \<Rightarrow> True"
    by (auto simp: mssql_Classify_def Let_def split: sum.splits if_splits)
  show "case mssql_Classify ''WITH d AS (DELETE FROM users OUTPUT deleted.id) SELECT id FROM d'' of
      Inr c \<Rightarrow> cl_ReadOnly c \<and> cl_MutatesViaCTE c | Inl _ \<Rightarrow> False"
    by code_simp
qed

end
