(* ===== verification/Reversibility_Sql.thy ===== *)
theory Reversibility_Sql
  imports Sql_Mssql
begin

text \<open>
  The reversibility classes and the SQL part of reversibility.go. Case mapping is ASCII, so
  \<open>asciiUpper\<close> is \<open>ToUpper\<close>, and the words of \<open>sqlWordSet\<close> are runs of ASCII
  letters, digits and underscores. The scanners of the skeleton consume the text and produce the
  output, as in the lite package.
\<close>

section \<open>Classes and their order\<close>

datatype ReversibilityClass = Reversible | Recoverable | Irreversible | Unknown

fun reversibilityRank :: "ReversibilityClass \<Rightarrow> nat" where
  "reversibilityRank Irreversible = 3"
| "reversibilityRank Unknown = 2"
| "reversibilityRank Recoverable = 1"
| "reversibilityRank Reversible = 0"

fun class_string :: "ReversibilityClass \<Rightarrow> string" where
  "class_string Reversible = ''reversible''"
| "class_string Recoverable = ''recoverable''"
| "class_string Irreversible = ''irreversible''"
| "class_string Unknown = ''unknown''"

definition worst :: "ReversibilityClass \<Rightarrow> ReversibilityClass \<Rightarrow> ReversibilityClass" where
  "worst a b = (if reversibilityRank a < reversibilityRank b then b else a)"

text \<open>The order of gating: the rank makes the classes a linear order, and \<open>worst\<close> its maximum.\<close>

instantiation ReversibilityClass :: linorder
begin

definition less_eq_ReversibilityClass :: "ReversibilityClass \<Rightarrow> ReversibilityClass \<Rightarrow> bool" where
  "less_eq_ReversibilityClass a b \<longleftrightarrow> reversibilityRank a \<le> reversibilityRank b"

definition less_ReversibilityClass :: "ReversibilityClass \<Rightarrow> ReversibilityClass \<Rightarrow> bool" where
  "less_ReversibilityClass a b \<longleftrightarrow> reversibilityRank a < reversibilityRank b"

instance
proof
  fix x y z :: ReversibilityClass
  show "x < y \<longleftrightarrow> x \<le> y \<and> \<not> y \<le> x"
    by (auto simp: less_eq_ReversibilityClass_def less_ReversibilityClass_def)
  show "x \<le> x" "x \<le> y \<or> y \<le> x"
    by (auto simp: less_eq_ReversibilityClass_def)
  show "x \<le> y \<Longrightarrow> y \<le> z \<Longrightarrow> x \<le> z"
    by (auto simp: less_eq_ReversibilityClass_def)
  show "x \<le> y \<Longrightarrow> y \<le> x \<Longrightarrow> x = y"
    by (cases x; cases y) (auto simp: less_eq_ReversibilityClass_def)
qed

end

lemma worst_max: "worst a b = max a b"
  by (cases a; cases b) (simp_all add: worst_def max_def less_eq_ReversibilityClass_def)

lemma Irreversible_top [simp]: "a \<le> Irreversible" "max Irreversible a = Irreversible" "max a Irreversible = Irreversible"
  by (cases a; simp add: less_eq_ReversibilityClass_def max_def)+

lemma Reversible_bot [simp]: "Reversible \<le> a" "max Reversible a = a" "max a Reversible = a"
  by (cases a; simp add: less_eq_ReversibilityClass_def max_def)+

lemma Irreversible_le_iff [simp]: "Irreversible \<le> a \<longleftrightarrow> a = Irreversible"
  by (cases a) (simp_all add: less_eq_ReversibilityClass_def)

text \<open>
  Worst-wins folds: the shape all classifiers of the file share. The contract needs only that the
  step takes the larger of two elements of a linear order and starts at the least one.
\<close>

locale worst_wins =
  fixes join :: "'a::linorder \<Rightarrow> 'a \<Rightarrow> 'a" and bot :: 'a
  assumes join_max: "join a b = max a b"
    and bot_least: "bot \<le> a"
begin

lemma fold_ge_start: "c \<le> foldl join c xs"
proof (induction xs arbitrary: c)
  case (Cons x xs)
  have "c \<le> join c x" by (simp add: join_max)
  also have "\<dots> \<le> foldl join (join c x) xs" by (rule Cons.IH)
  finally show ?case by simp
qed simp

lemma fold_ge: "x \<in> set xs \<Longrightarrow> x \<le> foldl join c xs"
proof (induction xs arbitrary: c)
  case (Cons y xs)
  show ?case
  proof (cases "x \<in> set xs")
    case True
    with Cons.IH show ?thesis by simp
  next
    case False
    with Cons.prems have "x = y" by simp
    then have "x \<le> join c y" by (simp add: join_max)
    then show ?thesis using fold_ge_start [of "join c y" xs] by simp
  qed
qed simp

lemma fold_attained: "foldl join c xs \<in> insert c (set xs)"
proof (induction xs arbitrary: c)
  case (Cons x xs)
  show ?case using Cons.IH [of "join c x"] by (auto simp: join_max max_def split: if_splits)
qed simp

lemma fold_Max: "foldl join bot xs = Max (insert bot (set xs))"
proof (rule Max_eqI [symmetric])
  show "y \<le> foldl join bot xs" if "y \<in> insert bot (set xs)" for y
    using that fold_ge [of y xs bot] bot_least by auto
qed (use fold_attained in auto)

lemma fold_order_irrelevant: "set xs = set ys \<Longrightarrow> foldl join bot xs = foldl join bot ys"
  by (simp add: fold_Max)

lemma fold_append: "foldl join c (xs @ ys) = join (foldl join c xs) (foldl join bot ys)"
proof -
  have "foldl join c ys = max c (foldl join bot ys)" for c ys
  proof (induction ys rule: rev_induct)
    case Nil
    have "max c bot = c" by (rule max_absorb1) (rule bot_least)
    then show ?case by simp
  next
    case (snoc y ys)
    then show ?case by (simp add: join_max max.assoc)
  qed
  from this [of "foldl join c xs" ys] show ?thesis
    by (simp only: foldl_append join_max)
qed

end

interpretation rev: worst_wins worst Reversible
  by unfold_locales (simp_all add: worst_max)

section \<open>The skeleton\<close>

text \<open>The tag delimiter \<open>$tag$\<close> of a dollar quote that opens \<open>$ # cs\<close>.\<close>

definition tag_start :: "char \<Rightarrow> bool" where
  "tag_start c \<longleftrightarrow> c = CHR ''_'' \<or> is_alpha c"

definition dollarOpen :: "string \<Rightarrow> string option" where
  "dollarOpen cs =
     (case cs of
        [] \<Rightarrow> None
      | c # _ \<Rightarrow>
          (if c \<noteq> CHR ''$'' \<and> \<not> tag_start c then None
           else let tag = takeWhile (\<lambda>x. tag_start x \<or> is_digit x) cs
                in case dropWhile (\<lambda>x. tag_start x \<or> is_digit x) cs of
                     d # _ \<Rightarrow> (if d = CHR ''$'' then Some (''$'' @ tag @ ''$'') else None)
                   | [] \<Rightarrow> None))"

text \<open>The content of a quoted region up to its closing character, kept; an unterminated one runs
  to the end. \<open>esc\<close>: a backslash escapes the next byte.\<close>

fun skel_quoted :: "bool \<Rightarrow> char \<Rightarrow> string \<Rightarrow> string \<times> string" where
  "skel_quoted esc q [] = ([], [])"
| "skel_quoted esc q [c] = (if c = q then ([c], []) else ([blank c], []))"
| "skel_quoted esc q (c # c' # cs) =
     (if (esc \<and> c = CHR 0x5C) \<or> (c = q \<and> c' = q) then
        (let (out, rest) = skel_quoted esc q cs in (blank c # blank c' # out, rest))
      else if c = q then ([c], c' # cs)
      else (let (out, rest) = skel_quoted esc q (c' # cs) in (blank c # out, rest)))"

fun skel_dollar :: "string \<Rightarrow> string \<Rightarrow> string \<times> string" where
  "skel_dollar seq [] = ([], [])"
| "skel_dollar seq (c # cs) =
     (if HasPrefix (c # cs) seq then (seq, drop (length seq) (c # cs))
      else (let (out, rest) = skel_dollar seq cs in (blank c # out, rest)))"

definition skel_step :: "char \<Rightarrow> string \<Rightarrow> string \<times> string" where
  "skel_step c cs =
     (if (c = CHR ''-'' \<and> HasPrefix cs ''-'') \<or> c = CHR ''#'' then
        (map blank (takeWhile (\<lambda>x. x \<noteq> CHR 0x0A) (c # cs)), dropWhile (\<lambda>x. x \<noteq> CHR 0x0A) (c # cs))
      else if c = CHR ''/'' \<and> HasPrefix cs ''*'' then
        (let (out, rest, d) = block_comment 1 (tl cs) in ('' '' @ '' '' @ out, rest))
      else if c = CHR 0x27 \<or> c = CHR 0x22 then
        (let (out, rest) = skel_quoted True c cs in (c # out, rest))
      else if c = CHR 0x60 then
        (let (out, rest) = skel_quoted False c cs in (c # out, rest))
      else if c = CHR ''['' then
        (let (out, rest) = skel_quoted False (CHR '']'') cs in (c # out, rest))
      else if c = CHR ''$'' \<and> dollarOpen cs \<noteq> None then
        (let seq = the (dollarOpen cs);
             (out, rest) = skel_dollar seq (drop (length seq - 1) cs)
         in (seq @ out, rest))
      else ([c], cs))"

lemma skel_quoted_blanked: "skel_quoted esc q s = (out, rest) \<Longrightarrow> blanked out s rest"
  by (induction esc q s arbitrary: out rest rule: skel_quoted.induct)
     (auto split: prod.splits if_splits intro!: blanked_Cons)

lemma blanked_copy: "HasPrefix s p \<Longrightarrow> blanked p s (drop (length p) s)"
  unfolding blanked_def by (rule exI [of _ p]) (simp add: HasPrefix_def, metis append_take_drop_id)

lemma skel_dollar_blanked: "skel_dollar seq s = (out, rest) \<Longrightarrow> blanked out s rest"
  by (induction seq s arbitrary: out rest rule: skel_dollar.induct)
     (auto split: prod.splits if_splits intro: blanked_Cons dest: blanked_copy)

lemma dollarOpen_Some: "dollarOpen cs = Some seq \<Longrightarrow> HasPrefix (CHR ''$'' # cs) seq \<and> 2 \<le> length seq"
proof -
  assume d: "dollarOpen cs = Some seq"
  let ?P = "\<lambda>x. tag_start x \<or> is_digit x"
  obtain r where r: "dropWhile ?P cs = CHR ''$'' # r" "seq = ''$'' @ takeWhile ?P cs @ ''$''"
    using d by (auto simp: dollarOpen_def Let_def split: list.splits if_splits)
  have "cs = takeWhile ?P cs @ CHR ''$'' # r" using r(1) by (metis takeWhile_dropWhile_id)
  then show ?thesis unfolding r(2) HasPrefix_iff_prefix prefix_def by force
qed

lemma skel_step_blanked:
  assumes "skel_step c cs = (out, rest)"
  shows "blanked out (c # cs) rest \<and> out \<noteq> []"
proof -
  have line: "blanked (map blank (takeWhile (\<lambda>x. x \<noteq> CHR 0x0A) s)) s (dropWhile (\<lambda>x. x \<noteq> CHR 0x0A) s)" for s
    by (induction s) (auto intro: blanked_Cons)
  consider (comment) "(c = CHR ''-'' \<and> HasPrefix cs ''-'') \<or> c = CHR ''#''"
    | (block) "c = CHR ''/''" "HasPrefix cs ''*''"
    | (str) "c = CHR 0x27 \<or> c = CHR 0x22"
    | (tick) "c = CHR 0x60"
    | (bracket) "c = CHR ''[''"
    | (dollar) seq where "c = CHR ''$''" "dollarOpen cs = Some seq"
    | (plain) "\<not> ((c = CHR ''-'' \<and> HasPrefix cs ''-'') \<or> c = CHR ''#'')"
        "\<not> (c = CHR ''/'' \<and> HasPrefix cs ''*'')" "\<not> (c = CHR 0x27 \<or> c = CHR 0x22)"
        "c \<noteq> CHR 0x60" "c \<noteq> CHR ''[''" "\<not> (c = CHR ''$'' \<and> dollarOpen cs \<noteq> None)"
    by (cases "dollarOpen cs") blast+
  then show ?thesis
  proof cases
    case comment
    with assms line [of "c # cs"] show ?thesis by (auto simp: skel_step_def split: if_splits)
  next
    case block
    obtain o1 r1 d where b: "block_comment 1 (tl cs) = (o1, r1, d)" by (metis surj_pair)
    obtain cs' where "cs = CHR ''*'' # cs'" using block(2) by (cases cs) auto
    with assms block b block_comment_blanked [OF b] show ?thesis
      by (auto simp: skel_step_def intro!: blanked_Cons)
  next
    case str
    obtain o1 r1 where b: "skel_quoted True c cs = (o1, r1)" by (metis surj_pair)
    with assms str skel_quoted_blanked [OF b] show ?thesis
      by (auto simp: skel_step_def intro!: blanked_Cons)
  next
    case tick
    obtain o1 r1 where b: "skel_quoted False c cs = (o1, r1)" by (metis surj_pair)
    with assms tick skel_quoted_blanked [OF b] show ?thesis
      by (auto simp: skel_step_def intro!: blanked_Cons)
  next
    case bracket
    obtain o1 r1 where b: "skel_quoted False (CHR '']'') cs = (o1, r1)" by (metis surj_pair)
    with assms bracket skel_quoted_blanked [OF b] show ?thesis
      by (auto simp: skel_step_def intro!: blanked_Cons)
  next
    case (dollar seq)
    obtain o1 r1 where b: "skel_dollar seq (drop (length seq - 1) cs) = (o1, r1)" by (metis surj_pair)
    note t = dollarOpen_Some [OF dollar(2)]
    have d: "drop (length seq - 1) cs = drop (length seq) (c # cs)" using t by (cases seq) auto
    have "blanked (seq @ o1) (c # cs) r1"
      using t b d dollar(1) by (intro blanked_append [OF blanked_copy skel_dollar_blanked]) auto
    moreover have "out = seq @ o1 \<and> rest = r1"
      using assms dollar b by (auto simp: skel_step_def)
    ultimately show ?thesis using t by auto
  next
    case plain
    then have "skel_step c cs = ([c], cs)" unfolding skel_step_def by presburger
    with assms show ?thesis by (auto intro: blanked_Cons)
  qed
qed

lemma skel_step_shrinks: "skel_step c cs = (out, rest) \<Longrightarrow> length rest < Suc (length cs)"
  using skel_step_blanked [of c cs out rest] blanked_length [of out "c # cs" rest]
  by (cases out) auto

function sqlSkeleton :: "string \<Rightarrow> string" where
  "sqlSkeleton [] = []"
| "sqlSkeleton (c # cs) = fst (skel_step c cs) @ sqlSkeleton (snd (skel_step c cs))"
  by pat_completeness auto
termination
  by (relation "measure length") (auto intro: skel_step_shrinks [OF prod.collapse [symmetric]])

lemma sqlSkeleton_keeps: "list_all2 keeps (sqlSkeleton s) s"
proof (induction s rule: sqlSkeleton.induct)
  case (2 c cs)
  have "blanked (fst (skel_step c cs)) (c # cs) (snd (skel_step c cs))"
    using skel_step_blanked [of c cs "fst (skel_step c cs)" "snd (skel_step c cs)"] by simp
  with 2 show ?case by (auto simp: blanked_def intro: list_all2_appendI)
qed simp

section \<open>Splitting, and the text for the parsers\<close>

fun split_stmts :: "string \<Rightarrow> string \<Rightarrow> string \<Rightarrow> string list" where
  "split_stmts cur (k # ks) (c # cs) =
     (if k = CHR '';'' then cur # split_stmts [] ks cs else split_stmts (cur @ [c]) ks cs)"
| "split_stmts cur _ _ = (if TrimSpace cur \<noteq> [] then [cur] else [])"

definition splitSQLStatements :: "string \<Rightarrow> string list" where
  "splitSQLStatements sql = split_stmts [] (sqlSkeleton sql) sql"

text \<open>\<open>sqlForParser\<close>: strings are copied, backtick identifiers become \<open>id\<close>, dollar-quoted
  bodies become \<open>'x'\<close>.\<close>

fun copy_quoted :: "char \<Rightarrow> string \<Rightarrow> string \<times> string" where
  "copy_quoted q [] = ([], [])"
| "copy_quoted q [c] = ([c], [])"
| "copy_quoted q (c # c' # cs) =
     (if c = CHR 0x5C \<or> (c = q \<and> c' = q) then
        (let (out, rest) = copy_quoted q cs in (c # c' # out, rest))
      else if c = q then ([c], c' # cs)
      else (let (out, rest) = copy_quoted q (c' # cs) in (c # out, rest)))"

lemma copy_quoted_append: "copy_quoted q s = (out, rest) \<Longrightarrow> s = out @ rest"
  by (induction q s arbitrary: out rest rule: copy_quoted.induct)
     (auto split: prod.splits if_splits)

function sqlForParser :: "string \<Rightarrow> string" where
  "sqlForParser [] = []"
| "sqlForParser (c # cs) =
     (if c = CHR 0x27 \<or> c = CHR 0x22 then
        c # fst (copy_quoted c cs) @ sqlForParser (snd (copy_quoted c cs))
      else if c = CHR 0x60 then ''id'' @ sqlForParser (snd (skel_quoted False c cs))
      else if c = CHR ''$'' then
        (case dollarOpen cs of
           None \<Rightarrow> c # sqlForParser cs
         | Some seq \<Rightarrow>
             [CHR 0x27, CHR ''x'', CHR 0x27] @ sqlForParser (snd (skel_dollar seq (drop (length seq - 1) cs))))
      else c # sqlForParser cs)"
  by pat_completeness auto
termination
proof (relation "measure length", goal_cases)
  case (2 c cs)
  then show ?case using copy_quoted_append [of c cs] by (cases "copy_quoted c cs") auto
next
  case (3 c cs)
  then show ?case
    using skel_quoted_blanked [of False c cs] blanked_length
    by (cases "skel_quoted False c cs") (fastforce simp: less_Suc_eq_le)
next
  case (5 c cs seq)
  then show ?case
    using skel_dollar_blanked [of seq "drop (length seq - 1) cs"] blanked_length
    by (cases "skel_dollar seq (drop (length seq - 1) cs)") (fastforce simp: less_Suc_eq_le)
qed auto

section \<open>Words\<close>

definition isSQLWordByte :: "char \<Rightarrow> bool" where
  "isSQLWordByte c \<longleftrightarrow> c = CHR ''_'' \<or> is_digit c \<or> is_alpha c"

definition asciiUpper :: "string \<Rightarrow> string" where
  "asciiUpper s = ToUpper s"

datatype sqlWord = SqlWord (w_up: string) (w_start: nat) (w_depth: nat)

function words_from :: "nat \<Rightarrow> nat \<Rightarrow> string \<Rightarrow> sqlWord list" where
  "words_from i depth [] = []"
| "words_from i depth (c # cs) =
     (if c = CHR ''('' then words_from (Suc i) (Suc depth) cs
      else if c = CHR '')'' then words_from (Suc i) (depth - 1) cs
      else if isSQLWordByte c then
        (let w = c # takeWhile isSQLWordByte cs
         in SqlWord (asciiUpper w) i depth # words_from (i + length w) depth (dropWhile isSQLWordByte cs))
      else words_from (Suc i) depth cs)"
  by pat_completeness auto
termination
  by (relation "measure (\<lambda>(i, d, s). length s)") (auto simp: length_dropWhile_le less_Suc_eq_le)

definition sqlWordsWithDepth :: "string \<Rightarrow> sqlWord list" where
  "sqlWordsWithDepth view = words_from 0 0 view"

definition sqlWordSet :: "string \<Rightarrow> string list" where
  "sqlWordSet sql = map ToUpper (FieldsFunc sql (\<lambda>c. \<not> isSQLWordByte c))"

definition isStmtStartKeyword :: "string \<Rightarrow> bool" where
  "isStmtStartKeyword w \<longleftrightarrow>
     w \<in> {''SELECT'', ''INSERT'', ''UPDATE'', ''DELETE'', ''DROP'', ''TRUNCATE'', ''MERGE'',
          ''CREATE'', ''ALTER'', ''GRANT'', ''REVOKE'', ''EXEC'', ''EXECUTE'', ''CALL'',
          ''WITH'', ''REPLACE'', ''DECLARE''}"

text \<open>The first occurrence of a word between two bytes that are not word bytes; \<open>before\<close> is
  the byte before the text.\<close>

fun index_word :: "char \<Rightarrow> string \<Rightarrow> string \<Rightarrow> nat option" where
  "index_word before [] word = None"
| "index_word before (c # cs) word =
     (let after = (case drop (length word) (c # cs) of [] \<Rightarrow> CHR '' '' | x # _ \<Rightarrow> x)
      in if HasPrefix (c # cs) word \<and> \<not> isSQLWordByte before \<and> \<not> isSQLWordByte after then Some 0
         else map_option Suc (index_word c cs word))"

definition indexSQLWord :: "string \<Rightarrow> string \<Rightarrow> nat option" where
  "indexSQLWord upperSQL word = index_word (CHR '' '') upperSQL word"

definition clauseKeywords :: "string list" where
  "clauseKeywords = [''GROUP'', ''ORDER'', ''LIMIT'', ''HAVING'', ''RETURNING'', ''WINDOW'',
     ''OFFSET'', ''FETCH'', ''UNION'', ''INTERSECT'', ''EXCEPT'']"

definition earlier :: "nat \<Rightarrow> nat option \<Rightarrow> nat" where
  "earlier ct idx = (case idx of None \<Rightarrow> ct | Some i \<Rightarrow> if i < ct then i else ct)"

definition cutAtSQLClause :: "string \<Rightarrow> string" where
  "cutAtSQLClause s =
     (let up = asciiUpper s;
          ct = foldl (\<lambda>ct kw. earlier ct (indexSQLWord up kw)) (length s) clauseKeywords
      in take (earlier ct (IndexByte s (CHR '';''))) s)"

section \<open>Predicates\<close>

fun paren_wraps :: "int \<Rightarrow> string \<Rightarrow> bool" where
  "paren_wraps depth [] = False"
| "paren_wraps depth (c # cs) =
     (if c = CHR ''('' then paren_wraps (depth + 1) cs
      else if c = CHR '')'' then (if depth - 1 = 0 then cs = [] else paren_wraps (depth - 1) cs)
      else paren_wraps depth cs)"

definition parenWrapsWhole :: "string \<Rightarrow> bool" where
  "parenWrapsWhole b = paren_wraps 0 b"

lemma length_TrimSpace: "length (TrimSpace s) \<le> length s"
  using length_dropWhile_le [of is_space s] length_dropWhile_le [of is_space "rev (dropWhile is_space s)"]
  by (simp add: TrimSpace_def)

function strip_parens :: "string \<Rightarrow> string" where
  "strip_parens b =
     (if 2 \<le> length b \<and> hd b = CHR ''('' \<and> last b = CHR '')'' \<and> parenWrapsWhole b
      then strip_parens (TrimSpace (butlast (tl b))) else b)"
  by pat_completeness auto
termination
proof (relation "measure length", goal_cases)
  case (2 b)
  have "length (TrimSpace (butlast (tl b))) \<le> length (butlast (tl b))" by (rule length_TrimSpace)
  also have "\<dots> < length b" using 2 by (cases b) auto
  finally show ?case by simp
qed simp

declare strip_parens.simps [simp del]

definition trimPredicate :: "string \<Rightarrow> string" where
  "trimPredicate body = strip_parens (TrimSpace (TrimSuffix (TrimSpace body) '';''))"

text \<open>\<open>sqlNonColumnKeyword\<close>.\<close>

definition sqlNonColumnKeyword :: "string list" where
  "sqlNonColumnKeyword =
     [''AND'', ''OR'', ''NOT'', ''NULL'', ''TRUE'', ''FALSE'', ''IS'', ''IN'', ''LIKE'', ''ILIKE'',
      ''BETWEEN'', ''EXISTS'', ''ANY'', ''ALL'', ''SOME'', ''CASE'', ''WHEN'', ''THEN'', ''ELSE'', ''END'',
      ''CAST'', ''AS'', ''DISTINCT'', ''ESCAPE'', ''COLLATE'', ''SELECT'', ''FROM'', ''WHERE'', ''GROUP'',
      ''ORDER'', ''BY'', ''HAVING'', ''LIMIT'', ''OFFSET'', ''UNION'', ''INTERSECT'', ''EXCEPT'', ''ON'',
      ''USING'', ''JOIN'', ''INNER'', ''LEFT'', ''RIGHT'', ''OUTER'', ''FULL'', ''CROSS'', ''NATURAL'',
      ''SYMMETRIC'', ''SIMILAR'']"

definition predicateReferencesColumn :: "string \<Rightarrow> bool" where
  "predicateReferencesColumn body \<longleftrightarrow>
     list_ex (\<lambda>w. w_up w \<noteq> [] \<and> \<not> is_digit (hd (w_up w)) \<and> w_up w \<notin> set sqlNonColumnKeyword)
       (sqlWordsWithDepth body)"

definition comparisonOps :: "string list" where
  "comparisonOps = [''<='', ''>='', ''<>'', ''!='', ''='', ''<'', ''>'']"

text \<open>Operator, left and right side, at the first operator of the list that occurs after
  position 0.\<close>

definition splitComparison :: "string \<Rightarrow> (string \<times> string \<times> string) option" where
  "splitComparison b =
     first_some (\<lambda>o'. case Index b o' of
        Some i \<Rightarrow> (if 0 < i then Some (o', take i b, drop (i + length o') b) else None)
      | None \<Rightarrow> None) comparisonOps"

definition identicalSidesAlwaysTrue :: "string \<Rightarrow> bool" where
  "identicalSidesAlwaysTrue body \<longleftrightarrow>
     (case splitComparison (trimPredicate body) of
        Some (op, l, r) \<Rightarrow>
          TrimSpace l \<noteq> [] \<and> TrimSpace l = TrimSpace r \<and> op \<in> {''='', ''<='', ''>=''}
      | None \<Rightarrow> False)"

definition compareConst :: "string \<Rightarrow> int \<Rightarrow> int \<Rightarrow> bool" where
  "compareConst op li ri =
     (if op = ''='' then li = ri
      else if op \<in> {''<>'', ''!=''} then li \<noteq> ri
      else if op = ''<'' then li < ri
      else if op = ''>'' then li > ri
      else if op = ''<='' then li \<le> ri
      else li \<ge> ri)"

definition constPredicateTrue :: "string \<Rightarrow> bool" where
  "constPredicateTrue d =
     (let b = trimPredicate d; low = ToLower b in
      if low \<in> {''true'', ''1''} then True
      else if low \<in> {''false'', ''0''} then False
      else case splitComparison b of
          None \<Rightarrow> True
        | Some (op, l0, r0) \<Rightarrow>
            (let l = TrimSpace l0; r = TrimSpace r0 in
             case (Atoi l, Atoi r) of
               (Some li, Some ri) \<Rightarrow> compareConst op li ri
             | _ \<Rightarrow> (if l = r \<and> l \<noteq> [] then op \<in> {''='', ''<='', ''>=''} else True)))"

text \<open>Cutting a predicate at the top-level occurrences of a word.\<close>

fun split_positions :: "string \<Rightarrow> nat \<Rightarrow> nat \<Rightarrow> nat list \<Rightarrow> string list" where
  "split_positions body k start [] = [drop start body]"
| "split_positions body k start (p # ps) = substr body start p # split_positions body k (p + k) ps"

definition top_level :: "string \<Rightarrow> string \<Rightarrow> nat list" where
  "top_level word body = map w_start (filter (\<lambda>w. w_depth w = 0 \<and> w_up w = word) (sqlWordsWithDepth body))"

definition splitTopLevelAnd :: "string \<Rightarrow> string list" where
  "splitTopLevelAnd body = split_positions body 3 0 (top_level ''AND'' body)"

definition splitTopLevelOr :: "string \<Rightarrow> string list" where
  "splitTopLevelOr body = split_positions body 2 0 (top_level ''OR'' body)"

lemma words_from_bound:
  "w \<in> set (words_from i d s) \<Longrightarrow> i \<le> w_start w \<and> w_start w + length (w_up w) \<le> i + length s"
proof (induction i d s rule: words_from.induct)
  case (2 i depth c cs)
  have lc: "length (takeWhile isSQLWordByte cs) + length (dropWhile isSQLWordByte cs) = length cs"
    by (metis length_append takeWhile_dropWhile_id)
  from 2 show ?case
    using lc by (fastforce simp: Let_def asciiUpper_def split: if_splits)
qed simp

lemma top_level_bound: "p \<in> set (top_level word body) \<Longrightarrow> p + length word \<le> length body"
  by (auto simp: top_level_def sqlWordsWithDepth_def dest: words_from_bound)

lemma split_positions_short:
  "q \<in> set (split_positions body k start ps) \<Longrightarrow> 0 < k \<Longrightarrow> \<forall>p\<in>set ps. p + k \<le> length body \<Longrightarrow>
     0 < start \<or> ps \<noteq> [] \<Longrightarrow> body \<noteq> [] \<Longrightarrow> length q < length body"
proof (induction ps arbitrary: start)
  case Nil
  then show ?case by simp
next
  case (Cons p ps)
  from Cons.prems(1) consider "q = substr body start p" | "q \<in> set (split_positions body k (p + k) ps)" by auto
  then show ?case
  proof cases
    case 1
    have "length q \<le> p" by (simp add: 1 length_substr)
    moreover have "p + k \<le> length body" using Cons.prems(3) by simp
    ultimately show ?thesis using Cons.prems(2) by linarith
  next
    case 2
    with Cons show ?thesis by simp
  qed
qed

lemma split_top_short:
  assumes "q \<in> set (split_positions body (length word) 0 (top_level word body))" "word \<noteq> []"
    "Suc 0 < length (split_positions body (length word) 0 (top_level word body))"
  shows "length q < length body"
proof -
  have ne: "top_level word body \<noteq> []" using assms(3) by (cases "top_level word body") auto
  then obtain p where "p \<in> set (top_level word body)" by (cases "top_level word body") auto
  from top_level_bound [OF this] assms(2) have "body \<noteq> []" by auto
  with assms ne show ?thesis
    by (intro split_positions_short [OF assms(1)]) (auto dest: top_level_bound)
qed

lemma length_strip_parens: "length (strip_parens b) \<le> length b"
proof (induction b rule: strip_parens.induct)
  case (1 b)
  have "length (TrimSpace (butlast (tl b))) \<le> length b"
    using length_TrimSpace [of "butlast (tl b)"] by simp
  with 1 show ?case by (subst strip_parens.simps) auto
qed

lemma length_trimPredicate: "length (trimPredicate b) \<le> length b"
proof -
  have "length (TrimSpace (TrimSuffix (TrimSpace b) '';'')) \<le> length (TrimSuffix (TrimSpace b) '';'')"
    by (rule length_TrimSpace)
  also have "\<dots> \<le> length (TrimSpace b)" by (simp add: TrimSuffix_def)
  also have "\<dots> \<le> length b" by (rule length_TrimSpace)
  finally show ?thesis
    unfolding trimPredicate_def using length_strip_parens order_trans by blast
qed

function predicateAlwaysTrue :: "string \<Rightarrow> bool" where
  "predicateAlwaysTrue p0 =
     (let p = trimPredicate p0; ors = splitTopLevelOr p; ands = splitTopLevelAnd p in
      if 1 < length ors then list_ex predicateAlwaysTrue ors
      else if 1 < length ands then list_all predicateAlwaysTrue ands
      else if \<not> predicateReferencesColumn p then constPredicateTrue p
      else identicalSidesAlwaysTrue p)"
  by pat_completeness auto
termination
proof (relation "measure length", goal_cases)
  case (2 p0 p ors ands q)
  then show ?case
    using split_top_short [of q p "''OR''"] length_trimPredicate [of p0]
    by (simp add: splitTopLevelOr_def numeral_2_eq_2)
next
  case (3 p0 p ors ands q)
  then show ?case
    using split_top_short [of q p "''AND''"] length_trimPredicate [of p0]
    by (simp add: splitTopLevelAnd_def numeral_3_eq_3)
qed simp

declare predicateAlwaysTrue.simps [simp del]

definition predicateIsWholeRelation :: "string \<Rightarrow> bool" where
  "predicateIsWholeRelation body \<longleftrightarrow>
     (if predicateAlwaysTrue body then True else \<not> predicateReferencesColumn body)"

definition whereIsTautology :: "string \<Rightarrow> bool" where
  "whereIsTautology stmt =
     (case indexSQLWord (asciiUpper stmt) ''WHERE'' of
        None \<Rightarrow> False
      | Some idx \<Rightarrow> predicateIsWholeRelation (cutAtSQLClause (drop (idx + 5) stmt)))"

section \<open>Statements\<close>

text \<open>The inner loop of \<open>scopedWriteClass\<close>: where the clause of a write ends and where its
  first top-level WHERE starts.\<close>

fun scan_clause :: "nat \<Rightarrow> sqlWord list \<Rightarrow> nat option \<Rightarrow> nat \<times> nat option" where
  "scan_clause n [] wh = (n, wh)"
| "scan_clause n (x # xs) wh =
     (if w_depth x = 0 \<and> isStmtStartKeyword (w_up x) then (w_start x, wh)
      else if w_depth x = 0 \<and> w_up x = ''WHERE'' \<and> wh = None then scan_clause n xs (Some (w_start x))
      else scan_clause n xs wh)"

definition write_class :: "string \<Rightarrow> sqlWord list \<Rightarrow> ReversibilityClass" where
  "write_class view following =
     (case scan_clause (length view) following None of
        (clauseEnd, Some wh) \<Rightarrow>
          (if \<not> whereIsTautology (substr view wh clauseEnd) then Recoverable else Irreversible)
      | (_, None) \<Rightarrow> Irreversible)"

fun write_classes :: "string \<Rightarrow> sqlWord list \<Rightarrow> ReversibilityClass list" where
  "write_classes view [] = []"
| "write_classes view (w # ws) =
     (if w_depth w \<noteq> 0 \<or> w_up w \<notin> {''DELETE'', ''UPDATE''} then write_classes view ws
      else write_class view ws # write_classes view ws)"

definition scopedWriteClass :: "string \<Rightarrow> ReversibilityClass" where
  "scopedWriteClass view =
     (let cs = write_classes view (sqlWordsWithDepth view)
      in if cs = [] then Recoverable else foldl worst Reversible cs)"

definition sqlKindReversibility :: "Kind \<Rightarrow> string \<Rightarrow> ReversibilityClass" where
  "sqlKindReversibility k sql =
     (if k = KindSelect then Reversible
      else if k \<in> {KindDrop, KindTruncate} then Irreversible
      else if k \<in> {KindDelete, KindUpdate} then scopedWriteClass sql
      else if k \<in> {KindInsert, KindCreate, KindAlter, KindGrant, KindRevoke, KindSet} then Recoverable
      else Unknown)"

definition sqlKeywordFallback :: "string \<Rightarrow> ReversibilityClass" where
  "sqlKeywordFallback sql =
     (let ws = set (sqlWordSet sql) in
      if ''DROP'' \<in> ws \<or> ''TRUNCATE'' \<in> ws then Irreversible
      else if ''DELETE'' \<in> ws \<or> ''UPDATE'' \<in> ws then scopedWriteClass sql
      else if ''INSERT'' \<in> ws \<or> ''ALTER'' \<in> ws \<or> ''CREATE'' \<in> ws \<or> ''GRANT'' \<in> ws \<or> ''REVOKE'' \<in> ws
      then Recoverable
      else if ''SELECT'' \<in> ws then Reversible
      else Unknown)"

definition classifySQL :: "classifier gomap \<Rightarrow> string \<Rightarrow> Classification option" where
  "classifySQL reg sql =
     first_some (\<lambda>d. case Classify reg d sql of Inr cl \<Rightarrow> Some cl | Inl _ \<Rightarrow> None) (Dialects reg)"

definition sqlStatementReversibility :: "classifier gomap \<Rightarrow> string \<Rightarrow> ReversibilityClass" where
  "sqlStatementReversibility reg stmt =
     (let view = sqlSkeleton stmt; kwd = sqlKeywordFallback view in
      case classifySQL reg (sqlForParser stmt) of
        None \<Rightarrow> kwd
      | Some cl \<Rightarrow>
          (if cl_TopLevelKinds cl = [] then kwd
           else
             let cls = (if cl_MutatesViaCTE cl then worst Reversible Irreversible else Reversible);
                 cls' = foldl (\<lambda>c k. worst c (sqlKindReversibility k view)) cls (cl_TopLevelKinds cl)
             in worst cls' kwd))"

definition sqlReversibility :: "classifier gomap \<Rightarrow> string \<Rightarrow> ReversibilityClass" where
  "sqlReversibility reg sql =
     (let stmts = filter (\<lambda>st. TrimSpace st \<noteq> []) (splitSQLStatements sql)
      in if stmts = [] then Unknown
         else foldl (\<lambda>c st. worst c (sqlStatementReversibility reg st)) Reversible stmts)"

section \<open>Lemmas\<close>

lemma fields_loop_run:
  "list_all (\<lambda>c. \<not> sep c) a \<Longrightarrow> fields_loop sep cur (a @ b) = fields_loop sep (rev a @ cur) b"
  by (induction a arbitrary: cur) auto

lemma fields_loop_emit:
  "cur \<noteq> [] \<Longrightarrow> b = [] \<or> sep (hd b) \<Longrightarrow> fields_loop sep cur b = rev cur # fields_loop sep [] b"
  by (cases b) auto

lemma fields_run:
  assumes "\<not> sep c"
  shows "fields_loop sep [] (c # cs) =
    (c # takeWhile (\<lambda>x. \<not> sep x) cs) # fields_loop sep [] (dropWhile (\<lambda>x. \<not> sep x) cs)"
proof -
  let ?a = "c # takeWhile (\<lambda>x. \<not> sep x) cs" and ?b = "dropWhile (\<lambda>x. \<not> sep x) cs"
  have "list_all (\<lambda>c. \<not> sep c) ?a" using assms by (auto simp: list_all_iff dest: set_takeWhileD)
  from fields_loop_run [OF this, of "[]" ?b] have "fields_loop sep [] (c # cs) = fields_loop sep (rev ?a) ?b" by simp
  also have "\<dots> = rev (rev ?a) # fields_loop sep [] ?b"
    using hd_dropWhile [of "\<lambda>x. \<not> sep x" cs] by (intro fields_loop_emit) auto
  finally show ?thesis by (simp only: rev_rev_ident)
qed

lemma sqlWordSet_Cons:
  "sqlWordSet (c # cs) =
     (if isSQLWordByte c
      then ToUpper (c # takeWhile isSQLWordByte cs) # sqlWordSet (dropWhile isSQLWordByte cs)
      else sqlWordSet cs)"
  by (simp add: sqlWordSet_def FieldsFunc_def fields_run del: fields_loop.simps(2))
     (simp add: sqlWordSet_def FieldsFunc_def)

lemma words_in_set: "w \<in> set (words_from i d s) \<Longrightarrow> w_up w \<in> set (sqlWordSet s)"
proof (induction i d s rule: words_from.induct)
  case (2 i depth c cs)
  have paren: "\<not> isSQLWordByte (CHR ''('')" "\<not> isSQLWordByte (CHR '')'')"
    by (simp_all add: isSQLWordByte_def is_digit_def is_alpha_def is_upper_def is_lower_def byte_def)
  show ?case
  proof (cases "isSQLWordByte c")
    case True
    with paren have "c \<noteq> CHR ''(''" "c \<noteq> CHR '')''" by auto
    with 2 True show ?thesis
      by (auto simp: Let_def sqlWordSet_Cons asciiUpper_def)
  next
    case False
    with 2 have "w_up w \<in> set (sqlWordSet cs)"
      by (auto simp: paren split: if_splits)
    with False show ?thesis by (simp add: sqlWordSet_Cons)
  qed
qed simp

lemma foldl_worst_map: "foldl (\<lambda>c k. worst c (f k)) c xs = foldl worst c (map f xs)"
  by (induction xs arbitrary: c) auto

lemma keyword_le_statement: "sqlKeywordFallback (sqlSkeleton stmt) \<le> sqlStatementReversibility reg stmt"
  by (simp add: sqlStatementReversibility_def Let_def worst_max split: option.split)

lemma in_set_not_Nil: "x \<in> set xs \<Longrightarrow> xs \<noteq> []"
  by auto

lemma statement_le_sql:
  assumes "st \<in> set (splitSQLStatements sql)" "TrimSpace st \<noteq> []"
  shows "sqlStatementReversibility reg st \<le> sqlReversibility reg sql"
proof -
  let ?ss = "filter (\<lambda>st. TrimSpace st \<noteq> []) (splitSQLStatements sql)"
  have st: "st \<in> set ?ss" using assms by simp
  then have ne: "?ss \<noteq> []" by (rule in_set_not_Nil)
  have "sqlReversibility reg sql = foldl worst Reversible (map (sqlStatementReversibility reg) ?ss)"
    unfolding sqlReversibility_def Let_def foldl_worst_map [of "sqlStatementReversibility reg"] by (rule if_not_P) (rule ne)
  moreover have "sqlStatementReversibility reg st \<in> set (map (sqlStatementReversibility reg) ?ss)"
    unfolding set_map using st by (rule imageI)
  ultimately show ?thesis using rev.fold_ge by metis
qed

text \<open>A top-level write with no top-level WHERE behind it.\<close>

definition unscoped_write :: "string \<Rightarrow> bool" where
  "unscoped_write view \<longleftrightarrow>
     (\<exists>pre w post. sqlWordsWithDepth view = pre @ w # post \<and> w_depth w = 0 \<and>
        w_up w \<in> {''DELETE'', ''UPDATE''} \<and> (\<forall>x\<in>set post. w_depth x = 0 \<longrightarrow> w_up x \<noteq> ''WHERE''))"

lemma scan_clause_None: "\<forall>x\<in>set ws. w_depth x = 0 \<longrightarrow> w_up x \<noteq> ''WHERE'' \<Longrightarrow> snd (scan_clause n ws None) = None"
  by (induction n ws "None :: nat option" rule: scan_clause.induct) auto

lemma write_class_in: "w_depth w = 0 \<Longrightarrow> w_up w \<in> {''DELETE'', ''UPDATE''} \<Longrightarrow>
    write_class view post \<in> set (write_classes view (pre @ w # post))"
  by (induction pre) auto

lemma unscoped_write_class: "unscoped_write view \<Longrightarrow> scopedWriteClass view = Irreversible"
proof -
  assume "unscoped_write view"
  then obtain pre w post where w: "sqlWordsWithDepth view = pre @ w # post" "w_depth w = 0"
    "w_up w \<in> {''DELETE'', ''UPDATE''}" "\<forall>x\<in>set post. w_depth x = 0 \<longrightarrow> w_up x \<noteq> ''WHERE''"
    unfolding unscoped_write_def by blast
  have "write_class view post = Irreversible"
    using scan_clause_None [OF w(4), of "length view"]
    by (auto simp: write_class_def split: prod.splits option.splits)
  with write_class_in [OF w(2,3), of view post pre] w(1)
  have in_list: "Irreversible \<in> set (write_classes view (sqlWordsWithDepth view))" by simp
  from rev.fold_ge [OF this, of Reversible] show ?thesis
    using in_list by (auto simp: scopedWriteClass_def Let_def)
qed

lemma unscoped_write_keyword: "unscoped_write view \<Longrightarrow> sqlKeywordFallback view = Irreversible"
proof -
  assume u: "unscoped_write view"
  then obtain pre w post where "sqlWordsWithDepth view = pre @ w # post" "w_up w \<in> {''DELETE'', ''UPDATE''}"
    unfolding unscoped_write_def by blast
  then have "w \<in> set (sqlWordsWithDepth view)" "w_up w \<in> {''DELETE'', ''UPDATE''}" by simp_all
  then have "''DELETE'' \<in> set (sqlWordSet view) \<or> ''UPDATE'' \<in> set (sqlWordSet view)"
    using words_in_set [of w 0 0 view] by (auto simp: sqlWordsWithDepth_def)
  then show ?thesis using unscoped_write_class [OF u] by (auto simp: sqlKeywordFallback_def Let_def)
qed

text \<open>Splitting loses nothing but a blank tail.\<close>

lemma Join_snoc: "ps \<noteq> [] \<Longrightarrow> Join (p # ps) sep = p @ sep @ Join ps sep"
  by (cases ps) auto

lemma split_stmts_join:
  "list_all2 keeps ks cs \<Longrightarrow>
     \<exists>tl. cur @ cs = Join (split_stmts cur ks cs @ tl) '';'' \<and>
       split_stmts cur ks cs @ tl \<noteq> [] \<and> (\<forall>t\<in>set tl. TrimSpace t = [])"
proof (induction arbitrary: cur rule: list_all2_induct)
  case Nil
  show ?case
    by (cases "TrimSpace cur = []") (auto intro: exI [of _ "[cur]"] exI [of _ "[]"])
next
  case (Cons k ks c cs)
  show ?case
  proof (cases "k = CHR '';''")
    case True
    with Cons.hyps have "c = CHR '';''" by (simp add: keeps_def)
    moreover from Cons.IH [of "[]"] obtain tl where
      "cs = Join (split_stmts [] ks cs @ tl) '';''" "split_stmts [] ks cs @ tl \<noteq> []" "\<forall>t\<in>set tl. TrimSpace t = []"
      by auto
    ultimately show ?thesis using True by (intro exI [of _ tl]) (simp add: Join_snoc)
  next
    case False
    from Cons.IH [of "cur @ [c]"] obtain tl where
      "(cur @ [c]) @ cs = Join (split_stmts (cur @ [c]) ks cs @ tl) '';''"
      "split_stmts (cur @ [c]) ks cs @ tl \<noteq> []" "\<forall>t\<in>set tl. TrimSpace t = []"
      by blast
    with False show ?thesis by (intro exI [of _ tl]) simp
  qed
qed

lemma splitSQLStatements_join:
  "\<exists>tl. sql = Join (splitSQLStatements sql @ tl) '';'' \<and> (\<forall>t\<in>set tl. TrimSpace t = [])"
proof -
  have k: "list_all2 keeps (sqlSkeleton sql) sql" by (rule sqlSkeleton_keeps)
  from split_stmts_join [OF k, of "[]"] show ?thesis
    unfolding splitSQLStatements_def by auto
qed

section \<open>Properties\<close>

text \<open>Splitting a text into statements loses nothing: joining the pieces with semicolons
  gives the text back, but for a tail of blanks, so no part of it escapes grading.\<close>

theorem sql_split_lossless:
  "\<exists>tl. sql = Join (splitSQLStatements sql @ tl) '';'' \<and> list_all (\<lambda>t. TrimSpace t = []) tl"
  using splitSQLStatements_join [of sql] by (simp add: list_all_iff)

text \<open>C36: a statement whose code, outside quotes and comments, has the word DROP or TRUNCATE, or a
  top-level DELETE or UPDATE with no top-level WHERE after it, makes the whole text
  \<open>Irreversible\<close>, wherever it stands in the text and whatever dialect parsers are linked.\<close>

theorem destructive_sql_irreversible:
  assumes "st \<in> set (splitSQLStatements sql)" and "TrimSpace st \<noteq> []"
    and "''DROP'' \<in> set (sqlWordSet (sqlSkeleton st)) \<or> ''TRUNCATE'' \<in> set (sqlWordSet (sqlSkeleton st)) \<or>
      unscoped_write (sqlSkeleton st)"
  shows "sqlReversibility reg sql = Irreversible"
proof -
  have k: "sqlKeywordFallback (sqlSkeleton st) = Irreversible"
  proof (cases "unscoped_write (sqlSkeleton st)")
    case True
    then show ?thesis by (rule unscoped_write_keyword)
  next
    case False
    with assms(3) show ?thesis by (auto simp: sqlKeywordFallback_def Let_def)
  qed
  have "sqlKeywordFallback (sqlSkeleton st) \<le> sqlStatementReversibility reg st" by (rule keyword_le_statement)
  also have "\<dots> \<le> sqlReversibility reg sql" using assms(1,2) by (rule statement_le_sql)
  finally show ?thesis using k by simp
qed

theorem destructive_sql_irreversible_witness:
  "sqlReversibility [] ''DELETE FROM t; SELECT * FROM u WHERE x'' = Irreversible"
proof (rule destructive_sql_irreversible)
  show "''DELETE FROM t'' \<in> set (splitSQLStatements ''DELETE FROM t; SELECT * FROM u WHERE x'')" by code_simp
  show "TrimSpace ''DELETE FROM t'' \<noteq> []" by code_simp
  have "sqlWordsWithDepth (sqlSkeleton ''DELETE FROM t'') =
      [] @ SqlWord ''DELETE'' 0 0 #
        [SqlWord ''FROM'' 7 0, SqlWord ''T'' 12 0]"
    by code_simp
  then have "unscoped_write (sqlSkeleton ''DELETE FROM t'')" unfolding unscoped_write_def by fastforce
  then show "''DROP'' \<in> set (sqlWordSet (sqlSkeleton ''DELETE FROM t'')) \<or>
      ''TRUNCATE'' \<in> set (sqlWordSet (sqlSkeleton ''DELETE FROM t'')) \<or>
      unscoped_write (sqlSkeleton ''DELETE FROM t'')" by blast
qed

end
