(* ===== verification/Paths.thy ===== *)
theory Paths
  imports Domain
begin

text \<open>
  Field lookup (\<open>resolveField\<close>, condition.go) and filesystem paths: the wildcard prefix
  matcher and \<open>path_classify\<close> (path_classify.go), and the canonical forms of a path that
  the protected-path guard and \<open>write_classify\<close> compare (protect.go). The build modelled
  is a POSIX one: the branches for \<open>runtime.GOOS == "windows"\<close> are not taken, and
  \<open>filepath.Clean\<close> is \<open>path.Clean\<close>. The shape-based rewriting of Windows paths is
  part of every build and is modelled.
\<close>

section \<open>Field lookup\<close>

fun walk_fields :: "string list \<Rightarrow> val \<Rightarrow> val option" where
  "walk_fields [] cur = Some cur"
| "walk_fields (part # ps) cur =
     (case cur of
        VMap m \<Rightarrow> (case mget m part of None \<Rightarrow> None | Some v \<Rightarrow> walk_fields ps v)
      | _ \<Rightarrow> None)"

definition resolveField :: "string \<Rightarrow> val gomap \<Rightarrow> val option" where
  "resolveField path flds =
     (case mget flds path of
        Some v \<Rightarrow> Some v
      | None \<Rightarrow> walk_fields (SplitByte path (CHR ''.'')) (VMap flds))"

section \<open>Prefix matching\<close>

definition isWindowsDriveLetterPath :: "string \<Rightarrow> bool" where
  "isWindowsDriveLetterPath s \<longleftrightarrow>
     (if length s < 3 then False
      else is_alpha (s ! 0) \<and> s ! 1 = CHR '':'' \<and> (s ! 2 = CHR 0x5C \<or> s ! 2 = CHR ''/''))"

definition normalizeIfWindowsPath :: "string \<Rightarrow> string" where
  "normalizeIfWindowsPath s =
     (if isWindowsDriveLetterPath s \<or> HasPrefix s [CHR 0x5C, CHR 0x5C]
      then ReplaceByte s (CHR 0x5C) (CHR ''/'') else s)"

text \<open>
  \<open>matchSegments\<close>: the loop over \<open>pParts\<close> with its index \<open>i\<close> into \<open>xParts\<close>. At
  a \<open>**\<close> the source restarts the match of the remaining pattern on the suffixes
  \<open>xParts[k:]\<close> of the WHOLE list, for every \<open>k\<close> from 0, not from the position reached.
\<close>

fun segments_loop :: "string list \<Rightarrow> nat \<Rightarrow> string list \<Rightarrow> bool" where
  "segments_loop [] i xParts = True"
| "segments_loop (pp # rest) i xParts =
     (if pp = ''**'' then
        (if rest = [] then True
         else list_ex (\<lambda>k. segments_loop rest 0 (drop k xParts)) [0..<Suc (length xParts)])
      else if length xParts \<le> i then False
      else if pp = ''*'' then
        (if xParts ! i = [] then False else segments_loop rest (Suc i) xParts)
      else if xParts ! i \<noteq> pp then False
      else segments_loop rest (Suc i) xParts)"

definition matchSegments :: "string list \<Rightarrow> string list \<Rightarrow> bool" where
  "matchSegments pParts xParts = segments_loop pParts 0 xParts"

definition matchPathPrefix :: "string \<Rightarrow> string \<Rightarrow> bool" where
  "matchPathPrefix path0 prefix0 =
     (let path = normalizeIfWindowsPath path0;
          prefix1 = normalizeIfWindowsPath prefix0;
          pfx = (if HasPrefix prefix1 ''/'' then path_Clean prefix1 else prefix1)
      in if CHR ''*'' \<notin> set pfx then
           (if path = pfx then True
            else if HasPrefix path pfx then
              (if HasSuffix pfx ''/'' then True
               else length path = length pfx \<or> path ! length pfx = CHR ''/'')
            else False)
         else matchSegments (SplitByte (TrimSuffix pfx ''/'') (CHR ''/'')) (SplitByte path (CHR ''/'')))"

section \<open>path\_classify\<close>

definition containsShellMeta :: "string \<Rightarrow> bool \<Rightarrow> bool" where
  "containsShellMeta s includeBackslash \<longleftrightarrow>
     list_ex (\<lambda>c. c \<in> {CHR '';'', CHR ''&'', CHR ''|'', CHR ''$'', CHR 0x60, CHR 0x0A, CHR 0x0D,
                        CHR 0x09, CHR 0x00, CHR ''<'', CHR ''>''}
                  \<or> (c = CHR 0x5C \<and> includeBackslash)) s"

text \<open>
  The two middle parts of \<open>evalPathClassify\<close>: the list of variants of the cleaned path
  (\<open>None\<close> is the early return for a path that does not resolve), and the deny and allow
  loops over it.
\<close>

definition pathVariants :: "runtime \<Rightarrow> PathRequire \<Rightarrow> string \<Rightarrow> string list option" where
  "pathVariants rt req cleaned =
     (if pr_ResolveSymlinks req
      then (case rt_symlinks rt cleaned of
              None \<Rightarrow> (if pr_DenyOnResolveFailure req then None else Some [cleaned])
            | Some resolved \<Rightarrow> Some (if resolved \<noteq> cleaned then [cleaned, resolved] else [cleaned]))
      else Some [cleaned])"

definition variantsViolate :: "PathRequire \<Rightarrow> string list \<Rightarrow> bool" where
  "variantsViolate req variants \<longleftrightarrow>
     (if list_ex (\<lambda>v. list_ex (matchPathPrefix v) (pr_DeniedCanonicalPrefixes req)) variants then True
      else if pr_AllowedCanonicalPrefixes req \<noteq> [] then
        list_ex (\<lambda>v. \<not> list_ex (matchPathPrefix v) (pr_AllowedCanonicalPrefixes req)) variants
      else False)"

definition evalPathClassify :: "runtime \<Rightarrow> PathClassify \<Rightarrow> val gomap \<Rightarrow> bool" where
  "evalPathClassify rt p flds =
     (let req = pc_Require p in
      case resolveField (pc_Field p) flds of
        Some (VStr path) \<Rightarrow>
          (let posixAbs = HasPrefix path ''/'' in
           if pr_AbsoluteOnly req \<and> \<not> filepath_IsAbs path \<and> \<not> posixAbs then True
           else if pr_DenyShellMetas req \<and> containsShellMeta path (pr_IncludeBackslash req) then True
           else
             let cleaned = (if pr_CleanFirst req then path_Clean path else path) in
             if 0 < pr_MaxPathLength req \<and> pr_MaxPathLength req < int (length cleaned) then True
             else (case pathVariants rt req cleaned of
                     None \<Rightarrow> True
                   | Some variants \<Rightarrow> variantsViolate req variants))
      | _ \<Rightarrow> True)"

section \<open>Canonical candidates of a path (protect.go)\<close>

text \<open>
  \<open>resolveSymlinksBestEffort\<close>: the loop walks up from \<open>p\<close> to the root. \<open>sfx\<close> holds the
  components below \<open>parent\<close>. The fuel bounds the number of iterations; \<open>None\<close> in the outer
  option is running out of fuel, which lemma \<open>symlink_loop_returns\<close> excludes.
\<close>

fun symlink_loop :: "runtime \<Rightarrow> nat \<Rightarrow> string \<Rightarrow> string \<Rightarrow> string option" where
  "symlink_loop rt 0 parent sfx = None"
| "symlink_loop rt (Suc fuel) parent sfx =
     (let np = filepath_Dir parent in
      if np = parent then Some []
      else
        let sfx' = (if sfx = [] then filepath_Base parent
                       else filepath_Join (filepath_Base parent) sfx)
        in case rt_symlinks rt np of
             Some r \<Rightarrow> Some (path_Clean (filepath_Join r sfx'))
           | None \<Rightarrow> symlink_loop rt fuel np sfx')"

definition resolveSymlinksBestEffort :: "runtime \<Rightarrow> string \<Rightarrow> string option" where
  "resolveSymlinksBestEffort rt p =
     (case rt_symlinks rt p of
        Some r \<Rightarrow> Some (path_Clean r)
      | None \<Rightarrow> symlink_loop rt (length p + 3) p [])"

definition canonicalCandidates :: "runtime \<Rightarrow> string \<Rightarrow> string list" where
  "canonicalCandidates rt p =
     (let posixAbs = HasPrefix p ''/'';
          abs = (if posixAbs then path_Clean p
                 else path_Clean (if \<not> filepath_IsAbs p
                        then (case rt_cwd rt of Some wd \<Rightarrow> filepath_Join wd p | None \<Rightarrow> p) else p))
      in case resolveSymlinksBestEffort rt abs of
           Some resolved \<Rightarrow> (if resolved \<noteq> [] \<and> resolved \<noteq> abs then [abs, resolved] else [abs])
         | None \<Rightarrow> [abs])"

text \<open>\<open>out\<close> also serves as the source's \<open>seen\<close> set: both hold the same strings.\<close>

fun add_unseen :: "string list \<Rightarrow> string list \<Rightarrow> string list" where
  "add_unseen out [] = out"
| "add_unseen out (c # cs) = add_unseen (if c \<in> set out then out else out @ [c]) cs"

fun expand_loop :: "runtime \<Rightarrow> string list \<Rightarrow> string list \<Rightarrow> string list" where
  "expand_loop rt out [] = out"
| "expand_loop rt out (p # ps) =
     (let q = TrimSpace p in
      if q = [] then expand_loop rt out ps
      else expand_loop rt (add_unseen out (canonicalCandidates rt q)) ps)"

definition expandPrefixes :: "runtime \<Rightarrow> string list \<Rightarrow> string list" where
  "expandPrefixes rt pfxs = expand_loop rt [] pfxs"


section \<open>Lemmas on paths\<close>

text \<open>The walk to the root stops: \<open>filepath.Dir\<close> shortens its argument, or leaves it fixed.\<close>

lemma sum_Join: "ps \<noteq> [] \<Longrightarrow> Suc (length (Join ps [c])) = sum_list (map (\<lambda>p. Suc (length p)) ps)"
proof (induction ps "[c]" rule: Join.induct)
  case (3 x y ys)
  then show ?case by simp
qed auto

lemma length_Join_le: "length (Join ps [c]) \<le> sum_list (map (\<lambda>p. Suc (length p)) ps)"
  using sum_Join [of ps c] by (cases "ps = []") auto

lemma sum_SplitByte: "sum_list (map (\<lambda>p. Suc (length p)) (SplitByte s c)) = Suc (length s)"
  using sum_Join [of "SplitByte s c" c] by (simp add: Join_SplitByte)

lemma sum_clean_comps:
  "sum_list (map (\<lambda>p. Suc (length p)) (clean_comps rooted acc cs))
     \<le> sum_list (map (\<lambda>p. Suc (length p)) acc)
        + sum_list (map (\<lambda>p. Suc (length p)) (filter (\<lambda>c. c \<noteq> []) cs))"
proof (induction rooted acc cs rule: clean_comps.induct)
  case (1 rooted acc)
  then show ?case by (simp add: rev_map [symmetric])
next
  case (2 rooted acc c cs)
  then show ?case
    by (fastforce split: list.splits if_splits)
qed

lemma filter_sum_le:
  "sum_list (map (\<lambda>p. Suc (length p)) (filter (\<lambda>c. c \<noteq> []) cs)) + length (filter (\<lambda>c. c = []) cs)
     = sum_list (map (\<lambda>p. Suc (length p)) cs)"
  by (induction cs) auto

lemma length_path_Clean: "p \<noteq> [] \<Longrightarrow> length (path_Clean p) \<le> length p"
proof -
  assume p: "p \<noteq> []"
  let ?S = "SplitByte p (CHR ''/'')"
  let ?sum = "\<lambda>cs. sum_list (map (\<lambda>p. Suc (length p)) cs)"
  let ?C = "clean_comps (HasPrefix p ''/'') [] ?S"
  have le: "?sum ?C + length (filter (\<lambda>c. c = []) ?S) \<le> Suc (length p)"
    using sum_clean_comps [of "HasPrefix p ''/''" "[]" ?S] filter_sum_le [of ?S] sum_SplitByte [of p "CHR ''/''"]
    by simp
  show ?thesis
  proof (cases "HasPrefix p ''/''")
    case True
    then obtain q where q: "p = CHR ''/'' # q" using p by (cases p) auto
    have "1 \<le> length (filter (\<lambda>c. c = []) ?S)" by (simp add: q)
    with le have C: "?sum ?C \<le> length p" by simp
    show ?thesis
    proof (cases "?C = []")
      case True
      with \<open>HasPrefix p ''/''\<close> p show ?thesis
        by (cases p) (auto simp: path_Clean_def Let_def)
    next
      case False
      with sum_Join [OF False, of "CHR ''/''"] C \<open>HasPrefix p ''/''\<close> p show ?thesis
        by (simp add: path_Clean_def Let_def)
    qed
  next
    case False
    with p le sum_Join [of ?C "CHR ''/''"] show ?thesis
      by (cases "?C = []") (auto simp: path_Clean_def Let_def Suc_le_eq)
  qed
qed


subsection \<open>Normal form of \<open>path.Clean\<close>\<close>

definition plain_comp :: "string \<Rightarrow> bool" where
  "plain_comp c \<longleftrightarrow> c \<noteq> [] \<and> c \<noteq> ''.'' \<and> c \<noteq> ''..''"

lemma clean_comps_rooted: "list_all plain_comp acc \<Longrightarrow> list_all plain_comp (clean_comps True acc cs)"
proof (induction cs arbitrary: acc)
  case Nil
  then show ?case by simp
next
  case (Cons c cs)
  then show ?case
    by (cases acc) (simp_all add: plain_comp_def)
qed

lemma clean_comps_plain: "list_all plain_comp cs \<Longrightarrow> clean_comps rooted acc cs = rev acc @ cs"
  by (induction cs arbitrary: acc) (auto simp: plain_comp_def)

lemma clean_comps_all:
  "P ''..'' \<Longrightarrow> list_all P acc \<Longrightarrow> list_all P cs \<Longrightarrow> list_all P (clean_comps rooted acc cs)"
proof (induction cs arbitrary: acc)
  case Nil
  then show ?case by simp
next
  case (Cons c cs)
  then show ?case by (cases acc) simp_all
qed

lemma path_Clean_rooted:
  assumes "HasPrefix p ''/''"
  obtains cs where "path_Clean p = CHR ''/'' # Join cs ''/''" "list_all plain_comp cs"
    "\<forall>c\<in>set cs. CHR ''/'' \<notin> set c"
proof
  let ?cs = "clean_comps True [] (SplitByte p (CHR ''/''))"
  show "path_Clean p = CHR ''/'' # Join ?cs ''/''"
    using assms by (cases p) (auto simp: path_Clean_def Let_def)
  show "list_all plain_comp ?cs" by (rule clean_comps_rooted) simp_all
  show "\<forall>c\<in>set ?cs. CHR ''/'' \<notin> set c"
    using clean_comps_all [of "\<lambda>c. CHR ''/'' \<notin> set c" "[]" "SplitByte p (CHR ''/'')" True] in_SplitByte
    by (auto simp: list_all_iff)
qed

lemma path_Clean_of_comps:
  assumes "list_all plain_comp cs" "\<forall>c\<in>set cs. CHR ''/'' \<notin> set c"
  shows "path_Clean (CHR ''/'' # Join cs ''/'') = CHR ''/'' # Join cs ''/''"
proof (cases "cs = []")
  case True
  then show ?thesis by (simp add: path_Clean_def Let_def)
next
  case False
  have "SplitByte (Join cs ''/'') (CHR ''/'') = cs"
    using False assms(2) by (intro SplitByte_Join) auto
  then show ?thesis
    using assms(1) by (simp add: path_Clean_def Let_def clean_comps_plain)
qed

lemma path_Clean_idem_rooted: "HasPrefix p ''/'' \<Longrightarrow> path_Clean (path_Clean p) = path_Clean p"
  by (metis path_Clean_rooted path_Clean_of_comps)

lemma HasPrefix_slash_iff: "HasPrefix p ''/'' \<longleftrightarrow> (\<exists>q. p = CHR ''/'' # q)"
  by (cases p) auto

lemma path_Clean_keeps_root: "HasPrefix p ''/'' \<Longrightarrow> HasPrefix (path_Clean p) ''/''"
  by (elim path_Clean_rooted) simp

lemma SplitByte_snoc_sep: "SplitByte (p @ [c]) c = SplitByte p c @ [[]]"
  by (induction p) (auto split: list.splits)

text \<open>A path that ends in a slash, other than the root, is not in normal form.\<close>

lemma path_Clean_trailing_slash:
  assumes "p = q @ ''/''" "q \<noteq> []"
  shows "length (path_Clean p) < length p"
proof -
  let ?S = "SplitByte p (CHR ''/'')"
  let ?sum = "\<lambda>cs. sum_list (map (\<lambda>p. Suc (length p)) cs)"
  let ?C = "clean_comps (HasPrefix p ''/'') [] ?S"
  have S: "?S = SplitByte q (CHR ''/'') @ [[]]"
    using assms(1) by (simp add: SplitByte_snoc_sep)
  have le: "?sum ?C + length (filter (\<lambda>c. c = []) ?S) \<le> Suc (length p)"
    using sum_clean_comps [of "HasPrefix p ''/''" "[]" ?S] filter_sum_le [of ?S] sum_SplitByte [of p "CHR ''/''"]
    by simp
  have p: "p \<noteq> []" "2 \<le> length p" using assms by (auto simp: Suc_le_eq)
  show ?thesis
  proof (cases "HasPrefix p ''/''")
    case True
    with assms obtain r where r: "q = CHR ''/'' # r" by (cases q) auto
    have "2 \<le> length (filter (\<lambda>c. c = []) ?S)" unfolding S r by simp
    with le have C: "?sum ?C < length p" by simp
    show ?thesis
    proof (cases "?C = []")
      case True
      with \<open>HasPrefix p ''/''\<close> p show ?thesis by (simp add: path_Clean_def Let_def)
    next
      case False
      with sum_Join [OF False, of "CHR ''/''"] C \<open>HasPrefix p ''/''\<close> p show ?thesis
        by (simp add: path_Clean_def Let_def)
    qed
  next
    case False
    have "1 \<le> length (filter (\<lambda>c. c = []) ?S)" unfolding S by simp
    with le have C: "?sum ?C \<le> length p" by simp
    show ?thesis
    proof (cases "?C = []")
      case True
      with \<open>\<not> HasPrefix p ''/''\<close> p show ?thesis by (simp add: path_Clean_def Let_def)
    next
      case False
      with sum_Join [OF False, of "CHR ''/''"] C \<open>\<not> HasPrefix p ''/''\<close> p show ?thesis
        by (auto simp: path_Clean_def Let_def)
    qed
  qed
qed

subsection \<open>The walk to the root\<close>

lemma filepath_Dir_cases: "filepath_Dir p = p \<or> filepath_Dir p = ''.'' \<or> length (filepath_Dir p) < length p"
proof -
  let ?d = "rev (dropWhile (\<lambda>c. c \<noteq> CHR ''/'') (rev p))"
  have len: "length ?d \<le> length p" using length_dropWhile_le [of "\<lambda>c. c \<noteq> CHR ''/''" "rev p"] by simp
  show ?thesis
  proof (cases "?d = []")
    case True
    then show ?thesis by (simp add: filepath_Dir_def path_Clean_def)
  next
    case False
    have c: "length (path_Clean ?d) \<le> length ?d" using False by (rule length_path_Clean)
    show ?thesis
    proof (cases "length ?d < length p")
      case True
      with c show ?thesis by (simp add: filepath_Dir_def)
    next
      case False
      with len have eq: "length (dropWhile (\<lambda>c. c \<noteq> CHR ''/'') (rev p)) = length (rev p)" by simp
      then have dp: "dropWhile (\<lambda>c. c \<noteq> CHR ''/'') (rev p) = rev p"
        by (metis append_eq_conv_conj append_self_conv2 length_0_conv length_append
              add_cancel_left_left takeWhile_dropWhile_id)
      then have p: "?d = p" by simp
      with \<open>?d \<noteq> []\<close> have "p \<noteq> []" by simp
      moreover have "hd (rev p) = CHR ''/''"
        using hd_dropWhile [of "\<lambda>c. c \<noteq> CHR ''/''" "rev p"] dp \<open>p \<noteq> []\<close> by simp
      ultimately obtain q where q: "p = q @ ''/''"
        by (metis append_butlast_last_id hd_rev)
      show ?thesis
      proof (cases "q = []")
        case True
        then show ?thesis using p q by (simp add: filepath_Dir_def path_Clean_def Let_def)
      next
        case False
        then show ?thesis using p path_Clean_trailing_slash [OF q] by (simp add: filepath_Dir_def)
      qed
    qed
  qed
qed

definition dir_rank :: "string \<Rightarrow> nat" where
  "dir_rank p = (if p = ''.'' then 0 else Suc (length p))"

lemma dot_Dir: "filepath_Dir ''.'' = ''.''"
  by (simp add: filepath_Dir_def path_Clean_def)

lemma dir_rank_decreases: "filepath_Dir p \<noteq> p \<Longrightarrow> dir_rank (filepath_Dir p) < dir_rank p"
  using filepath_Dir_cases [of p] dot_Dir by (auto simp: dir_rank_def)

lemma symlink_loop_returns: "dir_rank p < fuel \<Longrightarrow> symlink_loop rt fuel p sfx \<noteq> None"
proof (induction fuel arbitrary: p sfx)
  case 0
  then show ?case by simp
next
  case (Suc fuel)
  show ?case
  proof (cases "filepath_Dir p = p")
    case True
    then show ?thesis by (simp add: Let_def)
  next
    case False
    with dir_rank_decreases Suc.prems have "dir_rank (filepath_Dir p) < fuel"
      by (metis less_trans_Suc not_less_eq)
    with Suc.IH False show ?thesis
      by (auto simp: Let_def split: option.splits)
  qed
qed

lemma resolveSymlinks_returns: "resolveSymlinksBestEffort rt p \<noteq> None"
  using symlink_loop_returns [of p "length p + 3" rt "[]"]
  by (auto simp: resolveSymlinksBestEffort_def dir_rank_def split: option.splits)

section \<open>What the matcher decides\<close>

text \<open>
  The matcher as its comment describes it: the pattern matches a prefix of the path's
  components, \<open>*\<close> one non-empty component, \<open>**\<close> zero or more components from the
  position reached.
\<close>

fun glob_spec :: "string list \<Rightarrow> string list \<Rightarrow> bool" where
  "glob_spec [] xs = True"
| "glob_spec (pp # rest) xs =
     (if pp = ''**'' then list_ex (\<lambda>k. glob_spec rest (drop k xs)) [0..<Suc (length xs)]
      else (case xs of [] \<Rightarrow> False
            | x # xs' \<Rightarrow> (if pp = ''*'' then x \<noteq> [] else x = pp) \<and> glob_spec rest xs'))"

declare segments_loop.simps(2) [simp del] glob_spec.simps(2) [simp del]

lemma list_ex_upto: "list_ex P [0..<Suc n] \<longleftrightarrow> (\<exists>k\<le>n. P k)"
  by (simp add: list_ex_iff Bex_def less_Suc_eq_le del: upt_Suc)

lemma glob_spec_starstar:
  "glob_spec (''**'' # rest) xs \<longleftrightarrow> (\<exists>k\<le>length xs. glob_spec rest (drop k xs))"
  by (simp add: glob_spec.simps(2) list_ex_upto del: upt_Suc)

lemma segments_starstar:
  "segments_loop (''**'' # rest) i xs \<longleftrightarrow> (\<exists>k\<le>length xs. segments_loop rest 0 (drop k xs))"
  by (cases rest) (auto simp: segments_loop.simps(2) list_ex_upto simp del: upt_Suc)

lemma glob_spec_other:
  "pp \<noteq> ''**'' \<Longrightarrow> glob_spec (pp # rest) (drop i xs) \<longleftrightarrow>
     i < length xs \<and> (if pp = ''*'' then xs ! i \<noteq> [] else xs ! i = pp) \<and> glob_spec rest (drop (Suc i) xs)"
  by (cases "i < length xs") (auto simp: glob_spec.simps(2) Cons_nth_drop_Suc [symmetric])

lemma segments_other:
  "pp \<noteq> ''**'' \<Longrightarrow> segments_loop (pp # rest) i xs \<longleftrightarrow>
     i < length xs \<and> (if pp = ''*'' then xs ! i \<noteq> [] else xs ! i = pp) \<and> segments_loop rest (Suc i) xs"
  by (auto simp: segments_loop.simps(2))

lemma segments_complete: "glob_spec ps (drop i xs) \<Longrightarrow> i \<le> length xs \<Longrightarrow> segments_loop ps i xs"
proof (induction ps arbitrary: i xs)
  case Nil
  then show ?case by simp
next
  case (Cons pp rest)
  show ?case
  proof (cases "pp = ''**''")
    case True
    with Cons.prems obtain k where "k \<le> length (drop i xs)" "glob_spec rest (drop k (drop i xs))"
      by (auto simp: glob_spec_starstar)
    then have "i + k \<le> length xs" "segments_loop rest 0 (drop (k + i) xs)"
      using Cons.prems(2) Cons.IH [of 0 "drop (k + i) xs"] by auto
    then show ?thesis using True by (auto simp: segments_starstar add.commute)
  next
    case False
    with Cons show ?thesis by (auto simp: glob_spec_other segments_other)
  qed
qed

lemma segments_exact:
  "''**'' \<notin> set (butlast ps) \<Longrightarrow> i \<le> length xs \<Longrightarrow> segments_loop ps i xs \<longleftrightarrow> glob_spec ps (drop i xs)"
proof (induction ps arbitrary: i)
  case Nil
  then show ?case by simp
next
  case (Cons pp rest)
  show ?case
  proof (cases "pp = ''**''")
    case True
    with Cons.prems have "rest = []" by (cases rest) auto
    with True show ?thesis by (auto simp: glob_spec_starstar segments_starstar)
  next
    case False
    with Cons show ?thesis
      by (cases rest) (auto simp: glob_spec_other segments_other)
  qed
qed

lemma matchSegments_exact:
  assumes "''**'' \<notin> set (butlast (tl ps))"
  shows "matchSegments ps xs \<longleftrightarrow> glob_spec ps xs"
proof (cases ps)
  case Nil
  then show ?thesis by (simp add: matchSegments_def)
next
  case (Cons pp rest)
  show ?thesis
  proof (cases "pp = ''**''")
    case True
    with Cons assms have "segments_loop rest 0 ys = glob_spec rest ys" for ys
      using segments_exact [of rest 0 ys] by simp
    with True Cons show ?thesis
      by (simp add: matchSegments_def segments_starstar glob_spec_starstar)
  next
    case False
    with Cons assms have "''**'' \<notin> set (butlast ps)" by (cases rest) auto
    then show ?thesis using segments_exact [of ps 0 xs] by (simp add: matchSegments_def)
  qed
qed

lemma normalize_rooted [simp]: "normalizeIfWindowsPath (CHR ''/'' # q) = CHR ''/'' # q"
  by (auto simp: normalizeIfWindowsPath_def isWindowsDriveLetterPath_def is_alpha_def is_upper_def
      is_lower_def byte_def)

lemma clean_no_trailing_slash:
  "path_Clean p = p \<Longrightarrow> p \<noteq> ''/'' \<Longrightarrow> \<not> HasSuffix p ''/''"
proof
  assume "path_Clean p = p" "p \<noteq> ''/''" "HasSuffix p ''/''"
  then obtain q where "p = q @ ''/''" "q \<noteq> []"
    by (auto simp: HasSuffix_iff_suffix suffix_def)
  with path_Clean_trailing_slash [of p q] \<open>path_Clean p = p\<close> show False by simp
qed

lemma SplitByte_boundary:
  "c \<notin> set b \<or> True \<Longrightarrow> SplitByte (a @ c # b) c = SplitByte a c @ SplitByte b c"
  by (induction a) (auto split: list.splits)

lemma split_prefix_iff:
  "prefix (SplitByte a c) (SplitByte s c) \<longleftrightarrow> s = a \<or> HasPrefix s (a @ [c])"
proof
  assume "prefix (SplitByte a c) (SplitByte s c)"
  then obtain r where r: "SplitByte s c = SplitByte a c @ r" by (auto simp: prefix_def)
  show "s = a \<or> HasPrefix s (a @ [c])"
  proof (cases "r = []")
    case True
    with r show ?thesis by (metis Join_SplitByte append_Nil2)
  next
    case False
    have "\<forall>p\<in>set (SplitByte s c). c \<notin> set p" by (auto dest: in_SplitByte)
    with r have "SplitByte (Join r [c]) c = r" using False by (intro SplitByte_Join) auto
    then have "SplitByte s c = SplitByte (a @ c # Join r [c]) c"
      using r by (simp add: SplitByte_boundary)
    then have "s = a @ c # Join r [c]" by (metis Join_SplitByte)
    then show ?thesis by (auto simp: HasPrefix_iff_prefix)
  qed
next
  assume "s = a \<or> HasPrefix s (a @ [c])"
  then show "prefix (SplitByte a c) (SplitByte s c)"
    by (auto simp: HasPrefix_iff_prefix prefix_def SplitByte_boundary)
qed

text \<open>
  A literal prefix in normal form matches the paths that continue it at a component boundary,
  never a longer name that starts with the same bytes.
\<close>

lemma matchPathPrefix_literal:
  assumes "HasPrefix path ''/''" "HasPrefix pfx ''/''" "CHR ''*'' \<notin> set (path_Clean pfx)"
    "path_Clean pfx \<noteq> ''/''"
  shows "matchPathPrefix path pfx \<longleftrightarrow>
    prefix (SplitByte (path_Clean pfx) (CHR ''/'')) (SplitByte path (CHR ''/''))"
proof -
  let ?c = "path_Clean pfx"
  have ns: "\<not> HasSuffix ?c ''/''"
    using assms by (intro clean_no_trailing_slash path_Clean_idem_rooted)
  have n: "normalizeIfWindowsPath path = path" "normalizeIfWindowsPath pfx = pfx"
    using assms(1,2) by (auto simp: HasPrefix_slash_iff)
  have "matchPathPrefix path pfx \<longleftrightarrow>
      path = ?c \<or> (HasPrefix path ?c \<and> (length path = length ?c \<or> path ! length ?c = CHR ''/''))"
    unfolding matchPathPrefix_def Let_def n using assms(2,3) ns by simp
  also have "\<dots> \<longleftrightarrow> path = ?c \<or> HasPrefix path (?c @ ''/'')"
    by (auto simp: HasPrefix_iff_prefix prefix_def nth_append) (metis neq_Nil_conv nth_Cons_0)
  finally show ?thesis by (simp add: split_prefix_iff)
qed

lemma pathVariants_Some:
  "pathVariants rt req c = Some vs \<Longrightarrow>
     c \<in> set vs \<and> (pr_ResolveSymlinks req \<longrightarrow> (\<forall>r. rt_symlinks rt c = Some r \<longrightarrow> r \<in> set vs))
     \<and> set vs \<subseteq> insert c (set_option (rt_symlinks rt c))"
  by (auto simp: pathVariants_def split: option.splits if_splits)

lemma variantsViolate_iff:
  "\<not> variantsViolate req vs \<longleftrightarrow>
     (\<forall>v\<in>set vs. (\<forall>d\<in>set (pr_DeniedCanonicalPrefixes req). \<not> matchPathPrefix v d) \<and>
        (pr_AllowedCanonicalPrefixes req \<noteq> [] \<longrightarrow>
          (\<exists>a\<in>set (pr_AllowedCanonicalPrefixes req). matchPathPrefix v a)))"
  by (auto simp: variantsViolate_def list_ex_iff)

definition path_cleaned :: "PathRequire \<Rightarrow> string \<Rightarrow> string" where
  "path_cleaned req path = (if pr_CleanFirst req then path_Clean path else path)"

lemma evalPathClassify_pass:
  assumes "\<not> evalPathClassify rt p flds"
  obtains path vs where
    "resolveField (pc_Field p) flds = Some (VStr path)"
    "pathVariants rt (pc_Require p) (path_cleaned (pc_Require p) path) = Some vs"
    "\<not> variantsViolate (pc_Require p) vs"
  using assms
  by (auto simp: evalPathClassify_def Let_def path_cleaned_def split: option.splits val.splits if_split_asm)

section \<open>Canonical candidates\<close>

lemma canonicalCandidates_clean: "HasPrefix p ''/'' \<Longrightarrow> path_Clean p \<in> set (canonicalCandidates rt p)"
  by (auto simp: canonicalCandidates_def Let_def split: option.splits)

lemma set_add_unseen: "set (add_unseen out cs) = set out \<union> set cs"
  by (induction out cs rule: add_unseen.induct) auto

lemma set_expand_loop:
  "set (expand_loop rt out ps) =
     set out \<union> (\<Union>p\<in>{p \<in> set ps. TrimSpace p \<noteq> []}. set (canonicalCandidates rt (TrimSpace p)))"
  by (induction rt out ps rule: expand_loop.induct) (auto simp: Let_def set_add_unseen)

lemma set_expandPrefixes:
  "set (expandPrefixes rt ps) =
     (\<Union>p\<in>{p \<in> set ps. TrimSpace p \<noteq> []}. set (canonicalCandidates rt (TrimSpace p)))"
  by (simp add: expandPrefixes_def set_expand_loop)

section \<open>Properties\<close>

text \<open>A literal policy prefix without wildcard, once cleaned, matches a rooted path exactly when
  its components are the leading components of the path: \<open>/etc/shadow\<close> covers
  \<open>/etc/shadow/x\<close> and never \<open>/etc/shadow2\<close>.\<close>

theorem literal_prefix_component_boundary:
  assumes "HasPrefix path ''/''" "HasPrefix pfx ''/''"
    "CHR ''*'' \<notin> set (path_Clean pfx)" "path_Clean pfx \<noteq> ''/''"
  shows "matchPathPrefix path pfx \<longleftrightarrow>
    prefix (SplitByte (path_Clean pfx) (CHR ''/'')) (SplitByte path (CHR ''/''))"
  using assms by (rule matchPathPrefix_literal)

theorem literal_prefix_component_boundary_witness:
  "\<not> matchPathPrefix ''/etc/shadow2'' ''/etc//shadow/''"
proof -
  have "path_Clean ''/etc//shadow/'' = ''/etc/shadow''" by code_simp
  then show ?thesis
    using literal_prefix_component_boundary [of "''/etc/shadow2''" "''/etc//shadow/''"] by simp
qed

text \<open>The wildcard matcher accepts everything its documented meaning accepts (\<open>*\<close> one
  non-empty component, \<open>**\<close> zero or more components from the position reached), and accepts
  nothing more when \<open>**\<close> stands only first or last in the pattern.\<close>

theorem wildcard_matcher_meaning:
  "(glob_spec ps xs \<longrightarrow> matchSegments ps xs) \<and>
   (''**'' \<notin> set (butlast (tl ps)) \<longrightarrow> (matchSegments ps xs \<longleftrightarrow> glob_spec ps xs))"
  using segments_complete [of ps 0 xs] matchSegments_exact [of ps xs] by (simp add: matchSegments_def)

theorem wildcard_matcher_meaning_witness:
  "matchSegments [[], ''home'', ''*'', ''.ssh'', ''**''] [[], ''home'', ''eve'', ''.ssh'', ''id'']
   \<and> \<not> matchSegments [[], ''home'', ''*'', ''.ssh'', ''**''] [[], ''home'', ''.ssh'']"
proof -
  have "glob_spec [[], ''home'', ''*'', ''.ssh'', ''**''] [[], ''home'', ''eve'', ''.ssh'', ''id'']"
    "\<not> glob_spec [[], ''home'', ''*'', ''.ssh'', ''**''] [[], ''home'', ''.ssh'']"
    by code_simp+
  then show ?thesis
    using wildcard_matcher_meaning [of "[[], ''home'', ''*'', ''.ssh'', ''**'']"] by simp
qed

text \<open>With \<open>**\<close> inside the pattern the matcher also accepts paths its comment excludes:
  the rest of the pattern is tried on every suffix of the whole path, so the literal components
  before \<open>**\<close> are matched twice. An allow-list entry \<open>/srv/**/srv/public\<close> admits
  \<open>/srv/public\<close>.\<close>

theorem wildcard_restart_overmatches:
  "matchPathPrefix ''/srv/public'' ''/srv/**/srv/public'' \<and>
   \<not> glob_spec (SplitByte ''/srv/**/srv/public'' (CHR ''/'')) (SplitByte ''/srv/public'' (CHR ''/''))"
  by code_simp

text \<open>When \<open>path_classify\<close> passes a call, the field is a string, and every variant of the
  cleaned path (the resolved one included when resolution is on and succeeds) is under no denied
  prefix and, if there is an allow-list, under one of its prefixes.\<close>

theorem path_classify_pass:
  assumes "\<not> evalPathClassify rt p flds"
  shows "\<exists>path vs. resolveField (pc_Field p) flds = Some (VStr path) \<and>
    path_cleaned (pc_Require p) path \<in> set vs \<and>
    (pr_ResolveSymlinks (pc_Require p) \<longrightarrow>
      (\<forall>r. rt_symlinks rt (path_cleaned (pc_Require p) path) = Some r \<longrightarrow> r \<in> set vs)) \<and>
    (\<forall>v\<in>set vs. (\<forall>d\<in>set (pr_DeniedCanonicalPrefixes (pc_Require p)). \<not> matchPathPrefix v d) \<and>
       (pr_AllowedCanonicalPrefixes (pc_Require p) \<noteq> [] \<longrightarrow>
         (\<exists>a\<in>set (pr_AllowedCanonicalPrefixes (pc_Require p)). matchPathPrefix v a)))"
proof -
  from assms obtain path vs where
    "resolveField (pc_Field p) flds = Some (VStr path)"
    "pathVariants rt (pc_Require p) (path_cleaned (pc_Require p) path) = Some vs"
    "\<not> variantsViolate (pc_Require p) vs"
    by (rule evalPathClassify_pass)
  then show ?thesis
    by (intro exI [of _ path] exI [of _ vs]) (auto simp: variantsViolate_iff dest: pathVariants_Some)
qed

definition sample_runtime :: runtime where
  "sample_runtime =
     \<lparr> rt_regex = (\<lambda>p. Some (\<lambda>s. Contains s p)), rt_parse_float = (\<lambda>s. None), rt_show_float = (\<lambda>f. ''0''),
       rt_json = (\<lambda>s. None), rt_symlinks = (\<lambda>p. if p = ''/'' then Some ''/'' else None),
       rt_cwd = Some ''/work'', rt_url = (\<lambda>s. None) \<rparr>"

definition sample_path_rule :: PathClassify where
  "sample_path_rule =
     \<lparr> pc_Field = ''path'',
       pc_Require = \<lparr> pr_CleanFirst = True, pr_AbsoluteOnly = True, pr_ResolveSymlinks = True,
         pr_DenyOnResolveFailure = False, pr_DeniedCanonicalPrefixes = [''/etc''],
         pr_AllowedCanonicalPrefixes = [''/srv''], pr_DenyShellMetas = True,
         pr_IncludeBackslash = False, pr_MaxPathLength = 0 \<rparr> \<rparr>"

theorem path_classify_pass_witness:
  "\<not> evalPathClassify sample_runtime sample_path_rule [(''path'', VStr ''/srv/./a'')] \<and>
   (\<exists>path. resolveField (pc_Field sample_path_rule) [(''path'', VStr ''/srv/./a'')] = Some (VStr path))"
proof -
  have "\<not> evalPathClassify sample_runtime sample_path_rule [(''path'', VStr ''/srv/./a'')]"
    by code_simp
  with path_classify_pass [OF this] show ?thesis by blast
qed

text \<open>C40: the walk of \<open>resolveSymlinksBestEffort\<close> up to the root always ends, whatever the file
  system answers: a path of \<open>n\<close> bytes needs at most \<open>n + 2\<close> steps.\<close>

theorem symlink_walk_terminates: "resolveSymlinksBestEffort rt p \<noteq> None"
  by (rule resolveSymlinks_returns)

text \<open>The lexical normal form of a rooted path is a rooted list of plain components, with no
  empty, \<open>.\<close> or \<open>..\<close> component, and cleaning it again changes nothing; it is always among
  the canonical candidates the guard compares.\<close>

theorem canonical_candidates_have_normal_form:
  assumes "HasPrefix p ''/''"
  shows "\<exists>cs. path_Clean p = CHR ''/'' # Join cs ''/'' \<and> list_all plain_comp cs \<and>
    path_Clean (path_Clean p) = path_Clean p \<and> path_Clean p \<in> set (canonicalCandidates rt p)"
proof -
  obtain cs where "path_Clean p = CHR ''/'' # Join cs ''/''" "list_all plain_comp cs"
    using path_Clean_rooted [OF assms] .
  then show ?thesis
    using path_Clean_idem_rooted [OF assms] canonicalCandidates_clean [OF assms] by blast
qed

theorem canonical_candidates_have_normal_form_witness:
  "path_Clean (path_Clean ''/a/../etc/./x'') = ''/etc/x'' \<and>
   ''/etc/x'' \<in> set (canonicalCandidates sample_runtime ''/a/../etc/./x'')"
proof -
  have "path_Clean ''/a/../etc/./x'' = ''/etc/x''" by code_simp
  then show ?thesis
    using canonical_candidates_have_normal_form [of "''/a/../etc/./x''" sample_runtime] by auto
qed

end
