(* ===== verification/Shell_Tokens.thy ===== *)
theory Shell_Tokens
  imports Paths
begin

text \<open>
  The shell tokenizer of shell\_tokenize.go. The scanners keep the source's form: an index
  \<open>i\<close> into the command \<open>s\<close>, every access \<open>s ! i\<close> guarded by \<open>i < length s\<close>. An
  index may pass the end by one (\<open>i += 2\<close> on a trailing backslash), which the bounds lemmas
  account for. A word in progress is its buffer, its start (\<open>None\<close> when no word has
  begun, the source's \<open>started\<close> and \<open>wordStart\<close>) and its \<open>unresolved\<close> flag.
\<close>

section \<open>Skipping quoted and substituted regions\<close>

function scan_to :: "string \<Rightarrow> char \<Rightarrow> nat \<Rightarrow> nat" where
  "scan_to s q i = (if i < length s \<and> s ! i \<noteq> q then scan_to s q (Suc i) else i)"
  by pat_completeness auto
termination
  by (relation "measure (\<lambda>(s, q, i). length s - i)") auto

declare scan_to.simps [simp del]

definition skipSingleQuoteRaw :: "string \<Rightarrow> nat \<Rightarrow> nat" where
  "skipSingleQuoteRaw s i =
     (let j = scan_to s (CHR 0x27) (i + 1) in if j < length s then j + 1 else j)"

text \<open>
  The loop that \<open>skipDollarSingleQuote\<close>, \<open>skipDoubleQuoteRaw\<close> and
  \<open>skipBacktick\<close> write out each with its own closing character.
\<close>

function skip_escaped :: "string \<Rightarrow> char \<Rightarrow> nat \<Rightarrow> nat" where
  "skip_escaped s q i =
     (if i < length s then
        (if s ! i = CHR 0x5C \<and> i + 1 < length s then skip_escaped s q (i + 2)
         else if s ! i = q then i + 1
         else skip_escaped s q (i + 1))
      else i)"
  by pat_completeness auto
termination
  by (relation "measure (\<lambda>(s, q, i). length s - i)") auto

declare skip_escaped.simps [simp del]

definition skipDollarSingleQuote :: "string \<Rightarrow> nat \<Rightarrow> nat" where
  "skipDollarSingleQuote s i = skip_escaped s (CHR 0x27) (i + 1)"

definition skipDoubleQuoteRaw :: "string \<Rightarrow> nat \<Rightarrow> nat" where
  "skipDoubleQuoteRaw s i = skip_escaped s (CHR 0x22) (i + 1)"

definition skipBacktick :: "string \<Rightarrow> nat \<Rightarrow> nat" where
  "skipBacktick s i = skip_escaped s (CHR 0x60) (i + 1)"

lemma scan_to_ge: "i \<le> scan_to s q i"
proof (induction s q i rule: scan_to.induct)
  case (1 s q i)
  then show ?case by (subst scan_to.simps) auto
qed

lemma skip_escaped_ge: "i \<le> skip_escaped s q i"
proof (induction s q i rule: skip_escaped.induct)
  case (1 s q i)
  then show ?case by (subst skip_escaped.simps) force
qed

lemma skip_progress [simp]:
  "i < skipSingleQuoteRaw s i" "i < skipDollarSingleQuote s i"
  "i < skipDoubleQuoteRaw s i" "i < skipBacktick s i"
  using scan_to_ge [of "i + 1" s "CHR 0x27"] skip_escaped_ge [of "i + 1" s "CHR 0x27"]
    skip_escaped_ge [of "i + 1" s "CHR 0x22"] skip_escaped_ge [of "i + 1" s "CHR 0x60"]
  by (simp_all add: skipSingleQuoteRaw_def skipDollarSingleQuote_def skipDoubleQuoteRaw_def
      skipBacktick_def Let_def)

lemma scan_to_le: "i \<le> length s \<Longrightarrow> scan_to s q i \<le> length s"
proof (induction s q i rule: scan_to.induct)
  case (1 s q i)
  then show ?case by (subst scan_to.simps) auto
qed

lemma skip_escaped_le: "i \<le> length s \<Longrightarrow> skip_escaped s q i \<le> length s"
proof (induction s q i rule: skip_escaped.induct)
  case (1 s q i)
  then show ?case by (subst skip_escaped.simps) auto
qed

lemma skip_bound:
  assumes "i < length s"
  shows "skipSingleQuoteRaw s i \<le> length s" "skipDollarSingleQuote s i \<le> length s"
    "skipDoubleQuoteRaw s i \<le> length s" "skipBacktick s i \<le> length s"
  using assms scan_to_le [of "Suc i" s "CHR 0x27"] skip_escaped_le [of "Suc i" s]
  by (simp_all add: skipSingleQuoteRaw_def skipDollarSingleQuote_def skipDoubleQuoteRaw_def
      skipBacktick_def Let_def)

text \<open>
  \<open>skipCommandSubst\<close> and \<open>skipParamExpansion\<close>: one loop with the bracket pair as a
  parameter. The backslash case skips two bytes without looking whether there are two.
\<close>

function skip_nested :: "string \<Rightarrow> char \<Rightarrow> char \<Rightarrow> int \<Rightarrow> nat \<Rightarrow> nat" where
  "skip_nested s opn cls depth i =
     (if i < length s then
        (let c = s ! i in
         if c = CHR 0x27 then skip_nested s opn cls depth (skipSingleQuoteRaw s i)
         else if c = CHR 0x22 then skip_nested s opn cls depth (skipDoubleQuoteRaw s i)
         else if c = CHR 0x60 then skip_nested s opn cls depth (skipBacktick s i)
         else if c = CHR 0x5C then skip_nested s opn cls depth (i + 2)
         else if c = opn then skip_nested s opn cls (depth + 1) (i + 1)
         else if c = cls then
           (if depth - 1 = 0 then i + 1 else skip_nested s opn cls (depth - 1) (i + 1))
         else skip_nested s opn cls depth (i + 1))
      else i)"
  by pat_completeness auto
termination
  by (relation "measure (\<lambda>(s, opn, cls, depth, i). length s - i)") (auto intro: diff_less_mono2)

declare skip_nested.simps [simp del]

definition skipCommandSubst :: "string \<Rightarrow> nat \<Rightarrow> nat" where
  "skipCommandSubst s i = skip_nested s (CHR ''('') (CHR '')'') 0 i"

definition skipParamExpansion :: "string \<Rightarrow> nat \<Rightarrow> nat" where
  "skipParamExpansion s i = skip_nested s (CHR ''{'') (CHR ''}'') 0 i"

lemma skip_nested_ge: "i \<le> skip_nested s opn cls depth i"
proof (induction "length s - i" arbitrary: i depth rule: less_induct)
  case less
  show ?case
  proof (cases "i < length s")
    case True
    have IH: "i \<le> skip_nested s opn cls d j" if "i < j" for d j
      using less [of j d] True that by linarith
    show ?thesis by (subst skip_nested.simps) (simp add: Let_def IH)
  qed (simp add: skip_nested.simps)
qed

lemma skip_nested_le: "i \<le> Suc (length s) \<Longrightarrow> skip_nested s opn cls depth i \<le> Suc (length s)"
proof (induction "length s - i" arbitrary: i depth rule: less_induct)
  case less
  show ?case
  proof (cases "i < length s")
    case True
    have IH: "skip_nested s opn cls d j \<le> Suc (length s)" if "i < j" "j \<le> Suc (length s)" for d j
      using less(1) [of j d] True that by linarith
    have b: "j \<le> Suc (length s)" if "j \<le> length s" for j using that by simp
    show ?thesis
      using True by (subst skip_nested.simps) (simp add: Let_def IH b skip_bound)
  qed (use less.prems in \<open>simp add: skip_nested.simps\<close>)
qed

section \<open>Characters and operators\<close>

definition isDquoteEscape :: "char \<Rightarrow> bool" where
  "isDquoteEscape c \<longleftrightarrow> c \<in> {CHR ''$'', CHR 0x60, CHR 0x22, CHR 0x5C, CHR 0x0A}"

definition isNameStart :: "char \<Rightarrow> bool" where
  "isNameStart c \<longleftrightarrow> c = CHR ''_'' \<or> is_alpha c"

definition isNameChar :: "char \<Rightarrow> bool" where
  "isNameChar c \<longleftrightarrow> isNameStart c \<or> is_digit c"

definition isSpecialParam :: "char \<Rightarrow> bool" where
  "isSpecialParam c \<longleftrightarrow>
     c \<in> {CHR ''@'', CHR ''*'', CHR ''#'', CHR ''?'', CHR ''!'', CHR ''-'', CHR ''$''} \<or> is_digit c"

definition isAllDigits :: "string \<Rightarrow> bool" where
  "isAllDigits s \<longleftrightarrow> s \<noteq> [] \<and> list_all is_digit s"

definition isBareFd :: "string \<Rightarrow> bool" where
  "isBareFd s \<longleftrightarrow> s = ''-'' \<or> isAllDigits s"

datatype shellTokenKind = tokWord | tokSep | tokRedirWrite | tokRedirDup | tokRedirRead

definition isRedirKind :: "shellTokenKind \<Rightarrow> bool" where
  "isRedirKind k \<longleftrightarrow> k = tokRedirWrite \<or> k = tokRedirDup \<or> k = tokRedirRead"

datatype shellToken =
  Tok (tk_kind: shellTokenKind) (tk_value: string) (tk_raw: string) (tk_unresolved: bool)

text \<open>
  The operator at position \<open>i < length s\<close>, \<open>None\<close> where Go returns length 0.
  \<open>next_byte\<close> is the source's \<open>next\<close>, NUL past the end.
\<close>

definition next_byte :: "string \<Rightarrow> nat \<Rightarrow> char" where
  "next_byte s j = (if j < length s then s ! j else CHR 0x00)"

definition matchShellOperator :: "string \<Rightarrow> nat \<Rightarrow> (shellTokenKind \<times> string) option" where
  "matchShellOperator s i =
     (let c = s ! i; n1 = next_byte s (i + 1); n2 = next_byte s (i + 2) in
      if c = CHR 0x0A \<or> c = CHR 0x0D then Some (tokSep, [c])
      else if c = CHR '';'' then (if n1 = CHR '';'' then Some (tokSep, '';;'') else Some (tokSep, '';''))
      else if c = CHR ''&'' then
        (if n1 = CHR ''&'' then Some (tokSep, ''&&'')
         else if n1 = CHR ''>'' then
           (if n2 = CHR ''>'' then Some (tokRedirWrite, ''&>>'') else Some (tokRedirWrite, ''&>''))
         else Some (tokSep, ''&''))
      else if c = CHR ''|'' then
        (if n1 = CHR ''|'' then Some (tokSep, ''||'')
         else if n1 = CHR ''&'' then Some (tokSep, ''|&'')
         else Some (tokSep, ''|''))
      else if c = CHR ''('' then Some (tokSep, ''('')
      else if c = CHR '')'' then Some (tokSep, '')'')
      else if c = CHR ''>'' then
        (if n1 = CHR ''>'' then Some (tokRedirWrite, ''>>'')
         else if n1 = CHR ''|'' then Some (tokRedirWrite, ''>|'')
         else if n1 = CHR ''&'' then Some (tokRedirDup, ''>&'')
         else Some (tokRedirWrite, ''>''))
      else if c = CHR ''<'' then
        (if n1 = CHR ''<'' then
           (if n2 = CHR ''<'' then Some (tokRedirRead, ''<<<'')
            else if n2 = CHR ''-'' then Some (tokRedirRead, ''<<-'')
            else Some (tokRedirRead, ''<<''))
         else if n1 = CHR ''&'' then Some (tokRedirDup, ''<&'')
         else if n1 = CHR ''>'' then Some (tokRedirWrite, ''<>'')
         else Some (tokRedirRead, ''<''))
      else None)"

lemma matchShellOperator_pos: "matchShellOperator s i = Some (k, text) \<Longrightarrow> 0 < length text"
  by (auto simp: matchShellOperator_def Let_def split: if_splits)

lemma operator_progress:
  "matchShellOperator s i = Some (k, op) \<Longrightarrow> i < length s \<Longrightarrow> length s - (i + length op) < length s - i"
  using matchShellOperator_pos [of s i k op] by linarith

section \<open>Dollar\<close>

function scan_name :: "string \<Rightarrow> nat \<Rightarrow> nat" where
  "scan_name s j = (if j < length s \<and> isNameChar (s ! j) then scan_name s (Suc j) else j)"
  by pat_completeness auto
termination
  by (relation "measure (\<lambda>(s, j). length s - j)") auto

declare scan_name.simps [simp del]

lemma scan_name_ge: "j \<le> scan_name s j"
proof (induction s j rule: scan_name.induct)
  case (1 s j)
  then show ?case by (subst scan_name.simps) auto
qed

text \<open>\<open>consumeDollar\<close> returns the next index, \<open>isExpansion\<close> and \<open>literalDollar\<close>.\<close>

definition consumeDollar :: "string \<Rightarrow> nat \<Rightarrow> nat \<times> bool \<times> bool" where
  "consumeDollar s i =
     (if length s \<le> i + 1 then (i + 1, False, True)
      else let c = s ! (i + 1) in
        if c = CHR ''('' then (skipCommandSubst s (i + 1), True, False)
        else if c = CHR ''{'' then (skipParamExpansion s (i + 1), True, False)
        else if isNameStart c then (scan_name s (i + 2), True, False)
        else if isSpecialParam c then (i + 2, True, False)
        else (i + 1, False, True))"

lemma consumeDollar_progress [simp]: "i < fst (consumeDollar s i)"
  using skip_nested_ge [of "i + 1" s] scan_name_ge [of "i + 2" s]
  by (simp add: consumeDollar_def skipCommandSubst_def skipParamExpansion_def Let_def Suc_le_eq)

section \<open>The tokenizer\<close>

text \<open>The loop inside double quotes: index, buffer and flag.\<close>

function dquote_loop :: "string \<Rightarrow> nat \<Rightarrow> string \<Rightarrow> bool \<Rightarrow> nat \<times> string \<times> bool" where
  "dquote_loop s i wb unres =
     (if i < length s \<and> s ! i \<noteq> CHR 0x22 then
        (if s ! i = CHR 0x5C \<and> i + 1 < length s \<and> isDquoteEscape (s ! (i + 1)) then
           dquote_loop s (i + 2) (if s ! (i + 1) \<noteq> CHR 0x0A then wb @ [s ! (i + 1)] else wb) unres
         else if s ! i = CHR ''$'' then
           (let r = consumeDollar s i in
            dquote_loop s (fst r) (if snd (snd r) then wb @ ''$'' else wb)
              (if snd (snd r) then unres else fst (snd r) \<or> unres))
         else if s ! i = CHR 0x60 then dquote_loop s (skipBacktick s i) wb True
         else dquote_loop s (i + 1) (wb @ [s ! i]) unres)
      else (i, wb, unres))"
  by pat_completeness auto
termination
  by (relation "measure (\<lambda>(s, i, wb, unres). length s - i)") (auto intro: diff_less_mono2)

declare dquote_loop.simps [simp del]

lemma dquote_loop_ge: "i \<le> fst (dquote_loop s i wb unres)"
proof (induction "length s - i" arbitrary: i wb unres rule: less_induct)
  case less
  show ?case
  proof (cases "i < length s")
    case True
    have IH: "i \<le> fst (dquote_loop s j b u)" if "i < j" for j b u
      using less [of j b u] True that by linarith
    show ?thesis by (subst dquote_loop.simps) (simp add: Let_def IH)
  qed (simp add: dquote_loop.simps)
qed

datatype word_buf = Word (wd_buf: string) (wd_start: "nat option") (wd_unres: bool)

definition no_word :: word_buf where
  "no_word = Word [] None False"

definition begin_word :: "nat \<Rightarrow> word_buf \<Rightarrow> word_buf" where
  "begin_word pos w = (case wd_start w of None \<Rightarrow> Word (wd_buf w) (Some pos) (wd_unres w) | Some _ \<Rightarrow> w)"

definition put_word :: "string \<Rightarrow> word_buf \<Rightarrow> word_buf" where
  "put_word cs w = Word (wd_buf w @ cs) (wd_start w) (wd_unres w)"

definition mark_word :: "word_buf \<Rightarrow> word_buf" where
  "mark_word w = Word (wd_buf w) (wd_start w) True"

definition flush_word :: "string \<Rightarrow> nat \<Rightarrow> word_buf \<Rightarrow> shellToken list" where
  "flush_word s e w =
     (case wd_start w of None \<Rightarrow> []
      | Some st \<Rightarrow> [Tok tokWord (wd_buf w) (substr s st e) (wd_unres w)])"

text \<open>
  The word before a redirection is dropped when it is a file-descriptor number: unquoted,
  unexpanded, all digits.
\<close>

definition fd_number :: "string \<Rightarrow> nat \<Rightarrow> word_buf \<Rightarrow> bool" where
  "fd_number s i w \<longleftrightarrow>
     (case wd_start w of None \<Rightarrow> False
      | Some st \<Rightarrow> 0 < length (wd_buf w) \<and> substr s st i = wd_buf w \<and> isAllDigits (wd_buf w))"

text \<open>One iteration of the main loop on a character that starts or continues a word: the new
  index and word.\<close>

definition word_step :: "string \<Rightarrow> nat \<Rightarrow> word_buf \<Rightarrow> nat \<times> word_buf" where
  "word_step s i w =
     (let c = s ! i; b = begin_word i w in
      if c = CHR 0x27 then
        (let j = scan_to s (CHR 0x27) (i + 1)
         in (if j < length s then j + 1 else j, put_word (substr s (i + 1) j) b))
      else if c = CHR 0x22 then
        (let r = dquote_loop s (i + 1) (wd_buf b) (wd_unres b); j = fst r
         in (if j < length s then j + 1 else j, Word (fst (snd r)) (wd_start b) (snd (snd r))))
      else if c = CHR 0x60 then (skipBacktick s i, mark_word b)
      else if c = CHR ''$'' then
        (if i + 1 < length s \<and> s ! (i + 1) = CHR 0x27 then (skipDollarSingleQuote s (i + 1), mark_word b)
         else if i + 1 < length s \<and> s ! (i + 1) = CHR 0x22 then (skipDoubleQuoteRaw s (i + 1), mark_word b)
         else let r = consumeDollar s i
              in (fst r, if snd (snd r) then put_word ''$'' b
                         else if fst (snd r) then mark_word b else b))
      else if c = CHR 0x5C then
        (if i + 1 < length s then
           (i + 2, if s ! (i + 1) = CHR 0x0A then b else put_word [s ! (i + 1)] b)
         else (i + 1, b))
      else (i + 1, put_word [c] b))"

lemma word_step_progress: "i < fst (word_step s i w)"
proof -
  have "i < scan_to s (CHR 0x27) (Suc i)" using scan_to_ge [of "Suc i"] by (simp add: Suc_le_eq)
  moreover have "i < fst (dquote_loop s (Suc i) b u)" for b u
    using dquote_loop_ge [of "Suc i"] by (simp add: Suc_le_eq)
  moreover have "i < skipDollarSingleQuote s (Suc i)" "i < skipDoubleQuoteRaw s (Suc i)"
    using skip_progress(2,3) [of "Suc i" s] by linarith+
  ultimately show ?thesis by (simp add: word_step_def Let_def less_SucI)
qed

function tokenize_loop :: "string \<Rightarrow> nat \<Rightarrow> word_buf \<Rightarrow> shellToken list" where
  "tokenize_loop s i w =
     (if i < length s then
        (if s ! i = CHR '' '' \<or> s ! i = CHR 0x09 then flush_word s i w @ tokenize_loop s (i + 1) no_word
         else
           case matchShellOperator s i of
             Some (kind, text) \<Rightarrow>
               (if isRedirKind kind \<and> fd_number s i w then [] else flush_word s i w)
               @ Tok kind text [] False # tokenize_loop s (i + length text) no_word
           | None \<Rightarrow> (let r = word_step s i w in tokenize_loop s (fst r) (snd r)))
      else flush_word s (length s) w)"
  by pat_completeness simp_all
termination
proof (relation "measure (\<lambda>(s, i, w). length s - i)", goal_cases)
  case (3 s i w)
  then show ?case
    using word_step_progress [of i s w] by (cases "word_step s i w") auto
qed (auto intro: operator_progress)

declare tokenize_loop.simps [simp del]

definition tokenizeShell :: "string \<Rightarrow> shellToken list" where
  "tokenizeShell cmd = tokenize_loop cmd 0 no_word"

section \<open>Command substitutions\<close>

text \<open>
  \<open>extractCommandSubsts\<close>. The source's slices \<open>cmd[i+1:end-1]\<close> and \<open>cmd[i+2:end-1]\<close>
  have \<open>end - 1 \<le> len(cmd)\<close> (lemma \<open>skip_nested_le\<close>), so they do not panic.
\<close>

function extract_loop :: "string \<Rightarrow> nat \<Rightarrow> bool \<Rightarrow> string list" where
  "extract_loop s i inDQuote =
     (if i < length s then
        (let c = s ! i; c1 = next_byte s (i + 1); c2 = next_byte s (i + 2);
             has1 = i + 1 < length s; has2 = i + 2 < length s in
         if c = CHR 0x5C then extract_loop s (i + 2) inDQuote
         else if \<not> inDQuote \<and> c = CHR 0x27 then extract_loop s (skipSingleQuoteRaw s i) inDQuote
         else if c = CHR 0x22 then extract_loop s (i + 1) (\<not> inDQuote)
         else if c = CHR 0x60 then
           (let e = skipBacktick s i
            in (if i + 1 < e - 1 then [substr s (i + 1) (e - 1)] else []) @ extract_loop s e inDQuote)
         else if c = CHR ''$'' \<and> has1 \<and> c1 = CHR ''('' \<and> \<not> (has2 \<and> c2 = CHR ''('') then
           (let e = skipCommandSubst s (i + 1)
            in (if i + 2 < e - 1 then [substr s (i + 2) (e - 1)] else []) @ extract_loop s e inDQuote)
         else if c = CHR ''$'' \<and> has1 \<and> c1 = CHR ''('' then
           extract_loop s (skipCommandSubst s (i + 1)) inDQuote
         else if c = CHR ''$'' \<and> has1 \<and> c1 = CHR ''{'' then
           extract_loop s (skipParamExpansion s (i + 1)) inDQuote
         else extract_loop s (i + 1) inDQuote)
      else [])"
  by pat_completeness auto
termination
proof (relation "measure (\<lambda>(s, i, q). length s - i)", goal_cases)
  case 1
  then show ?case by simp
qed (auto intro: diff_less_mono2 less_le_trans [OF _ skip_nested_ge]
       simp: skipCommandSubst_def skipParamExpansion_def)

declare extract_loop.simps [simp del]

definition extractCommandSubsts :: "string \<Rightarrow> string list" where
  "extractCommandSubsts cmd = extract_loop cmd 0 False"

section \<open>Quoting\<close>

text \<open>
  A word between single quotes, with each single quote of its own written as \<open>'\''\<close>, and a
  line of such words, each followed by a blank. The tokenizer reads the words back.
\<close>

fun quote_parts :: "string list \<Rightarrow> string" where
  "quote_parts [] = []"
| "quote_parts [p] = [CHR 0x27] @ p @ [CHR 0x27]"
| "quote_parts (p # q # ps) = [CHR 0x27] @ p @ [CHR 0x27, CHR 0x5C, CHR 0x27] @ quote_parts (q # ps)"

definition shell_quote :: "string \<Rightarrow> string" where
  "shell_quote w = quote_parts (SplitByte w (CHR 0x27))"

fun shell_line :: "string list \<Rightarrow> string" where
  "shell_line [] = []"
| "shell_line (w # ws) = shell_quote w @ '' '' @ shell_line ws"

lemma drop_nth: "drop i s = c # r \<Longrightarrow> i < length s \<and> s ! i = c \<and> drop (Suc i) s = r"
  by (metis Cons_nth_drop_Suc drop_eq_Nil2 leI list.discI list.inject)

lemma drop_more: "drop i s = a @ r \<Longrightarrow> drop (i + length a) s = r"
  by (metis add.commute append_eq_conv_conj drop_drop)

lemma substr_of_drop: "drop i s = a @ r \<Longrightarrow> substr s i (i + length a) = a"
  by (simp add: substr_def)

lemma scan_to_run: "drop i s = p @ q # r \<Longrightarrow> q \<notin> set p \<Longrightarrow> scan_to s q i = i + length p"
proof (induction p arbitrary: i)
  case Nil
  then show ?case by (subst scan_to.simps) (auto dest: drop_nth)
next
  case (Cons c p)
  from drop_nth Cons.prems(1) have "i < length s" "s ! i = c" "drop (Suc i) s = p @ q # r" by force+
  with Cons show ?case by (subst scan_to.simps) auto
qed

definition started_at :: "nat \<Rightarrow> nat option \<Rightarrow> nat option" where
  "started_at i st = Some (case st of None \<Rightarrow> i | Some j \<Rightarrow> j)"

lemma begin_word_eq: "begin_word i (Word b st u) = Word b (started_at i st) u"
  by (simp add: begin_word_def started_at_def split: option.splits)

lemma started_at_idem [simp]: "started_at j (started_at i st) = started_at i st"
  by (simp add: started_at_def)

lemma operator_None:
  "s ! i \<in> {CHR 0x27, CHR 0x22, CHR 0x5C, CHR ''$'', CHR 0x60} \<Longrightarrow> matchShellOperator s i = None"
  by (auto simp: matchShellOperator_def Let_def)

lemma tokenize_quoted:
  assumes d: "drop i s = [CHR 0x27] @ p @ [CHR 0x27] @ r" and p: "CHR 0x27 \<notin> set p"
  shows "tokenize_loop s i (Word b st u) = tokenize_loop s (i + length p + 2) (Word (b @ p) (started_at i st) u)"
proof -
  from d have i: "i < length s" "s ! i = CHR 0x27" "drop (Suc i) s = p @ CHR 0x27 # r"
    by (auto dest: drop_nth)
  have j: "scan_to s (CHR 0x27) (Suc i) = Suc i + length p" using scan_to_run [OF i(3) p] .
  have lt: "Suc i + length p < length s"
    using drop_nth [of "Suc i + length p" s "CHR 0x27" r] drop_more [OF i(3)] by simp
  have st: "word_step s i (Word b st u) = (i + length p + 2, Word (b @ p) (started_at i st) u)"
    using lt substr_of_drop [OF i(3)]
    by (simp add: word_step_def Let_def i j begin_word_eq put_word_def)
  show ?thesis
    by (subst tokenize_loop.simps) (simp add: i operator_None st)
qed

lemma tokenize_escaped:
  assumes d: "drop i s = [CHR 0x5C, c] @ r" and c: "c \<noteq> CHR 0x0A"
  shows "tokenize_loop s i (Word b st u) = tokenize_loop s (i + 2) (Word (b @ [c]) (started_at i st) u)"
proof -
  from d have i: "i < length s" "s ! i = CHR 0x5C" "drop (Suc i) s = c # r"
    by (auto dest: drop_nth)
  then have i1: "Suc i < length s" "s ! Suc i = c" by (auto dest: drop_nth)
  have st: "word_step s i (Word b st u) = (i + 2, Word (b @ [c]) (started_at i st) u)"
    using c by (simp add: word_step_def Let_def i i1 begin_word_eq put_word_def)
  show ?thesis
    by (subst tokenize_loop.simps) (simp add: i operator_None st)
qed

lemma tokenize_parts:
  "ps \<noteq> [] \<Longrightarrow> drop i s = quote_parts ps @ r \<Longrightarrow> \<forall>p\<in>set ps. CHR 0x27 \<notin> set p \<Longrightarrow>
   tokenize_loop s i (Word b st u) =
     tokenize_loop s (i + length (quote_parts ps)) (Word (b @ Join ps [CHR 0x27]) (started_at i st) u)"
proof (induction ps arbitrary: i b st rule: quote_parts.induct)
  case (2 p)
  then show ?case using tokenize_quoted [of i s p r b st u] by simp
next
  case (3 p q ps)
  let ?R = "quote_parts (q # ps) @ r"
  have d: "drop i s = [CHR 0x27] @ p @ [CHR 0x27] @ ([CHR 0x5C, CHR 0x27] @ ?R)"
    using 3(3) by simp
  have d2: "drop (i + length p + 2) s = [CHR 0x5C, CHR 0x27] @ ?R"
    using drop_more [of i s "[CHR 0x27] @ p @ [CHR 0x27]" "[CHR 0x5C, CHR 0x27] @ ?R"] d by simp
  have d3: "drop (i + length p + 4) s = ?R"
    using drop_more [OF d2] by (simp add: numeral_eq_Suc)
  have "tokenize_loop s i (Word b st u)
      = tokenize_loop s (i + length p + 4) (Word (b @ p @ [CHR 0x27]) (started_at i st) u)"
    using tokenize_quoted [OF d] tokenize_escaped [OF d2] 3(4) by (simp add: numeral_eq_Suc)
  then show ?case
    using 3(1) [OF _ d3] 3(4) by (simp add: numeral_eq_Suc add.assoc)
qed simp

lemma tokenize_blank:
  "i < length s \<Longrightarrow> s ! i = CHR '' '' \<Longrightarrow>
     tokenize_loop s i w = flush_word s i w @ tokenize_loop s (Suc i) no_word"
  by (subst tokenize_loop.simps) simp

lemma tokenize_word:
  assumes "drop i s = shell_quote w @ '' '' @ r"
  shows "tokenize_loop s i no_word =
    Tok tokWord w (shell_quote w) False # tokenize_loop s (Suc (i + length (shell_quote w))) no_word"
proof -
  have "tokenize_loop s i no_word =
      tokenize_loop s (i + length (shell_quote w)) (Word w (Some i) False)"
    using tokenize_parts [of "SplitByte w (CHR 0x27)" i s "'' '' @ r" "[]" None False] assms
    by (auto simp: no_word_def shell_quote_def started_at_def Join_SplitByte dest: in_SplitByte)
  also have "\<dots> = Tok tokWord w (shell_quote w) False
      # tokenize_loop s (Suc (i + length (shell_quote w))) no_word"
    using drop_nth [of "i + length (shell_quote w)" s "CHR '' ''" r] drop_more [of i s "shell_quote w" "'' '' @ r"]
      substr_of_drop [of i s "shell_quote w" "'' '' @ r"] assms
    by (simp add: tokenize_blank flush_word_def)
  finally show ?thesis .
qed

definition quoted_tok :: "string \<Rightarrow> shellToken" where
  "quoted_tok w = Tok tokWord w (shell_quote w) False"

lemma tokenize_line:
  "drop i s = shell_line ws @ r \<Longrightarrow>
     tokenize_loop s i no_word = map quoted_tok ws @ tokenize_loop s (i + length (shell_line ws)) no_word"
proof (induction ws arbitrary: i)
  case Nil
  then show ?case by simp
next
  case (Cons w ws)
  have d: "drop (i + length (shell_quote w @ '' '')) s = shell_line ws @ r"
    using drop_more [of i s "shell_quote w @ '' ''" "shell_line ws @ r"] Cons.prems by simp
  show ?case
    using tokenize_word [of i s w "shell_line ws @ r"] Cons.IH [OF d] Cons.prems
    by (simp add: quoted_tok_def add.assoc)
qed

lemma tokenize_end: "tokenize_loop s (length s) no_word = []"
  by (subst tokenize_loop.simps) (simp add: flush_word_def no_word_def)

lemma tokenize_shell_line: "tokenizeShell (shell_line ws) = map quoted_tok ws"
  using tokenize_line [of 0 "shell_line ws" ws "[]"] by (simp add: tokenizeShell_def tokenize_end)

text \<open>
  A word that has met an unresolved expansion stays unresolved whatever follows, and is never
  taken for a file-descriptor number.
\<close>

lemma begin_word_started [simp]: "wd_start w = Some st \<Longrightarrow> begin_word i w = w"
  by (simp add: begin_word_def)

lemma dquote_keeps_unres: "snd (snd (dquote_loop s i b True))"
proof (induction "length s - i" arbitrary: i b rule: less_induct)
  case less
  show ?case
  proof (cases "i < length s")
    case True
    have IH: "snd (snd (dquote_loop s j c True))" if "i < j" for j c
      using less [of j c] True that by linarith
    show ?thesis by (subst dquote_loop.simps) (simp add: Let_def IH)
  qed (simp add: dquote_loop.simps)
qed

lemma word_step_keeps:
  "wd_start w = Some st \<Longrightarrow> wd_unres w \<Longrightarrow>
     wd_start (snd (word_step s i w)) = Some st \<and> wd_unres (snd (word_step s i w))"
  by (simp add: word_step_def Let_def put_word_def mark_word_def dquote_keeps_unres)

lemma unresolved_word_emitted:
  "s ! st = CHR ''$'' \<Longrightarrow> st < i \<Longrightarrow> st < length s \<Longrightarrow> wd_start w = Some st \<Longrightarrow> wd_unres w \<Longrightarrow>
     \<exists>v r ts. tokenize_loop s i w = Tok tokWord v r True # ts"
proof (induction "length s - i" arbitrary: i w rule: less_induct)
  case less
  note st = less.prems
  show ?case
  proof (cases "i < length s")
    case False
    then show ?thesis using st by (subst tokenize_loop.simps) (simp add: flush_word_def)
  next
    case True
    have fl: "flush_word s i w = [Tok tokWord (wd_buf w) (substr s st i) True]"
      using st by (simp add: flush_word_def)
    have "substr s st i = CHR ''$'' # substr s (Suc st) i"
      using st by (simp add: substr_def Cons_nth_drop_Suc [symmetric] Suc_diff_le take_Suc_conv_app_nth
          diff_Suc split: nat.splits)
    then have "\<not> list_all is_digit (substr s st i)"
      by (simp add: is_digit_def byte_def)
    then have fd: "\<not> fd_number s i w"
      using st by (auto simp: fd_number_def isAllDigits_def)
    show ?thesis
    proof (cases "s ! i = CHR '' '' \<or> s ! i = CHR 0x09")
      case True
      with \<open>i < length s\<close> fl show ?thesis by (subst tokenize_loop.simps) simp
    next
      case no: False
      show ?thesis
      proof (cases "matchShellOperator s i")
        case (Some ko)
        with True no fl fd show ?thesis
          by (subst tokenize_loop.simps) (cases ko, simp)
      next
        case None
        have lt: "i < fst (word_step s i w)" by (rule word_step_progress)
        then have "\<exists>v r ts. tokenize_loop s (fst (word_step s i w)) (snd (word_step s i w)) = Tok tokWord v r True # ts"
          using less.hyps [of "fst (word_step s i w)" "snd (word_step s i w)"] True st
            word_step_keeps [OF st(4,5), of s i] by auto
        with None True no show ?thesis by (subst tokenize_loop.simps) (simp add: Let_def)
      qed
    qed
  qed
qed

text \<open>Quoted words hold no command substitution.\<close>

lemma scan_single: "drop i s = [CHR 0x27] @ p @ [CHR 0x27] @ r \<Longrightarrow> CHR 0x27 \<notin> set p \<Longrightarrow>
    skipSingleQuoteRaw s i = i + length p + 2"
proof -
  assume d: "drop i s = [CHR 0x27] @ p @ [CHR 0x27] @ r" and p: "CHR 0x27 \<notin> set p"
  from d have i: "drop (Suc i) s = p @ CHR 0x27 # r" by (auto dest: drop_nth)
  have "Suc i + length p < length s"
    using drop_nth [of "Suc i + length p" s "CHR 0x27" r] drop_more [OF i] by simp
  then show ?thesis
    using scan_to_run [OF i p] by (simp add: skipSingleQuoteRaw_def Let_def)
qed

lemma extract_quoted:
  assumes "drop i s = [CHR 0x27] @ p @ [CHR 0x27] @ r" "CHR 0x27 \<notin> set p"
  shows "extract_loop s i False = extract_loop s (i + length p + 2) False"
proof -
  from assms(1) have "i < length s" "s ! i = CHR 0x27" by (auto dest: drop_nth)
  then show ?thesis
    by (subst extract_loop.simps) (simp add: Let_def scan_single [OF assms])
qed

lemma extract_step:
  assumes "drop i s = c # r"
  shows "c = CHR 0x5C \<Longrightarrow> extract_loop s i False = extract_loop s (i + 2) False"
    and "c = CHR '' '' \<Longrightarrow> extract_loop s i False = extract_loop s (Suc i) False"
proof -
  from drop_nth [OF assms] have i: "i < length s" "s ! i = c" by auto
  show "c = CHR 0x5C \<Longrightarrow> extract_loop s i False = extract_loop s (i + 2) False"
    by (subst extract_loop.simps) (simp add: i Let_def)
  show "c = CHR '' '' \<Longrightarrow> extract_loop s i False = extract_loop s (Suc i) False"
    by (subst extract_loop.simps) (simp add: i Let_def)
qed

lemma extract_parts:
  "ps \<noteq> [] \<Longrightarrow> drop i s = quote_parts ps @ r \<Longrightarrow> \<forall>p\<in>set ps. CHR 0x27 \<notin> set p \<Longrightarrow>
   extract_loop s i False = extract_loop s (i + length (quote_parts ps)) False"
proof (induction ps arbitrary: i rule: quote_parts.induct)
  case (2 p)
  then show ?case using extract_quoted [of i s p r] by simp
next
  case (3 p q ps)
  let ?R = "quote_parts (q # ps) @ r"
  have d: "drop i s = [CHR 0x27] @ p @ [CHR 0x27] @ ([CHR 0x5C, CHR 0x27] @ ?R)"
    using 3(3) by simp
  have d2: "drop (i + length p + 2) s = [CHR 0x5C, CHR 0x27] @ ?R"
    using drop_more [of i s "[CHR 0x27] @ p @ [CHR 0x27]" "[CHR 0x5C, CHR 0x27] @ ?R"] d by simp
  have d3: "drop (i + length p + 4) s = ?R"
    using drop_more [OF d2] by (simp add: numeral_eq_Suc)
  have "extract_loop s i False = extract_loop s (i + length p + 4) False"
    using extract_quoted [OF d] extract_step(1) [of _ s _ "CHR 0x27 # ?R", OF d2 [simplified]] 3(4) by (simp add: numeral_eq_Suc)
  then show ?case
    using 3(1) [OF _ d3] 3(4) by (simp add: numeral_eq_Suc add.assoc)
qed simp

lemma extract_line:
  "drop i s = shell_line ws @ r \<Longrightarrow> extract_loop s i False = extract_loop s (i + length (shell_line ws)) False"
proof (induction ws arbitrary: i)
  case Nil
  then show ?case by simp
next
  case (Cons w ws)
  have d1: "drop i s = quote_parts (SplitByte w (CHR 0x27)) @ '' '' @ shell_line ws @ r"
    using Cons.prems by (simp add: shell_quote_def)
  have d2: "drop (i + length (shell_quote w)) s = '' '' @ shell_line ws @ r"
    using drop_more [OF d1] by (simp add: shell_quote_def)
  have d3: "drop (Suc (i + length (shell_quote w))) s = shell_line ws @ r"
    using drop_more [OF d2] by simp
  show ?case
    using extract_parts [OF _ d1] extract_step(2) [OF d2 [simplified]] Cons.IH [OF d3]
    by (auto simp: shell_quote_def add.assoc dest: in_SplitByte)
qed

lemma extract_shell_line: "extractCommandSubsts (shell_line ws) = []"
  using extract_line [of 0 "shell_line ws" ws "[]"]
  by (simp add: extractCommandSubsts_def extract_loop.simps)

end
