(* ===== verification/Protect.thy ===== *)
theory Protect
  imports Shell_Tokens
begin

text \<open>
  The self-protection guard of protect.go: which tool calls may write under an operator's
  protected prefixes. The message is left out of the results; a hit carries its target.
\<close>

section \<open>Parameters\<close>

text \<open>
  \<open>parseParams\<close>: a payload that is absent, not an object, or that \<open>json.Unmarshal\<close>
  rejects (a number out of range included) gives the empty map.
\<close>

definition parseParams :: "runtime \<Rightarrow> raw \<Rightarrow> val gomap" where
  "parseParams rt r =
     (case unmarshal_map rt r of Some (Some m) \<Rightarrow> m | _ \<Rightarrow> [])"

fun firstString :: "val gomap \<Rightarrow> string list \<Rightarrow> string" where
  "firstString params [] = []"
| "firstString params (k # ks) =
     (case mget params k of
        Some (VStr s) \<Rightarrow> (if TrimSpace s \<noteq> [] then s else firstString params ks)
      | _ \<Rightarrow> firstString params ks)"

fun add_path :: "val \<Rightarrow> string list" where
  "add_path (VStr t) = (if TrimSpace t \<noteq> [] then [t] else [])"
| "add_path (VList es) =
     List.map_filter (\<lambda>e. case e of VStr s \<Rightarrow> if TrimSpace s \<noteq> [] then Some s else None | _ \<Rightarrow> None) es"
| "add_path _ = []"

definition path_keys :: "string list" where
  "path_keys = [''file_path'', ''path'', ''paths'', ''file'', ''files'', ''filename'',
     ''dest'', ''destination'', ''target'', ''output'', ''out_path'', ''notebook_path'']"

definition edit_keys :: "string list" where
  "edit_keys = [''edits'', ''files'', ''changes'', ''operations'']"

fun edit_path :: "val \<Rightarrow> string option" where
  "edit_path (VMap m) =
     (let s = firstString m [''file_path'', ''path'', ''file''] in if s \<noteq> [] then Some s else None)"
| "edit_path _ = None"

definition collectFilePaths :: "val gomap \<Rightarrow> string list" where
  "collectFilePaths params =
     concat (map (\<lambda>k. case mget params k of Some v \<Rightarrow> add_path v | None \<Rightarrow> []) path_keys) @
     concat (map (\<lambda>k. case mget params k of Some (VList es) \<Rightarrow> List.map_filter edit_path es | _ \<Rightarrow> []) edit_keys)"

definition isFileWriteTool :: "string \<Rightarrow> bool" where
  "isFileWriteTool tool \<longleftrightarrow>
     tool \<notin> {''read'', ''readfile'', ''read_file'', ''glob'', ''grep'', ''ls'', ''list'',
             ''cat'', ''view'', ''search'', ''get'', ''fetch'', ''webfetch'', ''websearch''}"

definition isShellTool :: "string \<Rightarrow> bool" where
  "isShellTool tool \<longleftrightarrow>
     tool \<in> {''bash'', ''shell'', ''sh'', ''run_command'', ''run'', ''exec'', ''command'', ''terminal''}"

section \<open>Shell commands\<close>

definition mutatingProgs :: "string list" where
  "mutatingProgs = [''rm'', ''cp'', ''mv'', ''tee'', ''truncate'', ''ln'', ''install'', ''chmod'',
     ''chown'', ''chgrp'', ''mkdir'', ''rmdir'', ''touch'', ''shred'']"

definition isMutatingProg :: "string \<Rightarrow> string list \<Rightarrow> bool" where
  "isMutatingProg prog flds \<longleftrightarrow>
     (if prog \<in> set mutatingProgs then True
      else if prog = ''sed'' then list_ex (\<lambda>f. HasPrefix f ''-i'') (tl flds)
      else if prog = ''dd'' then list_ex (\<lambda>f. HasPrefix f ''of='') (tl flds)
      else False)"

text \<open>\<open>redirectTargets\<close>: the operand words as tokens (the source copies three of their
  fields into a \<open>redirTarget\<close>).\<close>

fun redirectTargets :: "shellToken list \<Rightarrow> shellToken list" where
  "redirectTargets (t # operand # rest) =
     (if (tk_kind t = tokRedirWrite \<or> tk_kind t = tokRedirDup) \<and> tk_kind operand = tokWord
         \<and> \<not> (tk_kind t = tokRedirDup \<and> isBareFd (tk_value operand))
      then operand # redirectTargets (operand # rest)
      else redirectTargets (operand # rest))"
| "redirectTargets _ = []"

fun split_segments :: "shellToken list \<Rightarrow> shellToken list \<Rightarrow> shellToken list list" where
  "split_segments cur [] = (if cur \<noteq> [] then [cur] else [])"
| "split_segments cur (t # ts) =
     (if tk_kind t = tokSep then (if cur \<noteq> [] then cur # split_segments [] ts else split_segments [] ts)
      else split_segments (cur @ [t]) ts)"

definition splitShellSegments :: "shellToken list \<Rightarrow> shellToken list list" where
  "splitShellSegments toks = split_segments [] toks"

fun command_words :: "bool \<Rightarrow> shellToken list \<Rightarrow> shellToken list" where
  "command_words expectOperand [] = []"
| "command_words expectOperand (t # ts) =
     (if expectOperand \<and> tk_kind t = tokWord then command_words False ts
      else if isRedirKind (tk_kind t) then command_words True ts
      else if tk_kind t = tokWord then t # command_words False ts
      else command_words False ts)"

definition commandWords :: "shellToken list \<Rightarrow> shellToken list" where
  "commandWords seg = command_words False seg"

definition wordValues :: "shellToken list \<Rightarrow> string list" where
  "wordValues ws = map tk_value ws"

definition isAssignmentWord :: "shellToken \<Rightarrow> bool" where
  "isAssignmentWord w \<longleftrightarrow>
     (if tk_unresolved w \<or> tk_value w \<noteq> tk_raw w then False
      else case IndexByte (tk_value w) (CHR ''='') of
        None \<Rightarrow> False
      | Some eq \<Rightarrow>
          (if eq = 0 then False
           else let name = take eq (tk_value w)
                in isNameStart (hd name) \<and> list_all isNameChar (tl name)))"

definition stripLeadingAssignments :: "shellToken list \<Rightarrow> shellToken list" where
  "stripLeadingAssignments ws = dropWhile isAssignmentWord ws"

definition stripPathOption :: "string \<Rightarrow> string" where
  "stripPathOption arg =
     (if HasPrefix arg ''of='' then drop 3 arg
      else if HasPrefix arg ''--'' then
        (case IndexByte arg (CHR ''='') of
           Some eq \<Rightarrow> (if 2 < eq \<and> HasPrefix ''target-directory'' (substr arg 2 eq) then drop (eq + 1) arg else arg)
         | None \<Rightarrow> arg)
      else if 1 < length arg \<and> arg ! 0 = CHR ''-'' then
        (case IndexByte (drop 1 arg) (CHR ''t'') of
           Some k \<Rightarrow> (if 1 + k + 1 < length arg then drop (1 + k + 1) arg else arg)
         | None \<Rightarrow> arg)
      else arg)"

definition under_prefixes :: "string list \<Rightarrow> string \<Rightarrow> bool" where
  "under_prefixes pfxs cand \<longleftrightarrow> list_ex (matchPathPrefix cand) pfxs"

text \<open>The first candidate under some prefix: the two nested loops of \<open>matchLiteralPath\<close> and
  of \<open>ViolatesProtectedPaths\<close>.\<close>

definition first_under :: "string list \<Rightarrow> string list \<Rightarrow> string option" where
  "first_under pfxs cands = first_some (\<lambda>c. if under_prefixes pfxs c then Some c else None) cands"

definition matchLiteralPath :: "runtime \<Rightarrow> string \<Rightarrow> string list \<Rightarrow> string option" where
  "matchLiteralPath rt literal0 pfxs =
     (let literal = TrimSpace literal0 in
      if literal = [] then None else first_under pfxs (canonicalCandidates rt literal))"

text \<open>\<open>shortRaw\<close>; the ellipsis is the three bytes of U+2026.\<close>

definition shortRaw :: "string \<Rightarrow> string" where
  "shortRaw s0 =
     (let s = TrimSpace s0
      in if 120 < length s then take 120 s @ [CHR 0xE2, CHR 0x80, CHR 0xA6] else s)"

text \<open>The loop over the arguments of a mutating command.\<close>

fun args_hit :: "runtime \<Rightarrow> string list \<Rightarrow> bool \<Rightarrow> shellToken list \<Rightarrow> string option" where
  "args_hit rt pfxs sawDashDash [] = None"
| "args_hit rt pfxs sawDashDash (w # ws) =
     (if tk_unresolved w then Some (shortRaw (tk_raw w))
      else if \<not> sawDashDash \<and> tk_value w = ''--'' then args_hit rt pfxs True ws
      else
        let optionToken = (\<not> sawDashDash \<and> HasPrefix (tk_value w) ''-'' \<and> tk_value w \<noteq> ''-'');
            plain = (if \<not> optionToken then matchLiteralPath rt (tk_value w) pfxs else None);
            stripped = stripPathOption (tk_value w);
            glued = (if stripped \<noteq> tk_value w then matchLiteralPath rt stripped pfxs else None)
        in case plain of Some t \<Rightarrow> Some t
           | None \<Rightarrow> (case glued of Some t \<Rightarrow> Some t | None \<Rightarrow> args_hit rt pfxs sawDashDash ws))"

definition segment_hit :: "runtime \<Rightarrow> string list \<Rightarrow> shellToken list \<Rightarrow> string option" where
  "segment_hit rt pfxs seg =
     (let ws = stripLeadingAssignments (commandWords seg) in
      if length ws < 2 then None
      else if \<not> isMutatingProg (filepath_Base (tk_value (hd ws))) (wordValues ws) then None
      else args_hit rt pfxs False (tl ws))"

definition redirect_hit :: "runtime \<Rightarrow> string list \<Rightarrow> shellToken \<Rightarrow> string option" where
  "redirect_hit rt pfxs t =
     (if tk_unresolved t then Some (shortRaw (tk_raw t)) else matchLiteralPath rt (tk_value t) pfxs)"

text \<open>
  \<open>shellTouchesProtectedRec\<close>; its \<open>depth\<close> counts up to \<open>maxShellSubstDepth\<close>, here
  the levels that are left count down from it.
\<close>

definition maxShellSubstDepth :: nat where
  "maxShellSubstDepth = 8"

fun shellTouchesProtectedRec :: "runtime \<Rightarrow> string list \<Rightarrow> nat \<Rightarrow> string \<Rightarrow> string option" where
  "shellTouchesProtectedRec rt pfxs levels cmd =
     (let toks = tokenizeShell cmd in
      case first_some (redirect_hit rt pfxs) (redirectTargets toks) of
        Some t \<Rightarrow> Some t
      | None \<Rightarrow>
        (case first_some (segment_hit rt pfxs) (splitShellSegments toks) of
           Some t \<Rightarrow> Some t
         | None \<Rightarrow>
           (case levels of
              0 \<Rightarrow> None
            | Suc l \<Rightarrow> first_some (shellTouchesProtectedRec rt pfxs l) (extractCommandSubsts cmd))))"

definition shellTouchesProtected :: "runtime \<Rightarrow> string \<Rightarrow> string list \<Rightarrow> string option" where
  "shellTouchesProtected rt cmd pfxs = shellTouchesProtectedRec rt pfxs maxShellSubstDepth cmd"

section \<open>The guard\<close>

datatype violation = FileTarget string | ShellTarget string

definition ViolatesProtectedPaths :: "runtime \<Rightarrow> ActionEnvelope option \<Rightarrow> string list \<Rightarrow> violation option" where
  "ViolatesProtectedPaths rt env pfxs =
     (case env of
        None \<Rightarrow> None
      | Some e \<Rightarrow>
        (if pfxs = [] then None
         else
           let clean = expandPrefixes rt pfxs in
           if clean = [] then None
           else
             let params = parseParams rt (e_Parameters e);
                 tool = ToLower (TrimSpace (e_ToolName e));
                 file_hit = (if isFileWriteTool tool
                   then first_some (\<lambda>fp. first_under clean (canonicalCandidates rt fp)) (collectFilePaths params)
                   else None)
             in case file_hit of
                  Some c \<Rightarrow> Some (FileTarget c)
                | None \<Rightarrow>
                    (if isShellTool tool then
                       (let cmd = firstString params [''command'', ''cmd''] in
                        if cmd \<noteq> [] then map_option ShellTarget (shellTouchesProtected rt cmd clean) else None)
                     else None)))"

definition violation_reason :: "violation \<Rightarrow> string" where
  "violation_reason v =
     (case v of
        FileTarget c \<Rightarrow> ''protected path: write to '' @ c @ '' denied by -protect-paths''
      | ShellTarget t \<Rightarrow> ''protected path: shell command targets '' @ t @ '' denied by -protect-paths'')"

section \<open>Lemmas\<close>

lemma first_under_None_iff: "first_under pfxs cands = None \<longleftrightarrow> (\<forall>c\<in>set cands. \<not> under_prefixes pfxs c)"
  by (auto simp: first_under_def first_some_None_iff)

lemma under_prefixes_iff: "under_prefixes pfxs c \<longleftrightarrow> (\<exists>q\<in>set pfxs. matchPathPrefix c q)"
  by (auto simp: under_prefixes_def list_ex_iff)

lemma first_under_SomeD: "first_under pfxs cands = Some c \<Longrightarrow> c \<in> set cands \<and> under_prefixes pfxs c"
  by (auto simp: first_under_def dest!: first_some_SomeD split: if_splits)

lemma matchLiteralPath_SomeD:
  "matchLiteralPath rt lit pfxs = Some c \<Longrightarrow> under_prefixes pfxs c"
  by (auto simp: matchLiteralPath_def Let_def dest: first_under_SomeD split: if_splits)

lemmas guard_simps = ViolatesProtectedPaths_def Let_def set_expandPrefixes

text \<open>What the guard decides, for each of its two kinds of tools.\<close>

definition file_target_protected :: "runtime \<Rightarrow> val gomap \<Rightarrow> string list \<Rightarrow> bool" where
  "file_target_protected rt params pfxs \<longleftrightarrow>
     (\<exists>fp\<in>set (collectFilePaths params). \<exists>c\<in>set (canonicalCandidates rt fp).
        \<exists>q\<in>set (expandPrefixes rt pfxs). matchPathPrefix c q)"

lemma file_hit_iff:
  "first_some (\<lambda>fp. first_under (expandPrefixes rt pfxs) (canonicalCandidates rt fp)) (collectFilePaths params) = None
     \<longleftrightarrow> \<not> file_target_protected rt params pfxs"
  by (auto simp: first_some_None_iff first_under_None_iff under_prefixes_iff file_target_protected_def)

lemma violates_iff:
  assumes "tool = ToLower (TrimSpace (e_ToolName e))" "params = parseParams rt (e_Parameters e)"
  shows "ViolatesProtectedPaths rt (Some e) pfxs \<noteq> None \<longleftrightarrow>
    expandPrefixes rt pfxs \<noteq> [] \<and>
    ((isFileWriteTool tool \<and> file_target_protected rt params pfxs) \<or>
     (isShellTool tool \<and> firstString params [''command'', ''cmd''] \<noteq> [] \<and>
        shellTouchesProtected rt (firstString params [''command'', ''cmd'']) (expandPrefixes rt pfxs) \<noteq> None))"
proof -
  have e: "pfxs = [] \<Longrightarrow> expandPrefixes rt pfxs = []" by (simp add: expandPrefixes_def)
  show ?thesis
    using file_hit_iff [of rt pfxs params] e
    unfolding assms ViolatesProtectedPaths_def Let_def
    by (cases "expandPrefixes rt pfxs = []")
       (auto split: option.splits)
qed

lemma file_path_collected:
  "mget params ''file_path'' = Some (VStr fp) \<Longrightarrow> TrimSpace fp \<noteq> [] \<Longrightarrow> fp \<in> set (collectFilePaths params)"
  by (simp add: collectFilePaths_def path_keys_def)

lemma rooted_TrimSpace_neq: "HasPrefix (TrimSpace s) ''/'' \<Longrightarrow> TrimSpace s \<noteq> []"
  by auto

text \<open>A rooted path whose normal form lies under a rooted literal prefix is a hit.\<close>

lemma protected_component_hit:
  assumes "fp \<in> set (collectFilePaths params)" "HasPrefix fp ''/''"
    "p \<in> set pfxs" "HasPrefix (TrimSpace p) ''/''"
    "CHR ''*'' \<notin> set (path_Clean (TrimSpace p))" "path_Clean (TrimSpace p) \<noteq> ''/''"
    "prefix (SplitByte (path_Clean (TrimSpace p)) (CHR ''/'')) (SplitByte (path_Clean fp) (CHR ''/''))"
  shows "file_target_protected rt params pfxs"
proof -
  let ?q = "path_Clean (TrimSpace p)"
  have "?q \<in> set (expandPrefixes rt pfxs)"
    using assms(3,4) canonicalCandidates_clean [OF assms(4)] rooted_TrimSpace_neq [OF assms(4)]
    by (auto simp: set_expandPrefixes)
  moreover have "path_Clean fp \<in> set (canonicalCandidates rt fp)"
    by (rule canonicalCandidates_clean) (rule assms)
  moreover have "matchPathPrefix (path_Clean fp) ?q"
    using assms path_Clean_keeps_root path_Clean_idem_rooted
    by (subst matchPathPrefix_literal) auto
  ultimately show ?thesis
    using assms(1) by (auto simp: file_target_protected_def)
qed

subsection \<open>Shell\<close>

declare shellTouchesProtectedRec.simps [simp del]

lemma redirect_in_list:
  "tk_kind t = tokRedirWrite \<Longrightarrow> tk_kind w = tokWord \<Longrightarrow> w \<in> set (redirectTargets (pre @ t # w # post))"
proof (induction pre)
  case Nil
  then show ?case by simp
next
  case (Cons x pre)
  then show ?case by (cases pre) auto
qed

lemma shell_hit_of_redirect:
  assumes "w \<in> set (redirectTargets (tokenizeShell cmd))" "redirect_hit rt pfxs w \<noteq> None"
  shows "shellTouchesProtectedRec rt pfxs l cmd \<noteq> None"
  using first_some_ex [where f = "redirect_hit rt pfxs", OF assms]
  by (subst shellTouchesProtectedRec.simps) (auto simp: Let_def split: option.splits)

lemma tokenize_redirect:
  assumes "s = shell_line ws @ ''> '' @ r"
  shows "tokenizeShell s = map quoted_tok ws @ Tok tokRedirWrite ''>'' [] False #
    tokenize_loop s (length (shell_line ws) + 2) no_word"
proof -
  let ?i = "length (shell_line ws)"
  have d: "drop ?i s = ''> '' @ r" using assms by simp
  from drop_nth [of ?i s "CHR ''>''" "CHR '' '' # r"] d
  have i: "?i < length s" "s ! ?i = CHR ''>''" "drop (Suc ?i) s = CHR '' '' # r" by auto
  from drop_nth [OF i(3)] have i1: "Suc ?i < length s" "s ! Suc ?i = CHR '' ''" by auto
  have op: "matchShellOperator s ?i = Some (tokRedirWrite, ''>'')"
    by (simp add: matchShellOperator_def Let_def i i1 next_byte_def)
  have fl: "flush_word s j no_word = []" for j by (simp add: flush_word_def no_word_def)
  have "tokenize_loop s ?i no_word
      = Tok tokRedirWrite ''>'' [] False # tokenize_loop s (Suc ?i) no_word"
    by (subst tokenize_loop.simps) (simp add: i op fl)
  also have "tokenize_loop s (Suc ?i) no_word = tokenize_loop s (?i + 2) no_word"
    using tokenize_blank [OF i1] by (simp add: fl)
  finally show ?thesis
    using tokenize_line [of 0 s ws "''> '' @ r"] assms by (simp add: tokenizeShell_def)
qed

lemma redirect_to_quoted_hit:
  assumes "matchLiteralPath rt p pfxs \<noteq> None"
  shows "shellTouchesProtectedRec rt pfxs l (shell_line ws @ ''> '' @ shell_line [p] @ r) \<noteq> None"
proof (rule shell_hit_of_redirect)
  let ?s = "shell_line ws @ ''> '' @ shell_line [p] @ r"
  have "drop (length (shell_line ws) + 2) ?s = shell_line [p] @ r" by simp
  from tokenize_line [OF this] have "tokenizeShell ?s =
      map quoted_tok ws @ Tok tokRedirWrite ''>'' [] False # quoted_tok p #
        tokenize_loop ?s (length (shell_line ws) + 2 + length (shell_line [p])) no_word"
    using tokenize_redirect [OF refl, of ws "shell_line [p] @ r"] by simp
  then show "quoted_tok p \<in> set (redirectTargets (tokenizeShell ?s))"
    by (simp add: redirect_in_list quoted_tok_def)
  show "redirect_hit rt pfxs (quoted_tok p) \<noteq> None"
    using assms by (simp add: redirect_hit_def quoted_tok_def)
qed

lemma tokenize_dollar:
  assumes "drop i s = CHR ''$'' # c # r" "isNameStart c \<or> c = CHR ''('' \<or> c = CHR ''{''"
  shows "\<exists>v w ts. tokenize_loop s i no_word = Tok tokWord v w True # ts"
proof -
  from drop_nth [OF assms(1)] have i: "i < length s" "s ! i = CHR ''$''" "drop (Suc i) s = c # r" by auto
  from drop_nth [OF i(3)] have i1: "Suc i < length s" "s ! Suc i = c" by auto
  have c: "c \<noteq> CHR 0x27" "c \<noteq> CHR 0x22"
    using assms(2) by (auto simp: isNameStart_def is_alpha_def is_upper_def is_lower_def byte_def)
  have st: "snd (word_step s i no_word) = Word [] (Some i) True"
    using c assms(2) i1
    by (auto simp: word_step_def Let_def i no_word_def begin_word_def mark_word_def consumeDollar_def)
  have "tokenize_loop s i no_word = tokenize_loop s (fst (word_step s i no_word)) (Word [] (Some i) True)"
    by (subst tokenize_loop.simps) (simp add: i operator_None st [symmetric] Let_def)
  then show ?thesis
    using unresolved_word_emitted [of s i "fst (word_step s i no_word)" "Word [] (Some i) True"]
      word_step_progress [of i s no_word] i by simp
qed

lemma redirect_to_expansion_hit:
  assumes "isNameStart c \<or> c = CHR ''('' \<or> c = CHR ''{''"
  shows "shellTouchesProtectedRec rt pfxs l (shell_line ws @ ''> '' @ CHR ''$'' # c # r) \<noteq> None"
proof -
  let ?s = "shell_line ws @ ''> '' @ CHR ''$'' # c # r"
  have "drop (length (shell_line ws) + 2) ?s = CHR ''$'' # c # r" by simp
  from tokenize_dollar [OF this assms] obtain v w ts where
    "tokenize_loop ?s (length (shell_line ws) + 2) no_word = Tok tokWord v w True # ts" by blast
  with tokenize_redirect [OF refl, of ws "CHR ''$'' # c # r"]
  have "tokenizeShell ?s = map quoted_tok ws @ Tok tokRedirWrite ''>'' [] False # Tok tokWord v w True # ts"
    by simp
  then have "Tok tokWord v w True \<in> set (redirectTargets (tokenizeShell ?s))"
    by (simp add: redirect_in_list)
  then show ?thesis
    by (rule shell_hit_of_redirect) (simp add: redirect_hit_def)
qed

text \<open>A quoted argument vector: the guard decides on exactly these words.\<close>

lemma redirectTargets_words: "list_all (\<lambda>t. tk_kind t = tokWord) ts \<Longrightarrow> redirectTargets ts = []"
  by (induction ts rule: redirectTargets.induct) auto

lemma split_segments_words:
  "list_all (\<lambda>t. tk_kind t = tokWord) ts \<Longrightarrow> split_segments cur ts = (if cur @ ts = [] then [] else [cur @ ts])"
  by (induction ts arbitrary: cur) auto

lemma command_words_words: "list_all (\<lambda>t. tk_kind t = tokWord) ts \<Longrightarrow> command_words False ts = ts"
  by (induction ts) (auto simp: isRedirKind_def)

lemma quoted_not_assignment: "\<not> isAssignmentWord (quoted_tok w)"
proof -
  have "length w < length (shell_quote w)"
  proof -
    have "ps \<noteq> [] \<Longrightarrow> length (Join ps [CHR 0x27]) < length (quote_parts ps)" for ps
      by (induction ps rule: quote_parts.induct) auto
    from this [of "SplitByte w (CHR 0x27)"] show ?thesis by (simp add: shell_quote_def Join_SplitByte)
  qed
  then show ?thesis by (auto simp: isAssignmentWord_def quoted_tok_def)
qed

definition argv_hit :: "runtime \<Rightarrow> string list \<Rightarrow> string list \<Rightarrow> string option" where
  "argv_hit rt pfxs argv =
     (if length argv < 2 \<or> \<not> isMutatingProg (filepath_Base (hd argv)) argv then None
      else args_hit rt pfxs False (map quoted_tok (tl argv)))"

lemma shell_line_decided:
  "shellTouchesProtectedRec rt pfxs l (shell_line argv) = argv_hit rt pfxs argv"
proof -
  have w: "list_all (\<lambda>t. tk_kind t = tokWord) (map quoted_tok argv)"
    by (simp add: list_all_iff quoted_tok_def)
  have strip: "stripLeadingAssignments (map quoted_tok argv) = map quoted_tok argv"
    by (cases argv) (simp_all add: stripLeadingAssignments_def quoted_not_assignment)
  have vals: "wordValues (map quoted_tok argv) = argv"
    by (simp add: wordValues_def quoted_tok_def comp_def)
  have ws: "stripLeadingAssignments (commandWords (map quoted_tok argv)) = map quoted_tok argv"
    by (simp add: commandWords_def command_words_words [OF w] strip)
  have hd: "argv \<noteq> [] \<Longrightarrow> tk_value (hd (map quoted_tok argv)) = hd argv"
    by (simp add: hd_map quoted_tok_def)
  have seg: "argv \<noteq> [] \<Longrightarrow> segment_hit rt pfxs (map quoted_tok argv) = argv_hit rt pfxs argv"
    unfolding segment_hit_def argv_hit_def Let_def ws vals by (simp add: hd map_tl)
  show ?thesis
  proof (cases "argv = []")
    case True
    then show ?thesis
      using extract_shell_line [of "[]"] tokenize_shell_line [of "[]"]
      by (subst shellTouchesProtectedRec.simps)
         (simp add: Let_def splitShellSegments_def argv_hit_def split: nat.splits)
  next
    case False
    then show ?thesis
      using seg split_segments_words [OF w, of "[]"]
      by (subst shellTouchesProtectedRec.simps)
         (simp add: Let_def tokenize_shell_line redirectTargets_words [OF w] splitShellSegments_def
            extract_shell_line split: option.splits nat.splits)
  qed
qed

lemma args_hit_some:
  "w \<in> set ws \<Longrightarrow> \<not> HasPrefix w ''-'' \<Longrightarrow> matchLiteralPath rt w pfxs \<noteq> None \<Longrightarrow>
     args_hit rt pfxs dd (map quoted_tok ws) \<noteq> None"
proof (induction ws arbitrary: dd)
  case Nil
  then show ?case by simp
next
  case (Cons x ws)
  have tok: "tk_unresolved (quoted_tok x) = False" "tk_value (quoted_tok x) = x"
    by (simp_all add: quoted_tok_def)
  show ?case
  proof (cases "w = x")
    case True
    with Cons.prems have "x \<noteq> ''--''" by auto
    with True Cons.prems tok show ?thesis by (auto simp: Let_def split: option.splits)
  next
    case False
    with Cons tok show ?thesis by (auto simp: Let_def split: option.splits)
  qed
qed

lemma echo_not_mutating: "\<not> isMutatingProg (filepath_Base ''echo'') fs"
proof -
  have "filepath_Base ''echo'' = ''echo''" by code_simp
  then show ?thesis by (simp add: isMutatingProg_def mutatingProgs_def)
qed

lemma quiet_segment:
  assumes "hd (map tk_value (commandWords seg)) = ''echo''" "commandWords seg \<noteq> []"
  shows "segment_hit rt pfxs seg = None"
proof -
  obtain w ws where w: "commandWords seg = w # ws" "tk_value w = ''echo''"
    using assms by (cases "commandWords seg") auto
  have "IndexByte (tk_value w) (CHR ''='') = None" by (simp add: w)
  then have "\<not> isAssignmentWord w" by (auto simp: isAssignmentWord_def)
  with w show ?thesis
    by (simp add: segment_hit_def Let_def stripLeadingAssignments_def echo_not_mutating)
qed

text \<open>A command whose segments all run \<open>echo\<close>, with no redirection and no substitution the
  guard finds, passes.\<close>

lemma quiet_command:
  assumes "redirectTargets (tokenizeShell cmd) = []" "extractCommandSubsts cmd = []"
    "map (map tk_value) (map commandWords (splitShellSegments (tokenizeShell cmd))) = vs"
    "\<forall>v\<in>set vs. hd v = ''echo'' \<and> v \<noteq> []"
  shows "shellTouchesProtected rt cmd pfxs = None"
proof -
  have "segment_hit rt pfxs seg = None" if "seg \<in> set (splitShellSegments (tokenizeShell cmd))" for seg
  proof -
    from that assms(3) have "map tk_value (commandWords seg) \<in> set vs" by auto
    with assms(4) show ?thesis by (intro quiet_segment) auto
  qed
  then have "first_some (segment_hit rt pfxs) (splitShellSegments (tokenizeShell cmd)) = None"
    by (simp add: first_some_None_iff)
  with assms(1,2) show ?thesis
    by (simp add: shellTouchesProtected_def shellTouchesProtectedRec.simps Let_def split: nat.splits)
qed

section \<open>Properties\<close>

text \<open>The guard reports a violation exactly when some canonical prefix remains and either a tool
  that is not known to be read-only names a path with a canonical form under one of them, or a
  shell tool's command string touches one. Nothing else in the envelope matters.\<close>

theorem guard_decision:
  "ViolatesProtectedPaths rt (Some e) pfxs \<noteq> None \<longleftrightarrow>
    (let tool = ToLower (TrimSpace (e_ToolName e)); params = parseParams rt (e_Parameters e);
         clean = expandPrefixes rt pfxs; cmd = firstString params [''command'', ''cmd'']
     in clean \<noteq> [] \<and>
       ((isFileWriteTool tool \<and>
          (\<exists>fp\<in>set (collectFilePaths params). \<exists>c\<in>set (canonicalCandidates rt fp).
             \<exists>q\<in>set clean. matchPathPrefix c q)) \<or>
        (isShellTool tool \<and> cmd \<noteq> [] \<and> shellTouchesProtected rt cmd clean \<noteq> None)))"
  unfolding Let_def violates_iff [OF refl refl] file_target_protected_def by blast

text \<open>C34: a write whose \<open>file_path\<close> is rooted and, after lexical cleaning, lies under a
  protected literal prefix is always denied, whatever \<open>..\<close>, \<open>.\<close> and doubled slashes the
  path was written with and whatever the file system answers.\<close>

theorem protected_write_denied:
  assumes "isFileWriteTool (ToLower (TrimSpace (e_ToolName e)))"
    "mget (parseParams rt (e_Parameters e)) ''file_path'' = Some (VStr fp)" "HasPrefix fp ''/''"
    "p \<in> set pfxs" "HasPrefix (TrimSpace p) ''/''"
    "CHR ''*'' \<notin> set (path_Clean (TrimSpace p))" "path_Clean (TrimSpace p) \<noteq> ''/''"
    "prefix (SplitByte (path_Clean (TrimSpace p)) (CHR ''/'')) (SplitByte (path_Clean fp) (CHR ''/''))"
  shows "ViolatesProtectedPaths rt (Some e) pfxs \<noteq> None"
proof -
  have "TrimSpace fp \<noteq> []"
    using assms(3) by (cases fp) (auto simp: TrimSpace_def is_space_def byte_def dropWhile_eq_Nil_conv)
  then have "fp \<in> set (collectFilePaths (parseParams rt (e_Parameters e)))"
    using assms(2) by (intro file_path_collected)
  from protected_component_hit [OF this assms(3-8)] have
    "file_target_protected rt (parseParams rt (e_Parameters e)) pfxs" .
  moreover from this have "expandPrefixes rt pfxs \<noteq> []" by (auto simp: file_target_protected_def)
  ultimately show ?thesis unfolding violates_iff [OF refl refl] using assms(1) by blast
qed

definition sample_envelope :: "string \<Rightarrow> raw \<Rightarrow> ActionEnvelope" where
  "sample_envelope tool params =
     \<lparr> e_EnvelopeID = ''e1'', e_Timestamp = 1, e_AgentID = ''a'', e_SessionID = [], e_OrgID = ''o'',
       e_AgentVersion = [], e_Framework = [], e_TurnNumber = 0, e_Department = [], e_ToolName = tool,
       e_ToolServer = [], e_ToolGroup = [], e_Parameters = params, e_ParametersRedacted = RawNil,
       e_Context = \<lparr> cx_Verified = \<lparr> vc_CustomerTier = [], vc_CustomerAccountAgeDays = 0,
           vc_CustomerLifetimeValue = 0, vc_CustomerOrderCount = 0, vc_OrderTotal = 0, vc_OrderAge = 0,
           vc_OrderCurrency = [], vc_CustomerID = [], vc_OrderID = [], vc_OrderItemCount = 0,
           vc_ProductCategory = [], vc_ProductCategoryAvgPrice = 0, vc_ReturnRequestReason = [],
           vc_ReturnRequestStatus = [], vc_EconomicValueImpact = 0, vc_Rolling24hTotal = 0,
           vc_Rolling24hCount = 0, vc_Rolling7dTotal = 0, vc_Rolling7dCount = 0,
           vc_AgentBudget = None, vc_AgentVelocity = None, vc_Justification = None,
           vc_ContentRisk = [], vc_ContentCategories = [], vc_ContentClassifierTier = [],
           vc_CounterAgentRisk = [], vc_CounterAgentCategories = [], vc_CounterAgentReasoning = [] \<rparr>,
         cx_SessionState = \<lparr> ss_CumulativeAmount = 0, ss_ActionsInSession = 0,
           ss_EscalationsInSession = 0, ss_DeniedInSession = 0, ss_ToolSequence = [],
           ss_AmountTrajectory = [] \<rparr>,
         cx_AgentSupplied = RawNil \<rparr>,
       e_IntegrationType = [], e_ProxyVersion = [], e_TLSVerified = False, e_Integrity = None \<rparr>"

theorem protected_write_denied_witness:
  "ViolatesProtectedPaths sample_runtime
     (Some (sample_envelope ''Write'' (RawJson (JObj [(''file_path'', JStr ''/tmp/../etc//tg/p.yaml'')]))))
     ['' /etc/tg/ ''] \<noteq> None"
proof -
  let ?e = "sample_envelope ''Write'' (RawJson (JObj [(''file_path'', JStr ''/tmp/../etc//tg/p.yaml'')]))"
  have c: "path_Clean (TrimSpace '' /etc/tg/ '') = ''/etc/tg''"
    "path_Clean ''/tmp/../etc//tg/p.yaml'' = ''/etc/tg/p.yaml''" by code_simp+
  have "isFileWriteTool (ToLower (TrimSpace (e_ToolName ?e)))"
    "mget (parseParams sample_runtime (e_Parameters ?e)) ''file_path'' = Some (VStr ''/tmp/../etc//tg/p.yaml'')"
    "HasPrefix (TrimSpace '' /etc/tg/ '') ''/''"
    "SplitByte ''/etc/tg'' (CHR ''/'') = [[], ''etc'', ''tg'']"
    "SplitByte ''/etc/tg/p.yaml'' (CHR ''/'') = [[], ''etc'', ''tg'', ''p.yaml'']"
    by code_simp+
  then show ?thesis
    using protected_write_denied [of ?e sample_runtime "''/tmp/../etc//tg/p.yaml''" "'' /etc/tg/ ''"
        "['' /etc/tg/ '']"] by (simp add: c)
qed

text \<open>A shell command made of single-quoted words is decided on exactly the words that were
  quoted: whatever bytes they hold (operators, quotes, \<open>$\<close>, blanks), no operator, expansion or
  substitution is read out of them, and no word is lost.\<close>

theorem quoted_command_decided_on_its_words:
  "tokenizeShell (shell_line argv) = map quoted_tok argv \<and>
   shellTouchesProtected rt (shell_line argv) pfxs =
     (if 2 \<le> length argv \<and> isMutatingProg (filepath_Base (hd argv)) argv
      then args_hit rt pfxs False (map quoted_tok (tl argv)) else None)"
  by (auto simp: tokenize_shell_line shellTouchesProtected_def shell_line_decided argv_hit_def)

text \<open>An output redirection is caught wherever it stands after quoted words: its target is
  compared with the protected prefixes, and a target that begins with a variable, a parameter
  expansion or a command substitution is a hit without comparison, whatever follows.\<close>

theorem redirection_fails_closed:
  "(matchLiteralPath rt target pfxs \<noteq> None \<longrightarrow>
      shellTouchesProtected rt (shell_line ws @ ''> '' @ shell_line [target] @ r) pfxs \<noteq> None) \<and>
   (isNameStart c \<or> c = CHR ''('' \<or> c = CHR ''{'' \<longrightarrow>
      shellTouchesProtected rt (shell_line ws @ ''> '' @ CHR ''$'' # c # r) pfxs \<noteq> None)"
  using redirect_to_quoted_hit [of rt target pfxs maxShellSubstDepth ws r]
    redirect_to_expansion_hit [of c rt pfxs maxShellSubstDepth ws r]
  by (auto simp: shellTouchesProtected_def)

theorem redirection_fails_closed_witness:
  "shellTouchesProtected sample_runtime (shell_line [''echo'', ''hi''] @ ''> '' @ shell_line [''/etc/x''] @ ''; ls'') [''/etc''] \<noteq> None \<and>
   shellTouchesProtected sample_runtime (shell_line [''echo''] @ ''> $HOME/x'') [''/etc''] \<noteq> None"
proof -
  have "matchLiteralPath sample_runtime ''/etc/x'' [''/etc''] \<noteq> None" "isNameStart (CHR ''H'')"
    by code_simp+
  then show ?thesis
    using redirection_fails_closed [of sample_runtime "''/etc/x''" "[''/etc'']" "[''echo'', ''hi'']" "''; ls''"]
      redirection_fails_closed [of sample_runtime "''/etc/x''" "[''/etc'']" "[''echo'']" "''OME/x''" "CHR ''H''"]
    by simp
qed

text \<open>A mutating command (\<open>rm\<close>, \<open>cp\<close>, \<open>tee\<close>, ..., under any directory) with a quoted
  operand under a protected prefix is a hit, wherever the operand stands among the arguments.\<close>

theorem mutating_command_denied:
  assumes "filepath_Base prog \<in> set mutatingProgs" "w \<in> set args" "\<not> HasPrefix w ''-''"
    "matchLiteralPath rt w pfxs \<noteq> None"
  shows "shellTouchesProtected rt (shell_line (prog # args)) pfxs \<noteq> None"
proof -
  have hit: "args_hit rt pfxs False (map quoted_tok args) \<noteq> None" using assms(2-4) by (rule args_hit_some)
  have "args \<noteq> []" using assms(2) by auto
  then have "argv_hit rt pfxs (prog # args) = args_hit rt pfxs False (map quoted_tok args)"
    using assms(1) by (simp add: argv_hit_def isMutatingProg_def)
  with hit show ?thesis unfolding shellTouchesProtected_def shell_line_decided by simp
qed

theorem mutating_command_denied_witness:
  "shellTouchesProtected sample_runtime (shell_line [''/bin/rm'', ''-f'', ''/etc/a b'']) [''/etc''] \<noteq> None"
proof -
  have "filepath_Base ''/bin/rm'' \<in> set mutatingProgs" "\<not> HasPrefix ''/etc/a b'' ''-''"
    "matchLiteralPath sample_runtime ''/etc/a b'' [''/etc''] \<noteq> None"
    by code_simp+
  then show ?thesis
    using mutating_command_denied [of "''/bin/rm''" "''/etc/a b''" "[''-f'', ''/etc/a b'']"] by simp
qed

text \<open>Three forms of a command substitution that a shell runs are not handed back to the guard,
  so the deletion inside is missed: in the default value of a parameter expansion, inside
  arithmetic, and after an ANSI-C quoted word with an escaped quote.\<close>

theorem substitution_missed:
  "shellTouchesProtected rt ''echo ${x:-$(rm /p/f)}'' pfxs = None \<and>
   shellTouchesProtected rt ''echo $((`rm /p/f`))'' pfxs = None \<and>
   shellTouchesProtected rt
     (''echo $'' @ [CHR 0x27, CHR 0x5C, CHR 0x27, CHR 0x27] @ '' $(rm /p/f)'') pfxs = None"
proof -
  let ?a = "''echo ${x:-$(rm /p/f)}''" and ?b = "''echo $((`rm /p/f`))''"
  let ?c = "''echo $'' @ [CHR 0x27, CHR 0x5C, CHR 0x27, CHR 0x27] @ '' $(rm /p/f)''"
  have t: "redirectTargets (tokenizeShell ?a) = []" "redirectTargets (tokenizeShell ?b) = []"
    "redirectTargets (tokenizeShell ?c) = []" "extractCommandSubsts ?a = []"
    "extractCommandSubsts ?b = []" "extractCommandSubsts ?c = []"
    "map (map tk_value) (map commandWords (splitShellSegments (tokenizeShell ?a))) = [[''echo'', []]]"
    "map (map tk_value) (map commandWords (splitShellSegments (tokenizeShell ?b))) = [[''echo'', []]]"
    "map (map tk_value) (map commandWords (splitShellSegments (tokenizeShell ?c))) = [[''echo'', [], []]]"
    by code_simp+
  show ?thesis
    using quiet_command [OF t(1,4,7)] quiet_command [OF t(2,5,8)] quiet_command [OF t(3,6,9)] by simp
qed

text \<open>A parameters object that holds a number no \<open>float64\<close> can represent anywhere makes the
  guard see no parameter at all: the write under a protected prefix beside it is not denied.\<close>

theorem unrepresentable_number_blinds_guard:
  assumes "rt_parse_float rt n = None"
    "e_Parameters e = RawJson (JObj [(''file_path'', JStr fp), (k, JNum n)])"
  shows "parseParams rt (e_Parameters e) = [] \<and> ViolatesProtectedPaths rt (Some e) pfxs = None"
proof -
  have p: "parseParams rt (e_Parameters e) = []"
    using assms by (simp add: parseParams_def unmarshal_map_def)
  then have "\<not> ViolatesProtectedPaths rt (Some e) pfxs \<noteq> None"
    by (subst violates_iff [OF refl refl])
       (simp add: file_target_protected_def collectFilePaths_def path_keys_def edit_keys_def)
  with p show ?thesis by simp
qed

theorem unrepresentable_number_blinds_guard_witness:
  "ViolatesProtectedPaths sample_runtime
     (Some (sample_envelope ''write'' (RawJson (JObj [(''file_path'', JStr ''/etc/x''), (''n'', JNum ''1e999'')]))))
     [''/etc''] = None"
  using unrepresentable_number_blinds_guard [of sample_runtime "''1e999''"
      "sample_envelope ''write'' (RawJson (JObj [(''file_path'', JStr ''/etc/x''), (''n'', JNum ''1e999'')]))"]
  by (simp add: sample_runtime_def sample_envelope_def)

end
