(* ===== verification/Classifiers.thy ===== *)
theory Classifiers
  imports Protect Sql_Mssql
begin

text \<open>
  The classifier leaves of a condition: shell\_classify.go, write\_classify.go,
  http\_classify.go, llm\_classify.go and the sql\_classify part of condition.go. What they call
  outside the engine package is in one environment: the host's services, the linked SQL dialects,
  the function registry, and the language model back ends.
\<close>

section \<open>The environment\<close>

text \<open>What a back end returns: an error, a nil result, or a category with its confidence and
  reasoning. A timeout is an error.\<close>

datatype llm_answer = LlmErr string | LlmNil | LlmResult string f64 string

text \<open>
  \<^item> \<open>llm_hook\<close>: \<open>llmClassifyHook\<close>;
  \<^item> \<open>llm_system_one model forbidden prompt\<close>: the System One classifier;
  \<^item> \<open>llm_fetch_image\<close>: the hardened image fetch, base64 of the body;
  \<^item> \<open>llm_ollama endpoint model forbidden prompt image\<close>: the Ollama classifier.
\<close>

record llm_service =
  llm_hook :: "(string \<Rightarrow> string \<Rightarrow> string list \<Rightarrow> string \<Rightarrow> llm_answer) option"
  llm_system_one :: "string \<Rightarrow> string list \<Rightarrow> string \<Rightarrow> llm_answer"
  llm_fetch_image :: "string \<Rightarrow> string option"
  llm_ollama :: "string \<Rightarrow> string \<Rightarrow> string list \<Rightarrow> string \<Rightarrow> string \<Rightarrow> llm_answer"

record engine_env =
  en_rt :: runtime
  en_dialects :: "classifier gomap"
  en_registry :: "Registry option"
  en_llm :: llm_service

section \<open>shell\_classify\<close>

definition normalizeArgv :: "val \<Rightarrow> string list option" where
  "normalizeArgv v =
     (case v of
        VStrs x \<Rightarrow> Some x
      | VList items \<Rightarrow>
          those (map (\<lambda>item. case item of VStr s \<Rightarrow> Some s | _ \<Rightarrow> None) items)
      | _ \<Rightarrow> None)"

text \<open>\<open>compiledRegex\<close>: the cache does not change what a pattern compiles to.\<close>

definition compiledRegex :: "runtime \<Rightarrow> string \<Rightarrow> (string \<Rightarrow> bool) option" where
  "compiledRegex rt pattern = rt_regex rt pattern"

definition regex_denies :: "runtime \<Rightarrow> string list \<Rightarrow> string \<Rightarrow> bool" where
  "regex_denies rt argv pat =
     (case compiledRegex rt pat of None \<Rightarrow> True | Some m \<Rightarrow> list_ex m argv)"

definition argv_path_denied :: "runtime \<Rightarrow> ShellRequire \<Rightarrow> string \<Rightarrow> bool" where
  "argv_path_denied rt req arg =
     (if \<not> filepath_IsAbs arg \<and> \<not> HasPrefix arg ''/'' then False
      else
        let cleaned = path_Clean arg;
            variants = (if sh_ResolveSymlinks req then
                (case rt_symlinks rt cleaned of
                   Some r \<Rightarrow> (if r \<noteq> cleaned then [cleaned, r] else [cleaned])
                 | None \<Rightarrow> [cleaned])
              else [cleaned])
        in list_ex (\<lambda>v. list_ex (matchPathPrefix v) (sh_DeniedArgvPaths req)) variants)"

definition env_programs :: "string list" where
  "env_programs = [''env'', ''sudo'', ''nice'', ''ionice'', ''chroot'', ''doas'']"

definition evalShellClassify :: "runtime \<Rightarrow> ShellClassify \<Rightarrow> val gomap \<Rightarrow> bool" where
  "evalShellClassify rt s flds =
     (let req = shc_Require s in
      case resolveField (shc_Field s) flds of
        None \<Rightarrow> True
      | Some raw \<Rightarrow>
          (case normalizeArgv raw of
             None \<Rightarrow> True
           | Some argv \<Rightarrow>
               (if argv = [] then True
                else if 0 < sh_MaxArgc req \<and> sh_MaxArgc req < int (length argv) then True
                else if sh_Argv0Allowlist req \<noteq> [] \<and> filepath_Base (hd argv) \<notin> set (sh_Argv0Allowlist req) then True
                else if list_ex (regex_denies rt argv) (sh_ArgvDenyPatterns req) then True
                else if sh_DeniedArgvPaths req \<noteq> [] \<and> list_ex (argv_path_denied rt req) argv then True
                else if sh_ArgvEnvPatternDeny req \<noteq> [] \<and> 1 < length argv \<and>
                    filepath_Base (hd argv) \<in> set env_programs
                then regex_denies rt (tl argv) (sh_ArgvEnvPatternDeny req)
                else False)))"

section \<open>write\_classify\<close>

definition content_keys :: "string list" where
  "content_keys = map (\<lambda>k. ''parameters.'' @ k)
     [''content'', ''new_string'', ''new_str'', ''new_source'', ''contents'', ''text'', ''body'', ''patch'']"

definition writeContent :: "WriteClassify \<Rightarrow> val gomap \<Rightarrow> string option" where
  "writeContent w flds =
     first_some (\<lambda>k. case resolveField k flds of
         Some (VStr s) \<Rightarrow> Some s
       | Some (VBytes s) \<Rightarrow> Some s
       | _ \<Rightarrow> None)
       (if wc_ContentField w \<noteq> [] then [wc_ContentField w] else content_keys)"

definition parseParamsFromFields :: "val gomap \<Rightarrow> val gomap" where
  "parseParamsFromFields flds =
     List.map_filter (\<lambda>(k, v). if 11 < length k \<and> HasPrefix k ''parameters.'' then Some (drop 11 k, v) else None) flds"

fun dedupe_strings :: "string list \<Rightarrow> string list \<Rightarrow> string list" where
  "dedupe_strings out [] = out"
| "dedupe_strings out (s # ss) =
     dedupe_strings (if s \<noteq> [] \<and> s \<notin> set out then out @ [s] else out) ss"

definition dedupeStrings :: "string list \<Rightarrow> string list" where
  "dedupeStrings ss = dedupe_strings [] ss"

definition collectWriteTargets :: "WriteClassify \<Rightarrow> val gomap \<Rightarrow> string list" where
  "collectWriteTargets w flds =
     (let configured = (if wc_PathField w \<noteq> [] then
            (case resolveField (wc_PathField w) flds of
               Some (VStr s) \<Rightarrow> (if s \<noteq> [] then [s] else [])
             | _ \<Rightarrow> [])
          else []);
          params = parseParamsFromFields flds
      in dedupeStrings (configured @ (if params \<noteq> [] then collectFilePaths params else [])))"

text \<open>The checks on one target: the first candidate under a denied prefix, then the first outside
  the allowed ones.\<close>

definition write_target_violation :: "runtime \<Rightarrow> string list \<Rightarrow> string list \<Rightarrow> string \<Rightarrow> detail option" where
  "write_target_violation rt denied allowed t =
     (let cands = canonicalCandidates rt t in
      case first_some (\<lambda>c. map_option (Pair c) (List.find (matchPathPrefix c) denied)) cands of
        Some (c, p) \<Rightarrow> Some (WriteDeniedPrefix c p)
      | None \<Rightarrow>
          (if allowed = [] then None
           else map_option WriteNotAllowed (List.find (\<lambda>c. \<not> list_ex (matchPathPrefix c) allowed) cands)))"

definition write_path_violation :: "runtime \<Rightarrow> WriteClassify \<Rightarrow> val gomap \<Rightarrow> detail option" where
  "write_path_violation rt w flds =
     (let req = wc_Require w in
      if wr_DeniedPathPrefixes req = [] \<and> wr_AllowedPathPrefixes req = [] then None
      else
        let targets = collectWriteTargets w flds in
        if targets = [] then Some WriteNoPath
        else first_some (write_target_violation rt (expandPrefixes rt (wr_DeniedPathPrefixes req))
               (expandPrefixes rt (wr_AllowedPathPrefixes req))) targets)"

definition content_pattern_violation :: "runtime \<Rightarrow> string \<Rightarrow> string \<Rightarrow> detail option" where
  "content_pattern_violation rt content pat =
     (case compiledRegex rt pat of
        None \<Rightarrow> Some (WriteBadRegex pat)
      | Some m \<Rightarrow> (if m content then Some (WriteDeniedContent pat) else None))"

definition write_content_violation :: "runtime \<Rightarrow> WriteClassify \<Rightarrow> val gomap \<Rightarrow> detail option" where
  "write_content_violation rt w flds =
     (let req = wc_Require w in
      if \<not> (0 < wr_MaxBytes req) \<and> wr_DeniedContentRegex req = [] then None
      else case writeContent w flds of
          None \<Rightarrow> Some WriteNoContent
        | Some content \<Rightarrow>
            (if 0 < wr_MaxBytes req \<and> wr_MaxBytes req < int (length content)
             then Some (WriteTooLarge (length content) (wr_MaxBytes req))
             else first_some (content_pattern_violation rt content) (wr_DeniedContentRegex req)))"

text \<open>The leaves below return the detail when they fire, \<open>None\<close> for \<open>(false, "")\<close>.\<close>

definition evalWriteClassifyWithDetail :: "runtime \<Rightarrow> WriteClassify \<Rightarrow> val gomap \<Rightarrow> detail option" where
  "evalWriteClassifyWithDetail rt w flds =
     (case write_path_violation rt w flds of
        Some d \<Rightarrow> Some d
      | None \<Rightarrow> write_content_violation rt w flds)"

section \<open>http\_classify\<close>

definition explicitPort :: "url \<Rightarrow> int" where
  "explicitPort u =
     (if url_Port u \<noteq> [] then (case Atoi (url_Port u) of Some n \<Rightarrow> n | None \<Rightarrow> 0)
      else if ToLower (url_Scheme u) = ''https'' then 443
      else if ToLower (url_Scheme u) = ''http'' then 80
      else 0)"

definition hostMatches :: "string \<Rightarrow> string \<Rightarrow> bool" where
  "hostMatches host0 entry0 =
     (let host = TrimSuffix (ToLower (TrimSpace host0)) ''.'';
          entry = TrimSuffix (ToLower (TrimSpace entry0)) ''.''
      in if entry = [] then False
         else if HasPrefix entry ''.'' then host = tl entry \<or> HasSuffix host entry
         else host = entry)"

definition containsFold :: "string list \<Rightarrow> string \<Rightarrow> bool" where
  "containsFold xs val = list_ex (\<lambda>s. EqualFold s val) xs"

definition has_allow_list :: "HTTPRequire \<Rightarrow> bool" where
  "has_allow_list req \<longleftrightarrow>
     hr_AllowedHosts req \<noteq> [] \<or> hr_AllowedSchemes req \<noteq> [] \<or> hr_AllowedMethods req \<noteq> [] \<or> hr_AllowedPorts req \<noteq> []"

definition http_deny :: "HTTPRequire \<Rightarrow> string \<Rightarrow> string \<Rightarrow> int \<Rightarrow> detail option" where
  "http_deny req host meth port =
     (case List.find (hostMatches host) (hr_DeniedHosts req) of
        Some d \<Rightarrow> Some (HttpHostDenied host d)
      | None \<Rightarrow>
          (if meth \<noteq> [] \<and> containsFold (hr_DeniedMethods req) meth then Some (HttpMethodDenied meth)
           else if 0 < port \<and> port \<in> set (hr_DeniedPorts req) then Some (HttpPortDenied port)
           else None))"

definition http_allow :: "HTTPRequire \<Rightarrow> string \<Rightarrow> string \<Rightarrow> string \<Rightarrow> int \<Rightarrow> detail option" where
  "http_allow req host scheme meth port =
     (if hr_AllowedHosts req \<noteq> [] \<and> \<not> list_ex (hostMatches host) (hr_AllowedHosts req)
      then Some (HttpHostNotAllowed host)
      else if hr_AllowedSchemes req \<noteq> [] \<and> \<not> containsFold (hr_AllowedSchemes req) scheme
      then Some (HttpSchemeNotAllowed scheme)
      else if hr_AllowedMethods req \<noteq> [] \<and> meth = [] then Some HttpMethodUnknown
      else if hr_AllowedMethods req \<noteq> [] \<and> \<not> containsFold (hr_AllowedMethods req) meth
      then Some (HttpMethodNotAllowed meth)
      else if hr_AllowedPorts req \<noteq> [] \<and> port = 0 then Some HttpPortUnknown
      else if hr_AllowedPorts req \<noteq> [] \<and> port \<notin> set (hr_AllowedPorts req) then Some (HttpPortNotAllowed port)
      else None)"

definition evalHTTPClassifyWithDetail :: "runtime \<Rightarrow> HTTPClassify \<Rightarrow> val gomap \<Rightarrow> detail option" where
  "evalHTTPClassifyWithDetail rt h flds =
     (let req = hc_Require h;
          hasAllowList = has_allow_list req;
          urlField = (if hc_URLField h = [] then ''parameters.url'' else hc_URLField h)
      in case resolveField urlField flds of
           None \<Rightarrow> (if hasAllowList then Some (HttpUrlMissing urlField) else None)
         | Some raw \<Rightarrow>
             (case raw of
                VStr rawURL \<Rightarrow>
                  (if TrimSpace rawURL = [] then (if hasAllowList then Some HttpUrlEmpty else None)
                   else
                     case rt_url rt (TrimSpace rawURL) of
                       None \<Rightarrow> Some (HttpUnparseable rawURL)
                     | Some u \<Rightarrow>
                         (if url_Host u = [] then Some (HttpUnparseable rawURL)
                          else
                            let scheme = ToLower (url_Scheme u);
                                host = TrimSuffix (ToLower (url_Hostname u)) ''.'';
                                port = explicitPort u;
                                mf = (if hc_MethodField h = [] then ''parameters.method'' else hc_MethodField h);
                                meth = (case resolveField mf flds of None \<Rightarrow> [] | Some mv \<Rightarrow> ToUpper (Sprint_v rt mv))
                            in if scheme = [] \<and> hasAllowList then Some (HttpNoScheme rawURL)
                               else case http_deny req host meth port of
                                   Some d \<Rightarrow> Some d
                                 | None \<Rightarrow> http_allow req host scheme meth port))
              | _ \<Rightarrow> (if hasAllowList then Some HttpUrlEmpty else None)))"

section \<open>llm\_classify\<close>

text \<open>\<open>utf8.ValidString\<close>.\<close>

definition utf8_cont :: "int \<Rightarrow> bool" where
  "utf8_cont b \<longleftrightarrow> 128 \<le> b \<and> b \<le> 191"

fun utf8_valid :: "int list \<Rightarrow> bool" where
  "utf8_valid [] = True"
| "utf8_valid (a # bs) =
     (if a < 128 then utf8_valid bs
      else case bs of
          [] \<Rightarrow> False
        | b # cs \<Rightarrow>
            (if 194 \<le> a \<and> a \<le> 223 then utf8_cont b \<and> utf8_valid cs
             else case cs of
                 [] \<Rightarrow> False
               | c # ds \<Rightarrow>
                   (if 224 \<le> a \<and> a \<le> 239 then
                      utf8_cont b \<and> utf8_cont c \<and> (a = 224 \<longrightarrow> 160 \<le> b) \<and> (a = 237 \<longrightarrow> b \<le> 159) \<and> utf8_valid ds
                    else case ds of
                        [] \<Rightarrow> False
                      | d # es \<Rightarrow>
                          240 \<le> a \<and> a \<le> 244 \<and> utf8_cont b \<and> utf8_cont c \<and> utf8_cont d \<and>
                          (a = 240 \<longrightarrow> 144 \<le> b) \<and> (a = 244 \<longrightarrow> b \<le> 143) \<and> utf8_valid es)))"

fun valid_prefix :: "nat \<Rightarrow> string \<Rightarrow> string" where
  "valid_prefix 0 s = []"
| "valid_prefix (Suc n) s =
     (if utf8_valid (map byte (take (Suc n) s)) then take (Suc n) s else valid_prefix n s)"

definition boundedErr :: "string \<Rightarrow> string" where
  "boundedErr s =
     (if length s \<le> 240 then s else valid_prefix 240 s @ [CHR 0xE2, CHR 0x80, CHR 0xA6])"

definition interpretClassifyResult :: "llm_answer \<Rightarrow> detail option" where
  "interpretClassifyResult a =
     (case a of
        LlmErr e \<Rightarrow> Some (LlmError (boundedErr e))
      | LlmNil \<Rightarrow> Some LlmNilResult
      | LlmResult cat conf reason \<Rightarrow>
          (if cat = ''safe'' then None else Some (LlmCategory cat conf reason)))"

definition defaultLLMModel :: "string \<Rightarrow> string" where
  "defaultLLMModel backend = (if backend = LLMBackendSystemOne then ''jev-latest'' else ''gemma4:e4b'')"

definition evalLLMClassifyWithDetail :: "llm_service \<Rightarrow> LLMClassify \<Rightarrow> val gomap \<Rightarrow> detail option" where
  "evalLLMClassifyWithDetail llm s flds =
     (case resolveField (lc_PromptField s) flds of
        None \<Rightarrow> Some (LlmPromptMissing (lc_PromptField s))
      | Some (VStr prompt) \<Rightarrow>
          (let imageURL = (if lc_ImageURLField s \<noteq> [] then
                 (case resolveField (lc_ImageURLField s) flds of Some (VStr u) \<Rightarrow> u | _ \<Rightarrow> []) else []);
               model = (if lc_Model s = [] then defaultLLMModel (lc_Backend s) else lc_Model s)
           in case llm_hook llm of
                Some h \<Rightarrow> interpretClassifyResult (h prompt imageURL (lc_Forbidden s) model)
              | None \<Rightarrow>
                  (if lc_Backend s = LLMBackendSystemOne
                   then interpretClassifyResult (llm_system_one llm model (lc_Forbidden s) prompt)
                   else
                     let endpoint = (if lc_OllamaURL s = [] then ''http://localhost:11434'' else lc_OllamaURL s)
                     in case (if imageURL \<noteq> [] then llm_fetch_image llm imageURL else Some []) of
                          None \<Rightarrow> Some LlmImageFetch
                        | Some b64 \<Rightarrow>
                            interpretClassifyResult (llm_ollama llm endpoint model (lc_Forbidden s) prompt b64)))
      | Some _ \<Rightarrow> Some (LlmPromptNotString (lc_PromptField s)))"

section \<open>sql\_classify\<close>

definition allReadOnlyKinds :: "string list \<Rightarrow> bool" where
  "allReadOnlyKinds kinds = list_all (\<lambda>k. ToUpper k = ''SELECT'') kinds"

definition denied_kind :: "SQLRequire \<Rightarrow> Classification \<Rightarrow> detail option" where
  "denied_kind req cl =
     map_option (\<lambda>k. SqlDeniedKind (ToUpper (kind_string k)))
       (List.find (\<lambda>k. list_ex (\<lambda>d. EqualFold d (ToUpper (kind_string k))) (sr_DeniedTopLevelKinds req))
         (cl_TopLevelKinds cl))"

definition top_level_violation :: "SQLRequire \<Rightarrow> Classification \<Rightarrow> detail option" where
  "top_level_violation req cl =
     (if sr_TopLevelKinds req = [] then None
      else if cl_StmtCount cl \<noteq> 1 \<or> length (cl_TopLevelKinds cl) \<noteq> 1 then Some (SqlMultiStmt (cl_StmtCount cl))
      else
        let want = ToUpper (kind_string (hd (cl_TopLevelKinds cl))) in
        if \<not> list_ex (\<lambda>k. EqualFold k want) (sr_TopLevelKinds req) then Some (SqlKindNotIn want)
        else if cl_MutatesViaCTE cl \<and> allReadOnlyKinds (sr_TopLevelKinds req) then Some SqlModifyingCTE
        else None)"

definition function_class_violation :: "Registry option \<Rightarrow> SQLRequire \<Rightarrow> Classification \<Rightarrow> detail option" where
  "function_class_violation reg req cl =
     (if sr_DeniedFunctionClasses req = [] \<and> sr_AllowedFunctionClasses req = [] then None
      else if reg = None then Some SqlNoRegistry
      else case first_some (\<lambda>fn. map_option (SqlFunctionDeniedClass fn)
             (List.find (FunctionInClass reg fn) (sr_DeniedFunctionClasses req))) (cl_Functions cl) of
          Some d \<Rightarrow> Some d
        | None \<Rightarrow>
            (if sr_AllowedFunctionClasses req = [] then None
             else map_option SqlFunctionNoAllowedClass
               (List.find (\<lambda>fn. \<not> list_ex (FunctionInClass reg fn) (sr_AllowedFunctionClasses req)) (cl_Functions cl))))"

text \<open>The predicates in the order of the source; the first violation is returned.\<close>

definition sql_predicates :: "Registry option \<Rightarrow> SQLRequire \<Rightarrow> Classification \<Rightarrow> detail option list" where
  "sql_predicates reg req cl =
     [denied_kind req cl,
      top_level_violation req cl,
      (if sr_NoDynamicSQL req \<and> cl_UsesDynamicSQL cl then Some SqlDynamic else None),
      (if sr_NoProgramExec req \<and> cl_UsesProgram cl then Some SqlProgramExec else None),
      map_option SqlFunctionNotAllowed (HasDisallowedFunction cl (sr_AllowedFunctions req)),
      (if sr_NoFunctions req \<and> cl_Functions cl \<noteq> [] then Some (SqlFunctionsPresent (cl_Functions cl)) else None),
      map_option SqlDeniedTable (HasDeniedTable cl (sr_DeniedTables req)),
      map_option SqlTableNotAllowed (HasTableOutsideAllowed cl (sr_AllowedTables req)),
      function_class_violation reg req cl]"

definition sql_error_string :: "sql_error \<Rightarrow> string" where
  "sql_error_string e =
     (case e of
        ErrUnsupportedDialect d ds \<Rightarrow>
          ''sqlguard: no parser registered for dialect: '' @ d @ '' (linked: ['' @ Join ds '' '' @ ''])''
      | ParseError d m \<Rightarrow> d @ '' parse: '' @ m)"

definition evalSQLClassifyWithDetail ::
  "classifier gomap \<Rightarrow> Registry option \<Rightarrow> SQLClassify \<Rightarrow> val gomap \<Rightarrow> detail option" where
  "evalSQLClassifyWithDetail dialects reg s flds =
     (case resolveField (sq_Field s) flds of
        None \<Rightarrow> Some (SqlFieldMissing (sq_Field s))
      | Some (VStr sql) \<Rightarrow>
          (case Classify dialects (sq_Dialect s) sql of
             Inl e \<Rightarrow> Some (SqlClassifyError (sq_Dialect s) (sql_error_string e))
           | Inr cl \<Rightarrow> first_some id (sql_predicates reg (sq_Require s) cl))
      | Some _ \<Rightarrow> Some (SqlFieldNotString (sq_Field s)))"

definition evalSQLClassify :: "classifier gomap \<Rightarrow> Registry option \<Rightarrow> SQLClassify \<Rightarrow> val gomap \<Rightarrow> bool" where
  "evalSQLClassify dialects reg s flds = (evalSQLClassifyWithDetail dialects reg s flds \<noteq> None)"

section \<open>What a leaf that does not fire has established\<close>

text \<open>The requirement records read as specifications: what must hold of the call, each clause on
  its own, with no order of evaluation.\<close>

definition sql_requirement_met :: "Registry option \<Rightarrow> SQLRequire \<Rightarrow> Classification \<Rightarrow> bool" where
  "sql_requirement_met reg req cl \<longleftrightarrow>
     (\<forall>k\<in>set (cl_TopLevelKinds cl). \<forall>d\<in>set (sr_DeniedTopLevelKinds req). \<not> EqualFold d (ToUpper (kind_string k))) \<and>
     (sr_TopLevelKinds req \<noteq> [] \<longrightarrow>
        cl_StmtCount cl = 1 \<and> length (cl_TopLevelKinds cl) = 1 \<and>
        (\<exists>k\<in>set (sr_TopLevelKinds req). EqualFold k (ToUpper (kind_string (hd (cl_TopLevelKinds cl))))) \<and>
        (cl_MutatesViaCTE cl \<longrightarrow> (\<exists>k\<in>set (sr_TopLevelKinds req). ToUpper k \<noteq> ''SELECT''))) \<and>
     (sr_NoDynamicSQL req \<longrightarrow> \<not> cl_UsesDynamicSQL cl) \<and>
     (sr_NoProgramExec req \<longrightarrow> \<not> cl_UsesProgram cl) \<and>
     (sr_AllowedFunctions req \<noteq> [] \<longrightarrow> set (cl_Functions cl) \<subseteq> set (sr_AllowedFunctions req)) \<and>
     (sr_NoFunctions req \<longrightarrow> cl_Functions cl = []) \<and>
     (\<forall>t\<in>set (cl_Tables cl). \<forall>d\<in>set (sr_DeniedTables req). \<not> HasPrefix (ToLower t) (ToLower d)) \<and>
     (sr_AllowedTables req \<noteq> [] \<longrightarrow>
        (\<forall>t\<in>set (cl_Tables cl). \<exists>a\<in>set (sr_AllowedTables req). EqualFold a t)) \<and>
     (sr_DeniedFunctionClasses req \<noteq> [] \<or> sr_AllowedFunctionClasses req \<noteq> [] \<longrightarrow> reg \<noteq> None) \<and>
     (\<forall>f\<in>set (cl_Functions cl). \<forall>c\<in>set (sr_DeniedFunctionClasses req). \<not> FunctionInClass reg f c) \<and>
     (sr_AllowedFunctionClasses req \<noteq> [] \<longrightarrow>
        (\<forall>f\<in>set (cl_Functions cl). \<exists>c\<in>set (sr_AllowedFunctionClasses req). FunctionInClass reg f c))"

lemma orelse_None_iff:
  "(case x of Some d \<Rightarrow> Some d | None \<Rightarrow> y) = None \<longleftrightarrow> x = None \<and> y = None"
  by (cases x) simp_all

lemma first_some_Cons_None: "first_some f (x # xs) = None \<longleftrightarrow> f x = None \<and> first_some f xs = None"
  by (simp add: orelse_None_iff)

lemma if_None_iff: "(if c then Some x else None) = None \<longleftrightarrow> (c \<longrightarrow> False)"
  by simp

lemma denied_kind_None_iff:
  "denied_kind req cl = None \<longleftrightarrow>
     (\<forall>k\<in>set (cl_TopLevelKinds cl). \<forall>d\<in>set (sr_DeniedTopLevelKinds req). \<not> EqualFold d (ToUpper (kind_string k)))"
  by (auto simp: denied_kind_def find_None_iff list_ex_iff)

lemma top_level_violation_None_iff:
  "top_level_violation req cl = None \<longleftrightarrow>
     (sr_TopLevelKinds req \<noteq> [] \<longrightarrow>
        cl_StmtCount cl = 1 \<and> length (cl_TopLevelKinds cl) = 1 \<and>
        (\<exists>k\<in>set (sr_TopLevelKinds req). EqualFold k (ToUpper (kind_string (hd (cl_TopLevelKinds cl))))) \<and>
        (cl_MutatesViaCTE cl \<longrightarrow> (\<exists>k\<in>set (sr_TopLevelKinds req). ToUpper k \<noteq> ''SELECT'')))"
  by (auto simp: top_level_violation_def Let_def allReadOnlyKinds_def list_all_iff list_ex_iff)

lemma function_class_violation_None_iff:
  "function_class_violation reg req cl = None \<longleftrightarrow>
     (sr_DeniedFunctionClasses req \<noteq> [] \<or> sr_AllowedFunctionClasses req \<noteq> [] \<longrightarrow> reg \<noteq> None) \<and>
     (\<forall>f\<in>set (cl_Functions cl). \<forall>c\<in>set (sr_DeniedFunctionClasses req). \<not> FunctionInClass reg f c) \<and>
     (sr_AllowedFunctionClasses req \<noteq> [] \<longrightarrow>
        (\<forall>f\<in>set (cl_Functions cl). \<exists>c\<in>set (sr_AllowedFunctionClasses req). FunctionInClass reg f c))"
proof (cases "sr_DeniedFunctionClasses req = [] \<and> sr_AllowedFunctionClasses req = []")
  case True
  then show ?thesis by (simp add: function_class_violation_def)
next
  case False
  then show ?thesis
    by (cases reg; cases "sr_AllowedFunctionClasses req = []")
      (simp_all add: function_class_violation_def orelse_None_iff first_some_None_iff find_None_iff list_ex_iff)
qed

lemma sql_predicates_None_iff:
  "first_some id (sql_predicates reg req cl) = None \<longleftrightarrow> sql_requirement_met reg req cl"
  unfolding sql_predicates_def sql_requirement_met_def first_some_Cons_None first_some.simps(1) id_apply
    denied_kind_None_iff top_level_violation_None_iff function_class_violation_None_iff option.map_disc_iff
    HasDisallowedFunction_None_iff HasDeniedTable_None_iff HasTableOutsideAllowed_None_iff
    if_None_iff imp_conv_disj not_not de_Morgan_conj
  by (simp only: conj_assoc simp_thms)

definition argv_variants :: "runtime \<Rightarrow> ShellRequire \<Rightarrow> string \<Rightarrow> string set" where
  "argv_variants rt req arg =
     {path_Clean arg} \<union>
     (if sh_ResolveSymlinks req then {r. rt_symlinks rt (path_Clean arg) = Some r} else {})"

definition regex_clear :: "runtime \<Rightarrow> string \<Rightarrow> string set \<Rightarrow> bool" where
  "regex_clear rt pat strs \<longleftrightarrow> (\<exists>m. compiledRegex rt pat = Some m \<and> (\<forall>a\<in>strs. \<not> m a))"

definition shell_requirement_met :: "runtime \<Rightarrow> ShellRequire \<Rightarrow> string list \<Rightarrow> bool" where
  "shell_requirement_met rt req argv \<longleftrightarrow>
     argv \<noteq> [] \<and>
     (0 < sh_MaxArgc req \<longrightarrow> int (length argv) \<le> sh_MaxArgc req) \<and>
     (sh_Argv0Allowlist req \<noteq> [] \<longrightarrow> filepath_Base (hd argv) \<in> set (sh_Argv0Allowlist req)) \<and>
     (\<forall>pat\<in>set (sh_ArgvDenyPatterns req). regex_clear rt pat (set argv)) \<and>
     (\<forall>arg\<in>set argv. HasPrefix arg ''/'' \<longrightarrow>
        (\<forall>v\<in>argv_variants rt req arg. \<forall>p\<in>set (sh_DeniedArgvPaths req). \<not> matchPathPrefix v p)) \<and>
     (sh_ArgvEnvPatternDeny req \<noteq> [] \<and> 1 < length argv \<and> filepath_Base (hd argv) \<in> set env_programs \<longrightarrow>
        regex_clear rt (sh_ArgvEnvPatternDeny req) (set (tl argv)))"

lemma regex_denies_iff: "regex_denies rt argv pat \<longleftrightarrow> \<not> regex_clear rt pat (set argv)"
  by (auto simp: regex_denies_def regex_clear_def list_ex_iff split: option.splits)

lemma filepath_IsAbs_prefix: "filepath_IsAbs s \<longleftrightarrow> HasPrefix s ''/''"
  by (simp add: filepath_IsAbs_def)

lemma argv_path_denied_iff:
  "argv_path_denied rt req arg \<longleftrightarrow>
     HasPrefix arg ''/'' \<and> (\<exists>v\<in>argv_variants rt req arg. \<exists>p\<in>set (sh_DeniedArgvPaths req). matchPathPrefix v p)"
  by (auto simp: argv_path_denied_def argv_variants_def filepath_IsAbs_prefix list_ex_iff Let_def
      split: option.splits if_splits)

lemma denied_paths_guard:
  "(sh_DeniedArgvPaths req \<noteq> [] \<and> list_ex (argv_path_denied rt req) argv) =
     (\<exists>arg\<in>set argv. HasPrefix arg ''/'' \<and>
        (\<exists>v\<in>argv_variants rt req arg. \<exists>p\<in>set (sh_DeniedArgvPaths req). matchPathPrefix v p))"
  by (cases "sh_DeniedArgvPaths req") (simp_all add: list_ex_iff argv_path_denied_iff)

lemma not_if_True: "(\<not> (if a then True else b)) = (\<not> a \<and> \<not> b)"
  by simp

lemma not_if_False: "(\<not> (if a then b else False)) = (a \<longrightarrow> \<not> b)"
  by simp

lemma evalShellClassify_pass:
  "(\<not> evalShellClassify rt s flds) =
     (\<exists>raw argv. resolveField (shc_Field s) flds = Some raw \<and> normalizeArgv raw = Some argv \<and>
       shell_requirement_met rt (shc_Require s) argv)"
proof (cases "resolveField (shc_Field s) flds")
  case None
  then show ?thesis by (simp add: evalShellClassify_def)
next
  case (Some raw)
  show ?thesis
  proof (cases "normalizeArgv raw")
    case None
    with Some show ?thesis by (simp add: evalShellClassify_def)
  next
    case argv: (Some argv)
    have "(\<not> evalShellClassify rt s flds) = shell_requirement_met rt (shc_Require s) argv"
      unfolding evalShellClassify_def Let_def Some argv option.case not_if_True not_if_False
        denied_paths_guard shell_requirement_met_def
      by (intro arg_cong2 [where f = "(\<and>)"]) (simp_all add: list_ex_iff regex_denies_iff not_less, auto)
    with Some argv show ?thesis by simp
  qed
qed

text \<open>An \<open>sql_classify\<close> leaf stays silent exactly when its field holds a string, the dialect is
  linked and parses it, and every requirement of the policy holds of the classification: denied kinds,
  single statement of an allowed kind with no writing CTE behind a read-only list, dynamic SQL,
  programs, functions, tables, function classes. Every other outcome fires, so the leaf fails
  closed on a missing field, an unlinked dialect, a parse error or a missing registry.\<close>

theorem sql_classify_pass:
  "(\<not> evalSQLClassify dialects reg s flds) =
     (\<exists>sql cl. resolveField (sq_Field s) flds = Some (VStr sql) \<and> Classify dialects (sq_Dialect s) sql = Inr cl \<and>
       sql_requirement_met reg (sq_Require s) cl)"
proof (cases "resolveField (sq_Field s) flds")
  case None
  then show ?thesis by (simp add: evalSQLClassify_def evalSQLClassifyWithDetail_def)
next
  case (Some v)
  show ?thesis
  proof (cases "\<exists>sql. v = VStr sql")
    case True
    then obtain sql where v: "v = VStr sql" by blast
    show ?thesis
      by (cases "Classify dialects (sq_Dialect s) sql")
        (simp_all add: evalSQLClassify_def evalSQLClassifyWithDetail_def Some v del: not_None_eq
          flip: sql_predicates_None_iff)
  next
    case False
    with Some show ?thesis
      by (cases v) (simp_all add: evalSQLClassify_def evalSQLClassifyWithDetail_def)
  qed
qed

text \<open>A \<open>shell_classify\<close> leaf stays silent exactly when it has seen an argument vector, within its
  length bound, whose program is on the list, in which no argument matches a deny pattern (each of which
  compiles), in which no absolute argument, cleaned or behind a symbolic link when asked, lies
  under a denied prefix, and no argument of an environment wrapper matches the smuggling pattern.\<close>

theorem shell_classify_pass:
  "(\<not> evalShellClassify rt s flds) =
     (\<exists>raw argv. resolveField (shc_Field s) flds = Some raw \<and> normalizeArgv raw = Some argv \<and>
       shell_requirement_met rt (shc_Require s) argv)"
  by (rule evalShellClassify_pass)

definition write_requirement_met :: "runtime \<Rightarrow> WriteClassify \<Rightarrow> val gomap \<Rightarrow> bool" where
  "write_requirement_met rt w flds \<longleftrightarrow>
     (let req = wc_Require w in
      (wr_DeniedPathPrefixes req \<noteq> [] \<or> wr_AllowedPathPrefixes req \<noteq> [] \<longrightarrow>
         collectWriteTargets w flds \<noteq> [] \<and>
         (\<forall>t\<in>set (collectWriteTargets w flds). \<forall>c\<in>set (canonicalCandidates rt t).
            (\<forall>p\<in>set (expandPrefixes rt (wr_DeniedPathPrefixes req)). \<not> matchPathPrefix c p) \<and>
            (expandPrefixes rt (wr_AllowedPathPrefixes req) \<noteq> [] \<longrightarrow>
               (\<exists>p\<in>set (expandPrefixes rt (wr_AllowedPathPrefixes req)). matchPathPrefix c p)))) \<and>
      (0 < wr_MaxBytes req \<or> wr_DeniedContentRegex req \<noteq> [] \<longrightarrow>
         (\<exists>content. writeContent w flds = Some content \<and>
            (0 < wr_MaxBytes req \<longrightarrow> int (length content) \<le> wr_MaxBytes req) \<and>
            (\<forall>pat\<in>set (wr_DeniedContentRegex req). regex_clear rt pat {content}))))"

lemma write_target_violation_None_iff:
  "write_target_violation rt denied allowed t = None \<longleftrightarrow>
     (\<forall>c\<in>set (canonicalCandidates rt t). (\<forall>p\<in>set denied. \<not> matchPathPrefix c p) \<and>
        (allowed \<noteq> [] \<longrightarrow> (\<exists>p\<in>set allowed. matchPathPrefix c p)))"
proof -
  have "(case (x :: (string \<times> string) option) of Some (c, p) \<Rightarrow> Some (WriteDeniedPrefix c p) | None \<Rightarrow> y) = None \<longleftrightarrow>
      x = None \<and> y = None" for x y
    by (cases x) auto
  then show ?thesis
    by (simp add: write_target_violation_def Let_def first_some_None_iff find_None_iff list_ex_iff ball_conj_distrib)
qed

lemma content_pattern_violation_None_iff:
  "content_pattern_violation rt content pat = None \<longleftrightarrow> regex_clear rt pat {content}"
  by (simp add: content_pattern_violation_def regex_clear_def split: option.splits)

lemma write_path_violation_None_iff:
  "write_path_violation rt w flds = None \<longleftrightarrow>
     (wr_DeniedPathPrefixes (wc_Require w) \<noteq> [] \<or> wr_AllowedPathPrefixes (wc_Require w) \<noteq> [] \<longrightarrow>
        collectWriteTargets w flds \<noteq> [] \<and>
        (\<forall>t\<in>set (collectWriteTargets w flds).
           write_target_violation rt (expandPrefixes rt (wr_DeniedPathPrefixes (wc_Require w)))
             (expandPrefixes rt (wr_AllowedPathPrefixes (wc_Require w))) t = None))"
  by (simp add: write_path_violation_def Let_def first_some_None_iff)

lemma write_content_violation_None_iff:
  "write_content_violation rt w flds = None \<longleftrightarrow>
     (0 < wr_MaxBytes (wc_Require w) \<or> wr_DeniedContentRegex (wc_Require w) \<noteq> [] \<longrightarrow>
        (\<exists>content. writeContent w flds = Some content \<and>
           (0 < wr_MaxBytes (wc_Require w) \<longrightarrow> int (length content) \<le> wr_MaxBytes (wc_Require w)) \<and>
           (\<forall>pat\<in>set (wr_DeniedContentRegex (wc_Require w)). regex_clear rt pat {content})))"
  by (cases "writeContent w flds")
    (simp_all add: write_content_violation_def Let_def first_some_None_iff content_pattern_violation_None_iff not_less, auto)

text \<open>A \<open>write_classify\<close> leaf stays silent exactly when, as far as path lists are configured,
  the call names at least one target and each canonical form of each target avoids every denied prefix
  and lies under an allowed one, and, as far as content rules are configured, the content was found,
  is within the limit and matches no denied pattern, all of which compile.\<close>

theorem write_classify_pass:
  "evalWriteClassifyWithDetail rt w flds = None \<longleftrightarrow> write_requirement_met rt w flds"
  unfolding evalWriteClassifyWithDetail_def write_requirement_met_def Let_def orelse_None_iff
    write_path_violation_None_iff write_content_violation_None_iff write_target_violation_None_iff by (rule refl)

definition http_requirement_met :: "HTTPRequire \<Rightarrow> string \<Rightarrow> string \<Rightarrow> string \<Rightarrow> int \<Rightarrow> bool" where
  "http_requirement_met req host scheme meth port \<longleftrightarrow>
     (\<forall>d\<in>set (hr_DeniedHosts req). \<not> hostMatches host d) \<and>
     (meth \<noteq> [] \<longrightarrow> (\<forall>m\<in>set (hr_DeniedMethods req). \<not> EqualFold m meth)) \<and>
     (0 < port \<longrightarrow> port \<notin> set (hr_DeniedPorts req)) \<and>
     (hr_AllowedHosts req \<noteq> [] \<longrightarrow> (\<exists>a\<in>set (hr_AllowedHosts req). hostMatches host a)) \<and>
     (hr_AllowedSchemes req \<noteq> [] \<longrightarrow> (\<exists>a\<in>set (hr_AllowedSchemes req). EqualFold a scheme)) \<and>
     (hr_AllowedMethods req \<noteq> [] \<longrightarrow> meth \<noteq> [] \<and> (\<exists>a\<in>set (hr_AllowedMethods req). EqualFold a meth)) \<and>
     (hr_AllowedPorts req \<noteq> [] \<longrightarrow> port \<noteq> 0 \<and> port \<in> set (hr_AllowedPorts req))"

definition http_url :: "HTTPClassify \<Rightarrow> val gomap \<Rightarrow> val option" where
  "http_url h flds = resolveField (if hc_URLField h = [] then ''parameters.url'' else hc_URLField h) flds"

definition http_method :: "runtime \<Rightarrow> HTTPClassify \<Rightarrow> val gomap \<Rightarrow> string" where
  "http_method rt h flds =
     (case resolveField (if hc_MethodField h = [] then ''parameters.method'' else hc_MethodField h) flds of
        None \<Rightarrow> [] | Some mv \<Rightarrow> ToUpper (Sprint_v rt mv))"

lemma http_checks_None_iff:
  "(case http_deny req host meth port of Some d \<Rightarrow> Some d | None \<Rightarrow> http_allow req host scheme meth port) = None \<longleftrightarrow>
     http_requirement_met req host scheme meth port"
proof -
  have deny: "http_deny req host meth port = None \<longleftrightarrow>
      (\<forall>d\<in>set (hr_DeniedHosts req). \<not> hostMatches host d) \<and>
      (meth \<noteq> [] \<longrightarrow> (\<forall>m\<in>set (hr_DeniedMethods req). \<not> EqualFold m meth)) \<and>
      (0 < port \<longrightarrow> port \<notin> set (hr_DeniedPorts req))"
    by (simp add: http_deny_def find_None_iff containsFold_def list_ex_iff split: option.split)
      (auto simp: find_None_iff find_Some_iff)
  have allow: "http_allow req host scheme meth port = None \<longleftrightarrow>
      (hr_AllowedHosts req \<noteq> [] \<longrightarrow> (\<exists>a\<in>set (hr_AllowedHosts req). hostMatches host a)) \<and>
      (hr_AllowedSchemes req \<noteq> [] \<longrightarrow> (\<exists>a\<in>set (hr_AllowedSchemes req). EqualFold a scheme)) \<and>
      (hr_AllowedMethods req \<noteq> [] \<longrightarrow> meth \<noteq> [] \<and> (\<exists>a\<in>set (hr_AllowedMethods req). EqualFold a meth)) \<and>
      (hr_AllowedPorts req \<noteq> [] \<longrightarrow> port \<noteq> 0 \<and> port \<in> set (hr_AllowedPorts req))"
    by (simp add: http_allow_def containsFold_def list_ex_iff)
  show ?thesis unfolding orelse_None_iff deny allow http_requirement_met_def by blast
qed

text \<open>An \<open>http_classify\<close> leaf stays silent exactly when the call carries no URL at all (absent,
  not a string or blank) and the rule has no allow list, or the URL parses to one with a host, has a
  scheme when there is an allow list, and host, method, scheme and effective port satisfy every
  clause of the rule.\<close>

theorem http_classify_pass:
  "evalHTTPClassifyWithDetail rt h flds = None \<longleftrightarrow>
     (case http_url h flds of
        Some (VStr raw) \<Rightarrow>
          (if TrimSpace raw = [] then \<not> has_allow_list (hc_Require h)
           else \<exists>u. rt_url rt (TrimSpace raw) = Some u \<and> url_Host u \<noteq> [] \<and>
             (has_allow_list (hc_Require h) \<longrightarrow> ToLower (url_Scheme u) \<noteq> []) \<and>
             http_requirement_met (hc_Require h) (TrimSuffix (ToLower (url_Hostname u)) ''.'')
               (ToLower (url_Scheme u)) (http_method rt h flds) (explicitPort u))
      | _ \<Rightarrow> \<not> has_allow_list (hc_Require h))"
proof (cases "\<exists>raw. http_url h flds = Some (VStr raw) \<and> TrimSpace raw \<noteq> []")
  case True
  then obtain raw where raw: "http_url h flds = Some (VStr raw)" "TrimSpace raw \<noteq> []" by blast
  show ?thesis
  proof (cases "rt_url rt (TrimSpace raw)")
    case None
    with raw show ?thesis by (simp add: evalHTTPClassifyWithDetail_def http_url_def Let_def)
  next
    case (Some u)
    have "evalHTTPClassifyWithDetail rt h flds =
        (if url_Host u = [] then Some (HttpUnparseable raw)
         else if ToLower (url_Scheme u) = [] \<and> has_allow_list (hc_Require h) then Some (HttpNoScheme raw)
         else case http_deny (hc_Require h) (TrimSuffix (ToLower (url_Hostname u)) ''.'') (http_method rt h flds)
               (explicitPort u) of
             Some d \<Rightarrow> Some d
           | None \<Rightarrow> http_allow (hc_Require h) (TrimSuffix (ToLower (url_Hostname u)) ''.'')
               (ToLower (url_Scheme u)) (http_method rt h flds) (explicitPort u))"
      unfolding evalHTTPClassifyWithDetail_def Let_def http_url_def[symmetric] http_method_def[symmetric]
        raw(1) option.case val.case if_not_P[OF raw(2)] Some by (rule refl)
    also have "\<dots> = None \<longleftrightarrow> url_Host u \<noteq> [] \<and>
        (has_allow_list (hc_Require h) \<longrightarrow> ToLower (url_Scheme u) \<noteq> []) \<and>
        http_requirement_met (hc_Require h) (TrimSuffix (ToLower (url_Hostname u)) ''.'')
          (ToLower (url_Scheme u)) (http_method rt h flds) (explicitPort u)"
      unfolding http_checks_None_iff[symmetric] by (cases "url_Host u = []") auto
    finally show ?thesis using raw Some by simp
  qed
next
  case False
  then show ?thesis
    by (cases "http_url h flds")
      (auto simp: evalHTTPClassifyWithDetail_def http_url_def Let_def split: val.splits)
qed

definition sample_http_rule :: HTTPClassify where
  "sample_http_rule =
     \<lparr> hc_URLField = [], hc_MethodField = [],
       hc_Require = \<lparr> hr_AllowedHosts = [''.example.com''], hr_DeniedHosts = [''admin.example.com''],
         hr_AllowedSchemes = [''https''], hr_AllowedMethods = [], hr_DeniedMethods = [''DELETE''],
         hr_AllowedPorts = [443], hr_DeniedPorts = [] \<rparr> \<rparr>"

definition sample_url :: url where
  "sample_url = \<lparr> url_Scheme = ''https'', url_Host = ''api.example.com'', url_Hostname = ''api.example.com'', url_Port = [] \<rparr>"

theorem http_classify_pass_witness:
  "http_requirement_met (hc_Require sample_http_rule) ''api.example.com'' ''https'' [] 443 \<and>
   evalHTTPClassifyWithDetail (sample_runtime \<lparr> rt_url := \<lambda>s. Some sample_url \<rparr>) sample_http_rule
     [(''parameters.url'', VStr ''https://api.example.com/v1'')] = None"
proof
  let ?rt = "sample_runtime \<lparr> rt_url := \<lambda>s. Some sample_url \<rparr>"
  let ?flds = "[(''parameters.url'', VStr ''https://api.example.com/v1'')]"
  show ok: "http_requirement_met (hc_Require sample_http_rule) ''api.example.com'' ''https'' [] 443"
    by code_simp
  have "http_url sample_http_rule ?flds = Some (VStr ''https://api.example.com/v1'')" by code_simp
  moreover have "TrimSpace ''https://api.example.com/v1'' \<noteq> []" by code_simp
  moreover have "http_method ?rt sample_http_rule ?flds = []" by code_simp
  moreover have "explicitPort sample_url = 443" by code_simp
  moreover have "TrimSuffix (ToLower (url_Hostname sample_url)) ''.'' = ''api.example.com''" by code_simp
  moreover have "ToLower (url_Scheme sample_url) = ''https''" by code_simp
  moreover have "url_Host sample_url \<noteq> []" by code_simp
  ultimately show "evalHTTPClassifyWithDetail ?rt sample_http_rule ?flds = None"
    using ok by (simp add: http_classify_pass)
qed

lemma interpret_None_iff:
  "interpretClassifyResult a = None \<longleftrightarrow> (\<exists>conf reason. a = LlmResult ''safe'' conf reason)"
  by (cases a) (auto simp: interpretClassifyResult_def)

text \<open>An \<open>llm_classify\<close> leaf stays silent only when the prompt field holds a string and the back
  end in charge answered with the category \<open>safe\<close>; an error, a nil result, an image that cannot be
  fetched and every other category fire.\<close>

theorem llm_classify_fails_closed:
  assumes "evalLLMClassifyWithDetail llm s flds = None"
  obtains prompt conf reason imageURL model where
    "resolveField (lc_PromptField s) flds = Some (VStr prompt)"
    "case llm_hook llm of
       Some h \<Rightarrow> h prompt imageURL (lc_Forbidden s) model = LlmResult ''safe'' conf reason
     | None \<Rightarrow>
         if lc_Backend s = LLMBackendSystemOne
         then llm_system_one llm model (lc_Forbidden s) prompt = LlmResult ''safe'' conf reason
         else \<exists>endpoint image. (imageURL = [] \<or> llm_fetch_image llm imageURL = Some image) \<and>
           llm_ollama llm endpoint model (lc_Forbidden s) prompt image = LlmResult ''safe'' conf reason"
proof -
  define imageURL where "imageURL = (if lc_ImageURLField s \<noteq> [] then
     (case resolveField (lc_ImageURLField s) flds of Some (VStr u) \<Rightarrow> u | _ \<Rightarrow> []) else [])"
  define model where "model = (if lc_Model s = [] then defaultLLMModel (lc_Backend s) else lc_Model s)"
  define endpoint where "endpoint = (if lc_OllamaURL s = [] then ''http://localhost:11434'' else lc_OllamaURL s)"
  from assms obtain prompt where prompt: "resolveField (lc_PromptField s) flds = Some (VStr prompt)"
    by (auto simp: evalLLMClassifyWithDetail_def split: option.splits val.splits)
  note def = evalLLMClassifyWithDetail_def[of llm s flds, unfolded prompt option.case val.case
      imageURL_def[symmetric] model_def[symmetric] endpoint_def[symmetric] Let_def]
  show ?thesis
  proof (cases "llm_hook llm")
    case (Some h)
    with assms that[OF prompt, where imageURL = imageURL and model = model] show ?thesis by (auto simp: def interpret_None_iff)
  next
    case None
    show ?thesis
    proof (cases "lc_Backend s = LLMBackendSystemOne")
      case True
      with None assms that[OF prompt, where model = model] show ?thesis by (auto simp: def interpret_None_iff)
    next
      case False
      obtain image where "imageURL = [] \<or> llm_fetch_image llm imageURL = Some image"
        "interpretClassifyResult (llm_ollama llm endpoint model (lc_Forbidden s) prompt image) = None"
        using False None assms
        by (cases "imageURL = []"; cases "llm_fetch_image llm imageURL") (auto simp: def)
      with False None that[OF prompt, where imageURL = imageURL and model = model] show ?thesis by (auto simp: interpret_None_iff)
    qed
  qed
qed

definition sample_llm :: llm_service where
  "sample_llm =
     \<lparr> llm_hook = None, llm_system_one = (\<lambda>m f p. LlmResult ''safe'' 0 ''no match''),
       llm_fetch_image = (\<lambda>u. None), llm_ollama = (\<lambda>e m f p i. LlmErr ''connection refused'') \<rparr>"

definition sample_llm_rule :: LLMClassify where
  "sample_llm_rule =
     \<lparr> lc_PromptField = ''parameters.prompt'', lc_ImageURLField = [], lc_Forbidden = [''violence''],
       lc_Backend = LLMBackendSystemOne, lc_Model = [], lc_OllamaURL = [], lc_TimeoutSeconds = 0 \<rparr>"

theorem llm_classify_fails_closed_witness:
  "\<exists>prompt conf reason model.
     resolveField ''parameters.prompt'' [(''parameters.prompt'', VStr ''draw a cat'')] = Some (VStr prompt) \<and>
     llm_system_one sample_llm model (lc_Forbidden sample_llm_rule) prompt = LlmResult ''safe'' conf reason"
proof -
  have "evalLLMClassifyWithDetail sample_llm sample_llm_rule [(''parameters.prompt'', VStr ''draw a cat'')] = None"
    by code_simp
  then show ?thesis
    by (rule llm_classify_fails_closed) (auto simp: sample_llm_def sample_llm_rule_def)
qed

end
