(* ===== verification/Reversibility.thy ===== *)
theory Reversibility
  imports Reversibility_Sql Classifiers
begin

text \<open>
  reversibility.go, all but the SQL surface: the tool name and group, the shell command, the
  argument vector, the HTTP method, and \<open>ClassifyReversibility\<close>, which merges them. Names are read
  bytewise: the case rules are those of ASCII.
\<close>

section \<open>Tool name and group\<close>

text \<open>The sets of the source as lists.\<close>

definition reversibleFirstVerbs :: "string list" where
  "reversibleFirstVerbs =
    [''read'', ''get'', ''list'', ''describe'', ''search'', ''query'', ''view'', ''lookup'',
     ''show'', ''count'', ''preview'', ''head'', ''inspect'', ''find'', ''fetch'', ''retrieve'',
     ''download'', ''export'', ''summarize'', ''analyze'', ''check'', ''status'', ''ping'',
     ''peek'']"

definition reversibleExactNames :: "string list" where
  "reversibleExactNames =
    [''add_label'', ''remove_label'', ''apply_label'', ''create_draft'', ''save_draft'',
     ''add_tag'', ''remove_tag'']"

definition irreversibleFirstVerbs :: "string list" where
  "irreversibleFirstVerbs =
    [''wire'', ''transfer'', ''remit'', ''disburse'', ''pay'', ''deploy'', ''publish'',
     ''release'', ''rollout'', ''purge'', ''wipe'', ''detonate'', ''launch'', ''fire'',
     ''dispense'', ''actuate'', ''send'', ''broadcast'', ''shred'']"

definition irreversibleAnyToken :: "string list" where
  "irreversibleAnyToken =
    [''payout'', ''chargeback'', ''refund'', ''remittance'', ''disbursement'', ''payroll'',
     ''wire'']"

definition irreversibleExactNames :: "string list" where
  "irreversibleExactNames =
    [''delete_account'', ''close_account'', ''deactivate_account'', ''delete_user'',
     ''delete_customer'', ''drop_database'', ''drop_table'', ''factory_reset'', ''format_disk'',
     ''wipe_disk'', ''erase_disk'', ''delete_project'', ''delete_repository'',
     ''terminate_instance'', ''destroy_environment'', ''delete_database'', ''delete_databases'',
     ''delete_table'', ''delete_tables'', ''delete_schema'', ''delete_namespace'',
     ''delete_cluster'', ''delete_volume'', ''delete_bucket'', ''delete_backup'',
     ''delete_snapshot'', ''delete_disk'', ''delete_production_data'', ''purge_database'',
     ''purge_data'', ''destroy_database'', ''destroy_cluster'', ''destroy_volume'']"

definition irreversibleReleaseTokens :: "string list" where
  "irreversibleReleaseTokens =
    [''deploy'', ''deployment'', ''redeploy'', ''publish'', ''release'', ''rollout'']"

definition irreversibleGroups :: "string list" where
  "irreversibleGroups =
    [''payments'', ''payment'', ''money_movement'', ''money_transfer'', ''monetary_outflow'',
     ''wire_transfer'', ''banking'', ''actuation'', ''physical_actuation'', ''robotics'',
     ''deployment'', ''release'', ''releases'']"

definition recoverableFirstVerbs :: "string list" where
  "recoverableFirstVerbs =
    [''update'', ''modify'', ''edit'', ''write'', ''overwrite'', ''replace'', ''set'', ''patch'',
     ''upload'', ''rename'', ''move'', ''cancel'', ''archive'', ''disable'', ''suspend'',
     ''revoke'', ''unpublish'', ''downgrade'', ''deactivate'', ''create'', ''add'', ''insert'',
     ''save'', ''put'', ''sync'', ''apply'', ''tag'', ''label'', ''assign'', ''close'', ''remove'',
     ''clear'', ''reset'', ''delete'']"

definition destructiveFirstVerbs :: "string list" where
  "destructiveFirstVerbs =
    [''delete'', ''drop'', ''destroy'', ''purge'', ''wipe'', ''erase'', ''truncate'',
     ''terminate'', ''deprovision'', ''teardown'', ''obliterate'']"

definition destructiveResourceNouns :: "string list" where
  "destructiveResourceNouns =
    [''database'', ''databases'', ''table'', ''tables'', ''schema'', ''schemas'', ''namespace'',
     ''namespaces'', ''cluster'', ''clusters'', ''volume'', ''volumes'', ''bucket'', ''buckets'',
     ''backup'', ''backups'', ''snapshot'', ''snapshots'', ''disk'', ''disks'', ''partition'',
     ''partitions'', ''tablespace'', ''tablespaces'', ''keyspace'', ''keyspaces'', ''collection'',
     ''collections'', ''index'', ''indexes'', ''indices'', ''repository'', ''repositories'',
     ''project'', ''projects'', ''instance'', ''instances'', ''environment'', ''environments'',
     ''accounts'', ''users'', ''customers'']"

definition recoverableGroups :: "string list" where
  "recoverableGroups =
    [''filesystem_writes'', ''file_writes'', ''database_writes'', ''storage_writes'',
     ''content_writes'']"

definition name_separator :: "char \<Rightarrow> bool" where
  "name_separator r \<longleftrightarrow>
     r = CHR ''_'' \<or> r = CHR ''-'' \<or> r = CHR '' '' \<or> r = CHR ''.'' \<or> r = CHR ''/'' \<or> r = CHR '':''"

text \<open>\<open>cur\<close> is the token being read; \<open>prev\<close> the last byte, \<open>None\<close> at the start.\<close>

definition flush_name :: "string \<Rightarrow> string list" where
  "flush_name cur = (if cur = [] then [] else [ToLower cur])"

fun name_tokens :: "string \<Rightarrow> char option \<Rightarrow> string \<Rightarrow> string list" where
  "name_tokens cur prev [] = flush_name cur"
| "name_tokens cur prev (r # rs) =
     (if name_separator r then flush_name cur @ name_tokens [] (Some r) rs
      else if is_upper r \<and> (case prev of None \<Rightarrow> False | Some p \<Rightarrow> is_lower p \<or> is_digit p)
      then flush_name cur @ name_tokens [r] (Some r) rs
      else name_tokens (cur @ [r]) (Some r) rs)"

definition lowerTokens :: "string \<Rightarrow> string list" where
  "lowerTokens s = name_tokens [] None s"

definition normalizeName :: "string \<Rightarrow> string" where
  "normalizeName s = Join (lowerTokens s) ''_''"

definition nameGroupReversibility :: "string \<Rightarrow> string \<Rightarrow> ReversibilityClass" where
  "nameGroupReversibility toolName toolGroup =
     (let normName = normalizeName toolName;
          grp = ToLower (TrimSpace toolGroup);
          toks = lowerTokens toolName;
          first = (if toks = [] then [] else hd toks)
      in if normName \<in> set irreversibleExactNames then Irreversible
         else if normName \<in> set reversibleExactNames then Reversible
         else if first \<in> set reversibleFirstVerbs then Reversible
         else if grp \<in> set irreversibleGroups then Irreversible
         else if list_ex (\<lambda>t. t \<in> set irreversibleAnyToken \<or> t \<in> set irreversibleReleaseTokens) toks then Irreversible
         else if first \<in> set destructiveFirstVerbs \<and> list_ex (\<lambda>t. t \<in> set destructiveResourceNouns) toks
         then Irreversible
         else if first \<in> set irreversibleFirstVerbs then Irreversible
         else if first \<in> set recoverableFirstVerbs then Recoverable
         else if grp \<in> set recoverableGroups then Recoverable
         else Unknown)"

section \<open>Argument vectors\<close>

definition anyHasPrefix :: "string list \<Rightarrow> string \<Rightarrow> bool" where
  "anyHasPrefix args pre = list_ex (\<lambda>a. HasPrefix a pre) args"

definition hasRecursiveFlag :: "string list \<Rightarrow> bool" where
  "hasRecursiveFlag args =
     list_ex (\<lambda>a. a = ''--recursive'' \<or>
        2 \<le> length a \<and> a ! 0 = CHR ''-'' \<and> a ! 1 \<noteq> CHR ''-'' \<and> list_ex (\<lambda>c. c = CHR ''r'' \<or> c = CHR ''R'') (tl a)) args"

definition git_forces :: "string \<Rightarrow> bool" where
  "git_forces a \<longleftrightarrow>
     a \<noteq> ''push'' \<and>
     (a = ''-f'' \<or> a = ''--force'' \<or> HasPrefix a ''--force-with-lease'' \<or>
      1 < length a \<and> a ! 0 = CHR ''+'' \<and> \<not> Contains a ''://'')"

definition isGitForcePush :: "string list \<Rightarrow> bool" where
  "isGitForcePush args \<longleftrightarrow> ''push'' \<in> set args \<and> list_ex git_forces args"

definition isDiskDestructProg :: "string \<Rightarrow> bool" where
  "isDiskDestructProg prog \<longleftrightarrow>
     HasPrefix prog ''mkfs'' \<or> HasPrefix prog ''newfs'' \<or> HasPrefix prog ''mke2fs'' \<or>
     prog \<in> set [''fdisk'', ''parted'', ''sgdisk'', ''wipefs'', ''blkdiscard'', ''lvremove'', ''vgremove'', ''pvremove'']"

definition findIsDestructive :: "string list \<Rightarrow> bool" where
  "findIsDestructive args = list_ex (\<lambda>a. a \<in> set [''-delete'', ''-exec'', ''-execdir'', ''-ok'', ''-okdir'']) args"

definition findWritesFile :: "string list \<Rightarrow> bool" where
  "findWritesFile args = list_ex (\<lambda>a. a \<in> set [''-fprint'', ''-fprint0'', ''-fprintf'', ''-fls'']) args"

definition stripOptionPrefix :: "string \<Rightarrow> string" where
  "stripOptionPrefix a =
     (if HasPrefix a ''--'' then
        (if CHR ''='' \<in> set a then tl (dropWhile (\<lambda>c. c \<noteq> CHR ''='') a) else a)
      else if HasPrefix a ''-'' \<and> 1 < length a then
        (if CHR ''/'' \<in> set a then dropWhile (\<lambda>c. c \<noteq> CHR ''/'') a else a)
      else a)"

definition isRawDevicePath :: "string \<Rightarrow> bool" where
  "isRawDevicePath p \<longleftrightarrow>
     p \<notin> set [''/dev/null'', ''/dev/zero'', ''/dev/stdin'', ''/dev/stdout'', ''/dev/stderr'', ''/dev/tty'',
       ''/dev/random'', ''/dev/urandom'', ''/dev/full''] \<and>
     (HasPrefix p ''/dev/'' \<or> HasPrefix p ''/proc/'' \<or> HasPrefix p ''/sys/'')"

definition argvTargetsRawDevice :: "string list \<Rightarrow> bool" where
  "argvTargetsRawDevice args = list_ex (\<lambda>a. isRawDevicePath (stripOptionPrefix a)) args"

definition countNonFlagOperands :: "string list \<Rightarrow> nat" where
  "countNonFlagOperands args = length (filter (\<lambda>a. \<not> HasPrefix a ''-'') args)"

definition reversibleShellProgs :: "string list" where
  "reversibleShellProgs =
    [''ls'', ''cat'', ''grep'', ''egrep'', ''fgrep'', ''echo'', ''head'', ''tail'', ''wc'',
     ''pwd'', ''which'', ''stat'', ''file'', ''sort'', ''uniq'', ''cut'', ''tr'', ''date'',
     ''whoami'', ''env'', ''printenv'', ''true'', ''false'', ''test'', ''df'', ''du'', ''ps'',
     ''top'', ''uname'']"

definition shellWrapperProgs :: "string list" where
  "shellWrapperProgs =
    [''env'', ''sudo'', ''doas'', ''nice'', ''ionice'', ''nohup'', ''setsid'', ''stdbuf'',
     ''timeout'', ''chroot'', ''command'', ''exec'', ''xargs'', ''time'', ''proxychains'',
     ''proxychains4'']"

definition classifyArgv0 :: "string list \<Rightarrow> ReversibilityClass" where
  "classifyArgv0 argv =
     (if argv = [] then Unknown
      else
        let prog = filepath_Base (hd argv); args = tl argv in
        if prog = ''shred'' then Irreversible
        else if prog = ''rm'' then (if hasRecursiveFlag args then Irreversible else Recoverable)
        else if prog = ''dd'' then (if anyHasPrefix args ''of='' then Irreversible else Reversible)
        else if isDiskDestructProg prog then Irreversible
        else if prog = ''git'' then (if isGitForcePush args then Irreversible else Unknown)
        else if prog = ''find'' then
          (if argvTargetsRawDevice args \<or> findIsDestructive args then Irreversible
           else if findWritesFile args then Recoverable else Reversible)
        else if prog = ''sort'' then
          (if argvTargetsRawDevice args then Irreversible
           else if anyHasPrefix args ''-o'' \<or> anyHasPrefix args ''--output'' then Recoverable else Reversible)
        else if prog = ''uniq'' then
          (if argvTargetsRawDevice args then Irreversible
           else if 2 \<le> countNonFlagOperands args then Recoverable else Reversible)
        else if isMutatingProg prog argv then (if argvTargetsRawDevice args then Irreversible else Recoverable)
        else if prog \<in> set reversibleShellProgs then Reversible
        else Unknown)"

text \<open>The catastrophe that the program name at the head of \<open>argv\<close> would begin.\<close>

definition danger_at :: "string list \<Rightarrow> bool" where
  "danger_at argv \<longleftrightarrow>
     (let prog = filepath_Base (hd argv); rest = tl argv in
      prog = ''shred'' \<or> isDiskDestructProg prog \<or>
      prog = ''rm'' \<and> hasRecursiveFlag rest \<or>
      prog = ''dd'' \<and> anyHasPrefix rest ''of='' \<or>
      prog = ''git'' \<and> isGitForcePush rest \<or>
      prog = ''find'' \<and> findIsDestructive rest \<or>
      (isMutatingProg prog argv \<or> prog = ''sort'' \<or> prog = ''uniq'' \<or> prog = ''tee'' \<or> prog = ''find'') \<and>
        argvTargetsRawDevice rest)"

fun argvDangerScan :: "string list \<Rightarrow> ReversibilityClass" where
  "argvDangerScan [] = Reversible"
| "argvDangerScan (a # rest) = (if danger_at (a # rest) then Irreversible else argvDangerScan rest)"

definition wrapperValueOpts :: "string \<Rightarrow> string list" where
  "wrapperValueOpts prog =
     (if prog = ''sudo'' then [''-u'', ''-g'', ''-U'', ''-p'', ''-C'', ''-h'', ''-r'', ''-t'', ''-T'']
      else if prog = ''env'' then [''-u'', ''-C'', ''-S'']
      else if prog = ''doas'' then [''-u'', ''-C'']
      else if prog = ''timeout'' then [''-s'', ''-k'']
      else if prog = ''nice'' then [''-n'']
      else if prog = ''ionice'' then [''-c'', ''-n'', ''-p'']
      else if prog = ''xargs'' then
        [''-I'', ''-i'', ''-n'', ''-P'', ''-s'', ''-L'', ''-l'', ''-d'', ''-E'', ''-e'', ''-a'']
      else if prog = ''stdbuf'' then [''-i'', ''-o'', ''-e'']
      else [])"

text \<open>\<open>dot\<close>: a dot may still come.\<close>

fun numeral_bytes :: "bool \<Rightarrow> string \<Rightarrow> bool" where
  "numeral_bytes dot [] = True"
| "numeral_bytes dot (c # cs) =
     (if c = CHR ''.'' \<and> \<not> dot then numeral_bytes True cs
      else if \<not> is_digit c then False
      else numeral_bytes dot cs)"

definition isDurationOrNumber :: "string \<Rightarrow> bool" where
  "isDurationOrNumber s =
     (if s = [] then False
      else
        let s' = (if 1 < length s \<and> last s \<in> {CHR ''s'', CHR ''m'', CHR ''h'', CHR ''d''} then butlast s else s)
        in numeral_bytes False s' \<and> s' \<noteq> [])"

text \<open>The inner loop: drop the wrapper's options and operands.\<close>

fun skip_wrapper_args :: "string \<Rightarrow> string list \<Rightarrow> string list" where
  "skip_wrapper_args prog [] = []"
| "skip_wrapper_args prog (a # args) =
     (if a \<in> set (wrapperValueOpts prog) then
        (case args of [] \<Rightarrow> [] | _ # args' \<Rightarrow> skip_wrapper_args prog args')
      else if HasPrefix a ''-'' then skip_wrapper_args prog args
      else if prog = ''env'' \<and> Contains a ''='' then skip_wrapper_args prog args
      else if isDurationOrNumber a then skip_wrapper_args prog args
      else a # args)"

fun unwrap_wrappers :: "nat \<Rightarrow> bool \<Rightarrow> string list \<Rightarrow> string list \<times> bool" where
  "unwrap_wrappers 0 hadWrapper argv = (argv, hadWrapper)"
| "unwrap_wrappers (Suc n) hadWrapper argv =
     (if argv = [] then (argv, hadWrapper)
      else
        let prog = filepath_Base (hd argv) in
        if prog \<notin> set shellWrapperProgs then (argv, hadWrapper)
        else unwrap_wrappers n True (skip_wrapper_args prog (tl argv)))"

definition unwrapShellWrappers :: "string list \<Rightarrow> string list \<times> bool" where
  "unwrapShellWrappers argv = unwrap_wrappers 8 False argv"

definition argvReversibility :: "string list \<Rightarrow> ReversibilityClass" where
  "argvReversibility argv =
     (case unwrapShellWrappers argv of (stripped, hadWrapper) \<Rightarrow>
        let cls = classifyArgv0 stripped in
        if hadWrapper then worst cls (argvDangerScan argv) else cls)"

section \<open>Shell commands\<close>

definition redirectReversibility :: "shellToken \<Rightarrow> ReversibilityClass" where
  "redirectReversibility t =
     (if tk_unresolved t then Unknown
      else if tk_value t \<in> set [''/dev/null'', ''/dev/stdout'', ''/dev/stderr'', ''/dev/tty'', ''/dev/zero'']
      then Reversible
      else if HasPrefix (tk_value t) ''/dev/'' \<or> HasPrefix (tk_value t) ''/proc/'' \<or> HasPrefix (tk_value t) ''/sys/''
      then Irreversible
      else Recoverable)"

text \<open>The argument vectors of the segments that hold a command.\<close>

definition segment_argvs :: "shellToken list \<Rightarrow> string list list" where
  "segment_argvs toks =
     filter (\<lambda>argv. argv \<noteq> [])
       (map (\<lambda>seg. wordValues (stripLeadingAssignments (commandWords seg))) (splitShellSegments toks))"

text \<open>\<open>levels\<close> is \<open>maxShellSubstDepth - depth\<close>. The grades are folded in the order of the source;
  \<open>saw\<close> is false exactly when there are none.\<close>

fun shellReversibilityRec :: "nat \<Rightarrow> string \<Rightarrow> ReversibilityClass" where
  "shellReversibilityRec levels cmd =
     (let toks = tokenizeShell cmd;
          grades = map redirectReversibility (redirectTargets toks) @
            map argvReversibility (segment_argvs toks) @
            (case levels of
               0 \<Rightarrow> []
             | Suc l \<Rightarrow> map (shellReversibilityRec l)
                 (filter (\<lambda>sub. TrimSpace sub \<noteq> []) (extractCommandSubsts cmd)))
      in if grades = [] then Unknown else foldl worst Reversible grades)"

definition shellStringReversibility :: "string \<Rightarrow> ReversibilityClass" where
  "shellStringReversibility cmd = shellReversibilityRec maxShellSubstDepth cmd"

section \<open>HTTP and the merge\<close>

definition httpMethodReversibility :: "string \<Rightarrow> ReversibilityClass" where
  "httpMethodReversibility meth =
     (let m = ToUpper (TrimSpace meth) in
      if m \<in> set [''GET'', ''HEAD'', ''OPTIONS'', ''TRACE''] then Reversible
      else if m \<in> set [''POST'', ''PUT'', ''PATCH'', ''DELETE''] then Unknown
      else Unknown)"

text \<open>The grades of the surfaces that are present, in the order in which \<open>consider\<close> is called.\<close>

definition surface_grades :: "classifier gomap \<Rightarrow> val gomap \<Rightarrow> ReversibilityClass list" where
  "surface_grades reg params =
     (let sql = firstString params [''sql''];
          cmd = firstString params [''command'', ''cmd''];
          argv = (case mget params ''argv'' of None \<Rightarrow> None | Some v \<Rightarrow> normalizeArgv v)
      in (if sql \<noteq> [] then [sqlReversibility reg sql] else []) @
         (if cmd \<noteq> [] then [shellStringReversibility cmd] else []) @
         (case argv of Some a \<Rightarrow> (if a \<noteq> [] then [argvReversibility a] else []) | None \<Rightarrow> []) @
         (if firstString params [''url''] \<noteq> []
          then [httpMethodReversibility (firstString params [''method''])] else []))"

definition ClassifyReversibility :: "runtime \<Rightarrow> classifier gomap \<Rightarrow> ActionEnvelope \<Rightarrow> ReversibilityClass" where
  "ClassifyReversibility rt reg env =
     (let nameClass = nameGroupReversibility (e_ToolName env) (e_ToolGroup env);
          grades = surface_grades reg (parseParams rt (e_Parameters env));
          authSurface = foldl worst Reversible grades
      in if grades \<noteq> [] then (if nameClass \<noteq> Unknown then worst authSurface nameClass else authSurface)
         else nameClass)"

section \<open>Lemmas\<close>

lemma quoted_strip: "stripLeadingAssignments (commandWords (map quoted_tok argv)) = map quoted_tok argv"
proof -
  have w: "list_all (\<lambda>t. tk_kind t = tokWord) (map quoted_tok argv)"
    by (simp add: list_all_iff quoted_tok_def)
  have "stripLeadingAssignments (map quoted_tok argv) = map quoted_tok argv"
    by (cases argv) (simp_all add: stripLeadingAssignments_def quoted_not_assignment)
  then show ?thesis by (simp add: commandWords_def command_words_words [OF w])
qed

lemma quoted_values: "wordValues (map quoted_tok argv) = argv"
  by (simp add: wordValues_def quoted_tok_def comp_def)

lemma quoted_segments:
  "segment_argvs (map quoted_tok argv) = (if argv = [] then [] else [argv])"
proof -
  have w: "list_all (\<lambda>t. tk_kind t = tokWord) (map quoted_tok argv)"
    by (simp add: list_all_iff quoted_tok_def)
  show ?thesis
    by (simp add: segment_argvs_def splitShellSegments_def split_segments_words [OF w] quoted_strip quoted_values)
qed

lemma shell_quoted_grade:
  "argv \<noteq> [] \<Longrightarrow> shellReversibilityRec levels (shell_line argv) = argvReversibility argv"
proof -
  assume argv: "argv \<noteq> []"
  have w: "list_all (\<lambda>t. tk_kind t = tokWord) (map quoted_tok argv)"
    by (simp add: list_all_iff quoted_tok_def)
  show ?thesis
    using argv
    by (cases levels)
      (simp_all add: tokenize_shell_line redirectTargets_words [OF w] quoted_segments extract_shell_line worst_max)
qed

lemma argvDangerScan_hit: "i < length argv \<Longrightarrow> danger_at (drop i argv) \<Longrightarrow> argvDangerScan argv = Irreversible"
proof (induction argv arbitrary: i)
  case (Cons a argv)
  then show ?case by (cases i) auto
qed simp

lemma unwrap_wrappers_flag: "had \<Longrightarrow> snd (unwrap_wrappers n had argv)"
  by (induction n had argv rule: unwrap_wrappers.induct) (auto simp: Let_def)

lemma unwrap_hadWrapper:
  "argv \<noteq> [] \<Longrightarrow> filepath_Base (hd argv) \<in> set shellWrapperProgs \<Longrightarrow> snd (unwrapShellWrappers argv)"
  using unwrap_wrappers_flag [of True 7]
  by (simp add: unwrapShellWrappers_def Let_def eval_nat_numeral)

lemma wrapped_danger:
  assumes "filepath_Base (hd argv) \<in> set shellWrapperProgs" "i < length argv" "danger_at (drop i argv)"
  shows "argvReversibility argv = Irreversible"
proof -
  from assms(2) have "argv \<noteq> []" by auto
  from unwrap_hadWrapper [OF this assms(1)] argvDangerScan_hit [OF assms(2,3)]
  show ?thesis by (auto simp: argvReversibility_def worst_max split: prod.splits)
qed

section \<open>Properties\<close>

text \<open>The class of a call is the worst of the grades of the surfaces it carries, and of the class
  of its name when the name told something; with no surface it is the class of the name.\<close>

theorem classify_is_worst_surface:
  "ClassifyReversibility rt reg env =
     (let nameClass = nameGroupReversibility (e_ToolName env) (e_ToolGroup env);
          grades = surface_grades reg (parseParams rt (e_Parameters env))
      in if grades = [] then nameClass
         else if nameClass = Unknown then Max (insert Reversible (set grades))
         else Max (insert nameClass (set grades)))"
  by (simp add: ClassifyReversibility_def Let_def rev.fold_Max worst_max)
    (simp add: max.commute)

text \<open>Quoting an argument vector and giving it as a shell command does not change its grade:
  the command surface and the argv surface agree, at every nesting level.\<close>

theorem command_and_argv_agree:
  assumes "argv \<noteq> []"
  shows "shellStringReversibility (shell_line argv) = argvReversibility argv"
  using shell_quoted_grade [OF assms] by (simp add: shellStringReversibility_def)

theorem command_and_argv_agree_witness:
  "shellStringReversibility (shell_line [''rm'', ''-rf'', ''/a b'']) = Irreversible"
  unfolding command_and_argv_agree [OF list.distinct(2)] by code_simp

text \<open>C35: behind a command wrapper (sudo, env, timeout, xargs, ...) a destructive invocation that starts at
  any argument makes the command \<open>Irreversible\<close>, however the wrapper's options are read.\<close>

theorem destructive_behind_wrapper:
  assumes "filepath_Base (hd argv) \<in> set shellWrapperProgs" and "i < length argv" and "danger_at (drop i argv)"
  shows "argvReversibility argv = Irreversible"
  using assms by (rule wrapped_danger)

theorem destructive_behind_wrapper_witness:
  "argvReversibility [''env'', ''-u'', ''ls'', ''rm'', ''-rf'', ''/''] = Irreversible"
proof (rule destructive_behind_wrapper [where i = 3])
  show "filepath_Base (hd [''env'', ''-u'', ''ls'', ''rm'', ''-rf'', ''/'']) \<in> set shellWrapperProgs" by code_simp
  show "danger_at (drop 3 [''env'', ''-u'', ''ls'', ''rm'', ''-rf'', ''/''])" by code_simp
qed simp

text \<open>Three commands that destroy data are graded below \<open>Unknown\<close>, so a floor on unknown and
  irreversible calls lets them pass: a command inside the string operand of \<open>env -S\<close>, which
  is skipped as an option's value; a device reached through a doubled slash, by redirection and
  as an operand.\<close>

theorem destructive_graded_low:
  "argvReversibility [''env'', ''-S'', ''rm -rf /'', ''ls''] = Reversible \<and>
   shellStringReversibility ''cat x > //dev/sda'' = Recoverable \<and>
   argvReversibility [''cp'', ''x'', ''//dev/sda''] = Recoverable"
proof (intro conjI)
  show "argvReversibility [''env'', ''-S'', ''rm -rf /'', ''ls''] = Reversible" by code_simp
  show "shellStringReversibility ''cat x > //dev/sda'' = Recoverable" by code_simp
  show "argvReversibility [''cp'', ''x'', ''//dev/sda''] = Recoverable" by code_simp
qed

end
