(* ===== verification/Conditions.thy ===== *)
theory Conditions
  imports Reversibility Paths
begin

text \<open>
  condition.go: the operators of a plain leaf, the condition tree, and the field map that
  \<open>FlattenEnvelope\<close> makes of an envelope.
\<close>

section \<open>Operators\<close>

definition toFloat64 :: "runtime \<Rightarrow> val \<Rightarrow> f64 option" where
  "toFloat64 rt v =
     (case v of
        VFloat f \<Rightarrow> Some f
      | VInt n \<Rightarrow> Some (f64_of_int n)
      | VNum s \<Rightarrow> rt_parse_float rt s
      | VStr s \<Rightarrow> rt_parse_float rt (TrimSpace s)
      | _ \<Rightarrow> None)"

definition compareEq :: "runtime \<Rightarrow> val \<Rightarrow> val \<Rightarrow> bool" where
  "compareEq rt a b =
     (case (toFloat64 rt a, toFloat64 rt b) of
        (Some x, Some y) \<Rightarrow> f64_eq x y
      | _ \<Rightarrow> Sprint_v rt a = Sprint_v rt b)"

text \<open>\<open>None\<close> is \<open>ok = false\<close>. Both comparisons fail on NaN, which gives 0.\<close>

definition compareNumeric :: "runtime \<Rightarrow> val \<Rightarrow> val \<Rightarrow> int option" where
  "compareNumeric rt a b =
     (case (toFloat64 rt a, toFloat64 rt b) of
        (Some x, Some y) \<Rightarrow> Some (if f64_lt x y then - 1 else if f64_lt y x then 1 else 0)
      | _ \<Rightarrow> None)"

definition in_list :: "runtime \<Rightarrow> val \<Rightarrow> val list option" where
  "in_list rt listVal =
     (case listVal of
        VList v \<Rightarrow> Some v
      | VStrs v \<Rightarrow> Some (map VStr v)
      | VStr v \<Rightarrow>
          (case rt_json rt v of
             Some (JArr js) \<Rightarrow> json_to_vals rt js
           | Some JNull \<Rightarrow> Some []
           | _ \<Rightarrow> None)
      | _ \<Rightarrow> None)"

definition compareIn :: "runtime \<Rightarrow> val \<Rightarrow> val \<Rightarrow> bool" where
  "compareIn rt fieldVal listVal =
     (case in_list rt listVal of
        None \<Rightarrow> False
      | Some list \<Rightarrow> list_ex (compareEq rt fieldVal) list)"

definition compareContains :: "runtime \<Rightarrow> val \<Rightarrow> val \<Rightarrow> bool" where
  "compareContains rt fieldVal v = Contains (Sprint_v rt fieldVal) (Sprint_v rt v)"

definition compareAffix :: "runtime \<Rightarrow> val \<Rightarrow> val \<Rightarrow> bool \<Rightarrow> bool" where
  "compareAffix rt fieldVal v pre =
     (if pre then HasPrefix (Sprint_v rt fieldVal) (Sprint_v rt v)
      else HasSuffix (Sprint_v rt fieldVal) (Sprint_v rt v))"

definition compareRegex :: "runtime \<Rightarrow> val \<Rightarrow> val \<Rightarrow> bool" where
  "compareRegex rt fieldVal v =
     (case compiledRegex rt (Sprint_v rt v) of
        None \<Rightarrow> False
      | Some re \<Rightarrow> re (Sprint_v rt fieldVal))"

definition relation :: "runtime \<Rightarrow> (int \<Rightarrow> bool) \<Rightarrow> val \<Rightarrow> val \<Rightarrow> bool" where
  "relation rt test a b = (case compareNumeric rt a b of None \<Rightarrow> True | Some cmp \<Rightarrow> test cmp)"

definition field_relation :: "runtime \<Rightarrow> (int \<Rightarrow> bool) \<Rightarrow> val \<Rightarrow> val \<Rightarrow> val gomap \<Rightarrow> bool" where
  "field_relation rt test fieldVal v flds =
     (case v of
        VStr otherField \<Rightarrow>
          (case resolveField otherField flds of
             None \<Rightarrow> False
           | Some otherVal \<Rightarrow> relation rt test fieldVal otherVal)
      | _ \<Rightarrow> False)"

fun apply_operator :: "runtime \<Rightarrow> Operator \<Rightarrow> val \<Rightarrow> val \<Rightarrow> val gomap \<Rightarrow> bool" where
  "apply_operator rt OpEq a v flds = compareEq rt a v"
| "apply_operator rt OpNeq a v flds = (\<not> compareEq rt a v)"
| "apply_operator rt OpGt a v flds = relation rt (\<lambda>c. c > 0) a v"
| "apply_operator rt OpGte a v flds = relation rt (\<lambda>c. c \<ge> 0) a v"
| "apply_operator rt OpLt a v flds = relation rt (\<lambda>c. c < 0) a v"
| "apply_operator rt OpLte a v flds = relation rt (\<lambda>c. c \<le> 0) a v"
| "apply_operator rt OpIn a v flds = compareIn rt a v"
| "apply_operator rt OpNotIn a v flds = (\<not> compareIn rt a v)"
| "apply_operator rt OpContains a v flds = compareContains rt a v"
| "apply_operator rt OpNotContains a v flds = (\<not> compareContains rt a v)"
| "apply_operator rt OpStartsWith a v flds = compareAffix rt a v True"
| "apply_operator rt OpEndsWith a v flds = compareAffix rt a v False"
| "apply_operator rt OpRegex a v flds = compareRegex rt a v"
| "apply_operator rt OpGtField a v flds = field_relation rt (\<lambda>c. c > 0) a v flds"
| "apply_operator rt OpLtField a v flds = field_relation rt (\<lambda>c. c < 0) a v flds"
| "apply_operator rt _ a v flds = False"

definition evalLeaf :: "runtime \<Rightarrow> string \<Rightarrow> Operator \<Rightarrow> val \<Rightarrow> val gomap \<Rightarrow> bool" where
  "evalLeaf rt field op v flds =
     (let r = resolveField field flds in
      if op = OpExists then
        (let want = (case v of VBool b \<Rightarrow> b | _ \<Rightarrow> True) in (r \<noteq> None) = want)
      else case r of
          None \<Rightarrow> op = OpNotIn \<or> op = OpNotContains
        | Some fieldVal \<Rightarrow> apply_operator rt op fieldVal v flds)"

section \<open>The condition tree\<close>

definition fired :: "detail option \<Rightarrow> bool \<times> detail" where
  "fired d = (case d of None \<Rightarrow> (False, NoDetail) | Some x \<Rightarrow> (True, x))"

text \<open>\<open>firstDetail\<close> is the accumulator of the conjunction's loop.\<close>

fun EvalConditionWithDetail :: "engine_env \<Rightarrow> val gomap \<Rightarrow> Condition \<Rightarrow> bool \<times> detail"
  and eval_and :: "engine_env \<Rightarrow> val gomap \<Rightarrow> detail \<Rightarrow> Condition list \<Rightarrow> bool \<times> detail"
  and eval_or :: "engine_env \<Rightarrow> val gomap \<Rightarrow> Condition list \<Rightarrow> bool \<times> detail" where
  "EvalConditionWithDetail en flds (Condition ands ors neg field op v sq pa sh ll wr ht) =
     (if ands \<noteq> [] then eval_and en flds NoDetail ands
      else if ors \<noteq> [] then eval_or en flds ors
      else case neg of
          Some sub \<Rightarrow> (\<not> fst (EvalConditionWithDetail en flds sub), NoDetail)
        | None \<Rightarrow>
        (case sq of Some s \<Rightarrow> fired (evalSQLClassifyWithDetail (en_dialects en) (en_registry en) s flds)
        | None \<Rightarrow>
        (case pa of Some p \<Rightarrow> (evalPathClassify (en_rt en) p flds, NoDetail)
        | None \<Rightarrow>
        (case sh of Some s \<Rightarrow> (evalShellClassify (en_rt en) s flds, NoDetail)
        | None \<Rightarrow>
        (case ll of Some l \<Rightarrow> fired (evalLLMClassifyWithDetail (en_llm en) l flds)
        | None \<Rightarrow>
        (case wr of Some w \<Rightarrow> fired (evalWriteClassifyWithDetail (en_rt en) w flds)
        | None \<Rightarrow>
        (case ht of Some h \<Rightarrow> fired (evalHTTPClassifyWithDetail (en_rt en) h flds)
        | None \<Rightarrow>
          (if field = [] \<or> op = OpNone then (True, NoDetail)
           else (evalLeaf (en_rt en) field op v flds, NoDetail)))))))))"
| "eval_and en flds firstDetail [] = (True, firstDetail)"
| "eval_and en flds firstDetail (sub # subs) =
     (case EvalConditionWithDetail en flds sub of (f, d) \<Rightarrow>
        if \<not> f then (False, d)
        else eval_and en flds (if firstDetail = NoDetail \<and> d \<noteq> NoDetail then d else firstDetail) subs)"
| "eval_or en flds [] = (False, NoDetail)"
| "eval_or en flds (sub # subs) =
     (case EvalConditionWithDetail en flds sub of (f, d) \<Rightarrow>
        if f then (True, d) else eval_or en flds subs)"

definition EvalCondition :: "engine_env \<Rightarrow> Condition \<Rightarrow> val gomap \<Rightarrow> bool" where
  "EvalCondition en cond flds = fst (EvalConditionWithDetail en flds cond)"

section \<open>The field map\<close>

definition AmountParseOK :: string where
  "AmountParseOK = ''ok''"

definition AmountParseInvalidFailClosed :: string where
  "AmountParseInvalidFailClosed = ''invalid_fail_closed''"

definition EvaluatedAmount :: "runtime \<Rightarrow> ActionEnvelope \<Rightarrow> f64 \<times> string" where
  "EvaluatedAmount rt env =
     (case Amount rt env of
        Inl _ \<Rightarrow> (f64_1e18, AmountParseInvalidFailClosed)
      | Inr amt \<Rightarrow> (amt, AmountParseOK))"

definition put_all :: "(string \<times> val) list \<Rightarrow> val gomap \<Rightarrow> val gomap" where
  "put_all kvs m = foldl (\<lambda>m (k, v). mput k v m) m kvs"

definition identity_fields :: "engine_env \<Rightarrow> ActionEnvelope \<Rightarrow> (string \<times> val) list" where
  "identity_fields en env =
     [(''envelope_id'', VStr (e_EnvelopeID env)),
      (''agent_id'', VStr (e_AgentID env)),
      (''session_id'', VStr (e_SessionID env)),
      (''org_id'', VStr (e_OrgID env)),
      (''tool_name'', VStr (e_ToolName env)),
      (''tool_group'', VStr (e_ToolGroup env)),
      (''reversibility'', VStr (class_string (ClassifyReversibility (en_rt en) (en_dialects en) env))),
      (''amount'', VFloat (fst (EvaluatedAmount (en_rt en) env)))]"

definition agent_fields :: "ActionEnvelope \<Rightarrow> (string \<times> val) list" where
  "agent_fields env =
     [(''agent_version'', VStr (e_AgentVersion env)),
      (''framework'', VStr (e_Framework env)),
      (''turn_number'', VInt (e_TurnNumber env)),
      (''department'', VStr (e_Department env)),
      (''tool_server'', VStr (e_ToolServer env))]"

definition order_fields :: "VerifiedContext \<Rightarrow> (string \<times> val) list" where
  "order_fields v =
     [(''context.verified.customer_tier'', VStr (vc_CustomerTier v)),
      (''context.verified.customer_account_age_days'', VInt (vc_CustomerAccountAgeDays v)),
      (''context.verified.customer_lifetime_value'', VFloat (vc_CustomerLifetimeValue v)),
      (''context.verified.customer_order_count'', VInt (vc_CustomerOrderCount v)),
      (''context.verified.order_total'', VFloat (vc_OrderTotal v)),
      (''context.verified.order_age_days'', VInt (vc_OrderAge v)),
      (''context.verified.order_currency'', VStr (vc_OrderCurrency v)),
      (''context.verified.customer_id'', VStr (vc_CustomerID v)),
      (''context.verified.order_id'', VStr (vc_OrderID v)),
      (''context.verified.order_item_count'', VInt (vc_OrderItemCount v)),
      (''context.verified.product_category'', VStr (vc_ProductCategory v)),
      (''context.verified.product_category_avg_price'', VFloat (vc_ProductCategoryAvgPrice v)),
      (''context.verified.return_request_reason'', VStr (vc_ReturnRequestReason v)),
      (''context.verified.return_request_status'', VStr (vc_ReturnRequestStatus v)),
      (''context.verified.economic_value_impact'', VFloat (vc_EconomicValueImpact v)),
      (''context.verified.rolling_24h_total'', VFloat (vc_Rolling24hTotal v)),
      (''context.verified.rolling_24h_count'', VInt (vc_Rolling24hCount v)),
      (''context.verified.rolling_7d_total'', VFloat (vc_Rolling7dTotal v)),
      (''context.verified.rolling_7d_count'', VInt (vc_Rolling7dCount v))]"

definition budget_fields :: "VerifiedContext \<Rightarrow> (string \<times> val) list" where
  "budget_fields v =
     (case vc_AgentBudget v of None \<Rightarrow> []
      | Some b \<Rightarrow>
          [(''context.verified.agent_budget.total_limit'', VFloat (ab_TotalLimit b)),
           (''context.verified.agent_budget.used_today'', VFloat (ab_UsedToday b)),
           (''context.verified.agent_budget.remaining'', VFloat (ab_Remaining b)),
           (''context.verified.agent_budget.transactions_today'', VInt (ab_TransactionsToday b))])"

definition velocity_fields :: "VerifiedContext \<Rightarrow> (string \<times> val) list" where
  "velocity_fields v =
     (case vc_AgentVelocity v of None \<Rightarrow> []
      | Some a \<Rightarrow>
          [(''context.verified.agent_velocity.monetary_count_1h'', VInt (av_MonetaryCount1h a)),
           (''context.verified.agent_velocity.monetary_sum_1h'', VFloat (av_MonetarySum1h a)),
           (''context.verified.agent_velocity.monetary_count_24h'', VInt (av_MonetaryCount24h a)),
           (''context.verified.agent_velocity.monetary_sum_24h'', VFloat (av_MonetarySum24h a)),
           (''context.verified.agent_velocity.token_count_1h'', VInt (av_TokenCount1h a)),
           (''context.verified.agent_velocity.token_count_24h'', VInt (av_TokenCount24h a)),
           (''context.verified.agent_velocity.llm_cost_usd_1h'', VFloat (av_LLMCostUSD1h a)),
           (''context.verified.agent_velocity.llm_cost_usd_24h'', VFloat (av_LLMCostUSD24h a))])"

definition justification_fields :: "VerifiedContext \<Rightarrow> (string \<times> val) list" where
  "justification_fields v =
     (case vc_Justification v of None \<Rightarrow> []
      | Some j \<Rightarrow>
          [(''context.verified.justification.reason_code'', VStr (jc_ReasonCode j)),
           (''context.verified.justification.verified'', VBool (jc_Verified j)),
           (''context.verified.justification.verification_source'', VStr (jc_VerificationSource j)),
           (''context.verified.justification.verification_details'', VStr (jc_VerificationDetails j))])"

definition content_fields :: "VerifiedContext \<Rightarrow> (string \<times> val) list" where
  "content_fields v =
     (let contentCats = Join (vc_ContentCategories v) '','';
          counterCats = Join (vc_CounterAgentCategories v) '',''
      in [(''context.verified.content_risk'', VStr (vc_ContentRisk v)),
          (''context.verified.content_categories'', VStr contentCats),
          (''context.verified.content_classifier_tier'', VStr (vc_ContentClassifierTier v)),
          (''content.risk_level'', VStr (vc_ContentRisk v)),
          (''content.categories'', VStr contentCats),
          (''context.verified.counter_agent_risk'', VStr (vc_CounterAgentRisk v)),
          (''context.verified.counter_agent_categories'', VStr counterCats),
          (''counter_agent.risk'', VStr (vc_CounterAgentRisk v)),
          (''counter_agent.categories'', VStr counterCats),
          (''counter_agent.reasoning'', VStr (vc_CounterAgentReasoning v))])"

definition session_fields :: "SessionStateContext \<Rightarrow> (string \<times> val) list" where
  "session_fields s =
     [(''context.session_state.cumulative_amount'', VFloat (ss_CumulativeAmount s)),
      (''context.session_state.actions_in_session'', VInt (ss_ActionsInSession s)),
      (''context.session_state.escalations_in_session'', VInt (ss_EscalationsInSession s)),
      (''context.session_state.denied_in_session'', VInt (ss_DeniedInSession s))]"

definition prefixed_members :: "string \<Rightarrow> runtime \<Rightarrow> raw \<Rightarrow> (string \<times> val) list" where
  "prefixed_members pre rt r = map (\<lambda>(k, v). (pre @ k, v)) (parseParams rt r)"

definition FlattenEnvelope :: "engine_env \<Rightarrow> ActionEnvelope \<Rightarrow> val gomap" where
  "FlattenEnvelope en env =
     (let v = cx_Verified (e_Context env) in
      put_all
        (identity_fields en env @
         prefixed_members ''parameters.'' (en_rt en) (e_Parameters env) @
         agent_fields env @ order_fields v @ budget_fields v @ velocity_fields v @
         justification_fields v @ content_fields v @
         session_fields (cx_SessionState (e_Context env)) @
         prefixed_members ''context.agent_supplied.'' (en_rt en) (cx_AgentSupplied (e_Context env))) [])"

section \<open>Lemmas\<close>

lemma mget_put_all: "mget (put_all kvs m) k = (case map_of (rev kvs) k of Some v \<Rightarrow> Some v | None \<Rightarrow> mget m k)"
proof (induction kvs arbitrary: m)
  case Nil
  then show ?case by (simp add: put_all_def)
next
  case (Cons kv kvs)
  obtain a b where kv: "kv = (a, b)" by (cases kv)
  have "put_all (kv # kvs) m = put_all kvs (mput a b m)" by (simp add: put_all_def kv)
  then show ?case
    by (auto simp: Cons.IH kv map_add_def split: option.splits)
qed

lemma mget_put_all_Nil: "mget (put_all kvs []) k = map_of (rev kvs) k"
  by (simp add: mget_put_all split: option.splits)

lemma put_all_mem: "mget (put_all kvs []) k = Some v \<Longrightarrow> (k, v) \<in> set kvs"
  by (auto simp: mget_put_all_Nil dest: map_of_SomeD)

definition scalar :: "val \<Rightarrow> bool" where
  "scalar v \<longleftrightarrow> (\<forall>m. v \<noteq> VMap m)"

definition dotted_or_scalar :: "string \<times> val \<Rightarrow> bool" where
  "dotted_or_scalar kv \<longleftrightarrow> CHR ''.'' \<in> set (fst kv) \<or> scalar (snd kv)"

lemma fixed_fields_scalar:
  "list_all dotted_or_scalar (identity_fields en env)" "list_all dotted_or_scalar (agent_fields env)"
  "list_all dotted_or_scalar (order_fields v)" "list_all dotted_or_scalar (budget_fields v)"
  "list_all dotted_or_scalar (velocity_fields v)" "list_all dotted_or_scalar (justification_fields v)"
  "list_all dotted_or_scalar (content_fields v)" "list_all dotted_or_scalar (session_fields s)"
  by (simp_all add: identity_fields_def agent_fields_def order_fields_def budget_fields_def velocity_fields_def
      justification_fields_def content_fields_def session_fields_def dotted_or_scalar_def scalar_def Let_def
      split: option.split)

lemma prefixed_dotted: "CHR ''.'' \<in> set pre \<Longrightarrow> list_all dotted_or_scalar (prefixed_members pre rt r)"
  by (auto simp: list_all_iff prefixed_members_def dotted_or_scalar_def)

lemma flat_scalar:
  assumes "mget (FlattenEnvelope en env) k = Some v" "CHR ''.'' \<notin> set k"
  shows "scalar v"
proof -
  have "CHR ''.'' \<in> set ''parameters.''" "CHR ''.'' \<in> set ''context.agent_supplied.''" by simp_all
  note dots = this [THEN prefixed_dotted]
  have "list_all dotted_or_scalar
      (identity_fields en env @ prefixed_members ''parameters.'' (en_rt en) (e_Parameters env) @
       agent_fields env @ order_fields (cx_Verified (e_Context env)) @ budget_fields (cx_Verified (e_Context env)) @
       velocity_fields (cx_Verified (e_Context env)) @ justification_fields (cx_Verified (e_Context env)) @
       content_fields (cx_Verified (e_Context env)) @ session_fields (cx_SessionState (e_Context env)) @
       prefixed_members ''context.agent_supplied.'' (en_rt en) (cx_AgentSupplied (e_Context env)))"
    unfolding list_all_append by (intro conjI fixed_fields_scalar dots)
  with put_all_mem [OF assms(1) [unfolded FlattenEnvelope_def Let_def]] have "dotted_or_scalar (k, v)"
    by (simp only: list_all_iff)
  with assms(2) show ?thesis by (simp add: dotted_or_scalar_def)
qed

lemma walk_scalar: "scalar v \<Longrightarrow> walk_fields (p # ps) v = None"
  by (cases v) (auto simp: scalar_def)

lemma resolve_flat: "resolveField path (FlattenEnvelope en env) = mget (FlattenEnvelope en env) path"
proof (cases "mget (FlattenEnvelope en env) path")
  case (Some v)
  then show ?thesis by (simp add: resolveField_def)
next
  case None
  obtain p ps where parts: "SplitByte path (CHR ''.'') = p # ps"
    using SplitByte_not_Nil [of path "CHR ''.''"] by (cases "SplitByte path (CHR ''.'')") auto
  have nodot: "CHR ''.'' \<notin> set p" using in_SplitByte [of p path "CHR ''.''"] parts by simp
  show ?thesis
  proof (cases ps)
    case Nil
    with parts Join_SplitByte [of path "CHR ''.''"] have "p = path" by simp
    with None Nil parts show ?thesis by (simp add: resolveField_def)
  next
    case (Cons q qs)
    then show ?thesis
      using None parts flat_scalar [of en env p] nodot
      by (auto simp: resolveField_def scalar_def split: option.split val.split)
  qed
qed

lemma map_of_drop:
  assumes "k \<notin> fst ` set P"
  shows "map_of (rev (A @ P @ B)) k = map_of (rev (A @ B)) k"
proof -
  have "map_of (rev P) k = None" using assms by (simp add: map_of_eq_None_iff)
  then show ?thesis by (simp add: map_add_def split: option.split)
qed

lemma prefixed_keys: "k \<in> fst ` set (prefixed_members pre rt r) \<Longrightarrow> HasPrefix k pre"
  by (auto simp: prefixed_members_def)

lemma map_of_replace:
  assumes "k \<notin> fst ` set P" "k \<notin> fst ` set P'"
  shows "map_of (rev (A @ P @ B)) k = map_of (rev (A @ P' @ B)) k"
  by (simp only: map_of_drop [OF assms(1)] map_of_drop [OF assms(2)])

lemma map_of_rev_append: "map_of (rev (xs @ ys)) k = (case map_of (rev ys) k of Some v \<Rightarrow> Some v | None \<Rightarrow> map_of (rev xs) k)"
  by (simp add: map_add_def)

lemma amount_field: "mget (FlattenEnvelope en env) ''amount'' = Some (VFloat (fst (EvaluatedAmount (en_rt en) env)))"
proof -
  have p: "map_of (rev (prefixed_members ''parameters.'' (en_rt en) (e_Parameters env))) ''amount'' = None"
    "map_of (rev (prefixed_members ''context.agent_supplied.'' (en_rt en) (cx_AgentSupplied (e_Context env)))) ''amount'' = None"
    using prefixed_keys [of "''amount''"] by (force simp: map_of_eq_None_iff)+
  show ?thesis
    unfolding FlattenEnvelope_def Let_def mget_put_all_Nil map_of_rev_append p
    by (simp add: identity_fields_def agent_fields_def order_fields_def budget_fields_def velocity_fields_def
        justification_fields_def content_fields_def session_fields_def Let_def split: option.split)
qed

text \<open>The two loops of the tree.\<close>

lemma eval_and_fst: "fst (eval_and en flds d cs) = list_all (\<lambda>c. fst (EvalConditionWithDetail en flds c)) cs"
  by (induction cs arbitrary: d) (auto split: prod.split)

lemma eval_or_fst: "fst (eval_or en flds cs) = list_ex (\<lambda>c. fst (EvalConditionWithDetail en flds c)) cs"
  by (induction cs) (auto split: prod.split)

lemma relation_gt:
  "relation rt (\<lambda>c. c > 0) a b =
     (case (toFloat64 rt a, toFloat64 rt b) of (Some x, Some y) \<Rightarrow> f64_lt y x | _ \<Rightarrow> True)"
  using f64_lt_not_eq by (auto simp: relation_def compareNumeric_def split: option.split)

section \<open>Properties\<close>

text \<open>A cap on the amount cannot be dodged: the leaf \<open>amount > cap\<close> fires exactly when the
  amount of the call exceeds the cap, and on every malformed, negative or non-finite amount as soon
  as the cap is below the sentinel \<open>1e18\<close>, whatever else the parameters hold.\<close>

theorem amount_cap_enforced:
  "evalLeaf (en_rt en) ''amount'' OpGt (VFloat cap) (FlattenEnvelope en env) \<longleftrightarrow>
     f64_lt cap (case Amount (en_rt en) env of Inl _ \<Rightarrow> f64_1e18 | Inr amt \<Rightarrow> amt)"
  by (simp add: evalLeaf_def Let_def resolve_flat amount_field relation_gt toFloat64_def EvaluatedAmount_def
      split: sum.split)

text \<open>The dotted traversal of \<open>resolveField\<close> never finds anything in a flattened envelope: a
  field resolves to the value stored under its whole name or not at all, so a member nested below
  \<open>parameters.<key>\<close> has no field name.\<close>

theorem field_resolves_by_whole_name:
  "resolveField path (FlattenEnvelope en env) = mget (FlattenEnvelope en env) path"
  by (rule resolve_flat)


definition sample_engine :: engine_env where
  "sample_engine = \<lparr> en_rt = sample_runtime, en_dialects = [], en_registry = None, en_llm = sample_llm \<rparr>"


text \<open>A text that parses as NaN is numeric to a threshold rule and compares as equal to every
  bound: a \<open>gt\<close> or \<open>lt\<close> rule on it never fires, whatever the bound, while \<open>gte\<close> and \<open>lte\<close> always
  do.\<close>

theorem nan_evades_threshold:
  assumes "resolveField field flds = Some (VStr s)" and "rt_parse_float rt (TrimSpace s) = Some x"
    and "f64_IsNaN x" and "toFloat64 rt bound = Some y"
  shows "\<not> evalLeaf rt field OpGt bound flds \<and> \<not> evalLeaf rt field OpLt bound flds \<and>
    evalLeaf rt field OpGte bound flds \<and> evalLeaf rt field OpLte bound flds"
proof -
  have "compareNumeric rt (VStr s) bound = Some 0"
    using assms by (simp add: compareNumeric_def toFloat64_def f64_lt_def)
  then show ?thesis by (simp add: evalLeaf_def Let_def assms(1) relation_def)
qed

definition nan_runtime :: runtime where
  "nan_runtime = sample_runtime \<lparr> rt_parse_float := \<lambda>s. if s = ''NaN'' then Some 0x7FF8000000000001 else None \<rparr>"

theorem nan_evades_threshold_witness:
  "\<not> evalLeaf nan_runtime ''parameters.quantity'' OpGt (VInt 100) [(''parameters.quantity'', VStr ''NaN'')]"
proof -
  have "resolveField ''parameters.quantity'' [(''parameters.quantity'', VStr ''NaN'')] = Some (VStr ''NaN'')"
    "rt_parse_float nan_runtime (TrimSpace ''NaN'') = Some 0x7FF8000000000001"
    "f64_IsNaN 0x7FF8000000000001" "toFloat64 nan_runtime (VInt 100) = Some (f64_of_int 100)"
    by code_simp+
  from nan_evades_threshold [OF this] show ?thesis by blast
qed

end
