(* ===== verification/Validate.thy ===== *)
theory Validate
  imports Conditions
begin

text \<open>
  validate.go: the checks a policy passes before it is loaded. An error is the context path of the
  node with the kind of fault; the message text is not modelled. The numeric types that no decoder
  produces are part of \<open>VInt\<close> and \<open>VFloat\<close>.
\<close>

section \<open>Faults\<close>

datatype fault =
    NotNumericString Operator string
  | NotNumeric Operator
  | RegexNotString
  | RegexInvalid string
  | NotList Operator
  | NotFieldName Operator
  | NotString Operator
  | NotBool
  | NilValue Operator
  | UnknownOperator Operator
  | TooDeep
  | EmptyCondition
  | MultipleForms
  | ClassifierUnderNot
  | LlmNoPromptField
  | LlmUrlNotUsed
  | LlmImageNotSupported
  | LlmUnknownBackend string
  | LlmBadUrl
  | LlmTimeout int
  | LlmNoLabels
  | LlmTooManyLabels nat
  | LlmBlankLabel
  | LlmSafeLabel string
  | LlmReservedLabel string
  | LlmLabelCharacter string
  | LlmDuplicateLabel string
  | ArgvPatternInvalid string
  | WildcardCount string nat
  | WriteBlankPrefix
  | WriteContentRegex string
  | WriteMaxBytes int
  | DuplicateRule string
  | UnknownEffect string
  | DuplicatePolicy string int nat nat

section \<open>Leaf values and the classifiers' parameters\<close>

definition validateOperatorValue :: "runtime \<Rightarrow> Operator \<Rightarrow> val \<Rightarrow> fault option" where
  "validateOperatorValue rt op v =
     (if op \<in> {OpGt, OpGte, OpLt, OpLte} then
        (case v of
           VFloat _ \<Rightarrow> None
         | VInt _ \<Rightarrow> None
         | VStr s \<Rightarrow> (if rt_parse_float rt s = None then Some (NotNumericString op s) else None)
         | _ \<Rightarrow> Some (NotNumeric op))
      else if op = OpRegex then
        (case v of
           VStr s \<Rightarrow> (if compiledRegex rt s = None then Some (RegexInvalid s) else None)
         | _ \<Rightarrow> Some RegexNotString)
      else if op \<in> {OpIn, OpNotIn} then
        (case v of VList _ \<Rightarrow> None | VStrs _ \<Rightarrow> None | _ \<Rightarrow> Some (NotList op))
      else if op \<in> {OpGtField, OpLtField} then
        (case v of VStr _ \<Rightarrow> None | _ \<Rightarrow> Some (NotFieldName op))
      else if op \<in> {OpContains, OpNotContains, OpStartsWith, OpEndsWith} then
        (case v of VStr _ \<Rightarrow> None | _ \<Rightarrow> Some (NotString op))
      else if op = OpExists then
        (case v of VNil \<Rightarrow> None | VBool _ \<Rightarrow> None | _ \<Rightarrow> Some NotBool)
      else if op \<in> {OpEq, OpNeq} then (if v = VNil then Some (NilValue op) else None)
      else Some (UnknownOperator op))"

definition maxDeepGlobsPerPattern :: nat where
  "maxDeepGlobsPerPattern = 2"

definition capWildcardCount :: "string \<Rightarrow> fault option" where
  "capWildcardCount pre =
     (let count = length (filter (\<lambda>seg. seg = ''**'') (SplitByte pre (CHR ''/'')))
      in if maxDeepGlobsPerPattern < count then Some (WildcardCount pre count) else None)"

definition validateOllamaURL :: "string \<Rightarrow> fault option" where
  "validateOllamaURL raw =
     (if raw = [] then None
      else if \<not> (HasPrefix raw ''http://'' \<or> HasPrefix raw ''https://'') then Some LlmBadUrl
      else if Contains raw ''@'' then Some LlmBadUrl
      else None)"

fun validate_labels :: "string list \<Rightarrow> string list \<Rightarrow> fault option" where
  "validate_labels seen [] = None"
| "validate_labels seen (lbl # lbls) =
     (let normalised = ToLower (TrimSpace lbl) in
      if normalised = [] then Some LlmBlankLabel
      else if normalised = ''safe'' then Some (LlmSafeLabel lbl)
      else if normalised \<in> set [''model_refused'', ''ambiguous'', ''unknown_label'', ''error'']
      then Some (LlmReservedLabel lbl)
      else if list_ex (\<lambda>c. c \<in> set [CHR '','', CHR 0x0A, CHR 0x0D, CHR 0x22, CHR 0x09]) lbl
      then Some (LlmLabelCharacter lbl)
      else if normalised \<in> set seen then Some (LlmDuplicateLabel lbl)
      else validate_labels (normalised # seen) lbls)"

definition validate_backend :: "LLMClassify \<Rightarrow> fault option" where
  "validate_backend l =
     (if lc_Backend l = [] \<or> lc_Backend l = LLMBackendOllama then None
      else if lc_Backend l = LLMBackendSystemOne then
        (if lc_OllamaURL l \<noteq> [] then Some LlmUrlNotUsed
         else if lc_ImageURLField l \<noteq> [] then Some LlmImageNotSupported
         else None)
      else Some (LlmUnknownBackend (lc_Backend l)))"

definition validate_llm :: "LLMClassify \<Rightarrow> fault option" where
  "validate_llm l =
     (if lc_PromptField l = [] then Some LlmNoPromptField
      else case validate_backend l of
          Some f \<Rightarrow> Some f
        | None \<Rightarrow>
            (case (if lc_OllamaURL l \<noteq> [] then validateOllamaURL (lc_OllamaURL l) else None) of
               Some f \<Rightarrow> Some f
             | None \<Rightarrow>
                 (if lc_TimeoutSeconds l < 0 \<or> 120 < lc_TimeoutSeconds l then Some (LlmTimeout (lc_TimeoutSeconds l))
                  else if lc_Forbidden l = [] then Some LlmNoLabels
                  else if 64 < length (lc_Forbidden l) then Some (LlmTooManyLabels (length (lc_Forbidden l)))
                  else validate_labels [] (lc_Forbidden l))))"

definition validate_shell :: "runtime \<Rightarrow> ShellClassify \<Rightarrow> fault option" where
  "validate_shell rt s =
     (case first_some (\<lambda>pat. if compiledRegex rt pat = None then Some (ArgvPatternInvalid pat) else None)
         (sh_ArgvDenyPatterns (shc_Require s)) of
        Some f \<Rightarrow> Some f
      | None \<Rightarrow> first_some capWildcardCount (sh_DeniedArgvPaths (shc_Require s)))"

definition validate_path :: "PathClassify \<Rightarrow> fault option" where
  "validate_path p =
     first_some capWildcardCount
       (pr_DeniedCanonicalPrefixes (pc_Require p) @ pr_AllowedCanonicalPrefixes (pc_Require p))"

definition validate_write :: "runtime \<Rightarrow> WriteClassify \<Rightarrow> fault option" where
  "validate_write rt w =
     (let req = wc_Require w in
      case first_some (\<lambda>pre. if TrimSpace pre = [] then Some WriteBlankPrefix else capWildcardCount pre)
         (wr_AllowedPathPrefixes req @ wr_DeniedPathPrefixes req) of
        Some f \<Rightarrow> Some f
      | None \<Rightarrow>
          (case first_some (\<lambda>pat. if compiledRegex rt pat = None then Some (WriteContentRegex pat) else None)
              (wr_DeniedContentRegex req) of
             Some f \<Rightarrow> Some f
           | None \<Rightarrow> (if wr_MaxBytes req < 0 then Some (WriteMaxBytes (wr_MaxBytes req)) else None)))"

section \<open>Condition trees\<close>

definition maxConditionDepth :: nat where
  "maxConditionDepth = 64"

text \<open>The forms a node populates, in the order of the source.\<close>

definition has_classifier :: "Condition \<Rightarrow> bool" where
  "has_classifier c \<longleftrightarrow>
     c_SQLClassify c \<noteq> None \<or> c_PathClassify c \<noteq> None \<or> c_ShellClassify c \<noteq> None \<or>
     c_LLMClassify c \<noteq> None \<or> c_WriteClassify c \<noteq> None \<or> c_HTTPClassify c \<noteq> None"

definition has_leaf :: "Condition \<Rightarrow> bool" where
  "has_leaf c \<longleftrightarrow> c_Field c \<noteq> [] \<and> c_Operator c \<noteq> OpNone"

definition populated :: "Condition \<Rightarrow> nat" where
  "populated c =
     length (filter id
       [c_And c \<noteq> [], c_Or c \<noteq> [], c_Not c \<noteq> None, has_leaf c,
        c_SQLClassify c \<noteq> None, c_PathClassify c \<noteq> None, c_ShellClassify c \<noteq> None,
        c_LLMClassify c \<noteq> None, c_WriteClassify c \<noteq> None, c_HTTPClassify c \<noteq> None])"

text \<open>The checks of the node before its branches are visited, and those after.\<close>

definition validate_node :: "nat \<Rightarrow> bool \<Rightarrow> Condition \<Rightarrow> fault option" where
  "validate_node depth underNot c =
     (if maxConditionDepth < depth then Some TooDeep
      else if populated c = 0 then Some EmptyCondition
      else if 1 < populated c then Some MultipleForms
      else if underNot \<and> has_classifier c then Some ClassifierUnderNot
      else case c_LLMClassify c of None \<Rightarrow> None | Some l \<Rightarrow> validate_llm l)"

definition validate_leaf :: "runtime \<Rightarrow> Condition \<Rightarrow> fault option" where
  "validate_leaf rt c =
     first_some id
       [(if has_leaf c then validateOperatorValue rt (c_Operator c) (c_Value c) else None),
        (case c_ShellClassify c of None \<Rightarrow> None | Some s \<Rightarrow> validate_shell rt s),
        (case c_PathClassify c of None \<Rightarrow> None | Some p \<Rightarrow> validate_path p),
        (case c_WriteClassify c of None \<Rightarrow> None | Some w \<Rightarrow> validate_write rt w)]"

definition sub_ctx :: "string \<Rightarrow> string \<Rightarrow> nat \<Rightarrow> string" where
  "sub_ctx ctx label i = ctx @ ''/'' @ label @ ''['' @ show_int (int i) @ '']''"

definition at_ctx :: "string \<Rightarrow> fault option \<Rightarrow> (string \<times> fault) option" where
  "at_ctx ctx f = map_option (Pair ctx) f"

fun validateCondition :: "runtime \<Rightarrow> string \<Rightarrow> nat \<Rightarrow> bool \<Rightarrow> Condition \<Rightarrow> (string \<times> fault) option"
  and validate_subs ::
    "runtime \<Rightarrow> string \<Rightarrow> string \<Rightarrow> nat \<Rightarrow> nat \<Rightarrow> bool \<Rightarrow> Condition list \<Rightarrow> (string \<times> fault) option" where
  "validateCondition rt ctx depth underNot (Condition ands ors neg field op v sq pa sh ll wr ht) =
     (let c = Condition ands ors neg field op v sq pa sh ll wr ht in
      case validate_node depth underNot c of
        Some f \<Rightarrow> Some (ctx, f)
      | None \<Rightarrow>
      (case validate_subs rt ctx ''and'' 0 (Suc depth) underNot ands of
        Some e \<Rightarrow> Some e
      | None \<Rightarrow>
      (case validate_subs rt ctx ''or'' 0 (Suc depth) underNot ors of
        Some e \<Rightarrow> Some e
      | None \<Rightarrow>
      (case (case neg of None \<Rightarrow> None
             | Some sub \<Rightarrow> validateCondition rt (ctx @ ''/not'') (Suc depth) True sub) of
        Some e \<Rightarrow> Some e
      | None \<Rightarrow> at_ctx ctx (validate_leaf rt c)))))"
| "validate_subs rt ctx label i depth underNot [] = None"
| "validate_subs rt ctx label i depth underNot (sub # subs) =
     (case validateCondition rt (sub_ctx ctx label i) depth underNot sub of
        Some e \<Rightarrow> Some e
      | None \<Rightarrow> validate_subs rt ctx label (Suc i) depth underNot subs)"

section \<open>Policies\<close>

fun validate_rules :: "runtime \<Rightarrow> string list \<Rightarrow> Rule list \<Rightarrow> (string \<times> fault) option" where
  "validate_rules rt seenRuleIDs [] = None"
| "validate_rules rt seenRuleIDs (r # rs) =
     (if r_RuleID r \<in> set seenRuleIDs then Some ([], DuplicateRule (r_RuleID r))
      else case r_Effect r of
          EffectOther e \<Rightarrow> Some ([], UnknownEffect e)
        | _ \<Rightarrow>
            (case validateCondition rt (''rule '' @ [CHR 0x22] @ r_RuleID r @ [CHR 0x22]) 0 False (r_Conditions r) of
               Some e \<Rightarrow> Some e
             | None \<Rightarrow> validate_rules rt (r_RuleID r # seenRuleIDs) rs))"

definition ValidatePolicy :: "runtime \<Rightarrow> Policy \<Rightarrow> (string \<times> fault) option" where
  "ValidatePolicy rt p = validate_rules rt [] (p_Rules p)"

text \<open>\<open>seen\<close> maps an identity to the index of its first policy.\<close>

fun validate_set ::
  "runtime \<Rightarrow> nat \<Rightarrow> ((string \<times> int) \<times> nat) list \<Rightarrow> Policy list \<Rightarrow> (string \<times> fault) option" where
  "validate_set rt i seen [] = None"
| "validate_set rt i seen (p # ps) =
     (case ValidatePolicy rt p of
        Some e \<Rightarrow> Some e
      | None \<Rightarrow>
          (case map_of seen (p_PolicyID p, p_Version p) of
             Some first \<Rightarrow> Some ([], DuplicatePolicy (p_PolicyID p) (p_Version p) first i)
           | None \<Rightarrow> validate_set rt (Suc i) (((p_PolicyID p, p_Version p), i) # seen) ps))"

definition ValidatePolicySet :: "runtime \<Rightarrow> Policy list \<Rightarrow> (string \<times> fault) option" where
  "ValidatePolicySet rt policies = validate_set rt 0 [] policies"

section \<open>Nodes of a tree\<close>

text \<open>\<open>occurs c n b d\<close>: \<open>d\<close> is a node of \<open>c\<close> at depth \<open>n\<close>, with a \<open>not\<close> above it if \<open>b\<close>.\<close>

inductive occurs :: "Condition \<Rightarrow> nat \<Rightarrow> bool \<Rightarrow> Condition \<Rightarrow> bool" where
  here: "occurs c 0 False c"
| in_and: "s \<in> set (c_And c) \<Longrightarrow> occurs s n b d \<Longrightarrow> occurs c (Suc n) b d"
| in_or: "s \<in> set (c_Or c) \<Longrightarrow> occurs s n b d \<Longrightarrow> occurs c (Suc n) b d"
| in_not: "c_Not c = Some s \<Longrightarrow> occurs s n b d \<Longrightarrow> occurs c (Suc n) True d"

inductive_cases occurs_at_root: "occurs c 0 b d"
inductive_cases occurs_below: "occurs c (Suc n) b d"

lemma validate_subs_None:
  "validate_subs rt ctx label i depth un subs = None \<Longrightarrow> s \<in> set subs \<Longrightarrow>
     \<exists>ctx'. validateCondition rt ctx' depth un s = None"
  by (induction subs arbitrary: i) (auto split: option.splits)

lemma validate_step:
  assumes "validateCondition rt ctx depth un c = None"
  shows "validate_node depth un c = None" "validate_leaf rt c = None"
    "s \<in> set (c_And c) \<Longrightarrow> \<exists>ctx'. validateCondition rt ctx' (Suc depth) un s = None"
    "s \<in> set (c_Or c) \<Longrightarrow> \<exists>ctx'. validateCondition rt ctx' (Suc depth) un s = None"
    "c_Not c = Some s \<Longrightarrow> \<exists>ctx'. validateCondition rt ctx' (Suc depth) True s = None"
  using assms validate_subs_None
  by (cases c; fastforce simp: at_ctx_def Let_def split: option.splits)+

lemma validated_node:
  "occurs c n b d \<Longrightarrow> validateCondition rt ctx depth un c = None \<Longrightarrow>
     \<exists>ctx'. validateCondition rt ctx' (depth + n) (un \<or> b) d = None"
proof (induction arbitrary: ctx depth un rule: occurs.induct)
  case (here c)
  then show ?case by auto
next
  case (in_and s c n b d)
  from validate_step(3) [OF in_and.prems in_and.hyps(1)] obtain ctx' where
    "validateCondition rt ctx' (Suc depth) un s = None" by blast
  from in_and.IH [OF this] show ?case by simp
next
  case (in_or s c n b d)
  from validate_step(4) [OF in_or.prems in_or.hyps(1)] obtain ctx' where
    "validateCondition rt ctx' (Suc depth) un s = None" by blast
  from in_or.IH [OF this] show ?case by simp
next
  case (in_not c s n b d)
  from validate_step(5) [OF in_not.prems in_not.hyps(1)] obtain ctx' where
    "validateCondition rt ctx' (Suc depth) True s = None" by blast
  from in_not.IH [OF this] show ?case by simp
qed

lemma validate_node_None:
  "validate_node depth un c = None \<Longrightarrow>
     depth \<le> maxConditionDepth \<and> populated c = 1 \<and> \<not> (un \<and> has_classifier c)"
  by (auto simp: validate_node_def split: if_splits)

section \<open>Losing the services\<close>

text \<open>The engine with no SQL dialect, no function registry and every model call failing.\<close>

definition dead_llm :: llm_service where
  "dead_llm =
     \<lparr> llm_hook = None, llm_system_one = (\<lambda>m f p. LlmErr ''unavailable''),
       llm_fetch_image = (\<lambda>u. None), llm_ollama = (\<lambda>e m f p i. LlmErr ''unavailable'') \<rparr>"

definition outage :: "engine_env \<Rightarrow> engine_env" where
  "outage en = en \<lparr> en_dialects := [], en_registry := None, en_llm := dead_llm \<rparr>"

lemma outage_rt [simp]: "en_rt (outage en) = en_rt en"
  by (simp add: outage_def)

lemma outage_sql: "evalSQLClassifyWithDetail (en_dialects (outage en)) (en_registry (outage en)) s flds \<noteq> None"
  by (auto simp: outage_def evalSQLClassifyWithDetail_def Classify_def split: option.split val.split)

lemma outage_llm: "evalLLMClassifyWithDetail (en_llm (outage en)) l flds \<noteq> None"
  by (auto simp: outage_def dead_llm_def evalLLMClassifyWithDetail_def Let_def interpretClassifyResult_def
      split: option.split val.split)

lemma fst_fired: "fst (fired d) \<longleftrightarrow> d \<noteq> None"
  by (cases d) (simp_all add: fired_def)

abbreviation fires :: "engine_env \<Rightarrow> val gomap \<Rightarrow> Condition \<Rightarrow> bool" where
  "fires en flds c \<equiv> fst (EvalConditionWithDetail en flds c)"

lemma outage_node:
  "validateCondition rt ctx depth un c = None \<Longrightarrow>
     (fires en flds c \<longrightarrow> fires (outage en) flds c) \<and>
     (un \<longrightarrow> fires (outage en) flds c = fires en flds c)"
proof (induction c arbitrary: ctx depth un)
  case (Condition ands ors neg field op v sq pa sh ll wr ht)
  let ?c = "Condition ands ors neg field op v sq pa sh ll wr ht"
  note node = validate_node_None [OF validate_step(1) [OF Condition.prems]]
  have a: "(fires en flds s \<longrightarrow> fires (outage en) flds s) \<and> (un \<longrightarrow> fires (outage en) flds s = fires en flds s)"
    if "s \<in> set ands" for s
  proof -
    from validate_step(3) [OF Condition.prems, of s] that
    obtain ctx' where "validateCondition rt ctx' (Suc depth) un s = None" by auto
    with Condition.IH(1) that show ?thesis by blast
  qed
  have o: "(fires en flds s \<longrightarrow> fires (outage en) flds s) \<and> (un \<longrightarrow> fires (outage en) flds s = fires en flds s)"
    if "s \<in> set ors" for s
  proof -
    from validate_step(4) [OF Condition.prems, of s] that
    obtain ctx' where "validateCondition rt ctx' (Suc depth) un s = None" by auto
    with Condition.IH(2) that show ?thesis by blast
  qed
  have n: "fires (outage en) flds s = fires en flds s" if "neg = Some s" for s
  proof -
    from validate_step(5) [OF Condition.prems, of s] that
    obtain ctx' where "validateCondition rt ctx' (Suc depth) True s = None" by auto
    moreover have "s \<in> set_option neg" using that by simp
    ultimately show ?thesis using Condition.IH(3) by blast
  qed
  consider (ands) "ands \<noteq> []" | (ors) "ands = []" "ors \<noteq> []" | (neg) s where "ands = []" "ors = []" "neg = Some s"
    | (leaf) "ands = []" "ors = []" "neg = None" by blast
  then show ?case
  proof cases
    case ands
    then show ?thesis using a by (auto simp: eval_and_fst list_all_iff)
  next
    case ors
    then show ?thesis using o by (auto simp: eval_or_fst list_ex_iff)
  next
    case neg
    then show ?thesis using n by simp
  next
    case leaf
    show ?thesis
    proof (cases "has_classifier ?c")
      case True
      with node have "\<not> un" by blast
      with leaf show ?thesis
        using outage_sql [of en _ flds] outage_llm [of en _ flds]
        by (auto simp: fst_fired split: option.split)
    next
      case False
      with leaf show ?thesis by (simp add: has_classifier_def)
    qed
  qed
qed

section \<open>Rule identities\<close>

lemma validate_rules_None:
  "validate_rules rt seen rs = None \<Longrightarrow>
     distinct (map r_RuleID rs) \<and> set (map r_RuleID rs) \<inter> set seen = {} \<and>
     (\<forall>r\<in>set rs. (\<forall>e. r_Effect r \<noteq> EffectOther e) \<and>
        (\<exists>ctx. validateCondition rt ctx 0 False (r_Conditions r) = None))"
proof (induction rs arbitrary: seen)
  case (Cons r rs)
  from Cons.prems have r: "r_RuleID r \<notin> set seen" "\<forall>e. r_Effect r \<noteq> EffectOther e"
    "\<exists>ctx. validateCondition rt ctx 0 False (r_Conditions r) = None"
    and tl: "validate_rules rt (r_RuleID r # seen) rs = None"
    by (auto simp del: validateCondition.simps split: if_splits Effect.splits option.splits)
  from Cons.IH [OF tl] r show ?case by auto
qed simp

lemma validate_set_None:
  "validate_set rt i seen ps = None \<Longrightarrow>
     distinct (map (\<lambda>p. (p_PolicyID p, p_Version p)) ps) \<and>
     (\<forall>p\<in>set ps. map_of seen (p_PolicyID p, p_Version p) = None) \<and>
     (\<forall>p\<in>set ps. ValidatePolicy rt p = None)"
proof (induction ps arbitrary: i seen)
  case (Cons p ps)
  from Cons.prems have p: "ValidatePolicy rt p = None" "map_of seen (p_PolicyID p, p_Version p) = None"
    and tl: "validate_set rt (Suc i) (((p_PolicyID p, p_Version p), i) # seen) ps = None"
    by (auto split: option.splits)
  from Cons.IH [OF tl] p show ?case by (auto split: if_splits)
qed simp

section \<open>Properties\<close>

text \<open>Every node of a tree that passes validation lies at depth 64 at most, populates exactly one
  form, and is not a classifier if a \<open>not\<close> stands above it; so no branch of it is shadowed by
  another form of the same node.\<close>

theorem validated_tree:
  assumes "validateCondition rt ctx 0 False c = None" and "occurs c n b d"
  shows "n \<le> 64 \<and> populated d = 1 \<and> \<not> (b \<and> has_classifier d)"
proof -
  from validated_node [OF assms(2,1)] obtain ctx' where "validateCondition rt ctx' n b d = None" by auto
  from validate_node_None [OF validate_step(1) [OF this]] show ?thesis by (simp add: maxConditionDepth_def)
qed

definition plain_leaf :: "string \<Rightarrow> Operator \<Rightarrow> val \<Rightarrow> Condition" where
  "plain_leaf field op v = Condition [] [] None field op v None None None None None None"

definition sample_tree :: Condition where
  "sample_tree =
     Condition [plain_leaf ''amount'' OpGt (VInt 100),
       Condition [] [] (Some (plain_leaf ''department'' OpEq (VStr ''billing''))) [] OpNone VNil None None None None None None]
       [] None [] OpNone VNil None None None None None None"

theorem validated_tree_witness:
  "(2 :: nat) \<le> 64 \<and> populated (plain_leaf ''department'' OpEq (VStr ''billing'')) = 1 \<and>
   \<not> (True \<and> has_classifier (plain_leaf ''department'' OpEq (VStr ''billing'')))"
proof (rule validated_tree)
  show "validateCondition sample_runtime ''rule'' 0 False sample_tree = None" by code_simp
  show "occurs sample_tree 2 True (plain_leaf ''department'' OpEq (VStr ''billing''))"
    unfolding sample_tree_def numeral_2_eq_2
    by (rule occurs.in_and [of "Condition [] [] (Some (plain_leaf ''department'' OpEq (VStr ''billing''))) [] OpNone VNil None None None None None None"])
      (auto intro: occurs.intros)
qed

text \<open>C31: losing services never opens a rule: whatever a validated condition fires on, it still fires
  on when no SQL dialect and no function registry is linked and every model call fails.\<close>

theorem outage_fails_closed:
  assumes "validateCondition (en_rt en) ctx 0 False c = None" and "EvalCondition en c flds"
  shows "EvalCondition (outage en) c flds"
  using outage_node [OF assms(1)] assms(2) by (simp add: EvalCondition_def)

definition sample_sql_condition :: Condition where
  "sample_sql_condition =
     Condition [] [] None [] OpNone VNil
       (Some \<lparr> sq_Field = ''parameters.sql'', sq_Dialect = ''postgres'',
          sq_Require = \<lparr> sr_TopLevelKinds = [''SELECT''], sr_DeniedTopLevelKinds = [], sr_NoDynamicSQL = False,
            sr_NoProgramExec = False, sr_AllowedFunctions = [], sr_NoFunctions = False,
            sr_DeniedFunctionClasses = [], sr_AllowedFunctionClasses = [], sr_DeniedTables = [],
            sr_AllowedTables = [] \<rparr> \<rparr>) None None None None None"

theorem outage_fails_closed_witness:
  "EvalCondition (outage (sample_engine \<lparr> en_dialects := linked_dialects \<rparr>)) sample_sql_condition
     [(''parameters.sql'', VStr ''DROP TABLE t'')]"
proof (rule outage_fails_closed)
  show "validateCondition (en_rt (sample_engine \<lparr> en_dialects := linked_dialects \<rparr>)) ''rule'' 0 False sample_sql_condition = None"
    by code_simp
  show "EvalCondition (sample_engine \<lparr> en_dialects := linked_dialects \<rparr>) sample_sql_condition
      [(''parameters.sql'', VStr ''DROP TABLE t'')]"
    by code_simp
qed

text \<open>In a policy set that passes validation a rule is identified by its policy, version and rule
  id: two rules of the set with the same three are the same rule of the same policy.\<close>

theorem validated_rule_identity:
  assumes "ValidatePolicySet rt ps = None"
    and "i < length ps" "j < length (p_Rules (ps ! i))" and "i' < length ps" "j' < length (p_Rules (ps ! i'))"
    and "p_PolicyID (ps ! i) = p_PolicyID (ps ! i')" "p_Version (ps ! i) = p_Version (ps ! i')"
    and "r_RuleID (p_Rules (ps ! i) ! j) = r_RuleID (p_Rules (ps ! i') ! j')"
  shows "i = i' \<and> j = j'"
proof -
  note set = validate_set_None [OF assms(1) [unfolded ValidatePolicySet_def]]
  have i: "i = i'"
    using set assms(2,4,6,7) nth_eq_iff_index_eq [of "map (\<lambda>p. (p_PolicyID p, p_Version p)) ps" i i'] by simp
  from set assms(2) have "validate_rules rt [] (p_Rules (ps ! i)) = None" by (auto simp: ValidatePolicy_def)
  from validate_rules_None [OF this] have "distinct (map r_RuleID (p_Rules (ps ! i)))" by blast
  then have "j = j'"
    using i assms(3,5,8) nth_eq_iff_index_eq [of "map r_RuleID (p_Rules (ps ! i))" j j'] by simp
  with i show ?thesis by blast
qed

definition sample_rule :: "string \<Rightarrow> Condition \<Rightarrow> Effect \<Rightarrow> Rule" where
  "sample_rule rule_id c e =
     \<lparr> r_RuleID = rule_id, r_Name = rule_id, r_Description = [], r_RuleType = [], r_Enabled = None,
       r_Conditions = c, r_Effect = e,
       r_EffectConfig = \<lparr> ec_Severity = [], ec_EscalateTo = [], ec_TimeoutMinutes = 0, ec_SuggestedResponse = [] \<rparr>,
       r_Citation = \<lparr> ci_DocumentID = [], ci_DocumentTitle = [], ci_Section = [], ci_Page = 0, ci_Line = 0,
         ci_Excerpt = [] \<rparr>, r_Priority = 0 \<rparr>"

definition sample_policy :: "string \<Rightarrow> PolicyMode \<Rightarrow> Rule list \<Rightarrow> Policy" where
  "sample_policy policy_id pmode rules =
     \<lparr> p_SchemaVersion = 1, p_PolicyID = policy_id, p_OrgID = [], p_Name = policy_id, p_Description = [],
       p_Version = 1, p_Priority = 0, p_Status = PolicyStatusApproved, p_Mode = pmode,
       p_Scope = \<lparr> sc_OrgIDs = [], sc_AgentIDs = [], sc_ToolNames = [], sc_ToolGroups = [], sc_IntentionallyGlobal = True \<rparr>,
       p_SourceDocuments = [], p_Rules = rules, p_Compliance = [], p_CreatedBy = [], p_ApprovedBy = [],
       p_CreatedAt = 0, p_UpdatedAt = 0, p_ApprovedAt = None \<rparr>"

definition sample_set :: "Policy list" where
  "sample_set =
     [sample_policy ''caps'' PolicyModeEnforcement [sample_rule ''r1'' sample_tree EffectDeny],
      sample_policy ''watch'' PolicyModeShadow
        [sample_rule ''r1'' (plain_leaf ''tool_name'' OpEq (VStr ''refund'')) EffectEscalate,
         sample_rule ''r2'' (plain_leaf ''amount'' OpGt (VInt 10)) EffectFlag]]"

theorem validated_rule_identity_witness: "(1 :: nat) = 1 \<and> (1 :: nat) = 1"
proof (rule validated_rule_identity)
  show "ValidatePolicySet sample_runtime sample_set = None" by code_simp
qed (simp_all add: sample_set_def sample_policy_def)

end
