(* ===== verification/Evaluator.thy ===== *)
theory Evaluator
  imports Validate
begin

text \<open>
  matcher.go, effects.go and evaluator.go: which policies apply to a call, what each enabled rule of
  them answers, and the decision, action, mode, citation and guidance made of the answers.
  \<open>sort.Slice\<close> promises a permutation sorted by the given order and nothing about ties: the sorter
  is a parameter with that contract.
\<close>

section \<open>Matching policies (matcher.go)\<close>

definition containsStr :: "string list \<Rightarrow> string \<Rightarrow> bool" where
  "containsStr list val = list_ex (\<lambda>s. s = val) list"

definition containsStrFold :: "string list \<Rightarrow> string \<Rightarrow> bool" where
  "containsStrFold list val = list_ex (\<lambda>s. EqualFold s val) list"

definition matchesScope :: "ActionEnvelope \<Rightarrow> PolicyScope \<Rightarrow> bool" where
  "matchesScope env scope =
     (if sc_OrgIDs scope \<noteq> [] \<and> \<not> containsStr (sc_OrgIDs scope) (e_OrgID env) then False
      else if sc_AgentIDs scope \<noteq> [] \<and> \<not> containsStr (sc_AgentIDs scope) (e_AgentID env) then False
      else if sc_ToolNames scope \<noteq> [] \<or> sc_ToolGroups scope \<noteq> [] then
        (let toolMatched = (sc_ToolNames scope \<noteq> [] \<and> containsStrFold (sc_ToolNames scope) (e_ToolName env)) in
         toolMatched \<or>
           (sc_ToolGroups scope \<noteq> [] \<and> e_ToolGroup env \<noteq> [] \<and> containsStr (sc_ToolGroups scope) (e_ToolGroup env)))
      else True)"

definition MatchPolicies :: "ActionEnvelope \<Rightarrow> Policy list \<Rightarrow> Policy list" where
  "MatchPolicies env policies =
     filter (\<lambda>p. p_Status p = PolicyStatusApproved \<and> matchesScope env (p_Scope p)) policies"

definition ToolNameKnown :: "string \<Rightarrow> Policy list \<Rightarrow> bool" where
  "ToolNameKnown toolName policies =
     (if toolName = [] then False
      else list_ex (\<lambda>p. p_Status p = PolicyStatusApproved \<and> p_Mode p = PolicyModeEnforcement \<and>
             containsStr (sc_ToolNames (p_Scope p)) toolName) policies)"

section \<open>Effects (effects.go)\<close>

definition max_severity :: "RuleResult list \<Rightarrow> nat" where
  "max_severity results =
     foldl (\<lambda>m r. if rr_Matched r then (let s = EffectSeverity (rr_Effect r) in if m < s then s else m) else m) 0 results"

definition ResolveDecision :: "RuleResult list \<Rightarrow> Decision" where
  "ResolveDecision results =
     (let maxSeverity = max_severity results in
      if maxSeverity = 4 then DecisionDenied
      else if maxSeverity = 3 then DecisionEscalated
      else if maxSeverity = 2 then DecisionFlagged
      else DecisionAllowed)"

definition ResolveActionTaken :: "Decision \<Rightarrow> PolicyMode \<Rightarrow> ActionTaken" where
  "ResolveActionTaken decision pmode =
     (if pmode = PolicyModeShadow then
        (case decision of
           DecisionDenied \<Rightarrow> ActionAllowedShadow
         | DecisionEscalated \<Rightarrow> ActionAllowedShadow
         | DecisionFlagged \<Rightarrow> ActionFlagged
         | DecisionAllowed \<Rightarrow> ActionAllowed)
      else
        (case decision of
           DecisionDenied \<Rightarrow> ActionDenied
         | DecisionEscalated \<Rightarrow> ActionEscalated
         | DecisionFlagged \<Rightarrow> ActionFlagged
         | DecisionAllowed \<Rightarrow> ActionAllowed))"

text \<open>The loop that keeps the first result of the highest severity so far.\<close>

fun best_result :: "nat \<Rightarrow> RuleResult option \<Rightarrow> RuleResult list \<Rightarrow> RuleResult option" where
  "best_result bestSeverity best [] = best"
| "best_result bestSeverity best (r # rs) =
     (if rr_Matched r \<and> bestSeverity < EffectSeverity (rr_Effect r)
      then best_result (EffectSeverity (rr_Effect r)) (Some r) rs
      else best_result bestSeverity best rs)"

definition FindPrimaryCitation :: "RuleResult list \<Rightarrow> Citation option" where
  "FindPrimaryCitation results = map_option rr_Citation (best_result 0 None results)"

text \<open>\<open>ruleByID\<close> keeps the last rule with an id.\<close>

definition rule_by_id :: "Rule list \<Rightarrow> string \<Rightarrow> Rule option" where
  "rule_by_id rules i = (if i = [] then None else List.find (\<lambda>r. r_RuleID r = i) (rev rules))"

fun suggested_loop :: "Rule list \<Rightarrow> nat \<Rightarrow> string \<Rightarrow> RuleResult list \<Rightarrow> string" where
  "suggested_loop rules bestSeverity response [] = response"
| "suggested_loop rules bestSeverity response (r # rs) =
     (if \<not> rr_Matched r \<or> rr_Effect r \<noteq> EffectDeny then suggested_loop rules bestSeverity response rs
      else
        let s = EffectSeverity (rr_Effect r) in
        if s \<le> bestSeverity then suggested_loop rules bestSeverity response rs
        else suggested_loop rules s
          (case rule_by_id rules (rr_RuleID r) of
             Some rule \<Rightarrow> ec_SuggestedResponse (r_EffectConfig rule) | None \<Rightarrow> response) rs)"

definition FindSuggestedResponse :: "Rule list \<Rightarrow> RuleResult list \<Rightarrow> string" where
  "FindSuggestedResponse rules results = suggested_loop rules 0 [] results"

section \<open>Evaluation (evaluator.go)\<close>

definition effective_priority :: "Policy \<Rightarrow> int" where
  "effective_priority p = (if p_Priority p = 0 then 100 else p_Priority p)"

definition policy_less :: "Policy \<Rightarrow> Policy \<Rightarrow> bool" where
  "policy_less a b \<longleftrightarrow> effective_priority a < effective_priority b"

definition evaluateRule :: "engine_env \<Rightarrow> Rule \<Rightarrow> string \<Rightarrow> int \<Rightarrow> val gomap \<Rightarrow> RuleResult" where
  "evaluateRule en rule policyID policyVersion flds =
     (case EvalConditionWithDetail en flds (r_Conditions rule) of (matched, d) \<Rightarrow>
        \<lparr> rr_RuleID = r_RuleID rule, rr_RuleName = r_Name rule, rr_PolicyID = policyID,
          rr_PolicyVersion = policyVersion, rr_Matched = matched, rr_Effect = r_Effect rule,
          rr_Severity = ec_Severity (r_EffectConfig rule), rr_Citation = r_Citation rule, rr_Details = d \<rparr>)"

text \<open>The variables of the loop over policies and rules.\<close>

record tally =
  t_all :: "RuleResult list"
  t_enforced :: "RuleResult list"
  t_triggered :: nat
  t_shadowEffect :: bool
  t_shadowGating :: bool

definition no_results :: tally where
  "no_results = \<lparr> t_all = [], t_enforced = [], t_triggered = 0, t_shadowEffect = False, t_shadowGating = False \<rparr>"

definition rule_step :: "engine_env \<Rightarrow> val gomap \<Rightarrow> Policy \<Rightarrow> tally \<Rightarrow> Rule \<Rightarrow> tally" where
  "rule_step en flds p t rule =
     (if \<not> IsEnabled rule then t
      else
        let result = evaluateRule en rule (p_PolicyID p) (p_Version p) flds;
            t' = t \<lparr> t_all := t_all t @ [result] \<rparr>
        in if \<not> rr_Matched result then t'
           else if p_Mode p \<noteq> PolicyModeShadow then
             t' \<lparr> t_triggered := Suc (t_triggered t'), t_enforced := t_enforced t' @ [result] \<rparr>
           else
             t' \<lparr> t_triggered := Suc (t_triggered t'), t_shadowEffect := True,
                  t_shadowGating := (t_shadowGating t' \<or> rr_Effect result = EffectDeny \<or> rr_Effect result = EffectEscalate) \<rparr>)"

definition policy_step :: "engine_env \<Rightarrow> val gomap \<Rightarrow> tally \<Rightarrow> Policy \<Rightarrow> tally" where
  "policy_step en flds t p = foldl (rule_step en flds p) t (p_Rules p)"

definition evaluate_all :: "engine_env \<Rightarrow> val gomap \<Rightarrow> Policy list \<Rightarrow> tally" where
  "evaluate_all en flds matched = foldl (policy_step en flds) no_results matched"

definition matchedRuleResults :: "RuleResult list \<Rightarrow> RuleResult list" where
  "matchedRuleResults results = filter rr_Matched results"

type_synonym policyRuleKey = "string \<times> int \<times> string"

text \<open>The map of responses, the last assignment first.\<close>

definition response_map :: "Policy list \<Rightarrow> (policyRuleKey \<times> string) list" where
  "response_map policies =
     rev (concat (map (\<lambda>p. map (\<lambda>r. ((p_PolicyID p, p_Version p, r_RuleID r),
            ec_SuggestedResponse (r_EffectConfig r))) (filter IsEnabled (p_Rules p))) policies))"

definition findPolicySuggestedResponse :: "Policy list \<Rightarrow> RuleResult list \<Rightarrow> string" where
  "findPolicySuggestedResponse policies results =
     (case best_result 0 None results of
        None \<Rightarrow> []
      | Some r \<Rightarrow>
          (case map_of (response_map policies) (rr_PolicyID r, rr_PolicyVersion r, rr_RuleID r) of
             Some resp \<Rightarrow> resp | None \<Rightarrow> []))"

definition reason_line :: "RuleResult \<Rightarrow> string" where
  "reason_line r = ''['' @ rr_RuleID r @ ''] '' @ rr_RuleName r @ '' (effect: '' @ effect_string (rr_Effect r) @ '')''"

text \<open>The em dash of the source's text is written as its three bytes.\<close>

definition generateDecisionReason :: "Decision \<Rightarrow> Decision \<Rightarrow> RuleResult list \<Rightarrow> PolicyMode \<Rightarrow> string" where
  "generateDecisionReason decision actionDecision results pmode =
     (if decision = DecisionAllowed then
        (if filter rr_Matched results = [] then ''No rules triggered; action permitted.''
         else ''Action permitted; all triggered rules allow this action.'')
      else
        let reasons = map reason_line (filter (\<lambda>r. rr_Matched r \<and> 2 \<le> EffectSeverity (rr_Effect r)) results);
            verb = (case decision of DecisionDenied \<Rightarrow> ''Denied'' | DecisionEscalated \<Rightarrow> ''Escalated''
                    | DecisionFlagged \<Rightarrow> ''Flagged'' | DecisionAllowed \<Rightarrow> []);
            pre = (if pmode = PolicyModeShadow
                   then verb @ '' (shadow mode '' @ [CHR 0xE2, CHR 0x80, CHR 0x94] @ '' action was allowed)''
                   else if actionDecision \<noteq> decision
                   then verb @ '' (enforced action: '' @ decision_string actionDecision @ '')''
                   else verb)
        in if reasons \<noteq> [] then pre @ '' by: '' @ Join reasons ''; '' else pre @ '' by policy rules.'')"

text \<open>Steps 4 to 9, from what the loop collected.\<close>

definition resolve_result :: "Policy list \<Rightarrow> PolicyMode \<Rightarrow> tally \<Rightarrow> EvaluationResult" where
  "resolve_result matched pmode t =
     (let decision = (if t_all t \<noteq> [] then ResolveDecision (t_all t) else DecisionAllowed);
          enforcedDecision = ResolveDecision (t_enforced t);
          actionDecision = (if enforcedDecision = DecisionAllowed then decision else enforcedDecision);
          validCallSiteMode = (pmode = PolicyModeShadow \<or> pmode = PolicyModeEnforcement);
          effectiveMode = (if enforcedDecision = DecisionAllowed \<and> validCallSiteMode \<and>
              (t_shadowEffect t \<or> pmode = PolicyModeShadow) then PolicyModeShadow else PolicyModeEnforcement);
          actionTaken = ResolveActionTaken actionDecision effectiveMode;
          appliedResults = (if enforcedDecision = DecisionAllowed \<and>
              (actionTaken = ActionDenied \<or> actionTaken = ActionEscalated \<or> actionTaken = ActionFlagged)
            then matchedRuleResults (t_all t) else t_enforced t);
          suggestedResponse = (if decision \<noteq> DecisionAllowed
            then findPolicySuggestedResponse matched
              (if actionTaken = ActionAllowedShadow then t_all t else appliedResults)
            else [])
      in \<lparr> ev_Decision = decision, ev_ActionTaken = actionTaken,
           ev_DecisionReason = generateDecisionReason decision actionDecision (t_all t) effectiveMode,
           ev_EffectiveMode = effectiveMode, ev_PoliciesMatched = length matched,
           ev_RulesEvaluated = length (t_all t), ev_RulesTriggered = t_triggered t,
           ev_RuleResults = t_all t, ev_AppliedRuleResults = appliedResults,
           ev_PrimaryCitation = FindPrimaryCitation (t_all t),
           ev_AppliedPrimaryCitation = FindPrimaryCitation appliedResults,
           ev_IsNearMiss = t_shadowGating t, ev_SuggestedResponse = suggestedResponse \<rparr>)"

type_synonym policy_sorter = "Policy list \<Rightarrow> Policy list"

definition Evaluate :: "engine_env \<Rightarrow> policy_sorter \<Rightarrow> ActionEnvelope \<Rightarrow> Policy list \<Rightarrow> PolicyMode \<Rightarrow> EvaluationResult" where
  "Evaluate en sort_slice env policies pmode =
     (let matched = sort_slice (MatchPolicies env policies);
          flds = FlattenEnvelope en env
      in resolve_result matched pmode (evaluate_all en flds matched))"

section \<open>The sorter's contract\<close>

locale slice_sorter =
  fixes less :: "'a \<Rightarrow> 'a \<Rightarrow> bool" and sort_slice :: "'a list \<Rightarrow> 'a list"
  assumes sort_perm: "mset (sort_slice xs) = mset xs"
    and sort_ordered: "sorted_wrt (\<lambda>a b. \<not> less b a) (sort_slice xs)"
begin

lemma sort_set: "set (sort_slice xs) = set xs"
  by (rule mset_eq_setD) (rule sort_perm)

lemma sort_length: "length (sort_slice xs) = length xs"
  by (rule mset_eq_length) (rule sort_perm)

lemma sort_sum: "sum_list (map f (sort_slice xs)) = sum_list (map f xs)" for f :: "'a \<Rightarrow> nat"
  by (metis mset_map sort_perm sum_mset_sum_list)

end

lemma insert_by_sorted:
  assumes "\<And>a b. le a b \<or> le b a" and "\<And>a b c. le a b \<Longrightarrow> le b c \<Longrightarrow> le a c" and "sorted_wrt le xs"
  shows "sorted_wrt le (insert_by le x xs)"
  using assms(3)
proof (induction xs)
  case (Cons y ys)
  have mem: "set (insert_by le x ys) = insert x (set ys)"
    by (metis mset_insert_by set_mset_add_mset_insert set_mset_mset)
  show ?case
  proof (cases "le x y")
    case True
    with Cons.prems assms(2) show ?thesis by auto
  next
    case False
    then have "le y x" using assms(1) by blast
    with Cons False mem show ?thesis by auto
  qed
qed simp

text \<open>An insertion sort is such a sorter.\<close>

definition insertion_sorter :: policy_sorter where
  "insertion_sorter = sort_by (\<lambda>a b. \<not> policy_less b a)"

interpretation policies: slice_sorter policy_less insertion_sorter
proof
  show "mset (insertion_sorter xs) = mset xs" for xs
    by (simp add: insertion_sorter_def mset_sort_by)
  show "sorted_wrt (\<lambda>a b. \<not> policy_less b a) (insertion_sorter xs)" for xs
    unfolding insertion_sorter_def sort_by_def
    by (induction xs) (auto intro!: insert_by_sorted simp: policy_less_def)
qed

section \<open>What the loop collects\<close>

definition policy_results :: "engine_env \<Rightarrow> val gomap \<Rightarrow> Policy \<Rightarrow> RuleResult list" where
  "policy_results en flds p =
     map (\<lambda>r. evaluateRule en r (p_PolicyID p) (p_Version p) flds) (filter IsEnabled (p_Rules p))"

definition gating :: "RuleResult \<Rightarrow> bool" where
  "gating r \<longleftrightarrow> rr_Matched r \<and> (rr_Effect r = EffectDeny \<or> rr_Effect r = EffectEscalate)"

definition tally_plus :: "tally \<Rightarrow> Policy \<Rightarrow> RuleResult list \<Rightarrow> tally" where
  "tally_plus t p rs =
     (let enforced = (p_Mode p \<noteq> PolicyModeShadow) in
      \<lparr> t_all = t_all t @ rs,
        t_enforced = t_enforced t @ (if enforced then filter rr_Matched rs else []),
        t_triggered = t_triggered t + length (filter rr_Matched rs),
        t_shadowEffect = (t_shadowEffect t \<or> \<not> enforced \<and> list_ex rr_Matched rs),
        t_shadowGating = (t_shadowGating t \<or> \<not> enforced \<and> list_ex gating rs) \<rparr>)"

lemma tally_plus_Nil: "tally_plus t p [] = t"
  by (simp add: tally_plus_def)

lemma rule_step_plus:
  "rule_step en flds p t rule =
     tally_plus t p (if IsEnabled rule then [evaluateRule en rule (p_PolicyID p) (p_Version p) flds] else [])"
  by (cases "p_Mode p = PolicyModeShadow") (simp_all add: rule_step_def tally_plus_def gating_def Let_def)

lemma tally_plus_plus: "tally_plus (tally_plus t p xs) p ys = tally_plus t p (xs @ ys)"
  by (simp add: tally_plus_def Let_def list_ex_append disj_ac)

lemma policy_step_plus: "policy_step en flds t p = tally_plus t p (policy_results en flds p)"
proof -
  have "foldl (rule_step en flds p) t rules =
      tally_plus t p (map (\<lambda>r. evaluateRule en r (p_PolicyID p) (p_Version p) flds) (filter IsEnabled rules))" for rules
    by (induction rules arbitrary: t) (auto simp: tally_plus_Nil rule_step_plus tally_plus_plus)
  then show ?thesis by (simp add: policy_step_def policy_results_def)
qed

definition all_results :: "engine_env \<Rightarrow> val gomap \<Rightarrow> Policy list \<Rightarrow> RuleResult list" where
  "all_results en flds ps = concat (map (policy_results en flds) ps)"

lemma all_results_simps [simp]:
  "all_results en flds [] = []"
  "all_results en flds (p # ps) = policy_results en flds p @ all_results en flds ps"
  by (simp_all add: all_results_def)

lemma evaluate_fold:
  "foldl (policy_step en flds) t ps =
     \<lparr> t_all = t_all t @ all_results en flds ps,
       t_enforced = t_enforced t @
         filter rr_Matched (all_results en flds (filter (\<lambda>p. p_Mode p \<noteq> PolicyModeShadow) ps)),
       t_triggered = t_triggered t + length (filter rr_Matched (all_results en flds ps)),
       t_shadowEffect = (t_shadowEffect t \<or>
         list_ex rr_Matched (all_results en flds (filter (\<lambda>p. p_Mode p = PolicyModeShadow) ps))),
       t_shadowGating = (t_shadowGating t \<or>
         list_ex gating (all_results en flds (filter (\<lambda>p. p_Mode p = PolicyModeShadow) ps))) \<rparr>"
proof (induction ps arbitrary: t)
  case (Cons p ps)
  show ?case
    unfolding foldl.simps(2) Cons.IH unfolding policy_step_plus
    by (cases "p_Mode p = PolicyModeShadow") (simp_all add: tally_plus_def Let_def list_ex_append disj_ac)
qed simp

lemmas evaluate_all_fields =
  evaluate_fold [where t = no_results, folded evaluate_all_def, unfolded no_results_def tally.simps append_Nil]

section \<open>Severity\<close>

interpretation sev: worst_wins "max :: nat \<Rightarrow> nat \<Rightarrow> nat" 0
  by unfold_locales simp_all

definition matched_severities :: "RuleResult list \<Rightarrow> nat list" where
  "matched_severities results = map (\<lambda>r. EffectSeverity (rr_Effect r)) (filter rr_Matched results)"

lemma max_severity_fold: "max_severity results = foldl max 0 (matched_severities results)"
proof -
  have "foldl (\<lambda>m r. if rr_Matched r then (let s = EffectSeverity (rr_Effect r) in if m < s then s else m) else m) m results
      = foldl max m (matched_severities results)" for m
    by (induction results arbitrary: m) (auto simp: matched_severities_def Let_def max_def)
  then show ?thesis by (simp add: max_severity_def)
qed

lemma max_severity_Max: "max_severity results = Max (insert 0 (set (matched_severities results)))"
  by (simp only: max_severity_fold sev.fold_Max)

lemma EffectSeverity_le: "EffectSeverity e \<le> 4"
  by (cases e) simp_all

lemma EffectSeverity_eq_iff [simp]:
  "EffectSeverity e = 4 \<longleftrightarrow> e = EffectDeny" "EffectSeverity e = 3 \<longleftrightarrow> e = EffectEscalate"
  "EffectSeverity e = 2 \<longleftrightarrow> e = EffectFlag" "EffectSeverity e = Suc 0 \<longleftrightarrow> e = EffectAllow"
  by (cases e; simp)+

lemma max_severity_le: "max_severity results \<le> 4"
  by (auto simp: max_severity_Max matched_severities_def intro: EffectSeverity_le)

lemma max_severity_attained:
  "max_severity results = 0 \<or> (\<exists>r\<in>set results. rr_Matched r \<and> EffectSeverity (rr_Effect r) = max_severity results)"
  using sev.fold_attained [of 0 "matched_severities results"]
  by (auto simp: max_severity_fold matched_severities_def)

lemma max_severity_ge: "r \<in> set results \<Longrightarrow> rr_Matched r \<Longrightarrow> EffectSeverity (rr_Effect r) \<le> max_severity results"
  by (simp add: max_severity_Max matched_severities_def)

section \<open>The rules that fire\<close>

text \<open>The specification's view of an evaluation: the enabled rules of approved policies in scope whose
  condition holds of the call, without any order.\<close>

definition firing :: "engine_env \<Rightarrow> ActionEnvelope \<Rightarrow> Policy list \<Rightarrow> (Policy \<times> Rule) set" where
  "firing en env ps =
     {(p, r). p \<in> set ps \<and> p_Status p = PolicyStatusApproved \<and> matchesScope env (p_Scope p) \<and>
        r \<in> set (p_Rules p) \<and> IsEnabled r \<and> EvalCondition en (r_Conditions r) (FlattenEnvelope en env)}"

definition severities :: "(Policy \<times> Rule) set \<Rightarrow> nat set" where
  "severities F = (\<lambda>(p, r). EffectSeverity (r_Effect r)) ` F"

definition overall_severity :: "engine_env \<Rightarrow> ActionEnvelope \<Rightarrow> Policy list \<Rightarrow> nat" where
  "overall_severity en env ps = Max (insert 0 (severities (firing en env ps)))"

definition enforced_severity :: "engine_env \<Rightarrow> ActionEnvelope \<Rightarrow> Policy list \<Rightarrow> nat" where
  "enforced_severity en env ps =
     Max (insert 0 (severities {(p, r). (p, r) \<in> firing en env ps \<and> p_Mode p \<noteq> PolicyModeShadow}))"

definition severity_decision :: "nat \<Rightarrow> Decision" where
  "severity_decision s =
     (if s = 4 then DecisionDenied else if s = 3 then DecisionEscalated
      else if s = 2 then DecisionFlagged else DecisionAllowed)"

definition severity_action :: "nat \<Rightarrow> ActionTaken" where
  "severity_action s =
     (if s = 4 then ActionDenied else if s = 3 then ActionEscalated
      else if s = 2 then ActionFlagged else ActionAllowed)"

fun action_severity :: "ActionTaken \<Rightarrow> nat" where
  "action_severity ActionDenied = 4"
| "action_severity ActionEscalated = 3"
| "action_severity ActionFlagged = 2"
| "action_severity _ = 0"

lemma ResolveDecision_severity: "ResolveDecision results = severity_decision (max_severity results)"
  by (simp add: ResolveDecision_def severity_decision_def Let_def)

lemma severity_decision_allowed: "s \<le> 4 \<Longrightarrow> severity_decision s = DecisionAllowed \<longleftrightarrow> s < 2"
  by (auto simp: severity_decision_def)

lemma action_of_severity:
  "pmode \<noteq> PolicyModeShadow \<Longrightarrow> ResolveActionTaken (severity_decision s) pmode = severity_action s"
  by (simp add: ResolveActionTaken_def severity_decision_def severity_action_def)

lemma evaluateRule_fields [simp]:
  "rr_Matched (evaluateRule en r pid v flds) = EvalCondition en (r_Conditions r) flds"
  "rr_Effect (evaluateRule en r pid v flds) = r_Effect r"
  by (simp_all add: evaluateRule_def EvalCondition_def split: prod.split)

lemma in_all_results:
  "x \<in> set (all_results en flds ps) \<longleftrightarrow>
     (\<exists>p\<in>set ps. \<exists>r\<in>set (p_Rules p). IsEnabled r \<and> x = evaluateRule en r (p_PolicyID p) (p_Version p) flds)"
  by (auto simp: all_results_def policy_results_def)

lemma severities_all_results:
  "set (matched_severities (all_results en flds ps)) =
     severities {(p, r). p \<in> set ps \<and> r \<in> set (p_Rules p) \<and> IsEnabled r \<and> EvalCondition en (r_Conditions r) flds}"
  by (force simp: matched_severities_def severities_def in_all_results image_iff)

lemma matched_severities_filter: "matched_severities (filter rr_Matched results) = matched_severities results"
  by (simp add: matched_severities_def)

lemma max_severity_filter [simp]: "max_severity (filter rr_Matched results) = max_severity results"
  by (simp add: max_severity_fold matched_severities_filter)

lemma matched_firing:
  assumes "slice_sorter policy_less srt"
  shows "{(p, r). p \<in> set (srt (MatchPolicies env ps)) \<and> r \<in> set (p_Rules p) \<and> IsEnabled r \<and>
      EvalCondition en (r_Conditions r) (FlattenEnvelope en env)} = firing en env ps"
  by (auto simp: slice_sorter.sort_set [OF assms] MatchPolicies_def firing_def)

lemma tally_severities:
  fixes en :: engine_env and env :: ActionEnvelope and ps :: "Policy list" and srt :: policy_sorter
  assumes "slice_sorter policy_less srt"
  defines "t \<equiv> evaluate_all en (FlattenEnvelope en env) (srt (MatchPolicies env ps))"
  shows "max_severity (t_all t) = overall_severity en env ps"
    and "max_severity (t_enforced t) = enforced_severity en env ps"
    and "t_shadowGating t \<longleftrightarrow> (\<exists>(p, r)\<in>firing en env ps. p_Mode p = PolicyModeShadow \<and>
           (r_Effect r = EffectDeny \<or> r_Effect r = EffectEscalate))"
    and "t_shadowEffect t \<longleftrightarrow> (\<exists>(p, r)\<in>firing en env ps. p_Mode p = PolicyModeShadow)"
proof -
  note set = slice_sorter.sort_set [OF assms(1)]
  show "max_severity (t_all t) = overall_severity en env ps"
    by (simp add: t_def evaluate_all_fields max_severity_Max severities_all_results overall_severity_def
        matched_firing [OF assms(1)])
  have "{(p, r). p \<in> set (filter (\<lambda>p. p_Mode p \<noteq> PolicyModeShadow) (srt (MatchPolicies env ps))) \<and>
      r \<in> set (p_Rules p) \<and> IsEnabled r \<and> EvalCondition en (r_Conditions r) (FlattenEnvelope en env)} =
      {(p, r). (p, r) \<in> firing en env ps \<and> p_Mode p \<noteq> PolicyModeShadow}"
    by (auto simp: set MatchPolicies_def firing_def)
  then show "max_severity (t_enforced t) = enforced_severity en env ps"
    by (simp only: t_def evaluate_all_fields tally.simps max_severity_Max matched_severities_filter
        severities_all_results enforced_severity_def)
  show "t_shadowGating t \<longleftrightarrow> (\<exists>(p, r)\<in>firing en env ps. p_Mode p = PolicyModeShadow \<and>
           (r_Effect r = EffectDeny \<or> r_Effect r = EffectEscalate))"
    by (force simp: t_def evaluate_all_fields list_ex_iff in_all_results gating_def set MatchPolicies_def firing_def)
  show "t_shadowEffect t \<longleftrightarrow> (\<exists>(p, r)\<in>firing en env ps. p_Mode p = PolicyModeShadow)"
    by (force simp: t_def evaluate_all_fields list_ex_iff in_all_results set MatchPolicies_def firing_def)
qed

lemma best_result_cases:
  "best_result b best rs = best \<and> (\<forall>r\<in>set rs. rr_Matched r \<longrightarrow> EffectSeverity (rr_Effect r) \<le> b) \<or>
   (\<exists>r\<in>set rs. best_result b best rs = Some r \<and> rr_Matched r \<and> b < EffectSeverity (rr_Effect r) \<and>
      (\<forall>r'\<in>set rs. rr_Matched r' \<longrightarrow> EffectSeverity (rr_Effect r') \<le> EffectSeverity (rr_Effect r)))"
proof (induction b best rs rule: best_result.induct)
  case (2 b best r rs)
  show ?case
  proof (cases "rr_Matched r \<and> b < EffectSeverity (rr_Effect r)")
    case True
    with 2(1) [OF True] show ?thesis by fastforce
  next
    case False
    with 2(2) [OF False] show ?thesis by fastforce
  qed
qed simp

lemma best_result_max:
  assumes "0 < max_severity rs"
  obtains r where "best_result 0 None rs = Some r" "r \<in> set rs" "rr_Matched r"
    "EffectSeverity (rr_Effect r) = max_severity rs"
proof -
  from assms obtain x where x: "x \<in> set rs" "rr_Matched x" "EffectSeverity (rr_Effect x) = max_severity rs"
    using max_severity_attained [of rs] by auto
  then have "\<not> (\<forall>r\<in>set rs. rr_Matched r \<longrightarrow> EffectSeverity (rr_Effect r) \<le> 0)" using assms by fastforce
  then obtain r where "best_result 0 None rs = Some r" "r \<in> set rs" "rr_Matched r"
    and "EffectSeverity (rr_Effect x) \<le> EffectSeverity (rr_Effect r)"
    using best_result_cases [of 0 None rs] x by blast
  moreover from this have "EffectSeverity (rr_Effect r) = max_severity rs"
    using max_severity_ge [of r rs] x by simp
  ultimately show ?thesis using that by blast
qed

lemma severity_Max_ge: "finite F \<Longrightarrow> (p, r) \<in> F \<Longrightarrow> EffectSeverity (r_Effect r) \<le> Max (insert 0 (severities F))"
  by (force simp: severities_def intro: Max_ge)

lemma firing_finite: "finite (firing en env ps)"
proof -
  have "firing en env ps \<subseteq> (\<Union>p\<in>set ps. {p} \<times> set (p_Rules p))" by (auto simp: firing_def)
  then show ?thesis by (rule finite_subset) auto
qed

lemma severities_finite: "finite (severities (firing en env ps))"
  by (simp add: severities_def firing_finite)

lemma overall_attained:
  "overall_severity en env ps = 0 \<or>
   (\<exists>(p, r)\<in>firing en env ps. EffectSeverity (r_Effect r) = overall_severity en env ps)"
proof -
  have "overall_severity en env ps \<in> insert 0 (severities (firing en env ps))"
    unfolding overall_severity_def by (rule Max_in) (simp_all add: severities_finite)
  then show ?thesis by (auto simp: severities_def)
qed

lemma enforced_le_overall: "enforced_severity en env ps \<le> overall_severity en env ps"
  unfolding enforced_severity_def overall_severity_def
  by (rule Max_mono) (auto simp: severities_def firing_finite)

lemma severities_le: "enforced_severity en env ps \<le> 4" "overall_severity en env ps \<le> 4"
proof -
  have "Max (insert 0 (severities F)) \<le> 4" if "finite F" for F
    using that by (auto simp: severities_def EffectSeverity_le)
  from this [OF firing_finite] show "overall_severity en env ps \<le> 4" by (simp add: overall_severity_def)
  with enforced_le_overall show "enforced_severity en env ps \<le> 4" by (rule order_trans)
qed

text \<open>The action of an evaluation, from the two severities and what the shadow policies fired.\<close>

lemma Evaluate_action:
  fixes en :: engine_env and env :: ActionEnvelope and ps :: "Policy list"
  assumes srt: "slice_sorter policy_less srt"
  defines "e \<equiv> enforced_severity en env ps" and "w \<equiv> overall_severity en env ps"
  defines "shadow \<equiv> \<exists>(p, r)\<in>firing en env ps. p_Mode p = PolicyModeShadow"
  shows "ev_ActionTaken (Evaluate en srt env ps pmode) =
    (if 2 \<le> e then severity_action e
     else ResolveActionTaken (severity_decision w)
       (if (pmode = PolicyModeShadow \<or> pmode = PolicyModeEnforcement) \<and> (shadow \<or> pmode = PolicyModeShadow)
        then PolicyModeShadow else PolicyModeEnforcement))"
    and "ev_EffectiveMode (Evaluate en srt env ps pmode) =
      (if e < 2 \<and> (pmode = PolicyModeShadow \<or> pmode = PolicyModeEnforcement) \<and> (shadow \<or> pmode = PolicyModeShadow)
       then PolicyModeShadow else PolicyModeEnforcement)"
    and "ev_Decision (Evaluate en srt env ps pmode) = severity_decision w"
    and "ev_IsNearMiss (Evaluate en srt env ps pmode) \<longleftrightarrow>
      (\<exists>(p, r)\<in>firing en env ps. p_Mode p = PolicyModeShadow \<and> (r_Effect r = EffectDeny \<or> r_Effect r = EffectEscalate))"
proof -
  note t = tally_severities [OF srt, of en env ps]
  let ?t = "evaluate_all en (FlattenEnvelope en env) (srt (MatchPolicies env ps))"
  have dec: "(if t_all ?t \<noteq> [] then ResolveDecision (t_all ?t) else DecisionAllowed) = severity_decision w"
    using t(1) by (auto simp: ResolveDecision_severity w_def severity_decision_def max_severity_def)
  have enf: "ResolveDecision (t_enforced ?t) = severity_decision e"
    by (simp add: ResolveDecision_severity t(2) e_def)
  have e4: "e \<le> 4" by (simp add: e_def severities_le)
  note allowed = severity_decision_allowed [OF e4]
  note all = Evaluate_def resolve_result_def Let_def dec enf t(3,4) allowed
  show "ev_Decision (Evaluate en srt env ps pmode) = severity_decision w" by (simp add: all)
  show "ev_IsNearMiss (Evaluate en srt env ps pmode) \<longleftrightarrow>
      (\<exists>(p, r)\<in>firing en env ps. p_Mode p = PolicyModeShadow \<and> (r_Effect r = EffectDeny \<or> r_Effect r = EffectEscalate))"
    by (simp add: all)
  show "ev_EffectiveMode (Evaluate en srt env ps pmode) =
      (if e < 2 \<and> (pmode = PolicyModeShadow \<or> pmode = PolicyModeEnforcement) \<and> (shadow \<or> pmode = PolicyModeShadow)
       then PolicyModeShadow else PolicyModeEnforcement)"
    by (simp add: all shadow_def)
  show "ev_ActionTaken (Evaluate en srt env ps pmode) =
    (if 2 \<le> e then severity_action e
     else ResolveActionTaken (severity_decision w)
       (if (pmode = PolicyModeShadow \<or> pmode = PolicyModeEnforcement) \<and> (shadow \<or> pmode = PolicyModeShadow)
        then PolicyModeShadow else PolicyModeEnforcement))"
    by (simp add: all shadow_def action_of_severity)
qed

section \<open>Properties\<close>

text \<open>C28: the decision is that of the most severe effect among the enabled rules that fire in the
  approved policies in scope: it depends neither on the order of policies or rules nor on how the sort
  breaks ties.\<close>

theorem decision_is_worst_effect:
  assumes "slice_sorter policy_less srt"
  shows "ev_Decision (Evaluate en srt env ps pmode) = severity_decision (overall_severity en env ps)"
  by (rule Evaluate_action(3) [OF assms])

definition refund_call :: ActionEnvelope where
  "refund_call = (sample_envelope ''issue_refund'' (RawJson (JObj [(''amount'', JNum ''500'')])))
     \<lparr> e_Department := ''support'' \<rparr>"

definition number_runtime :: runtime where
  "number_runtime = sample_runtime \<lparr> rt_parse_float := \<lambda>s. if s = ''500'' then Some (f64_of_int 500) else None \<rparr>"

definition number_engine :: engine_env where
  "number_engine = sample_engine \<lparr> en_rt := number_runtime \<rparr>"

lemma sample_decision:
  "ev_Decision (Evaluate number_engine insertion_sorter refund_call sample_set PolicyModeEnforcement) = DecisionDenied"
  by code_simp

theorem decision_is_worst_effect_witness:
  "severity_decision (overall_severity number_engine refund_call sample_set) = DecisionDenied"
  using decision_is_worst_effect [OF policies.slice_sorter_axioms,
      of number_engine refund_call sample_set PolicyModeEnforcement] sample_decision by simp

text \<open>C29: when an enforcement policy's rules flag, escalate or deny, the most severe of them is what
  happens to the call, whatever the call site's mode and whatever the shadow policies say.\<close>

theorem enforced_effect_controls:
  assumes "slice_sorter policy_less srt" and "2 \<le> enforced_severity en env ps"
  shows "ev_ActionTaken (Evaluate en srt env ps pmode) = severity_action (enforced_severity en env ps) \<and>
    ev_EffectiveMode (Evaluate en srt env ps pmode) = PolicyModeEnforcement"
  using assms(2) by (simp add: Evaluate_action [OF assms(1)])

lemma firing_rule:
  "p \<in> set ps \<Longrightarrow> p_Status p = PolicyStatusApproved \<Longrightarrow> matchesScope env (p_Scope p) \<Longrightarrow> r \<in> set (p_Rules p) \<Longrightarrow>
   IsEnabled r \<Longrightarrow> EvalCondition en (r_Conditions r) (FlattenEnvelope en env) \<Longrightarrow> (p, r) \<in> firing en env ps"
  by (simp add: firing_def)

lemma enforced_ge:
  "(p, r) \<in> firing en env ps \<Longrightarrow> p_Mode p \<noteq> PolicyModeShadow \<Longrightarrow>
     EffectSeverity (r_Effect r) \<le> enforced_severity en env ps"
  unfolding enforced_severity_def
  by (rule severity_Max_ge [where p = p]) (auto intro: finite_subset [OF _ firing_finite])

lemma sample_deny_fires:
  "(sample_policy ''caps'' PolicyModeEnforcement [sample_rule ''r1'' sample_tree EffectDeny], sample_rule ''r1'' sample_tree EffectDeny)
     \<in> firing number_engine refund_call sample_set"
proof (rule firing_rule)
  show "EvalCondition number_engine (r_Conditions (sample_rule ''r1'' sample_tree EffectDeny))
      (FlattenEnvelope number_engine refund_call)" by code_simp
qed (simp_all add: sample_set_def sample_policy_def sample_rule_def IsEnabled_def matchesScope_def)

theorem enforced_effect_controls_witness:
  "ev_ActionTaken (Evaluate number_engine insertion_sorter refund_call sample_set PolicyModeShadow) = ActionDenied"
proof -
  have "EffectSeverity EffectDeny \<le> enforced_severity number_engine refund_call sample_set"
    using enforced_ge [OF sample_deny_fires] by (simp add: sample_policy_def sample_rule_def)
  then have "enforced_severity number_engine refund_call sample_set = 4"
    using severities_le(1) [of number_engine refund_call sample_set] by simp
  with enforced_effect_controls [OF policies.slice_sorter_axioms, of number_engine refund_call sample_set PolicyModeShadow]
  show ?thesis by (simp add: severity_action_def)
qed

text \<open>C30: shadow policies never block: called with one of the two modes, an evaluation in which no
  enforcement rule does more than allow neither denies nor escalates.\<close>

theorem shadow_never_blocks:
  assumes "slice_sorter policy_less srt" and "enforced_severity en env ps < 2"
    and "pmode = PolicyModeShadow \<or> pmode = PolicyModeEnforcement"
  shows "ev_ActionTaken (Evaluate en srt env ps pmode) \<in> {ActionAllowed, ActionFlagged, ActionAllowedShadow}"
proof (cases "(\<exists>(p, r)\<in>firing en env ps. p_Mode p = PolicyModeShadow) \<or> pmode = PolicyModeShadow")
  case True
  then show ?thesis
    using assms(2,3) by (simp add: Evaluate_action [OF assms(1)] ResolveActionTaken_def split: Decision.split)
next
  case False
  then have "{(p, r). (p, r) \<in> firing en env ps \<and> p_Mode p \<noteq> PolicyModeShadow} = firing en env ps" by auto
  then have "overall_severity en env ps = enforced_severity en env ps"
    by (simp add: overall_severity_def enforced_severity_def)
  with False assms(2) show ?thesis
    by (simp add: Evaluate_action [OF assms(1)] severity_decision_def ResolveActionTaken_def)
qed

definition watch_set :: "Policy list" where
  "watch_set = [sample_policy ''watch'' PolicyModeShadow [sample_rule ''r1'' sample_tree EffectDeny]]"

theorem shadow_never_blocks_witness:
  "ev_ActionTaken (Evaluate number_engine insertion_sorter refund_call watch_set PolicyModeEnforcement)
     \<in> {ActionAllowed, ActionFlagged, ActionAllowedShadow}"
proof (rule shadow_never_blocks [OF policies.slice_sorter_axioms])
  have "{(p, r). (p, r) \<in> firing number_engine refund_call watch_set \<and> p_Mode p \<noteq> PolicyModeShadow} = {}"
    by (auto simp: firing_def watch_set_def sample_policy_def)
  then show "enforced_severity number_engine refund_call watch_set < 2"
    by (simp only: enforced_severity_def severities_def image_empty) simp
qed simp

text \<open>Called with a mode that is neither shadow nor enforcement, an evaluation without an enforcement
  effect applies the most severe effect of any policy, shadow ones included.\<close>

theorem unknown_mode_fails_closed:
  assumes "slice_sorter policy_less srt" and "enforced_severity en env ps < 2"
    and "pmode \<noteq> PolicyModeShadow" and "pmode \<noteq> PolicyModeEnforcement"
  shows "ev_ActionTaken (Evaluate en srt env ps pmode) = severity_action (overall_severity en env ps)"
  using assms(2-4) by (simp add: Evaluate_action [OF assms(1)] action_of_severity)

theorem unknown_mode_fails_closed_witness:
  "ev_ActionTaken (Evaluate number_engine insertion_sorter refund_call watch_set (PolicyModeOther ''dry-run'')) =
     severity_action (overall_severity number_engine refund_call watch_set)"
proof (rule unknown_mode_fails_closed [OF policies.slice_sorter_axioms])
  have "{(p, r). (p, r) \<in> firing number_engine refund_call watch_set \<and> p_Mode p \<noteq> PolicyModeShadow} = {}"
    by (auto simp: firing_def watch_set_def sample_policy_def)
  then show "enforced_severity number_engine refund_call watch_set < 2"
    by (simp only: enforced_severity_def severities_def image_empty) simp
qed simp_all

text \<open>A call that is denied, escalated or flagged is explained by a rule that fired: the applied
  results hold a matched rule of exactly that effect, none of them is more severe, and the applied
  citation is that of one such rule.\<close>

theorem action_is_explained:
  assumes "slice_sorter policy_less srt" and "2 \<le> action_severity (ev_ActionTaken (Evaluate en srt env ps pmode))"
  shows "\<exists>r\<in>set (ev_AppliedRuleResults (Evaluate en srt env ps pmode)).
    rr_Matched r \<and> EffectSeverity (rr_Effect r) = action_severity (ev_ActionTaken (Evaluate en srt env ps pmode)) \<and>
    ev_AppliedPrimaryCitation (Evaluate en srt env ps pmode) = Some (rr_Citation r) \<and>
    max_severity (ev_AppliedRuleResults (Evaluate en srt env ps pmode)) = EffectSeverity (rr_Effect r)"
proof -
  let ?v = "Evaluate en srt env ps pmode"
  let ?t = "evaluate_all en (FlattenEnvelope en env) (srt (MatchPolicies env ps))"
  let ?e = "enforced_severity en env ps"
  note t = tally_severities [OF assms(1), of en env ps]
  have applied: "ev_AppliedRuleResults ?v =
      (if ?e < 2 \<and> (ev_ActionTaken ?v = ActionDenied \<or> ev_ActionTaken ?v = ActionEscalated \<or> ev_ActionTaken ?v = ActionFlagged)
       then matchedRuleResults (t_all ?t) else t_enforced ?t)"
    using severity_decision_allowed [OF severities_le(1), of en env ps]
    by (simp add: Evaluate_def resolve_result_def Let_def ResolveDecision_severity t(2))
  have sev: "max_severity (ev_AppliedRuleResults ?v) = action_severity (ev_ActionTaken ?v)"
  proof (cases "?e < 2")
    case True
    have "ev_ActionTaken ?v = ActionDenied \<or> ev_ActionTaken ?v = ActionEscalated \<or> ev_ActionTaken ?v = ActionFlagged"
      using assms(2) by (cases "ev_ActionTaken ?v") simp_all
    with True have "max_severity (ev_AppliedRuleResults ?v) = overall_severity en env ps"
      by (simp add: applied matchedRuleResults_def t(1))
    moreover have "action_severity (ev_ActionTaken ?v) = overall_severity en env ps"
      using assms(2) True severities_le(2) [of en env ps]
      by (auto simp: Evaluate_action [OF assms(1)] ResolveActionTaken_def severity_decision_def split: if_splits)
    ultimately show ?thesis by simp
  next
    case False
    then have "max_severity (ev_AppliedRuleResults ?v) = ?e" by (simp add: applied t(2))
    moreover from False severities_le(1) [of en env ps] have "?e = 2 \<or> ?e = 3 \<or> ?e = 4" by linarith
    then have "action_severity (severity_action ?e) = ?e" by (auto simp: severity_action_def)
    ultimately show ?thesis using False by (simp add: Evaluate_action [OF assms(1)])
  qed
  have cite: "ev_AppliedPrimaryCitation ?v = FindPrimaryCitation (ev_AppliedRuleResults ?v)"
    by (simp add: Evaluate_def resolve_result_def Let_def)
  from sev assms(2) have "0 < max_severity (ev_AppliedRuleResults ?v)" by simp
  then obtain r where "best_result 0 None (ev_AppliedRuleResults ?v) = Some r" "r \<in> set (ev_AppliedRuleResults ?v)"
    "rr_Matched r" "EffectSeverity (rr_Effect r) = max_severity (ev_AppliedRuleResults ?v)"
    by (rule best_result_max)
  with sev cite show ?thesis by (auto simp: FindPrimaryCitation_def intro!: bexI [of _ r])
qed

theorem action_is_explained_witness:
  "\<exists>r :: RuleResult. rr_Matched r \<and> rr_Effect r = EffectDeny \<and>
     ev_AppliedPrimaryCitation (Evaluate number_engine insertion_sorter refund_call sample_set PolicyModeEnforcement)
       = Some (rr_Citation r)"
proof -
  have a: "ev_ActionTaken (Evaluate number_engine insertion_sorter refund_call sample_set PolicyModeEnforcement) = ActionDenied"
    by code_simp
  have "\<exists>r\<in>set (ev_AppliedRuleResults (Evaluate number_engine insertion_sorter refund_call sample_set PolicyModeEnforcement)).
    rr_Matched r \<and> EffectSeverity (rr_Effect r) = action_severity ActionDenied \<and>
    ev_AppliedPrimaryCitation (Evaluate number_engine insertion_sorter refund_call sample_set PolicyModeEnforcement)
       = Some (rr_Citation r)"
    using action_is_explained [OF policies.slice_sorter_axioms,
        of number_engine refund_call sample_set PolicyModeEnforcement] unfolding a by fastforce
  then obtain r :: RuleResult where r: "rr_Matched r" "EffectSeverity (rr_Effect r) = action_severity ActionDenied"
    "ev_AppliedPrimaryCitation (Evaluate number_engine insertion_sorter refund_call sample_set PolicyModeEnforcement)
       = Some (rr_Citation r)" by blast
  from r(2) have "rr_Effect r = EffectDeny" by (cases "rr_Effect r") simp_all
  with r show ?thesis by blast
qed

text \<open>The near-miss mark is set exactly when a rule of a shadow policy that denies or escalates
  fires; a call let through as \<open>allowed_shadow\<close> always has it.\<close>

theorem near_miss_meaning:
  assumes "slice_sorter policy_less srt"
  shows "ev_IsNearMiss (Evaluate en srt env ps pmode) =
      (\<exists>(p, r)\<in>firing en env ps. p_Mode p = PolicyModeShadow \<and> (r_Effect r = EffectDeny \<or> r_Effect r = EffectEscalate)) \<and>
    (ev_ActionTaken (Evaluate en srt env ps pmode) = ActionAllowedShadow \<longrightarrow> ev_IsNearMiss (Evaluate en srt env ps pmode))"
proof -
  note a = Evaluate_action [OF assms, of en env ps pmode]
  have "ev_IsNearMiss (Evaluate en srt env ps pmode)" if act: "ev_ActionTaken (Evaluate en srt env ps pmode) = ActionAllowedShadow"
  proof -
    from act have e: "enforced_severity en env ps < 2" and "3 \<le> overall_severity en env ps"
      by (auto simp: a(1) ResolveActionTaken_def severity_decision_def severity_action_def split: if_splits)
    then obtain p r where r: "(p, r) \<in> firing en env ps" "3 \<le> EffectSeverity (r_Effect r)"
      using overall_attained [of en env ps] by auto
    with e enforced_ge [of p r en env ps] have "p_Mode p = PolicyModeShadow" by force
    moreover from r(2) have "r_Effect r = EffectDeny \<or> r_Effect r = EffectEscalate" by (cases "r_Effect r") simp_all
    ultimately show ?thesis using r(1) unfolding a(4) by blast
  qed
  with a(4) show ?thesis by blast
qed

theorem near_miss_meaning_witness:
  "ev_IsNearMiss (Evaluate number_engine insertion_sorter refund_call watch_set PolicyModeEnforcement)"
proof -
  have "ev_ActionTaken (Evaluate number_engine insertion_sorter refund_call watch_set PolicyModeEnforcement) = ActionAllowedShadow"
    by code_simp
  with near_miss_meaning [OF policies.slice_sorter_axioms, of number_engine refund_call watch_set PolicyModeEnforcement]
  show ?thesis by blast
qed

end
