(* ===== verification/Float64.thy ===== *)
theory Float64
  imports Values
begin

text \<open>
  The arithmetic of \<open>float64\<close> that the proxy and the audit encoder use: addition,
  multiplication, division, truncation to \<open>int64\<close> and \<open>math.Round\<close>, on bit patterns.
  Every operation takes the exact result as a fraction and rounds it once, to nearest, ties to
  even. A finite number is an integer multiple of \<open>2^-1074\<close>; that integer is \<open>f64_dec\<close>.
\<close>

section \<open>Decoding and rounding\<close>

definition f64_sign :: "f64 \<Rightarrow> bool" where
  "f64_sign b \<longleftrightarrow> 2 ^ 63 \<le> uint b"

definition mag_units :: "int \<Rightarrow> int" where
  "mag_units m =
     (let e = m div 2 ^ 52; q = m mod 2 ^ 52
      in if e = 0 then q else (2 ^ 52 + q) * 2 ^ nat (e - 1))"

definition f64_dec :: "f64 \<Rightarrow> int" where
  "f64_dec b = (if f64_sign b then - mag_units (f64_mag b) else mag_units (f64_mag b))"

definition f64_inf :: int where
  "f64_inf = 0x7FF0000000000000"

text \<open>The pattern of the number nearest to \<open>n / d\<close> units: \<open>s\<close> is the shift that leaves 53
  leading bits, and the exponent field is \<open>s\<close> or, through the leading bit, \<open>s + 1\<close>.\<close>

definition round_half_even :: "int \<Rightarrow> int \<Rightarrow> int" where
  "round_half_even n u =
     (let m = n div u; r = n mod u
      in if 2 * r < u \<or> (2 * r = u \<and> even m) then m else m + 1)"

definition f64_round :: "int \<Rightarrow> int \<Rightarrow> int" where
  "f64_round n d =
     (let s = bitlen (n div d) - 53
      in min f64_inf (int s * 2 ^ 52 + round_half_even n (d * 2 ^ s)))"

definition f64_pack :: "bool \<Rightarrow> int \<Rightarrow> f64" where
  "f64_pack neg m = word_of_int (if neg then 2 ^ 63 + m else m)"

definition f64_NaN :: f64 where
  "f64_NaN = 0x7FF8000000000001"

section \<open>Operations\<close>

definition f64_add :: "f64 \<Rightarrow> f64 \<Rightarrow> f64" where
  "f64_add a b =
     (if f64_IsNaN a \<or> f64_IsNaN b then f64_NaN
      else if f64_IsInf a then (if f64_IsInf b \<and> f64_sign a \<noteq> f64_sign b then f64_NaN else a)
      else if f64_IsInf b then b
      else let s = f64_dec a + f64_dec b
           in if s = 0 then f64_pack (f64_sign a \<and> f64_sign b) 0
              else f64_pack (s < 0) (f64_round \<bar>s\<bar> 1))"

definition f64_mul :: "f64 \<Rightarrow> f64 \<Rightarrow> f64" where
  "f64_mul a b =
     (let neg = (f64_sign a \<noteq> f64_sign b)
      in if f64_IsNaN a \<or> f64_IsNaN b then f64_NaN
         else if f64_IsInf a \<or> f64_IsInf b then
           (if f64_dec a = 0 \<or> f64_dec b = 0 then f64_NaN else f64_pack neg f64_inf)
         else f64_pack neg (f64_round (\<bar>f64_dec a\<bar> * \<bar>f64_dec b\<bar>) (2 ^ 1074)))"

definition f64_div :: "f64 \<Rightarrow> f64 \<Rightarrow> f64" where
  "f64_div a b =
     (let neg = (f64_sign a \<noteq> f64_sign b)
      in if f64_IsNaN a \<or> f64_IsNaN b \<or> (f64_IsInf a \<and> f64_IsInf b) \<or>
            (f64_dec a = 0 \<and> f64_dec b = 0) then f64_NaN
         else if f64_IsInf a \<or> f64_dec b = 0 then f64_pack neg f64_inf
         else if f64_IsInf b then f64_pack neg 0
         else f64_pack neg (f64_round (\<bar>f64_dec a\<bar> * 2 ^ 1074) \<bar>f64_dec b\<bar>))"

text \<open>\<open>int64(f)\<close> truncates; out of range it is the hardware's \<open>-2^63\<close> (amd64).\<close>

definition f64_to_int64 :: "f64 \<Rightarrow> int" where
  "f64_to_int64 f =
     (let n = \<bar>f64_dec f\<bar> div 2 ^ 1074; v = (if f64_sign f then - n else n)
      in if f64_IsNaN f \<or> f64_IsInf f \<or> v < - (2 ^ 63) \<or> 2 ^ 63 \<le> v then - (2 ^ 63) else v)"

text \<open>\<open>math.Round\<close>: half away from zero, the sign kept.\<close>

definition f64_math_Round :: "f64 \<Rightarrow> f64" where
  "f64_math_Round f =
     (if f64_IsNaN f \<or> f64_IsInf f then f
      else f64_pack (f64_sign f)
             (f64_round (((2 * \<bar>f64_dec f\<bar> + 2 ^ 1074) div 2 ^ 1075) * 2 ^ 1074) 1))"

definition f64_half :: f64 where
  "f64_half = 0x3FE0000000000000"

end
