(* ===== verification/Json_Text.thy ===== *)
theory Json_Text
  imports Values
begin

text \<open>
  The text \<open>encoding/json\<close> writes, and what its decoder reads back from a string: the
  escapes of \<open>appendString\<close> (with and without HTML escaping), the UTF-8 decoding that
  replaces an invalid byte by U+FFFD, and the text of a whole document. The lemmas show that a
  string comes back with its invalid bytes replaced, and that no two documents of valid UTF-8
  text share an encoding.
\<close>

section \<open>UTF-8\<close>

definition cont_byte :: "char \<Rightarrow> bool" where
  "cont_byte c \<longleftrightarrow> 128 \<le> byte c \<and> byte c \<le> 191"

text \<open>The size of the rune at the start, 0 if the first byte does not start a valid one.\<close>

fun rune_size :: "string \<Rightarrow> nat" where
  "rune_size [] = 0"
| "rune_size (a # bs) =
     (if byte a < 128 then 1
      else if 194 \<le> byte a \<and> byte a \<le> 223 then
        (case bs of b # _ \<Rightarrow> if cont_byte b then 2 else 0 | _ \<Rightarrow> 0)
      else if 224 \<le> byte a \<and> byte a \<le> 239 then
        (case bs of
           b # c # _ \<Rightarrow>
             (if cont_byte b \<and> cont_byte c \<and> (byte a = 224 \<longrightarrow> 160 \<le> byte b) \<and>
                 (byte a = 237 \<longrightarrow> byte b \<le> 159) then 3 else 0)
         | _ \<Rightarrow> 0)
      else if 240 \<le> byte a \<and> byte a \<le> 244 then
        (case bs of
           b # c # d # _ \<Rightarrow>
             (if cont_byte b \<and> cont_byte c \<and> cont_byte d \<and> (byte a = 240 \<longrightarrow> 144 \<le> byte b) \<and>
                 (byte a = 244 \<longrightarrow> byte b \<le> 143) then 4 else 0)
         | _ \<Rightarrow> 0)
      else 0)"

text \<open>The runes of a string in order; an invalid byte is \<open>None\<close>.\<close>

function runes :: "string \<Rightarrow> string option list" where
  "runes [] = []"
| "runes (c # cs) =
     (let n = rune_size (c # cs)
      in if n = 0 then None # runes cs
         else Some (take n (c # cs)) # runes (drop (n - 1) cs))"
  by pat_completeness auto
termination
  by (relation "measure length") auto

definition replacement :: string where
  "replacement = [CHR 0xEF, CHR 0xBF, CHR 0xBD]"

definition rune_text :: "string option \<Rightarrow> string" where
  "rune_text r = (case r of None \<Rightarrow> replacement | Some s \<Rightarrow> s)"

text \<open>\<open>strings.ToValidUTF8\<close> rune by rune, as the decoder applies it.\<close>

definition utf8_repair :: "string \<Rightarrow> string" where
  "utf8_repair s = concat (map rune_text (runes s))"

definition valid_text :: "string \<Rightarrow> bool" where
  "valid_text s \<longleftrightarrow> None \<notin> set (runes s)"

section \<open>Escaping\<close>

definition hex_digit :: "int \<Rightarrow> char" where
  "hex_digit n = char_of (if n < 10 then 48 + n else 87 + n)"

definition escape_byte :: "bool \<Rightarrow> char \<Rightarrow> string" where
  "escape_byte html c =
     (if c = CHR 0x22 \<or> c = CHR 0x5C then [CHR 0x5C, c]
      else if byte c = 8 then [CHR 0x5C, CHR ''b'']
      else if byte c = 12 then [CHR 0x5C, CHR ''f'']
      else if byte c = 10 then [CHR 0x5C, CHR ''n'']
      else if byte c = 13 then [CHR 0x5C, CHR ''r'']
      else if byte c = 9 then [CHR 0x5C, CHR ''t'']
      else if byte c < 32 \<or> (html \<and> (c = CHR ''<'' \<or> c = CHR ''>'' \<or> c = CHR ''&'')) then
        [CHR 0x5C, CHR ''u'', CHR ''0'', CHR ''0'', hex_digit (byte c div 16), hex_digit (byte c mod 16)]
      else [c])"

definition escape_rune :: "bool \<Rightarrow> string option \<Rightarrow> string" where
  "escape_rune html r =
     (case r of
        None \<Rightarrow> CHR 0x5C # ''ufffd''
      | Some s \<Rightarrow>
          (case s of
             [c] \<Rightarrow> escape_byte html c
           | _ \<Rightarrow>
               (if s = [CHR 0xE2, CHR 0x80, CHR 0xA8] then CHR 0x5C # ''u2028''
                else if s = [CHR 0xE2, CHR 0x80, CHR 0xA9] then CHR 0x5C # ''u2029''
                else s)))"

definition json_escape :: "bool \<Rightarrow> string \<Rightarrow> string" where
  "json_escape html s = concat (map (escape_rune html) (runes s))"

section \<open>Unescaping\<close>

definition hex_val :: "char \<Rightarrow> int option" where
  "hex_val c =
     (if is_digit c then Some (byte c - 48)
      else if 97 \<le> byte c \<and> byte c \<le> 102 then Some (byte c - 87)
      else if 65 \<le> byte c \<and> byte c \<le> 70 then Some (byte c - 55)
      else None)"

text \<open>The code point of four hexadecimal digits in UTF-8. A surrogate is replaced (the decoder
  joins pairs, which the encoder never writes).\<close>

definition utf8_encode :: "int \<Rightarrow> string" where
  "utf8_encode n =
     (if n < 128 then [char_of n]
      else if n < 2048 then [char_of (192 + n div 64), char_of (128 + n mod 64)]
      else if 0xD800 \<le> n \<and> n < 0xE000 then replacement
      else [char_of (224 + n div 4096), char_of (128 + n div 64 mod 64), char_of (128 + n mod 64)])"

definition read_hex :: "string \<Rightarrow> (string \<times> string) option" where
  "read_hex s =
     (case s of
        a # b # c # d # rest \<Rightarrow>
          (case (hex_val a, hex_val b, hex_val c, hex_val d) of
             (Some i, Some j, Some k, Some l) \<Rightarrow>
               Some (utf8_encode (4096 * i + 256 * j + 16 * k + l), rest)
           | _ \<Rightarrow> None)
      | _ \<Rightarrow> None)"

definition read_escape :: "string \<Rightarrow> (string \<times> string) option" where
  "read_escape s =
     (case s of
        [] \<Rightarrow> None
      | d # rest \<Rightarrow>
          (if d = CHR 0x22 \<or> d = CHR 0x5C \<or> d = CHR ''/'' then Some ([d], rest)
           else if d = CHR ''b'' then Some ([CHR 0x08], rest)
           else if d = CHR ''f'' then Some ([CHR 0x0C], rest)
           else if d = CHR ''n'' then Some ([CHR 0x0A], rest)
           else if d = CHR ''r'' then Some ([CHR 0x0D], rest)
           else if d = CHR ''t'' then Some ([CHR 0x09], rest)
           else if d = CHR ''u'' then read_hex rest
           else None))"

definition read_rune :: "string \<Rightarrow> (string \<times> string) option" where
  "read_rune s =
     (case s of
        [] \<Rightarrow> None
      | c # cs \<Rightarrow>
          (if c = CHR 0x5C then read_escape cs
           else if byte c < 32 then None
           else if rune_size s = 0 then Some (replacement, cs)
           else Some (take (rune_size s) s, drop (rune_size s) s)))"

text \<open>The content of a string literal after its opening quote, and the text behind it.\<close>

function unquote :: "string \<Rightarrow> (string \<times> string) option" where
  "unquote s =
     (if HasPrefix s [CHR 0x22] then Some ([], tl s)
      else case read_rune s of
          None \<Rightarrow> None
        | Some (out, rest) \<Rightarrow>
            (if length rest < length s
             then (case unquote rest of None \<Rightarrow> None | Some (t, r) \<Rightarrow> Some (out @ t, r))
             else None))"
  by pat_completeness auto
termination
  by (relation "measure length") auto

declare unquote.simps [simp del]

section \<open>Reading back what was written\<close>

definition wf_rune :: "string \<Rightarrow> bool" where
  "wf_rune r \<longleftrightarrow> r \<noteq> [] \<and> rune_size r = length r"

lemma byte_bounds: "0 \<le> byte c" "byte c < 256"
  by (simp_all add: byte_def of_char_def)

lemma rune_size_le: "rune_size s \<le> length s"
  by (induction s rule: rune_size.induct) (auto split: list.splits)

lemma rune_size_append: "wf_rune r \<Longrightarrow> rune_size (r @ t) = length r"
  unfolding wf_rune_def
  by (induction r rule: rune_size.induct) (auto split: list.splits if_splits)

lemma rune_size_take: "0 < rune_size s \<Longrightarrow> wf_rune (take (rune_size s) s)"
  unfolding wf_rune_def
  by (induction s rule: rune_size.induct) (auto split: list.splits if_splits)

lemma ascii_size: "byte c < 128 \<Longrightarrow> rune_size (c # t) = 1"
  by simp

declare rune_size.simps(2) [simp del]

lemma wf_runes: "Some r \<in> set (runes s) \<Longrightarrow> wf_rune r"
  by (induction s rule: runes.induct)
     (auto simp: Let_def simp del: take_Suc_Cons split: if_splits dest: rune_size_take)

lemma valid_text_repair: "valid_text s \<Longrightarrow> utf8_repair s = s"
proof (induction s rule: runes.induct)
  case (2 c cs)
  let ?n = "rune_size (c # cs)"
  have n: "?n \<noteq> 0" and v: "valid_text (drop (?n - 1) cs)"
    using 2(3) by (auto simp: valid_text_def Let_def split: if_splits)
  from n obtain m where m: "?n = Suc m" by (cases ?n) auto
  have "utf8_repair (c # cs) = take ?n (c # cs) @ utf8_repair (drop (?n - 1) cs)"
    using n by (simp add: utf8_repair_def Let_def rune_text_def)
  also have "\<dots> = take ?n (c # cs) @ drop (?n - 1) cs" using 2(2) n v by simp
  finally show ?case by (simp add: m)
qed (simp add: utf8_repair_def)

lemma hex_val_digit: "0 \<le> n \<Longrightarrow> n < 16 \<Longrightarrow> hex_val (hex_digit n) = Some n"
  by (simp add: hex_val_def hex_digit_def is_digit_def)

lemma hex_vals:
  "hex_val CHR ''0'' = Some 0" "hex_val CHR ''2'' = Some 2" "hex_val CHR ''8'' = Some 8"
  "hex_val CHR ''9'' = Some 9" "hex_val CHR ''d'' = Some 13" "hex_val CHR ''f'' = Some 15"
  "utf8_encode 65533 = replacement" "utf8_encode 8232 = [CHR 0xE2, CHR 0x80, CHR 0xA8]"
  "utf8_encode 8233 = [CHR 0xE2, CHR 0x80, CHR 0xA9]"
  by code_simp+

lemma read_hex_byte:
  assumes "byte c < 128"
  shows "read_hex (CHR ''0'' # CHR ''0'' # hex_digit (byte c div 16) # hex_digit (byte c mod 16) # t) = Some ([c], t)"
proof -
  have "hex_val (hex_digit (byte c div 16)) = Some (byte c div 16)"
    using assms byte_bounds [of c] by (intro hex_val_digit) simp_all
  moreover have "hex_val (hex_digit (byte c mod 16)) = Some (byte c mod 16)"
    by (intro hex_val_digit) simp_all
  moreover have "char_of (byte c) = c" by (simp add: byte_def)
  moreover have "16 * (byte c div 16) + byte c mod 16 = byte c" by simp
  ultimately show ?thesis using assms by (simp add: read_hex_def utf8_encode_def hex_vals)
qed

lemma control_bytes:
  "byte c = 8 \<longleftrightarrow> c = CHR 0x08" "byte c = 12 \<longleftrightarrow> c = CHR 0x0C" "byte c = 10 \<longleftrightarrow> c = CHR 0x0A"
  "byte c = 13 \<longleftrightarrow> c = CHR 0x0D" "byte c = 9 \<longleftrightarrow> c = CHR 0x09"
  by (simp_all add: byte_inject [symmetric]) (simp_all add: byte_def)

lemma read_escape_byte:
  assumes "byte c < 128"
  shows "read_rune (escape_byte html c @ t) = Some ([c], t) \<and> \<not> HasPrefix (escape_byte html c @ t) [CHR 0x22]"
proof -
  consider (special) "c \<in> {CHR 0x22, CHR 0x5C, CHR 0x08, CHR 0x0C, CHR 0x0A, CHR 0x0D, CHR 0x09}"
    | (hex) "escape_byte html c = [CHR 0x5C, CHR ''u'', CHR ''0'', CHR ''0'', hex_digit (byte c div 16), hex_digit (byte c mod 16)]"
    | (plain) "escape_byte html c = [c]" "c \<noteq> CHR 0x22" "c \<noteq> CHR 0x5C" "\<not> byte c < 32"
  proof -
    have "c \<in> {CHR 0x22, CHR 0x5C, CHR 0x08, CHR 0x0C, CHR 0x0A, CHR 0x0D, CHR 0x09} \<or>
      escape_byte html c = [CHR 0x5C, CHR ''u'', CHR ''0'', CHR ''0'', hex_digit (byte c div 16), hex_digit (byte c mod 16)] \<or>
      escape_byte html c = [c] \<and> \<not> byte c < 32"
      unfolding escape_byte_def control_bytes by (simp split: if_split)
    then show ?thesis using that by blast
  qed
  then show ?thesis
  proof cases
    case special
    then show ?thesis
      by (auto simp: escape_byte_def control_bytes read_rune_def read_escape_def)
  next
    case hex
    then show ?thesis using read_hex_byte [OF assms]
      by (simp add: read_rune_def read_escape_def)
  next
    case plain
    then show ?thesis by (simp add: read_rune_def ascii_size [OF assms])
  qed
qed

lemma multibyte_head: "wf_rune (c # d # r) \<Longrightarrow> 128 \<le> byte c"
  by (auto simp: wf_rune_def rune_size.simps(2) not_less split: if_splits)

lemma read_escape_rune:
  assumes "case x of None \<Rightarrow> True | Some r \<Rightarrow> wf_rune r"
  shows "read_rune (escape_rune html x @ t) = Some (rune_text x, t) \<and> \<not> HasPrefix (escape_rune html x @ t) [CHR 0x22]"
proof (cases x)
  case None
  have "read_hex (''fffd'' @ t) = Some (replacement, t)" for t
    by (simp add: read_hex_def hex_vals)
  then show ?thesis using None by (simp add: escape_rune_def rune_text_def read_rune_def read_escape_def)
next
  case (Some r)
  with assms have wf: "wf_rune r" by simp
  then obtain c r' where r: "r = c # r'" by (cases r) (auto simp: wf_rune_def)
  show ?thesis
  proof (cases r')
    case Nil
    with wf r have "byte c < 128" by (auto simp: wf_rune_def rune_size.simps(2) split: if_splits)
    with read_escape_byte [OF this] Some r Nil show ?thesis by (simp add: escape_rune_def rune_text_def)
  next
    case (Cons d r'')
    have big: "128 \<le> byte c" using wf r Cons multibyte_head by blast
    then have c: "c \<noteq> CHR 0x5C" "c \<noteq> CHR 0x22" by (auto simp: byte_def)
    have plain: "read_rune (r @ t) = Some (r, t) \<and> \<not> HasPrefix (r @ t) [CHR 0x22]"
      using rune_size_append [OF wf, of t] big c wf by (auto simp: r read_rune_def wf_rune_def)
    have seps: "read_hex (''2028'' @ t) = Some ([CHR 0xE2, CHR 0x80, CHR 0xA8], t)"
      "read_hex (''2029'' @ t) = Some ([CHR 0xE2, CHR 0x80, CHR 0xA9], t)"
      by (simp_all add: read_hex_def hex_vals)
    consider "r = [CHR 0xE2, CHR 0x80, CHR 0xA8]" | "r = [CHR 0xE2, CHR 0x80, CHR 0xA9]"
      | "escape_rune html x = r"
    proof -
      have "r = [CHR 0xE2, CHR 0x80, CHR 0xA8] \<or> r = [CHR 0xE2, CHR 0x80, CHR 0xA9] \<or> escape_rune html x = r"
        using Some r Cons by (simp add: escape_rune_def)
      then show ?thesis using that by blast
    qed
    then show ?thesis
    proof cases
      case 3
      with plain Some show ?thesis by (simp add: rune_text_def)
    qed (use seps Some in \<open>simp_all add: escape_rune_def rune_text_def read_rune_def read_escape_def\<close>)
  qed
qed

lemma unquote_runes:
  "\<forall>x\<in>set xs. case x of None \<Rightarrow> True | Some r \<Rightarrow> wf_rune r \<Longrightarrow>
   unquote (concat (map (escape_rune html) xs) @ CHR 0x22 # t) = Some (concat (map rune_text xs), t)"
proof (induction xs)
  case Nil
  then show ?case by (simp add: unquote.simps)
next
  case (Cons x xs)
  let ?s = "concat (map (escape_rune html) (x # xs)) @ CHR 0x22 # t"
  let ?r = "concat (map (escape_rune html) xs) @ CHR 0x22 # t"
  have x: "read_rune ?s = Some (rune_text x, ?r)" "\<not> HasPrefix ?s [CHR 0x22]"
    using read_escape_rune [of x html ?r] Cons.prems by auto
  have "escape_rune html x \<noteq> []"
    using read_escape_rune [of x html "[]"] Cons.prems by (auto simp: read_rune_def)
  then have "length ?r < length ?s" by simp
  with x Cons show ?case by (subst unquote.simps) simp
qed

lemma unquote_escape: "unquote (json_escape html s @ CHR 0x22 # t) = Some (utf8_repair s, t)"
proof -
  have "\<forall>x\<in>set (runes s). case x of None \<Rightarrow> True | Some r \<Rightarrow> wf_rune r"
    using wf_runes by (auto split: option.splits)
  from unquote_runes [OF this] show ?thesis by (simp add: json_escape_def utf8_repair_def)
qed

section \<open>Documents\<close>

definition json_quote :: "bool \<Rightarrow> string \<Rightarrow> string" where
  "json_quote html s = CHR 0x22 # json_escape html s @ [CHR 0x22]"

fun json_encode :: "bool \<Rightarrow> json \<Rightarrow> string"
  and json_elems :: "bool \<Rightarrow> json list \<Rightarrow> string"
  and json_members :: "bool \<Rightarrow> (string \<times> json) list \<Rightarrow> string" where
  "json_encode html JNull = ''null''"
| "json_encode html (JBool b) = (if b then ''true'' else ''false'')"
| "json_encode html (JNum s) = s"
| "json_encode html (JStr s) = json_quote html s"
| "json_encode html (JArr []) = ''[]''"
| "json_encode html (JArr (j # js)) = CHR ''['' # json_encode html j @ json_elems html js"
| "json_encode html (JObj []) = ''{}''"
| "json_encode html (JObj ((k, j) # ms)) =
     CHR ''{'' # json_quote html k @ CHR '':'' # json_encode html j @ json_members html ms"
| "json_elems html [] = '']''"
| "json_elems html (j # js) = CHR '','' # json_encode html j @ json_elems html js"
| "json_members html [] = ''}''"
| "json_members html ((k, j) # ms) =
     CHR '','' # json_quote html k @ CHR '':'' # json_encode html j @ json_members html ms"

text \<open>Documents whose strings are valid UTF-8 and whose numbers are decimal integers.\<close>

definition int_char :: "char \<Rightarrow> bool" where
  "int_char c \<longleftrightarrow> is_digit c \<or> c = CHR ''-''"

fun valid_json :: "json \<Rightarrow> bool" where
  "valid_json (JNum s) \<longleftrightarrow> s \<noteq> [] \<and> list_all int_char s"
| "valid_json (JStr s) \<longleftrightarrow> valid_text s"
| "valid_json (JArr js) \<longleftrightarrow> (\<forall>j\<in>set js. valid_json j)"
| "valid_json (JObj ms) \<longleftrightarrow> (\<forall>m\<in>set ms. valid_text (fst m) \<and> valid_json (snd m))"
| "valid_json _ \<longleftrightarrow> True"

definition delimited :: "string \<Rightarrow> bool" where
  "delimited r \<longleftrightarrow> r = [] \<or> hd r \<in> {CHR '','', CHR '']'', CHR ''}''}"

lemma delimited_simps [simp]:
  "delimited []" "delimited (c # r) \<longleftrightarrow> c \<in> {CHR '','', CHR '']'', CHR ''}''}"
  by (simp_all add: delimited_def)

lemma json_elems_delimited [simp]: "delimited (json_elems html js @ r)"
  by (cases js) auto

lemma json_members_delimited [simp]: "delimited (json_members html ms @ r)"
  by (cases ms) auto

lemma json_quote_inj:
  assumes "json_quote html s @ r = json_quote html s' @ r'" "valid_text s" "valid_text s'"
  shows "s = s' \<and> r = r'"
proof -
  from assms(1) have "json_escape html s @ CHR 0x22 # r = json_escape html s' @ CHR 0x22 # r'"
    by (simp add: json_quote_def)
  then have "Some (utf8_repair s, r) = Some (utf8_repair s', r')"
    by (metis unquote_escape [of html])
  with assms(2,3) show ?thesis by (simp add: valid_text_repair)
qed

lemma number_run:
  assumes "s @ r = s' @ r'" "list_all int_char s" "list_all int_char s'" "delimited r" "delimited r'"
  shows "s = s' \<and> r = r'"
proof -
  have t: "takeWhile int_char (s @ r) = s" if "list_all int_char s" "delimited r" for s r
  proof -
    have "\<not> int_char c" if "c \<in> {CHR '','', CHR '']'', CHR ''}''}" for c
      using that by (auto simp: int_char_def is_digit_def byte_def)
    with \<open>delimited r\<close> have "takeWhile int_char r = []" by (cases r) (auto simp: delimited_def)
    with that(1) show ?thesis by (simp add: list_all_iff takeWhile_append)
  qed
  have "s = s'" using t [OF assms(2,4)] t [OF assms(3,5)] assms(1) by simp
  with assms(1) show ?thesis by simp
qed

text \<open>The kind of a value shows in its first character.\<close>

fun kind_char :: "json \<Rightarrow> char option" where
  "kind_char JNull = Some CHR ''n''"
| "kind_char (JBool b) = Some (if b then CHR ''t'' else CHR ''f'')"
| "kind_char (JNum s) = None"
| "kind_char (JStr s) = Some CHR 0x22"
| "kind_char (JArr js) = Some CHR ''[''"
| "kind_char (JObj ms) = Some CHR ''{''"

lemma encode_heads:
  "valid_json j \<Longrightarrow> json_encode html j \<noteq> [] \<and>
     hd (json_encode html j) \<notin> {CHR '','', CHR '']'', CHR ''}'', CHR '':''} \<and>
     (case kind_char j of None \<Rightarrow> int_char (hd (json_encode html j))
      | Some c \<Rightarrow> hd (json_encode html j) = c \<and> \<not> int_char c)"
  by (cases "(html, j)" rule: json_encode.cases)
     (auto simp: json_quote_def int_char_def is_digit_def byte_def neq_Nil_conv)

lemma same_kind:
  assumes "valid_json j" "valid_json j'" "json_encode html j @ r = json_encode html j' @ r'"
  shows "kind_char j' = kind_char j"
proof -
  note h = encode_heads [OF assms(1), of html] encode_heads [OF assms(2), of html]
  have "hd (json_encode html j) = hd (json_encode html j')"
    using assms(3) h by (metis hd_append2)
  with h show ?thesis by (auto split: option.splits)
qed

lemma not_closing:
  assumes "valid_json j"
  shows "json_encode html j @ t \<noteq> CHR '']'' # u" "CHR '']'' # u \<noteq> json_encode html j @ t"
  using encode_heads [OF assms, of html] by (metis hd_append2 insertCI list.sel(1))+

lemma json_encode_inj:
  "valid_json j \<Longrightarrow> valid_json j' \<Longrightarrow> delimited r \<Longrightarrow> delimited r' \<Longrightarrow>
     json_encode html j @ r = json_encode html j' @ r' \<Longrightarrow> j = j' \<and> r = r'"
  "\<forall>j\<in>set js. valid_json j \<Longrightarrow> \<forall>j\<in>set js'. valid_json j \<Longrightarrow>
     json_elems html js @ r = json_elems html js' @ r' \<Longrightarrow> js = js' \<and> r = r'"
  "\<forall>m\<in>set ms. valid_text (fst m) \<and> valid_json (snd m) \<Longrightarrow>
   \<forall>m\<in>set ms'. valid_text (fst m) \<and> valid_json (snd m) \<Longrightarrow>
     json_members html ms @ r = json_members html ms' @ r' \<Longrightarrow> ms = ms' \<and> r = r'"
proof (induction html j and html js and html ms arbitrary: j' r r' and js' r r' and ms' r r'
    rule: json_encode_json_elems_json_members.induct)
  case (1 html)
  with same_kind [OF 1(1,2,5)] show ?case by (cases j') (auto split: if_splits)
next
  case (2 html b)
  with same_kind [OF 2(1,2,5)] show ?case
    by (cases j') (auto split: if_splits)
next
  case (3 html s)
  from same_kind [OF 3(1,2,5)]
  obtain s' where "j' = JNum s'" by (cases j') (auto split: if_splits)
  with 3 number_run [of s r s' r'] show ?case by auto
next
  case (4 html s)
  from same_kind [OF 4(1,2,5)]
  obtain s' where "j' = JStr s'" by (cases j') (auto split: if_splits)
  with 4 json_quote_inj [of html s r s' r'] show ?case by auto
next
  case (5 html)
  from same_kind [OF 5(1,2,5)]
  obtain js' where j: "j' = JArr js'" by (cases j') (auto split: if_splits)
  show ?case
  proof (cases js')
    case (Cons x xs)
    with 5(2,5) j not_closing(2) [of x r html "json_elems html xs @ r'"] show ?thesis by simp
  qed (use 5(5) j in simp)
next
  case (6 html j js)
  from same_kind [OF 6(3,4,7)]
  obtain js' where j: "j' = JArr js'" by (cases j') (auto split: if_splits)
  show ?case
  proof (cases js')
    case Nil
    with 6(3,7) j not_closing(1) [of j html "json_elems html js @ r" r'] show ?thesis by simp
  next
    case (Cons x xs)
    with 6(7) j have "json_encode html j @ (json_elems html js @ r) = json_encode html x @ (json_elems html xs @ r')"
      by simp
    with 6(1) [of x "json_elems html js @ r" "json_elems html xs @ r'"] 6(3,4) Cons j
    have "j = x \<and> json_elems html js @ r = json_elems html xs @ r'" by simp
    with 6(2) [of xs r r'] 6(3,4) Cons j show ?thesis by simp
  qed
next
  case (7 html)
  from same_kind [OF 7(1,2,5)]
  obtain ms' where j: "j' = JObj ms'" by (cases j') (auto split: if_splits)
  then show ?case using 7 by (cases ms') (auto simp: json_quote_def)
next
  case (8 html k j ms)
  from same_kind [OF 8(3,4,7)]
  obtain ms' where j: "j' = JObj ms'" by (cases j') (auto split: if_splits)
  show ?case
  proof (cases ms')
    case Nil
    with 8 j show ?thesis by (simp add: json_quote_def)
  next
    case (Cons m xs)
    obtain k' x where m: "m = (k', x)" by fastforce
    have k: "k = k'" and e: "json_encode html j @ (json_members html ms @ r) = json_encode html x @ (json_members html xs @ r')"
      using json_quote_inj [of html k "CHR '':'' # json_encode html j @ json_members html ms @ r" k'
          "CHR '':'' # json_encode html x @ json_members html xs @ r'"] 8(3,4,7) j Cons m by simp_all
    from 8(1) [OF _ _ _ _ e] 8(3,4) j Cons m
    have "j = x \<and> json_members html ms @ r = json_members html xs @ r'" by simp
    with 8(2) [of xs r r'] 8(3,4) j Cons m k show ?thesis by simp
  qed
next
  case (9 html)
  then show ?case by (cases js') auto
next
  case (10 html j js)
  show ?case
  proof (cases js')
    case Nil
    with 10(5) show ?thesis by simp
  next
    case (Cons x xs)
    with 10(5) have "json_encode html j @ (json_elems html js @ r) = json_encode html x @ (json_elems html xs @ r')"
      by simp
    with 10(1) [of x "json_elems html js @ r" "json_elems html xs @ r'"] 10(3,4) Cons
    have "j = x \<and> json_elems html js @ r = json_elems html xs @ r'" by simp
    with 10(2) [of xs r r'] 10(3,4) Cons show ?thesis by simp
  qed
next
  case (11 html)
  then show ?case by (cases ms') auto
next
  case (12 html k j ms)
  show ?case
  proof (cases ms')
    case Nil
    with 12(5) show ?thesis by simp
  next
    case (Cons m xs)
    obtain k' x where m: "m = (k', x)" by fastforce
    have k: "k = k'" and e: "json_encode html j @ (json_members html ms @ r) = json_encode html x @ (json_members html xs @ r')"
      using json_quote_inj [of html k "CHR '':'' # json_encode html j @ json_members html ms @ r" k'
          "CHR '':'' # json_encode html x @ json_members html xs @ r'"] 12(3,4,5) Cons m by simp_all
    from 12(1) [OF _ _ _ _ e] 12(3,4) Cons m
    have "j = x \<and> json_members html ms @ r = json_members html xs @ r'" by simp
    with 12(2) [of xs r r'] 12(3,4) Cons m k show ?thesis by simp
  qed
qed

lemma json_text_inj:
  "valid_json j \<Longrightarrow> valid_json j' \<Longrightarrow> json_encode html j = json_encode html j' \<Longrightarrow> j = j'"
  using json_encode_inj(1) [of j j' "[]" "[]" html] by simp

lemma ascii_valid_text: "list_all (\<lambda>c. byte c < 128) s \<Longrightarrow> valid_text s"
  by (induction s rule: runes.induct) (auto simp: valid_text_def Let_def ascii_size)

section \<open>Properties\<close>

text \<open>What the JSON decoder reads back from a string the encoder wrote is the string with each
  byte that is not part of a valid UTF-8 sequence replaced by U+FFFD, whatever follows the literal.\<close>

theorem json_string_roundtrip:
  "unquote (json_escape html s @ CHR 0x22 # t) = Some (utf8_repair s, t)"
  by (rule unquote_escape)

end
