(* ===== verification/Audit_Canonical.thy ===== *)
theory Audit_Canonical
  imports Domain Float64 Json_Text
begin

text \<open>
  The audit record and its canonical encoding (\<open>pkg/domain/trace.go\<close>, \<open>pkg/audit/canonical.go\<close>,
  \<open>provenance.go\<close>). A \<open>time.Time\<close> of a record is kept as its RFC3339Nano UTC text, the only
  form the encoder uses, and the string types \<open>Decision\<close>, \<open>ActionTaken\<close>,
  \<open>PolicyMode\<close> and \<open>Effect\<close> are strings here, since a record read from a file may hold
  any text. The sort of the version 1 encoder is a parameter.
\<close>

section \<open>Records\<close>

record TraceRuleResult =
  tr_RuleID :: string
  tr_RuleName :: string
  tr_PolicyID :: string
  tr_PolicyVersion :: int
  tr_Matched :: bool
  tr_Effect :: string
  tr_Severity :: string
  tr_Citation :: Citation
  tr_Details :: string

record DeepEvalRecord =
  de_Status :: string
  de_Model :: string
  de_PromptTemplateVer :: string
  de_PromptSHA256 :: string
  de_ConfidenceThreshold :: f64
  de_ReportedConfidence :: f64
  de_Decision :: string
  de_Reasoning :: string
  de_TokensIn :: int
  de_TokensOut :: int
  de_ElapsedMs :: int
  de_ErrClass :: string
  de_FailModeApplied :: string
  de_DowngradeApplied :: bool
  de_FailClosedTriggered :: bool
  de_Temperature :: f64

record DecisionTrace =
  dt_TraceID :: string
  dt_Timestamp :: string
  dt_OrgID :: string
  dt_EnvelopeID :: string
  dt_AgentID :: string
  dt_AgentVersion :: string
  dt_SessionID :: string
  dt_TurnNumber :: int
  dt_ToolName :: string
  dt_ToolGroup :: string
  dt_Amount :: f64
  dt_AmountParseStatus :: string
  dt_Decision :: string
  dt_ActionTaken :: string
  dt_DecisionReason :: string
  dt_Mode :: string
  dt_PoliciesMatched :: int
  dt_RulesEvaluated :: int
  dt_RulesTriggered :: int
  dt_RuleResults :: "TraceRuleResult list"
  dt_AppliedRuleResults :: "TraceRuleResult list"
  dt_PrimaryCitation :: "Citation option"
  dt_AppliedPrimaryCitation :: "Citation option"
  dt_SuggestedResponse :: string
  dt_IsNearMiss :: bool
  dt_EscalationID :: "string option"
  dt_EscalatedTo :: string
  dt_EscalatedAt :: "string option"
  dt_ResolvedAt :: "string option"
  dt_Resolution :: string
  dt_CanonicalVersion :: string
  dt_TraceHash :: string
  dt_PreviousTraceHash :: string
  dt_SignedBy :: string
  dt_EngineVersion :: string
  dt_PolicySetHash :: string
  dt_SchemaVersion :: string
  dt_ParametersRedacted :: string
  dt_ContextSnapshot :: raw
  dt_EvaluationDurationMs :: f64
  dt_AgentTokensIn :: int
  dt_AgentTokensOut :: int
  dt_AgentLLMCostUSD :: f64
  dt_DeepEvalResult :: "DeepEvalRecord option"

section \<open>Versions and provenance\<close>

definition canonicalTraceVersionV1 :: string where
  "canonicalTraceVersionV1 = ''v1''"

definition canonicalTraceVersionV2 :: string where
  "canonicalTraceVersionV2 = ''v2''"

definition CanonicalTraceVersion :: string where
  "CanonicalTraceVersion = canonicalTraceVersionV2"

definition effectiveCanonicalTraceVersion :: "DecisionTrace \<Rightarrow> string" where
  "effectiveCanonicalTraceVersion t =
     (if dt_CanonicalVersion t = [] then canonicalTraceVersionV1 else dt_CanonicalVersion t)"

text \<open>\<open>None\<close> for an unknown version (the source's false).\<close>

definition canonicalTraceVersionRank :: "string \<Rightarrow> nat option" where
  "canonicalTraceVersionRank v =
     (if v = canonicalTraceVersionV1 then Some 1
      else if v = canonicalTraceVersionV2 then Some 2 else None)"

datatype audit_error =
    EngineVersionMissing
  | PolicySetHashMalformed
  | V2FieldsInV1
  | SchemaVersionRequired
  | UnsupportedVersion string

text \<open>\<open>hex.DecodeString\<close> succeeds: an even number of hexadecimal digits.\<close>

definition hex_decodes :: "string \<Rightarrow> bool" where
  "hex_decodes s \<longleftrightarrow> even (length s) \<and> list_all (\<lambda>c. hex_val c \<noteq> None) s"

definition validatePolicySetHash :: "string \<Rightarrow> audit_error option" where
  "validatePolicySetHash v =
     (let h = drop 7 v in
      if \<not> HasPrefix v ''sha256:'' then Some PolicySetHashMalformed
      else if length h \<noteq> 64 \<or> ToLower h \<noteq> h then Some PolicySetHashMalformed
      else if \<not> hex_decodes h then Some PolicySetHashMalformed
      else None)"

definition validateTraceProvenance :: "DecisionTrace \<Rightarrow> audit_error option" where
  "validateTraceProvenance t =
     (if TrimSpace (dt_EngineVersion t) = [] then Some EngineVersionMissing
      else validatePolicySetHash (dt_PolicySetHash t))"

definition StampProvenance :: "string \<Rightarrow> string \<Rightarrow> DecisionTrace \<Rightarrow> audit_error + DecisionTrace" where
  "StampProvenance engineVersion policySetHash t =
     (let ev = TrimSpace engineVersion in
      if ev = [] then Inl EngineVersionMissing
      else case validatePolicySetHash policySetHash of
          Some e \<Rightarrow> Inl e
        | None \<Rightarrow> Inr (t \<lparr> dt_EngineVersion := ev, dt_PolicySetHash := policySetHash,
                         dt_CanonicalVersion := CanonicalTraceVersion,
                         dt_SchemaVersion := CanonicalTraceVersion \<rparr>))"

section \<open>The canonical projections\<close>

abbreviation JInt :: "int \<Rightarrow> json" where
  "JInt i \<equiv> JNum (show_int i)"

text \<open>\<open>int64(x * k + 0.5)\<close> and \<open>int(x * k + 0.5)\<close>.\<close>

definition scaled :: "f64 \<Rightarrow> int \<Rightarrow> int" where
  "scaled x k = f64_to_int64 (f64_add (f64_mul x (f64_of_int k)) f64_half)"

definition amountCentsCanonical :: "f64 \<Rightarrow> int" where
  "amountCentsCanonical amount =
     (if f64_IsNaN amount then - 1
      else if f64_IsInf amount then (if f64_sign amount then - (2 ^ 63) else 2 ^ 63 - 1)
      else f64_to_int64 (f64_math_Round (f64_mul amount (f64_of_int 100))))"

definition canonicalRuleResultV1 :: "TraceRuleResult \<Rightarrow> json" where
  "canonicalRuleResultV1 r = JObj
     [(''rule_id'', JStr (tr_RuleID r)), (''rule_name'', JStr (tr_RuleName r)),
      (''policy_id'', JStr (tr_PolicyID r)), (''policy_version'', JInt (tr_PolicyVersion r)),
      (''matched'', JBool (tr_Matched r)), (''effect'', JStr (tr_Effect r)),
      (''severity'', JStr (tr_Severity r))]"

definition canonicalDeepEvalV1 :: "DeepEvalRecord \<Rightarrow> (string \<times> json) list" where
  "canonicalDeepEvalV1 d =
     [(''status'', JStr (de_Status d)), (''model'', JStr (de_Model d)),
      (''prompt_template_version'', JStr (de_PromptTemplateVer d)),
      (''prompt_sha256'', JStr (de_PromptSHA256 d)),
      (''confidence_threshold_bp'', JInt (scaled (de_ConfidenceThreshold d) 10000)),
      (''reported_confidence_bp'', JInt (scaled (de_ReportedConfidence d) 10000)),
      (''decision'', JStr (de_Decision d)), (''reasoning'', JStr (de_Reasoning d)),
      (''tokens_in'', JInt (de_TokensIn d)), (''tokens_out'', JInt (de_TokensOut d)),
      (''elapsed_ms'', JInt (de_ElapsedMs d)), (''error_class'', JStr (de_ErrClass d)),
      (''fail_mode_applied'', JStr (de_FailModeApplied d)),
      (''downgrade_applied'', JBool (de_DowngradeApplied d))]"

definition canonicalTraceV1 :: "(TraceRuleResult list \<Rightarrow> TraceRuleResult list) \<Rightarrow> DecisionTrace \<Rightarrow> json" where
  "canonicalTraceV1 srt t = JObj
     [(''_canonical_v'', JStr canonicalTraceVersionV1),
      (''trace_id'', JStr (dt_TraceID t)), (''timestamp'', JStr (dt_Timestamp t)),
      (''org_id'', JStr (dt_OrgID t)), (''envelope_id'', JStr (dt_EnvelopeID t)),
      (''agent_id'', JStr (dt_AgentID t)), (''agent_version'', JStr (dt_AgentVersion t)),
      (''session_id'', JStr (dt_SessionID t)), (''turn_number'', JInt (dt_TurnNumber t)),
      (''tool_name'', JStr (dt_ToolName t)), (''tool_group'', JStr (dt_ToolGroup t)),
      (''amount_cents'', JInt (amountCentsCanonical (dt_Amount t))),
      (''decision'', JStr (dt_Decision t)), (''action_taken'', JStr (dt_ActionTaken t)),
      (''decision_reason'', JStr (dt_DecisionReason t)), (''mode'', JStr (dt_Mode t)),
      (''policies_matched'', JInt (dt_PoliciesMatched t)),
      (''rules_evaluated'', JInt (dt_RulesEvaluated t)),
      (''rules_triggered'', JInt (dt_RulesTriggered t)),
      (''rule_results'', JArr (map canonicalRuleResultV1 (srt (dt_RuleResults t)))),
      (''is_near_miss'', JBool (dt_IsNearMiss t)), (''escalated_to'', JStr (dt_EscalatedTo t)),
      (''trace_hash'', JStr (dt_TraceHash t)),
      (''previous_trace_hash'', JStr (dt_PreviousTraceHash t)),
      (''signed_by'', JStr (dt_SignedBy t)),
      (''evaluation_duration_micros'', JInt (scaled (dt_EvaluationDurationMs t) 1000)),
      (''deep_eval'', case dt_DeepEvalResult t of None \<Rightarrow> JNull | Some d \<Rightarrow> JObj (canonicalDeepEvalV1 d))]"

definition canonicalCitationV2 :: "Citation \<Rightarrow> json" where
  "canonicalCitationV2 c = JObj
     [(''document_id'', JStr (ci_DocumentID c)), (''document_title'', JStr (ci_DocumentTitle c)),
      (''section'', JStr (ci_Section c)), (''page'', JInt (ci_Page c)), (''line'', JInt (ci_Line c)),
      (''excerpt'', JStr (ci_Excerpt c))]"

definition canonicalCitationV2Ptr :: "Citation option \<Rightarrow> json" where
  "canonicalCitationV2Ptr c = (case c of None \<Rightarrow> JNull | Some v \<Rightarrow> canonicalCitationV2 v)"

definition canonicalRuleResultV2 :: "TraceRuleResult \<Rightarrow> json" where
  "canonicalRuleResultV2 r = JObj
     [(''rule_id'', JStr (tr_RuleID r)), (''rule_name'', JStr (tr_RuleName r)),
      (''policy_id'', JStr (tr_PolicyID r)), (''policy_version'', JInt (tr_PolicyVersion r)),
      (''matched'', JBool (tr_Matched r)), (''effect'', JStr (tr_Effect r)),
      (''severity'', JStr (tr_Severity r)), (''citation'', canonicalCitationV2 (tr_Citation r)),
      (''details'', JStr (tr_Details r))]"

definition canonicalRuleResultsV2 :: "TraceRuleResult list \<Rightarrow> json" where
  "canonicalRuleResultsV2 rs = JArr (map canonicalRuleResultV2 rs)"

definition canonicalDeepEvalRecordV2 :: "DeepEvalRecord \<Rightarrow> json" where
  "canonicalDeepEvalRecordV2 d = JObj (canonicalDeepEvalV1 d @
     [(''fail_closed_triggered'', JBool (de_FailClosedTriggered d)),
      (''temperature_micros'',
        JInt (f64_to_int64 (f64_math_Round (f64_mul (de_Temperature d) (f64_of_int 1000000)))))])"

definition canonicalTraceV2 :: "DecisionTrace \<Rightarrow> json" where
  "canonicalTraceV2 t = JObj
     [(''_canonical_v'', JStr canonicalTraceVersionV2),
      (''trace_id'', JStr (dt_TraceID t)), (''timestamp'', JStr (dt_Timestamp t)),
      (''org_id'', JStr (dt_OrgID t)), (''envelope_id'', JStr (dt_EnvelopeID t)),
      (''agent_id'', JStr (dt_AgentID t)), (''agent_version'', JStr (dt_AgentVersion t)),
      (''session_id'', JStr (dt_SessionID t)), (''turn_number'', JInt (dt_TurnNumber t)),
      (''tool_name'', JStr (dt_ToolName t)), (''tool_group'', JStr (dt_ToolGroup t)),
      (''amount_bits'', JInt (uint (dt_Amount t))),
      (''amount_parse_status'', JStr (dt_AmountParseStatus t)),
      (''decision'', JStr (dt_Decision t)), (''action_taken'', JStr (dt_ActionTaken t)),
      (''decision_reason'', JStr (dt_DecisionReason t)), (''mode'', JStr (dt_Mode t)),
      (''policies_matched'', JInt (dt_PoliciesMatched t)),
      (''rules_evaluated'', JInt (dt_RulesEvaluated t)),
      (''rules_triggered'', JInt (dt_RulesTriggered t)),
      (''rule_results'', canonicalRuleResultsV2 (dt_RuleResults t)),
      (''applied_rule_results'', canonicalRuleResultsV2 (dt_AppliedRuleResults t)),
      (''primary_citation'', canonicalCitationV2Ptr (dt_PrimaryCitation t)),
      (''applied_primary_citation'', canonicalCitationV2Ptr (dt_AppliedPrimaryCitation t)),
      (''suggested_response'', JStr (dt_SuggestedResponse t)),
      (''is_near_miss'', JBool (dt_IsNearMiss t)), (''escalated_to'', JStr (dt_EscalatedTo t)),
      (''trace_hash'', JStr (dt_TraceHash t)),
      (''previous_trace_hash'', JStr (dt_PreviousTraceHash t)),
      (''signed_by'', JStr (dt_SignedBy t)),
      (''evaluation_duration_micros'', JInt (scaled (dt_EvaluationDurationMs t) 1000)),
      (''deep_eval'', case dt_DeepEvalResult t of None \<Rightarrow> JNull | Some d \<Rightarrow> canonicalDeepEvalRecordV2 d),
      (''engine_version'', JStr (dt_EngineVersion t)),
      (''policy_set_hash'', JStr (dt_PolicySetHash t)),
      (''schema_version'', JStr (dt_SchemaVersion t))]"

definition v1_fields_only :: "DecisionTrace \<Rightarrow> bool" where
  "v1_fields_only t \<longleftrightarrow>
     dt_AppliedRuleResults t = [] \<and> dt_AppliedPrimaryCitation t = None \<and> dt_AmountParseStatus t = [] \<and>
     dt_EngineVersion t = [] \<and> dt_PolicySetHash t = [] \<and> dt_SchemaVersion t = []"

definition CanonicalTraceBytes ::
  "(TraceRuleResult list \<Rightarrow> TraceRuleResult list) \<Rightarrow> DecisionTrace \<Rightarrow> audit_error + string" where
  "CanonicalTraceBytes srt t =
     (let version = effectiveCanonicalTraceVersion t in
      if version = canonicalTraceVersionV1 then
        (if \<not> v1_fields_only t then Inl V2FieldsInV1
         else Inr (json_encode False (canonicalTraceV1 srt t)))
      else if version = canonicalTraceVersionV2 then
        (if dt_SchemaVersion t \<noteq> canonicalTraceVersionV2 then Inl SchemaVersionRequired
         else case validateTraceProvenance t of
             Some e \<Rightarrow> Inl e
           | None \<Rightarrow> Inr (json_encode False (canonicalTraceV2 t)))
      else Inl (UnsupportedVersion version))"

section \<open>Numbers in the text\<close>

lemma digit_char: "0 \<le> (n :: int) \<Longrightarrow> n < 10 \<Longrightarrow> is_digit (char_of (48 + n))"
  by (simp add: is_digit_def)

lemma int_digits_chars: "0 \<le> n \<Longrightarrow> int_digits n \<noteq> [] \<and> list_all is_digit (int_digits n)"
proof (induction n rule: int_digits.induct)
  case (1 n)
  show ?case
  proof (cases "n < 10")
    case True
    with 1(2) digit_char [of n] show ?thesis by (simp add: int_digits.simps [of n])
  next
    case False
    with 1 digit_char [of "n mod 10"] show ?thesis by (simp add: int_digits.simps [of n])
  qed
qed

lemma digits_val_append: "digits_val a (xs @ [c]) = 10 * digits_val a xs + (byte c - 48)"
  by (induction a xs rule: digits_val.induct) auto

lemma digits_val_int_digits: "0 \<le> n \<Longrightarrow> digits_val 0 (int_digits n) = n"
proof (induction n rule: int_digits.induct)
  case (1 n)
  then show ?case
    by (subst int_digits.simps) (auto simp: digits_val_append)
qed

lemma show_int_chars: "show_int i \<noteq> [] \<and> list_all int_char (show_int i)"
  using int_digits_chars [of i] int_digits_chars [of "- i"]
  by (auto simp: show_int_def int_char_def list_all_iff)

lemma int_digits_inj: "0 \<le> i \<Longrightarrow> 0 \<le> j \<Longrightarrow> int_digits i = int_digits j \<Longrightarrow> i = j"
  by (metis digits_val_int_digits)

lemma int_digits_no_sign: "0 \<le> n \<Longrightarrow> int_digits n \<noteq> CHR ''-'' # s"
  using int_digits_chars [of n] by (auto simp: is_digit_def byte_def)

lemma show_int_inj: "show_int i = show_int j \<longleftrightarrow> i = j"
proof
  assume e: "show_int i = show_int j"
  show "i = j"
  proof (cases "i < 0"; cases "j < 0")
    assume "i < 0" "j < 0"
    with e int_digits_inj [of "- i" "- j"] show ?thesis by (simp add: show_int_def)
  next
    assume "i < 0" "\<not> j < 0"
    with e int_digits_no_sign [of j "int_digits (- i)"] show ?thesis by (simp add: show_int_def)
  next
    assume "\<not> i < 0" "j < 0"
    with e int_digits_no_sign [of i "int_digits (- j)"] show ?thesis by (simp add: show_int_def)
  next
    assume "\<not> i < 0" "\<not> j < 0"
    with e int_digits_inj [of i j] show ?thesis by (simp add: show_int_def)
  qed
qed simp

section \<open>What the encoding commits to\<close>

definition citation_texts :: "Citation \<Rightarrow> string list" where
  "citation_texts c = [ci_DocumentID c, ci_DocumentTitle c, ci_Section c, ci_Excerpt c]"

definition rule_texts :: "TraceRuleResult \<Rightarrow> string list" where
  "rule_texts r = [tr_RuleID r, tr_RuleName r, tr_PolicyID r, tr_Effect r, tr_Severity r, tr_Details r] @
     citation_texts (tr_Citation r)"

definition deep_texts :: "DeepEvalRecord \<Rightarrow> string list" where
  "deep_texts d = [de_Status d, de_Model d, de_PromptTemplateVer d, de_PromptSHA256 d, de_Decision d,
     de_Reasoning d, de_ErrClass d, de_FailModeApplied d]"

definition trace_texts :: "DecisionTrace \<Rightarrow> string list" where
  "trace_texts t =
     [dt_TraceID t, dt_Timestamp t, dt_OrgID t, dt_EnvelopeID t, dt_AgentID t, dt_AgentVersion t,
      dt_SessionID t, dt_ToolName t, dt_ToolGroup t, dt_AmountParseStatus t, dt_Decision t,
      dt_ActionTaken t, dt_DecisionReason t, dt_Mode t, dt_SuggestedResponse t, dt_EscalatedTo t,
      dt_TraceHash t, dt_PreviousTraceHash t, dt_SignedBy t, dt_EngineVersion t, dt_PolicySetHash t,
      dt_SchemaVersion t] @
     concat (map rule_texts (dt_RuleResults t @ dt_AppliedRuleResults t)) @
     concat (map citation_texts (List.map_filter id [dt_PrimaryCitation t, dt_AppliedPrimaryCitation t])) @
     concat (map deep_texts (List.map_filter id [dt_DeepEvalResult t]))"

definition valid_trace :: "DecisionTrace \<Rightarrow> bool" where
  "valid_trace t \<longleftrightarrow> list_all valid_text (trace_texts t)"

lemma valid_citation: "list_all valid_text (citation_texts c) \<Longrightarrow> valid_json (canonicalCitationV2 c)"
  by (simp add: canonicalCitationV2_def citation_texts_def show_int_chars ascii_valid_text byte_def)

lemma valid_rule: "list_all valid_text (rule_texts r) \<Longrightarrow> valid_json (canonicalRuleResultV2 r)"
  by (simp add: canonicalRuleResultV2_def rule_texts_def valid_citation show_int_chars ascii_valid_text byte_def)

lemma valid_deep: "list_all valid_text (deep_texts d) \<Longrightarrow> valid_json (canonicalDeepEvalRecordV2 d)"
  by (simp add: canonicalDeepEvalRecordV2_def canonicalDeepEvalV1_def deep_texts_def show_int_chars
      ascii_valid_text byte_def)

lemma valid_projection:
  assumes "valid_trace t"
  shows "valid_json (canonicalTraceV2 t)"
proof -
  have "valid_json (canonicalRuleResultsV2 rs)" if "list_all valid_text (concat (map rule_texts rs))" for rs
    using that by (auto simp: canonicalRuleResultsV2_def list_all_iff intro!: valid_rule)
  moreover have "valid_json (canonicalCitationV2Ptr c)"
    if "list_all valid_text (concat (map citation_texts (List.map_filter id [c])))" for c
    using that by (cases c) (simp_all add: canonicalCitationV2Ptr_def valid_citation map_filter_def)
  moreover have "valid_json (case d of None \<Rightarrow> JNull | Some d \<Rightarrow> canonicalDeepEvalRecordV2 d)"
    if "list_all valid_text (concat (map deep_texts (List.map_filter id [d])))" for d
    using that by (cases d) (simp_all add: valid_deep map_filter_def)
  ultimately show ?thesis
    using assms unfolding valid_trace_def trace_texts_def canonicalTraceV2_def
    by (simp add: show_int_chars ascii_valid_text byte_def canonicalTraceVersionV2_def List.map_filter_simps
        split: option.splits)
qed

lemma canonicalCitationV2_inj: "canonicalCitationV2 c = canonicalCitationV2 c' \<Longrightarrow> c = c'"
  by (cases c; cases c') (simp add: canonicalCitationV2_def show_int_inj)

lemma canonicalCitationV2Ptr_inj: "canonicalCitationV2Ptr c = canonicalCitationV2Ptr c' \<Longrightarrow> c = c'"
  by (auto simp: canonicalCitationV2Ptr_def canonicalCitationV2_def dest: canonicalCitationV2_inj split: option.splits)
     (auto intro!: canonicalCitationV2_inj simp: canonicalCitationV2_def)

lemma canonicalRuleResultV2_inj: "inj canonicalRuleResultV2"
proof (rule injI)
  fix r r' assume "canonicalRuleResultV2 r = canonicalRuleResultV2 r'"
  then show "r = r'"
    by (cases r; cases r') (auto simp: canonicalRuleResultV2_def show_int_inj dest: canonicalCitationV2_inj)
qed

lemma canonicalRuleResultsV2_inj: "canonicalRuleResultsV2 rs = canonicalRuleResultsV2 rs' \<Longrightarrow> rs = rs'"
  using inj_map_eq_map [OF canonicalRuleResultV2_inj] by (simp add: canonicalRuleResultsV2_def)

lemma bytes_version:
  assumes "CanonicalTraceBytes srt t = Inr b"
  shows "if dt_CanonicalVersion t = ''v2'' then b = json_encode False (canonicalTraceV2 t) \<and> dt_SchemaVersion t = ''v2''
    else b = json_encode False (canonicalTraceV1 srt t) \<and> (dt_CanonicalVersion t = [] \<or> dt_CanonicalVersion t = ''v1'')"
  using assms
  by (auto simp: CanonicalTraceBytes_def effectiveCanonicalTraceVersion_def canonicalTraceVersionV1_def
      canonicalTraceVersionV2_def Let_def split: if_splits option.splits)

text \<open>The version is the first member, so the two encodings never agree.\<close>

lemma json_object_head:
  "json_encode html (JObj ((k, JStr v) # ms)) = CHR ''{'' # json_quote html k @ CHR '':'' # json_quote html v @ json_members html ms"
  by simp

lemma versions_differ: "json_encode False (canonicalTraceV1 srt t) \<noteq> json_encode False (canonicalTraceV2 t')"
proof
  assume e: "json_encode False (canonicalTraceV1 srt t) = json_encode False (canonicalTraceV2 t')"
  have q: "json_quote False ''v1'' = [CHR 0x22, CHR ''v'', CHR ''1'', CHR 0x22]"
    "json_quote False ''v2'' = [CHR 0x22, CHR ''v'', CHR ''2'', CHR 0x22]" by code_simp+
  from e show False
    unfolding canonicalTraceV1_def canonicalTraceV2_def json_object_head canonicalTraceVersionV1_def
      canonicalTraceVersionV2_def q by simp
qed

text \<open>The record with the members the version 2 encoding does not carry, or carries rounded, taken
  from another record.\<close>

definition take_uncommitted :: "DecisionTrace \<Rightarrow> DecisionTrace \<Rightarrow> DecisionTrace" where
  "take_uncommitted t u = t \<lparr>
     dt_EscalationID := dt_EscalationID u, dt_EscalatedAt := dt_EscalatedAt u,
     dt_ResolvedAt := dt_ResolvedAt u, dt_Resolution := dt_Resolution u,
     dt_ParametersRedacted := dt_ParametersRedacted u, dt_ContextSnapshot := dt_ContextSnapshot u,
     dt_AgentTokensIn := dt_AgentTokensIn u, dt_AgentTokensOut := dt_AgentTokensOut u,
     dt_AgentLLMCostUSD := dt_AgentLLMCostUSD u \<rparr>"

definition take_rounded :: "DecisionTrace \<Rightarrow> DecisionTrace \<Rightarrow> DecisionTrace" where
  "take_rounded t u = t \<lparr> dt_EvaluationDurationMs := dt_EvaluationDurationMs u,
     dt_DeepEvalResult := dt_DeepEvalResult u \<rparr>"

lemma projection_commits:
  assumes "canonicalTraceV2 t = canonicalTraceV2 u" "dt_CanonicalVersion t = dt_CanonicalVersion u"
  shows "u = take_rounded (take_uncommitted t u) u"
proof -
  have "word_of_int (uint (dt_Amount t)) = (word_of_int (uint (dt_Amount u)) :: f64) \<Longrightarrow> dt_Amount t = dt_Amount u"
    by simp
  with assms show ?thesis
    by (intro DecisionTrace.equality)
       (simp_all add: canonicalTraceV2_def take_uncommitted_def take_rounded_def show_int_inj
          canonicalRuleResultsV2_inj canonicalCitationV2Ptr_inj)
qed

lemma canonical_bytes_inj:
  assumes "CanonicalTraceBytes srt t = Inr b" "CanonicalTraceBytes srt u = Inr b"
    "dt_CanonicalVersion t = ''v2''" "valid_trace t" "valid_trace u"
  shows "u = take_rounded (take_uncommitted t u) u"
proof -
  have t: "b = json_encode False (canonicalTraceV2 t)"
    using bytes_version [OF assms(1)] assms(3) by simp
  have u: "dt_CanonicalVersion u = ''v2'' \<and> b = json_encode False (canonicalTraceV2 u)"
    using bytes_version [OF assms(2)] t versions_differ [of srt u t] by (auto split: if_splits)
  have "canonicalTraceV2 t = canonicalTraceV2 u"
    using t u valid_projection [OF assms(4)] valid_projection [OF assms(5)]
    by (intro json_text_inj [where html = False]) auto
  with u assms(3) show ?thesis by (intro projection_commits) simp_all
qed

lemma projections_free:
  "canonicalTraceV1 srt (take_uncommitted t u) = canonicalTraceV1 srt t"
  "canonicalTraceV2 (take_uncommitted t u) = canonicalTraceV2 t"
  "v1_fields_only (take_uncommitted t u) = v1_fields_only t"
  "validateTraceProvenance (take_uncommitted t u) = validateTraceProvenance t"
  "effectiveCanonicalTraceVersion (take_uncommitted t u) = effectiveCanonicalTraceVersion t"
  "dt_SchemaVersion (take_uncommitted t u) = dt_SchemaVersion t"
  by (simp_all add: take_uncommitted_def canonicalTraceV1_def canonicalTraceV2_def v1_fields_only_def
      validateTraceProvenance_def effectiveCanonicalTraceVersion_def)

lemma bytes_free: "CanonicalTraceBytes srt (take_uncommitted t u) = CanonicalTraceBytes srt t"
  unfolding CanonicalTraceBytes_def projections_free ..

text \<open>Two records with valid text and the same version 2 canonical bytes agree in every member
  except the escalation bookkeeping, the redacted parameters, the context snapshot, the agent's
  token usage, and the duration and deep-evaluation record, which are carried rounded.\<close>

theorem canonical_bytes_commit:
  assumes "CanonicalTraceBytes srt t = Inr b" and "CanonicalTraceBytes srt u = Inr b"
    and "dt_CanonicalVersion t = ''v2''" and "valid_trace t" and "valid_trace u"
  shows "u = take_rounded (take_uncommitted t u) u"
  using assms by (rule canonical_bytes_inj)

text \<open>The escalation bookkeeping, the redacted parameters, the context snapshot and the agent's
  token usage are outside the hash: replacing them by those of any other record leaves the
  canonical bytes unchanged, in both versions.\<close>

theorem uncommitted_members_are_free:
  "CanonicalTraceBytes srt (take_uncommitted t u) = CanonicalTraceBytes srt t"
  by (rule bytes_free)

end
