(* ===== verification/Audit_Chain.thy ===== *)
theory Audit_Chain
  imports Audit_Canonical
begin

text \<open>
  The hash chain: the record hash (\<open>pkg/audit/hasher.go\<close>), the session verifier
  (\<open>verifier.go\<close>), the streaming verifier of a JSONL log (\<open>streaming.go\<close>) with its prune
  checkpoints (\<open>checkpoint.go\<close>) and the decision receipt (\<open>receipt.go\<close>).

  Outside the program's own code are the services of \<open>codec\<close>: SHA-256, the sort of the version 1
  encoder, and the decoder of \<open>encoding/json\<close> into the record types. The stream is the list of
  lines \<open>bufio.Scanner\<close> delivers.
\<close>

section \<open>Services\<close>

record PruneCheckpoint =
  cp_RecordType :: string
  cp_Version :: int
  cp_RemovedCount :: int
  cp_LastRemovedIndex :: int
  cp_LastRemovedHash :: string
  cp_LastRemovedTimestamp :: int
  cp_BoundaryCanonicalVersion :: string
  cp_Cutoff :: int
  cp_RetainedCount :: int
  cp_RetainedTailHash :: string
  cp_CheckpointHash :: string

text \<open>
  \<^item> \<open>cd_sha256\<close>: the lower-case hexadecimal SHA-256 digest of a byte string;
  \<^item> \<open>cd_sort\<close>: \<open>sort.Slice\<close> of the version 1 encoder;
  \<^item> \<open>cd_time\<close>: the JSON text of a \<open>time.Time\<close>, given in nanoseconds, \<open>cd_zero_time\<close> being
    the zero time;
  \<^item> \<open>cd_marshal\<close>: \<open>json.Marshal\<close> of a trace;
  \<^item> \<open>cd_record_type\<close>: the \<open>record_type\<close> member of a line, \<open>None\<close> if the line is no JSON
    object, \<open>Some []\<close> without the member;
  \<^item> \<open>cd_trace\<close>, \<open>cd_checkpoint\<close>: the decoders into the two record types, the second one
    strict and without trailing data.
\<close>

record codec =
  cd_sha256 :: "string \<Rightarrow> string"
  cd_sort :: "TraceRuleResult list \<Rightarrow> TraceRuleResult list"
  cd_time :: "int \<Rightarrow> string"
  cd_zero_time :: int
  cd_marshal :: "DecisionTrace \<Rightarrow> string"
  cd_record_type :: "string \<Rightarrow> string option"
  cd_trace :: "string \<Rightarrow> DecisionTrace option"
  cd_checkpoint :: "string \<Rightarrow> PruneCheckpoint option"

section \<open>Hashes\<close>

definition ComputeCanonicalTraceHash :: "codec \<Rightarrow> DecisionTrace \<Rightarrow> audit_error + string" where
  "ComputeCanonicalTraceHash cd t =
     (case CanonicalTraceBytes (cd_sort cd) (t \<lparr> dt_TraceHash := [] \<rparr>) of
        Inl e \<Rightarrow> Inl e
      | Inr b \<Rightarrow> Inr (''sha256:'' @ cd_sha256 cd b))"

definition VerifyCanonicalTraceHash :: "codec \<Rightarrow> DecisionTrace \<Rightarrow> audit_error + bool" where
  "VerifyCanonicalTraceHash cd t =
     (case ComputeCanonicalTraceHash cd t of
        Inl e \<Rightarrow> Inl e | Inr h \<Rightarrow> Inr (dt_TraceHash t = h))"

section \<open>Session verifier\<close>

datatype verify_message =
    VersionDowngrade string string
  | CanonicalHashError audit_error
  | TraceHashMismatch
  | ChainLinkBroken

record VerifyError =
  ve_TraceID :: string
  ve_Index :: nat
  ve_Expected :: string
  ve_Actual :: string
  ve_Message :: verify_message

record VerificationResult =
  vr_Valid :: bool
  vr_TracesCount :: nat
  vr_Errors :: "VerifyError list"

text \<open>The highest version seen: its rank and name, advanced by one record.\<close>

definition version_step :: "nat \<times> string \<Rightarrow> string \<Rightarrow> nat \<times> string" where
  "version_step hi version =
     (case canonicalTraceVersionRank version of
        None \<Rightarrow> hi
      | Some rank \<Rightarrow> if fst hi < rank then (rank, version) else hi)"

definition is_downgrade :: "nat \<times> string \<Rightarrow> string \<Rightarrow> bool" where
  "is_downgrade hi version \<longleftrightarrow>
     (case canonicalTraceVersionRank version of None \<Rightarrow> False | Some rank \<Rightarrow> rank < fst hi)"

text \<open>The errors one trace adds, in the order of the source.\<close>

definition trace_errors :: "codec \<Rightarrow> nat \<Rightarrow> string \<Rightarrow> nat \<times> string \<Rightarrow> DecisionTrace \<Rightarrow> VerifyError list" where
  "trace_errors cd i previousHash hi t =
     (let version = effectiveCanonicalTraceVersion t;
          err = (\<lambda>want got msg. \<lparr> ve_TraceID = dt_TraceID t, ve_Index = i, ve_Expected = want,
                   ve_Actual = got, ve_Message = msg \<rparr>)
      in (if is_downgrade hi version then [err [] [] (VersionDowngrade (snd hi) version)] else []) @
         (case ComputeCanonicalTraceHash cd t of
            Inl e \<Rightarrow> [err [] (dt_TraceHash t) (CanonicalHashError e)]
          | Inr want \<Rightarrow>
              (if dt_TraceHash t \<noteq> want then [err want (dt_TraceHash t) TraceHashMismatch] else []) @
              (if dt_PreviousTraceHash t \<noteq> previousHash
               then [err previousHash (dt_PreviousTraceHash t) ChainLinkBroken] else [])))"

fun session_errors :: "codec \<Rightarrow> nat \<Rightarrow> string \<Rightarrow> nat \<times> string \<Rightarrow> DecisionTrace list \<Rightarrow> VerifyError list" where
  "session_errors cd i previousHash hi [] = []"
| "session_errors cd i previousHash hi (t # ts) =
     trace_errors cd i previousHash hi t @
     session_errors cd (Suc i) (dt_TraceHash t) (version_step hi (effectiveCanonicalTraceVersion t)) ts"

definition VerifySession :: "codec \<Rightarrow> DecisionTrace list \<Rightarrow> VerificationResult" where
  "VerifySession cd traces =
     (let errs = session_errors cd 0 [] (0, []) traces
      in \<lparr> vr_Valid = (errs = []), vr_TracesCount = length traces, vr_Errors = errs \<rparr>)"

definition VerifySingleTrace :: "codec \<Rightarrow> DecisionTrace \<Rightarrow> VerificationResult" where
  "VerifySingleTrace cd t =
     (let expected = (case ComputeCanonicalTraceHash cd t of Inl _ \<Rightarrow> [] | Inr h \<Rightarrow> h);
          ok = (\<not> isl (ComputeCanonicalTraceHash cd t) \<and> dt_TraceHash t = expected)
      in \<lparr> vr_Valid = ok, vr_TracesCount = 1,
           vr_Errors = (if ok then [] else [\<lparr> ve_TraceID = dt_TraceID t, ve_Index = 0,
             ve_Expected = expected, ve_Actual = dt_TraceHash t, ve_Message = TraceHashMismatch \<rparr>]) \<rparr>)"

section \<open>Prune checkpoints\<close>

definition checkpoint_hash :: "codec \<Rightarrow> PruneCheckpoint \<Rightarrow> string" where
  "checkpoint_hash cd c =
     ''sha256:'' @ cd_sha256 cd (json_encode True (JObj
       [(''record_type'', JStr (cp_RecordType c)), (''version'', JInt (cp_Version c)),
        (''removed_count'', JInt (cp_RemovedCount c)), (''last_removed_index'', JInt (cp_LastRemovedIndex c)),
        (''last_removed_hash'', JStr (cp_LastRemovedHash c)),
        (''last_removed_timestamp'', JStr (cd_time cd (cp_LastRemovedTimestamp c))),
        (''boundary_canonical_version'', JStr (cp_BoundaryCanonicalVersion c)),
        (''cutoff'', JStr (cd_time cd (cp_Cutoff c))), (''retained_count'', JInt (cp_RetainedCount c)),
        (''retained_tail_hash'', JStr (cp_RetainedTailHash c)), (''checkpoint_hash'', JStr [])]))"

definition validCheckpointHash :: "string \<Rightarrow> bool" where
  "validCheckpointHash s \<longleftrightarrow>
     HasPrefix s ''sha256:'' \<and> hex_decodes (drop 7 s) \<and> length (drop 7 s) = 64 \<and> ToLower (drop 7 s) = drop 7 s"

datatype checkpoint_fault =
    CheckpointDecode | CheckpointKind | CheckpointCounts | CheckpointTimes | CheckpointVersion
  | CheckpointHash | CheckpointTail

definition ParsePruneCheckpoint :: "codec \<Rightarrow> string \<Rightarrow> checkpoint_fault + PruneCheckpoint" where
  "ParsePruneCheckpoint cd raw =
     (case cd_checkpoint cd raw of
        None \<Rightarrow> Inl CheckpointDecode
      | Some c \<Rightarrow>
          (if cp_RecordType c \<noteq> ''prune_checkpoint'' \<or> cp_Version c \<noteq> 1 then Inl CheckpointKind
           else if cp_RemovedCount c \<le> 0 \<or> cp_LastRemovedIndex c \<noteq> cp_RemovedCount c \<or> cp_RetainedCount c < 0
           then Inl CheckpointCounts
           else if cp_LastRemovedTimestamp c = cd_zero_time cd \<or> cp_Cutoff c = cd_zero_time cd \<or>
             \<not> cp_LastRemovedTimestamp c < cp_Cutoff c then Inl CheckpointTimes
           else if canonicalTraceVersionRank (cp_BoundaryCanonicalVersion c) = None then Inl CheckpointVersion
           else if \<not> validCheckpointHash (cp_LastRemovedHash c) \<or> \<not> validCheckpointHash (cp_RetainedTailHash c) \<or>
             cp_CheckpointHash c \<noteq> checkpoint_hash cd c then Inl CheckpointHash
           else if cp_RetainedCount c = 0 \<and> cp_RetainedTailHash c \<noteq> cp_LastRemovedHash c then Inl CheckpointTail
           else Inr c))"

section \<open>Streaming verifier\<close>

definition MaxTraceRecordBytes :: nat where
  "MaxTraceRecordBytes = 4194304"

definition MaxTraceRecordScanBytes :: nat where
  "MaxTraceRecordScanBytes = MaxTraceRecordBytes + 2"

definition MarshalTraceRecord :: "codec \<Rightarrow> DecisionTrace \<Rightarrow> string option" where
  "MarshalTraceRecord cd t =
     (let raw = cd_marshal cd t in if MaxTraceRecordBytes < length raw then None else Some raw)"

definition NeedsRecordSeparator :: "string \<Rightarrow> bool" where
  "NeedsRecordSeparator content \<longleftrightarrow> content \<noteq> [] \<and> last content \<noteq> CHR 0x0A"

text \<open>\<open>bufio.ScanLines\<close>: a final line without LF counts, an empty one does not; a trailing CR is
  dropped. \<open>None\<close> ends the list at a line that does not fit the buffer.\<close>

definition drop_cr :: "string \<Rightarrow> string" where
  "drop_cr l = TrimSuffix l [CHR 0x0D]"

definition raw_lines :: "string \<Rightarrow> string list" where
  "raw_lines content =
     (let ls = SplitByte content (CHR 0x0A) in if last ls = [] then butlast ls else ls)"

definition scan_lines :: "string \<Rightarrow> string option list" where
  "scan_lines content =
     (let ls = raw_lines content;
          ok = takeWhile (\<lambda>l. length l < MaxTraceRecordScanBytes) ls
      in map (\<lambda>l. Some (drop_cr l)) ok @ (if length ok < length ls then [None] else []))"

datatype stream_fault =
    RecordTooLarge
  | BadLine
  | CheckpointNotFirst
  | PrunedNotAllowed
  | BadCheckpoint checkpoint_fault
  | PinMismatch
  | PinRequired
  | StreamDowngrade string string
  | GenesisLinked
  | LinkMismatch
  | HashError audit_error
  | HashMismatch
  | ScanError
  | RetainedMismatch

record StreamReport =
  sr_Pruned :: bool
  sr_Intact :: bool
  sr_Records :: nat
  sr_FirstTraceID :: string
  sr_Tail :: string
  sr_FirstFailureAt :: nat
  sr_FailureReason :: "stream_fault option"

text \<open>The variables of the scan loop.\<close>

record scan_state =
  sc_prevHash :: string
  sc_checkpoint :: "PruneCheckpoint option"
  sc_highest :: "nat \<times> string"
  sc_line :: nat
  sc_report :: StreamReport

definition scan_start :: scan_state where
  "scan_start = \<lparr> sc_prevHash = [], sc_checkpoint = None, sc_highest = (0, []), sc_line = 0,
     sc_report = \<lparr> sr_Pruned = False, sr_Intact = True, sr_Records = 0, sr_FirstTraceID = [], sr_Tail = [],
       sr_FirstFailureAt = 0, sr_FailureReason = None \<rparr> \<rparr>"

definition failAt :: "scan_state \<Rightarrow> stream_fault \<Rightarrow> StreamReport" where
  "failAt s reason = (sc_report s) \<lparr> sr_Intact := False, sr_FirstFailureAt := sc_line s,
     sr_FailureReason := Some reason \<rparr>"

definition checkpoint_step ::
  "codec \<Rightarrow> bool \<Rightarrow> string \<Rightarrow> scan_state \<Rightarrow> string \<Rightarrow> StreamReport + scan_state" where
  "checkpoint_step cd allowPruned pin s raw =
     (if sc_checkpoint s \<noteq> None \<or> sr_Records (sc_report s) \<noteq> 0 then Inl (failAt s CheckpointNotFirst)
      else
        let s = s \<lparr> sc_report := sc_report s \<lparr> sr_Pruned := True \<rparr> \<rparr> in
        if \<not> allowPruned then Inl (failAt s PrunedNotAllowed)
        else case ParsePruneCheckpoint cd raw of
            Inl e \<Rightarrow> Inl (failAt s (BadCheckpoint e))
          | Inr c \<Rightarrow>
              (if pin \<noteq> [] \<and> cp_CheckpointHash c \<noteq> pin then Inl (failAt s PinMismatch)
               else let v = cp_BoundaryCanonicalVersion c in
                 Inr (s \<lparr> sc_checkpoint := Some c, sc_prevHash := cp_LastRemovedHash c,
                        sc_highest := (case canonicalTraceVersionRank v of Some r \<Rightarrow> r | None \<Rightarrow> 0, v) \<rparr>)))"

definition trace_step :: "codec \<Rightarrow> scan_state \<Rightarrow> DecisionTrace \<Rightarrow> StreamReport + scan_state" where
  "trace_step cd s t =
     (let version = effectiveCanonicalTraceVersion t; first = (sr_Records (sc_report s) = 0) in
      if is_downgrade (sc_highest s) version then Inl (failAt s (StreamDowngrade (snd (sc_highest s)) version))
      else
        let s = s \<lparr> sc_highest := version_step (sc_highest s) version,
                   sc_report := (if first then sc_report s \<lparr> sr_FirstTraceID := dt_TraceID t \<rparr> else sc_report s) \<rparr> in
        if first \<and> sc_checkpoint s = None \<and> dt_PreviousTraceHash t \<noteq> [] then Inl (failAt s GenesisLinked)
        else if (sc_checkpoint s \<noteq> None \<or> \<not> first) \<and> dt_PreviousTraceHash t \<noteq> sc_prevHash s
        then Inl (failAt s LinkMismatch)
        else case ComputeCanonicalTraceHash cd t of
            Inl e \<Rightarrow> Inl (failAt s (HashError e))
          | Inr want \<Rightarrow>
              (if dt_TraceHash t \<noteq> want then Inl (failAt s HashMismatch)
               else Inr (s \<lparr> sc_prevHash := dt_TraceHash t,
                      sc_report := sc_report s \<lparr> sr_Records := Suc (sr_Records (sc_report s)) \<rparr> \<rparr>)))"

definition line_step ::
  "codec \<Rightarrow> bool \<Rightarrow> string \<Rightarrow> scan_state \<Rightarrow> string \<Rightarrow> StreamReport + scan_state" where
  "line_step cd allowPruned pin s0 raw =
     (let s = s0 \<lparr> sc_line := Suc (sc_line s0) \<rparr> in
      if MaxTraceRecordBytes < length raw then Inl (failAt s RecordTooLarge)
      else if raw = [] then Inr s
      else case cd_record_type cd raw of
          None \<Rightarrow> Inl (failAt s BadLine)
        | Some kind \<Rightarrow>
            (if kind = ''prune_checkpoint'' then checkpoint_step cd allowPruned pin s raw
             else if sc_checkpoint s = None \<and> pin \<noteq> [] then Inl (failAt s PinRequired)
             else case cd_trace cd raw of
                 None \<Rightarrow> Inl (failAt s BadLine)
               | Some t \<Rightarrow> trace_step cd s t))"

fun scan_loop ::
  "codec \<Rightarrow> bool \<Rightarrow> string \<Rightarrow> scan_state \<Rightarrow> string option list \<Rightarrow> StreamReport + scan_state" where
  "scan_loop cd allowPruned pin s [] = Inr s"
| "scan_loop cd allowPruned pin s (None # _) = Inl (failAt s ScanError)"
| "scan_loop cd allowPruned pin s (Some raw # ls) =
     (case line_step cd allowPruned pin s raw of
        Inl rep \<Rightarrow> Inl rep | Inr s' \<Rightarrow> scan_loop cd allowPruned pin s' ls)"

definition scan_finish :: "string \<Rightarrow> scan_state \<Rightarrow> StreamReport" where
  "scan_finish pin s =
     (case sc_checkpoint s of
        None \<Rightarrow>
          (if pin \<noteq> [] then failAt s PinRequired else (sc_report s) \<lparr> sr_Tail := sc_prevHash s \<rparr>)
      | Some c \<Rightarrow>
          (if int (sr_Records (sc_report s)) \<noteq> cp_RetainedCount c \<or> sc_prevHash s \<noteq> cp_RetainedTailHash c
           then failAt s RetainedMismatch
           else (sc_report s) \<lparr> sr_Tail := sc_prevHash s \<rparr>))"

definition verifyChainFromReader :: "codec \<Rightarrow> bool \<Rightarrow> string \<Rightarrow> string \<Rightarrow> StreamReport" where
  "verifyChainFromReader cd allowPruned pin content =
     (case scan_loop cd allowPruned pin scan_start (scan_lines content) of
        Inl rep \<Rightarrow> rep | Inr s \<Rightarrow> scan_finish pin s)"

definition VerifyChainFromReader :: "codec \<Rightarrow> string \<Rightarrow> StreamReport" where
  "VerifyChainFromReader cd content = verifyChainFromReader cd False [] content"

definition VerifyPrunedChainFromReader :: "codec \<Rightarrow> string \<Rightarrow> string \<Rightarrow> StreamReport" where
  "VerifyPrunedChainFromReader cd pin content = verifyChainFromReader cd True pin content"

section \<open>Receipts\<close>

record DecisionReceipt =
  dr_ReceiptVersion :: string
  dr_TraceID :: string
  dr_TraceHash :: string
  dr_HashAlgorithm :: string
  dr_CanonicalTraceVersion :: string
  dr_IntegrityModel :: string
  dr_Decision :: string
  dr_ActionTaken :: string
  dr_Timestamp :: string
  dr_Issuer :: string
  dr_ReceiptURI :: string

definition validReceiptSHA256 :: "string \<Rightarrow> bool" where
  "validReceiptSHA256 v \<longleftrightarrow>
     HasPrefix v ''sha256:'' \<and> length (drop 7 v) = 64 \<and>
     list_all (\<lambda>c. is_digit c \<or> (97 \<le> byte c \<and> byte c \<le> 102)) (drop 7 v)"

text \<open>The zero time's text is \<open>cd_time (cd_zero_time)\<close>.\<close>

definition NewDecisionReceipt :: "codec \<Rightarrow> DecisionTrace \<Rightarrow> DecisionReceipt option" where
  "NewDecisionReceipt cd t =
     (let v = effectiveCanonicalTraceVersion t in
      if TrimSpace (dt_TraceID t) = [] \<or> \<not> validReceiptSHA256 (dt_TraceHash t) \<or>
         dt_Timestamp t = cd_time cd (cd_zero_time cd) \<or> dt_Decision t = [] \<or> dt_ActionTaken t = [] then None
      else if v \<noteq> canonicalTraceVersionV1 \<and> v \<noteq> CanonicalTraceVersion then None
      else case VerifyCanonicalTraceHash cd t of
          Inl _ \<Rightarrow> None
        | Inr valid \<Rightarrow>
            (if \<not> valid then None
             else Some \<lparr> dr_ReceiptVersion = ''1'', dr_TraceID = dt_TraceID t, dr_TraceHash = dt_TraceHash t,
               dr_HashAlgorithm = ''sha256'', dr_CanonicalTraceVersion = v, dr_IntegrityModel = ''hash-chain'',
               dr_Decision = dt_Decision t, dr_ActionTaken = dt_ActionTaken t, dr_Timestamp = dt_Timestamp t,
               dr_Issuer = dt_SignedBy t,
               dr_ReceiptURI = ''urn:tool-guard:trace:'' @ v @ '':'' @ dt_TraceHash t \<rparr>))"

section \<open>What an intact chain is\<close>

fun chain_from :: "codec \<Rightarrow> string \<Rightarrow> nat \<times> string \<Rightarrow> DecisionTrace list \<Rightarrow> bool" where
  "chain_from cd prev hi [] = True"
| "chain_from cd prev hi (t # ts) \<longleftrightarrow>
     \<not> is_downgrade hi (effectiveCanonicalTraceVersion t) \<and>
     dt_PreviousTraceHash t = prev \<and>
     ComputeCanonicalTraceHash cd t = Inr (dt_TraceHash t) \<and>
     chain_from cd (dt_TraceHash t) (version_step hi (effectiveCanonicalTraceVersion t)) ts"

definition intact_chain :: "codec \<Rightarrow> DecisionTrace list \<Rightarrow> bool" where
  "intact_chain cd ts \<longleftrightarrow> chain_from cd [] (0, []) ts"

definition tail_from :: "string \<Rightarrow> DecisionTrace list \<Rightarrow> string" where
  "tail_from prev ts = (if ts = [] then prev else dt_TraceHash (last ts))"

lemma tail_from_simps [simp]:
  "tail_from prev [] = prev" "tail_from prev (t # ts) = tail_from (dt_TraceHash t) ts"
  "tail_from prev (ts @ [t]) = dt_TraceHash t"
  by (simp_all add: tail_from_def)

lemma session_errors_Nil: "session_errors cd i prev hi ts = [] \<longleftrightarrow> chain_from cd prev hi ts"
  by (induction ts arbitrary: i prev hi) (auto simp: trace_errors_def Let_def split: sum.splits)

text \<open>The traces of a stream: every line fits, and every line that is not blank is a trace.\<close>

fun lines_traces :: "codec \<Rightarrow> string option list \<Rightarrow> DecisionTrace list option" where
  "lines_traces cd [] = Some []"
| "lines_traces cd (None # ls) = None"
| "lines_traces cd (Some raw # ls) =
     (if MaxTraceRecordBytes < length raw then None
      else if raw = [] then lines_traces cd ls
      else if cd_record_type cd raw = None \<or> cd_record_type cd raw = Some ''prune_checkpoint'' then None
      else case cd_trace cd raw of
          None \<Rightarrow> None
        | Some t \<Rightarrow> map_option (Cons t) (lines_traces cd ls))"

definition stream_traces :: "codec \<Rightarrow> string \<Rightarrow> DecisionTrace list option" where
  "stream_traces cd content = lines_traces cd (scan_lines content)"

definition scanning :: "scan_state \<Rightarrow> bool" where
  "scanning s \<longleftrightarrow> sc_checkpoint s = None \<and> sr_Intact (sc_report s) \<and>
     (sr_Records (sc_report s) = 0 \<longrightarrow> sc_prevHash s = [])"

lemma sha_nonempty: "ComputeCanonicalTraceHash cd t = Inr h \<Longrightarrow> h \<noteq> []"
  by (auto simp: ComputeCanonicalTraceHash_def split: sum.splits)

lemma trace_step_chain:
  assumes "scanning s"
  shows "case trace_step cd s t of
      Inl rep \<Rightarrow> \<not> sr_Intact rep \<and> \<not> chain_from cd (sc_prevHash s) (sc_highest s) [t]
    | Inr s' \<Rightarrow> scanning s' \<and> chain_from cd (sc_prevHash s) (sc_highest s) [t] \<and>
        sc_prevHash s' = dt_TraceHash t \<and>
        sc_highest s' = version_step (sc_highest s) (effectiveCanonicalTraceVersion t) \<and>
        sr_Records (sc_report s') = Suc (sr_Records (sc_report s))"
  using assms
  by (auto simp: trace_step_def scanning_def failAt_def Let_def split: sum.splits)

lemma scan_loop_chain:
  assumes "scanning s"
  shows "case scan_loop cd False [] s ls of
      Inl rep \<Rightarrow> \<not> sr_Intact rep \<and> \<not> (\<exists>ts. lines_traces cd ls = Some ts \<and> chain_from cd (sc_prevHash s) (sc_highest s) ts)
    | Inr s' \<Rightarrow> scanning s' \<and> (\<exists>ts. lines_traces cd ls = Some ts \<and> chain_from cd (sc_prevHash s) (sc_highest s) ts \<and>
        sc_prevHash s' = tail_from (sc_prevHash s) ts \<and>
        sr_Records (sc_report s') = sr_Records (sc_report s) + length ts)"
  using assms
proof (induction cd False "[] :: string" s ls rule: scan_loop.induct)
  case (1 cd s)
  then show ?case by simp
next
  case (2 cd s ls)
  then show ?case by (simp add: failAt_def)
next
  case (3 cd s raw ls)
  let ?s = "s \<lparr> sc_line := Suc (sc_line s) \<rparr>"
  have sc: "scanning ?s" using 3(2) by (simp add: scanning_def)
  consider (big) "MaxTraceRecordBytes < length raw"
    | (blank) "raw = []" "\<not> MaxTraceRecordBytes < length raw"
    | (bad) "raw \<noteq> []" "\<not> MaxTraceRecordBytes < length raw" "cd_record_type cd raw = None"
    | (prune) "raw \<noteq> []" "\<not> MaxTraceRecordBytes < length raw" "cd_record_type cd raw = Some ''prune_checkpoint''"
    | (nodec) k where "raw \<noteq> []" "\<not> MaxTraceRecordBytes < length raw" "cd_record_type cd raw = Some k"
        "k \<noteq> ''prune_checkpoint''" "cd_trace cd raw = None"
    | (trace) k t where "raw \<noteq> []" "\<not> MaxTraceRecordBytes < length raw" "cd_record_type cd raw = Some k"
        "k \<noteq> ''prune_checkpoint''" "cd_trace cd raw = Some t"
    by (cases "cd_record_type cd raw"; cases "cd_trace cd raw") blast+
  then show ?case
  proof cases
    case blank
    then have "line_step cd False [] s raw = Inr ?s" by (simp add: line_step_def Let_def)
    with 3(1) [OF this sc] blank show ?thesis by (simp split: sum.splits)
  next
    case prune
    then show ?thesis by (auto simp: line_step_def checkpoint_step_def failAt_def Let_def split: sum.splits)
  next
    case (trace k t)
    then have step: "line_step cd False [] s raw = trace_step cd ?s t" using sc
      by (simp add: line_step_def Let_def scanning_def)
    show ?thesis
    proof (cases "trace_step cd ?s t")
      case (Inl rep)
      with trace_step_chain [OF sc, of cd t] step trace show ?thesis by auto
    next
      case (Inr s')
      with trace_step_chain [OF sc, of cd t] have s': "scanning s'" "chain_from cd (sc_prevHash s) (sc_highest s) [t]"
        "sc_prevHash s' = dt_TraceHash t" "sc_highest s' = version_step (sc_highest s) (effectiveCanonicalTraceVersion t)"
        "sr_Records (sc_report s') = Suc (sr_Records (sc_report s))" by simp_all
      from 3(1) [OF step [unfolded Inr] s'(1)] s' step trace Inr show ?thesis
        by (auto split: sum.splits)
    qed
  qed (auto simp: line_step_def failAt_def Let_def)
qed

lemma verify_chain_exact:
  "sr_Intact (VerifyChainFromReader cd content) \<longleftrightarrow>
     (\<exists>ts. stream_traces cd content = Some ts \<and> intact_chain cd ts)"
  "stream_traces cd content = Some ts \<Longrightarrow> intact_chain cd ts \<Longrightarrow>
     sr_Tail (VerifyChainFromReader cd content) = tail_from [] ts \<and>
     sr_Records (VerifyChainFromReader cd content) = length ts"
proof -
  let ?r = "scan_loop cd False [] scan_start (scan_lines content)"
  have start: "scanning scan_start" "sc_prevHash scan_start = []" "sc_highest scan_start = (0, [])"
    "sr_Records (sc_report scan_start) = 0" by (simp_all add: scanning_def scan_start_def)
  have v: "VerifyChainFromReader cd content = (case ?r of Inl rep \<Rightarrow> rep | Inr s \<Rightarrow> scan_finish [] s)"
    by (simp add: VerifyChainFromReader_def verifyChainFromReader_def)
  show "sr_Intact (VerifyChainFromReader cd content) \<longleftrightarrow>
     (\<exists>ts. stream_traces cd content = Some ts \<and> intact_chain cd ts)"
    using scan_loop_chain [OF start(1), of cd "scan_lines content"] start
    by (auto simp: v stream_traces_def intact_chain_def scan_finish_def scanning_def split: sum.splits option.splits)
  show "sr_Tail (VerifyChainFromReader cd content) = tail_from [] ts \<and>
     sr_Records (VerifyChainFromReader cd content) = length ts"
    if "stream_traces cd content = Some ts" "intact_chain cd ts"
    using scan_loop_chain [OF start(1), of cd "scan_lines content"] start that
    by (auto simp: v stream_traces_def intact_chain_def scan_finish_def scanning_def split: sum.splits option.splits)
qed

section \<open>Extending a chain\<close>

definition highest_version :: "nat \<times> string \<Rightarrow> DecisionTrace list \<Rightarrow> nat \<times> string" where
  "highest_version hi ts = foldl (\<lambda>hi t. version_step hi (effectiveCanonicalTraceVersion t)) hi ts"

lemma chain_from_append:
  "chain_from cd prev hi (ts @ us) \<longleftrightarrow>
     chain_from cd prev hi ts \<and> chain_from cd (tail_from prev ts) (highest_version hi ts) us"
  by (induction ts arbitrary: prev hi) (auto simp: highest_version_def)

lemma version_step_le: "fst hi \<le> 2 \<Longrightarrow> fst (version_step hi v) \<le> 2"
  by (auto simp: version_step_def canonicalTraceVersionRank_def split: option.splits if_splits)

lemma highest_version_le: "fst hi \<le> 2 \<Longrightarrow> fst (highest_version hi ts) \<le> 2"
  unfolding highest_version_def by (induction ts arbitrary: hi) (auto simp: version_step_le)

lemma current_version_no_downgrade:
  "dt_CanonicalVersion t = CanonicalTraceVersion \<Longrightarrow>
     \<not> is_downgrade (highest_version (0, []) ts) (effectiveCanonicalTraceVersion t)"
  using highest_version_le [of "(0, [])" ts]
  by (simp add: is_downgrade_def effectiveCanonicalTraceVersion_def CanonicalTraceVersion_def
      canonicalTraceVersionRank_def canonicalTraceVersionV2_def canonicalTraceVersionV1_def)

lemma intact_chain_snoc:
  assumes "intact_chain cd ts" "dt_CanonicalVersion t = CanonicalTraceVersion"
    "dt_PreviousTraceHash t = tail_from [] ts" "ComputeCanonicalTraceHash cd t = Inr (dt_TraceHash t)"
  shows "intact_chain cd (ts @ [t])"
  using assms current_version_no_downgrade [OF assms(2), of ts]
  by (simp add: intact_chain_def chain_from_append)

section \<open>Tamper evidence\<close>

text \<open>SHA-256 does not collide on the canonical bytes of the records at hand.\<close>

definition hash_input :: "codec \<Rightarrow> DecisionTrace \<Rightarrow> string" where
  "hash_input cd t = (case CanonicalTraceBytes (cd_sort cd) (t \<lparr> dt_TraceHash := [] \<rparr>) of Inl _ \<Rightarrow> [] | Inr b \<Rightarrow> b)"

definition no_collision :: "codec \<Rightarrow> DecisionTrace list \<Rightarrow> DecisionTrace list \<Rightarrow> bool" where
  "no_collision cd ts us \<longleftrightarrow>
     (\<forall>t\<in>set ts. \<forall>u\<in>set us.
        cd_sha256 cd (hash_input cd t) = cd_sha256 cd (hash_input cd u) \<longrightarrow> hash_input cd t = hash_input cd u)"

lemma hash_commits:
  assumes "ComputeCanonicalTraceHash cd t = Inr (dt_TraceHash t)" "ComputeCanonicalTraceHash cd u = Inr (dt_TraceHash u)"
    "dt_TraceHash t = dt_TraceHash u"
    "cd_sha256 cd (hash_input cd t) = cd_sha256 cd (hash_input cd u) \<longrightarrow> hash_input cd t = hash_input cd u"
    "dt_CanonicalVersion t = ''v2''" "valid_trace t" "valid_trace u"
  shows "u = take_rounded (take_uncommitted t u) u"
proof -
  let ?t = "t \<lparr> dt_TraceHash := [] \<rparr>" and ?u = "u \<lparr> dt_TraceHash := [] \<rparr>"
  obtain b c where b: "CanonicalTraceBytes (cd_sort cd) ?t = Inr b" "dt_TraceHash t = ''sha256:'' @ cd_sha256 cd b"
    and c: "CanonicalTraceBytes (cd_sort cd) ?u = Inr c" "dt_TraceHash u = ''sha256:'' @ cd_sha256 cd c"
    using assms(1,2) by (auto simp: ComputeCanonicalTraceHash_def split: sum.splits)
  with assms(3,4) have "b = c" by (simp add: hash_input_def)
  moreover have "valid_trace ?t" "valid_trace ?u"
    using assms(6,7) by (simp_all add: valid_trace_def trace_texts_def valid_text_def)
  ultimately have "?u = take_rounded (take_uncommitted ?t ?u) ?u"
    using b(1) c(1) assms(5) by (intro canonical_bytes_inj) simp_all
  then have "?u \<lparr> dt_TraceHash := dt_TraceHash u \<rparr> =
      (take_rounded (take_uncommitted ?t ?u) ?u) \<lparr> dt_TraceHash := dt_TraceHash u \<rparr>" by simp
  then show ?thesis using assms(3) by (cases t; cases u) (simp add: take_rounded_def take_uncommitted_def)
qed

lemma committed_prev:
  assumes "u = take_rounded (take_uncommitted t u) u"
  shows "dt_PreviousTraceHash u = dt_PreviousTraceHash t"
  by (subst assms) (simp add: take_rounded_def take_uncommitted_def)

lemma tamper_evidence:
  assumes "intact_chain cd ts" "intact_chain cd us" "tail_from [] ts = tail_from [] us"
    "no_collision cd ts us" "\<forall>t\<in>set ts. dt_CanonicalVersion t = ''v2''" "\<forall>t\<in>set (ts @ us). valid_trace t"
  shows "list_all2 (\<lambda>t u. u = take_rounded (take_uncommitted t u) u) ts us"
  using assms
proof (induction ts arbitrary: us rule: rev_induct)
  case Nil
  show ?case
  proof (cases us rule: rev_cases)
    case (snoc us' u)
    with Nil(2) have "ComputeCanonicalTraceHash cd u = Inr (dt_TraceHash u)"
      by (simp add: intact_chain_def chain_from_append)
    with Nil(3) snoc sha_nonempty show ?thesis by fastforce
  qed simp
next
  case (snoc t ts)
  have t: "ComputeCanonicalTraceHash cd t = Inr (dt_TraceHash t)" "dt_PreviousTraceHash t = tail_from [] ts"
    "intact_chain cd ts"
    using snoc(2) by (simp_all add: intact_chain_def chain_from_append)
  show ?case
  proof (cases us rule: rev_cases)
    case Nil
    with snoc(4) t(1) sha_nonempty show ?thesis by fastforce
  next
    case us: (snoc us' u)
    have u: "ComputeCanonicalTraceHash cd u = Inr (dt_TraceHash u)" "dt_PreviousTraceHash u = tail_from [] us'"
      "intact_chain cd us'"
      using snoc(3) us by (simp_all add: intact_chain_def chain_from_append)
    have same: "u = take_rounded (take_uncommitted t u) u"
      using snoc(4-7) t(1) u(1) us by (intro hash_commits) (auto simp: no_collision_def)
    then have "dt_PreviousTraceHash u = dt_PreviousTraceHash t" by (rule committed_prev)
    with snoc.IH [OF t(3) u(3)] snoc(5-7) t(2) u(2) us
    have "list_all2 (\<lambda>t u. u = take_rounded (take_uncommitted t u) u) ts us'"
      by (auto simp: no_collision_def)
    with same us show ?thesis by (simp add: list_all2_appendI)
  qed
qed

text \<open>A record as a writer links it to the chain: the current version, the tail of the chain and the
  hash of the result.\<close>

definition link_trace :: "codec \<Rightarrow> string \<Rightarrow> DecisionTrace \<Rightarrow> audit_error + DecisionTrace" where
  "link_trace cd lastHash t =
     (let t = t \<lparr> dt_CanonicalVersion := CanonicalTraceVersion, dt_PreviousTraceHash := lastHash \<rparr>
      in case ComputeCanonicalTraceHash cd t of
           Inl e \<Rightarrow> Inl e
         | Inr h \<Rightarrow> Inr (t \<lparr> dt_TraceHash := h \<rparr>))"

lemma link_trace_Inr:
  assumes "link_trace cd prev t = Inr u"
  shows "dt_CanonicalVersion u = CanonicalTraceVersion" "dt_PreviousTraceHash u = prev"
    "ComputeCanonicalTraceHash cd u = Inr (dt_TraceHash u)"
    "u = t \<lparr> dt_CanonicalVersion := CanonicalTraceVersion, dt_PreviousTraceHash := prev, dt_TraceHash := dt_TraceHash u \<rparr>"
  using assms by (auto simp: link_trace_def ComputeCanonicalTraceHash_def Let_def split: sum.splits)

lemma link_trace_extends:
  "intact_chain cd ts \<Longrightarrow> link_trace cd (tail_from [] ts) t = Inr u \<Longrightarrow> intact_chain cd (ts @ [u])"
  using link_trace_Inr [of cd "tail_from [] ts" t u] by (intro intact_chain_snoc) auto

section \<open>Samples\<close>

definition sample_sha :: "string \<Rightarrow> string" where
  "sample_sha b = replicate 63 CHR ''0'' @ [if even (length b) then CHR ''0'' else CHR ''1'']"

lemma sample_digest: "validReceiptSHA256 (''sha256:'' @ sample_sha b)" "valid_text (''sha256:'' @ sample_sha b)"
proof -
  let ?d = "\<lambda>c. ''sha256:'' @ replicate 63 CHR ''0'' @ [c]"
  have "validReceiptSHA256 (?d CHR ''0'')" "validReceiptSHA256 (?d CHR ''1'')"
    "valid_text (?d CHR ''0'')" "valid_text (?d CHR ''1'')" by code_simp+
  then show "validReceiptSHA256 (''sha256:'' @ sample_sha b)" "valid_text (''sha256:'' @ sample_sha b)"
    by (simp_all only: sample_sha_def split: if_split) simp_all
qed

definition sample_trace :: DecisionTrace where
  "sample_trace = \<lparr> dt_TraceID = ''trc-1'', dt_Timestamp = ''2026-01-02T03:04:05Z'', dt_OrgID = ''org'',
     dt_EnvelopeID = ''env-1'', dt_AgentID = ''agent'', dt_AgentVersion = [], dt_SessionID = ''s'',
     dt_TurnNumber = 1, dt_ToolName = ''refund'', dt_ToolGroup = [], dt_Amount = f64_of_int 40,
     dt_AmountParseStatus = ''ok'', dt_Decision = ''denied'', dt_ActionTaken = ''denied'',
     dt_DecisionReason = ''over cap'', dt_Mode = ''enforcement'', dt_PoliciesMatched = 1, dt_RulesEvaluated = 1,
     dt_RulesTriggered = 1, dt_RuleResults = [], dt_AppliedRuleResults = [], dt_PrimaryCitation = None,
     dt_AppliedPrimaryCitation = None, dt_SuggestedResponse = [], dt_IsNearMiss = False,
     dt_EscalationID = None, dt_EscalatedTo = [], dt_EscalatedAt = None, dt_ResolvedAt = None,
     dt_Resolution = [], dt_CanonicalVersion = ''v2'', dt_TraceHash = [], dt_PreviousTraceHash = [],
     dt_SignedBy = [], dt_EngineVersion = ''1.0'', dt_PolicySetHash = ''sha256:'' @ replicate 64 CHR ''0'',
     dt_SchemaVersion = ''v2'', dt_ParametersRedacted = [], dt_ContextSnapshot = RawNil,
     dt_EvaluationDurationMs = 0, dt_AgentTokensIn = 0, dt_AgentTokensOut = 0, dt_AgentLLMCostUSD = 0,
     dt_DeepEvalResult = None \<rparr>"

text \<open>The sample decoder knows the line \<open>1\<close>, which stands for the linked sample record.\<close>

definition sample_linked :: "codec \<Rightarrow> DecisionTrace" where
  "sample_linked cd = (case link_trace cd [] sample_trace of Inl _ \<Rightarrow> sample_trace | Inr t \<Rightarrow> t)"

definition sample_codec :: codec where
  "sample_codec = \<lparr> cd_sha256 = sample_sha, cd_sort = id, cd_time = show_int, cd_zero_time = - 1,
     cd_marshal = (\<lambda>t. json_encode True (canonicalTraceV2 t)), cd_record_type = (\<lambda>l. Some []),
     cd_trace = (\<lambda>l. None), cd_checkpoint = (\<lambda>l. None) \<rparr>"

lemma sample_bytes: "CanonicalTraceBytes srt sample_trace = Inr (json_encode False (canonicalTraceV2 sample_trace))"
  unfolding CanonicalTraceBytes_def
proof -
  have "effectiveCanonicalTraceVersion sample_trace = canonicalTraceVersionV2" "canonicalTraceVersionV2 \<noteq> canonicalTraceVersionV1"
    "dt_SchemaVersion sample_trace = canonicalTraceVersionV2" "validateTraceProvenance sample_trace = None"
    by code_simp+
  then show "(let version = effectiveCanonicalTraceVersion sample_trace in
      if version = canonicalTraceVersionV1 then
        (if \<not> v1_fields_only sample_trace then Inl V2FieldsInV1 else Inr (json_encode False (canonicalTraceV1 srt sample_trace)))
      else if version = canonicalTraceVersionV2 then
        (if dt_SchemaVersion sample_trace \<noteq> canonicalTraceVersionV2 then Inl SchemaVersionRequired
         else case validateTraceProvenance sample_trace of
             Some e \<Rightarrow> Inl e | None \<Rightarrow> Inr (json_encode False (canonicalTraceV2 sample_trace)))
      else Inl (UnsupportedVersion version)) = Inr (json_encode False (canonicalTraceV2 sample_trace))"
    by simp
qed

lemma sample_link: "link_trace cd [] sample_trace = Inr (sample_linked cd)"
proof -
  have "sample_trace \<lparr> dt_CanonicalVersion := CanonicalTraceVersion, dt_PreviousTraceHash := [] \<rparr> = sample_trace"
    "sample_trace \<lparr> dt_TraceHash := [] \<rparr> = sample_trace"
    by (simp_all add: sample_trace_def CanonicalTraceVersion_def canonicalTraceVersionV2_def)
  then show ?thesis
    by (simp add: sample_linked_def link_trace_def ComputeCanonicalTraceHash_def sample_bytes split: sum.splits)
qed

lemma sample_valid: "valid_trace sample_trace"
  by code_simp

section \<open>Properties\<close>

text \<open>C37: the streaming verifier and the session verifier accept the same logs. A stream is reported
  intact exactly if every line that is not blank is a trace record and the session verifier finds
  no error in the list of these records.\<close>

theorem verifiers_agree:
  "sr_Intact (VerifyChainFromReader cd content) \<longleftrightarrow>
     (case stream_traces cd content of
        None \<Rightarrow> False
      | Some ts \<Rightarrow> vr_Valid (VerifySession cd ts))"
  by (auto simp: verify_chain_exact(1) VerifySession_def session_errors_Nil intact_chain_def split: option.splits)


text \<open>A receipt is issued only for a trace whose stored hash is the recomputed one, and its
  members are those of the trace.\<close>

theorem receipt_binds_trace:
  assumes "NewDecisionReceipt cd t = Some r"
  shows "ComputeCanonicalTraceHash cd t = Inr (dt_TraceHash t) \<and> dr_TraceHash r = dt_TraceHash t \<and>
    dr_TraceID r = dt_TraceID t \<and> dr_Decision r = dt_Decision t \<and> dr_ActionTaken r = dt_ActionTaken t \<and>
    dr_Timestamp r = dt_Timestamp t \<and> dr_CanonicalTraceVersion r = effectiveCanonicalTraceVersion t"
  using assms
  by (auto simp: NewDecisionReceipt_def VerifyCanonicalTraceHash_def Let_def split: if_splits sum.splits)

section \<open>Witnesses\<close>

definition sample_edited :: "codec \<Rightarrow> DecisionTrace" where
  "sample_edited cd = (sample_linked cd) \<lparr> dt_Resolution := ''approved'' \<rparr>"

lemma sample_linked_simps:
  "dt_TraceHash (sample_linked cd) = ''sha256:'' @ cd_sha256 cd (json_encode False (canonicalTraceV2 sample_trace))"
  "sample_linked cd = sample_trace \<lparr> dt_TraceHash := dt_TraceHash (sample_linked cd) \<rparr>"
proof -
  have unhash: "sample_trace \<lparr> dt_CanonicalVersion := CanonicalTraceVersion, dt_PreviousTraceHash := [] \<rparr> = sample_trace"
    "sample_trace \<lparr> dt_TraceHash := [] \<rparr> = sample_trace"
    by (simp_all add: sample_trace_def CanonicalTraceVersion_def canonicalTraceVersionV2_def)
  then show "dt_TraceHash (sample_linked cd) = ''sha256:'' @ cd_sha256 cd (json_encode False (canonicalTraceV2 sample_trace))"
    "sample_linked cd = sample_trace \<lparr> dt_TraceHash := dt_TraceHash (sample_linked cd) \<rparr>"
    by (simp_all add: sample_linked_def link_trace_def ComputeCanonicalTraceHash_def sample_bytes)
qed

lemma sample_chain: "intact_chain cd [sample_linked cd]"
  using link_trace_extends [of cd "[]"] sample_link [of cd] by (simp add: intact_chain_def)

lemma edited_free: "sample_edited cd = take_uncommitted (sample_linked cd) (sample_edited cd)"
  "(sample_edited cd) \<lparr> dt_TraceHash := [] \<rparr> = take_uncommitted ((sample_linked cd) \<lparr> dt_TraceHash := [] \<rparr>) (sample_edited cd)"
  by (simp_all add: sample_edited_def take_uncommitted_def)

lemma edited_hash: "ComputeCanonicalTraceHash cd (sample_edited cd) = ComputeCanonicalTraceHash cd (sample_linked cd)"
  "hash_input cd (sample_edited cd) = hash_input cd (sample_linked cd)"
  unfolding ComputeCanonicalTraceHash_def hash_input_def edited_free(2) bytes_free by simp_all

lemma edited_chain: "intact_chain cd [sample_edited cd]"
proof -
  have "effectiveCanonicalTraceVersion (sample_edited cd) = effectiveCanonicalTraceVersion (sample_linked cd)"
    "dt_PreviousTraceHash (sample_edited cd) = dt_PreviousTraceHash (sample_linked cd)"
    "dt_TraceHash (sample_edited cd) = dt_TraceHash (sample_linked cd)"
    by (simp_all add: sample_edited_def effectiveCanonicalTraceVersion_def)
  with sample_chain [of cd] edited_hash(1) [of cd] show ?thesis by (simp add: intact_chain_def)
qed

lemma sample_linked_valid: "valid_trace (sample_linked sample_codec)" "valid_trace (sample_edited sample_codec)"
  "dt_CanonicalVersion (sample_linked sample_codec) = ''v2''"
proof -
  have h: "valid_text (dt_TraceHash (sample_linked sample_codec))"
    using sample_digest(2) by (simp add: sample_linked_simps(1) sample_codec_def)
  have "valid_trace (sample_trace \<lparr> dt_TraceHash := h \<rparr>)" if "valid_text h" for h
    using sample_valid that by (simp add: valid_trace_def trace_texts_def)
  from this [OF h] show v: "valid_trace (sample_linked sample_codec)"
    by (subst sample_linked_simps(2))
  then show "valid_trace (sample_edited sample_codec)"
    by (simp add: sample_edited_def valid_trace_def trace_texts_def)
  show "dt_CanonicalVersion (sample_linked sample_codec) = ''v2''"
    by (subst sample_linked_simps(2)) (simp add: sample_trace_def)
qed

lemma intact_valid: "vr_Valid (VerifySession cd ts) \<longleftrightarrow> intact_chain cd ts"
  by (simp only: VerifySession_def session_errors_Nil intact_chain_def Let_def VerificationResult.simps)

lemma edited_members:
  "dt_TraceHash (sample_edited cd) = dt_TraceHash (sample_linked cd)"
  "dt_Resolution (sample_edited cd) = ''approved''" "dt_Resolution (sample_linked cd) = []"
  by (simp add: sample_edited_def, simp add: sample_edited_def, subst sample_linked_simps(2), simp add: sample_trace_def)


lemma canonical_bytes_commit_witness:
  "sample_trace \<lparr> dt_Resolution := ''approved'' \<rparr> =
     take_rounded (take_uncommitted sample_trace (sample_trace \<lparr> dt_Resolution := ''approved'' \<rparr>))
       (sample_trace \<lparr> dt_Resolution := ''approved'' \<rparr>)"
proof (rule canonical_bytes_commit [OF sample_bytes])
  have "sample_trace \<lparr> dt_Resolution := ''approved'' \<rparr> =
      take_uncommitted sample_trace (sample_trace \<lparr> dt_Resolution := ''approved'' \<rparr>)"
    by (simp add: take_uncommitted_def sample_trace_def)
  then show "CanonicalTraceBytes id (sample_trace \<lparr> dt_Resolution := ''approved'' \<rparr>) =
      Inr (json_encode False (canonicalTraceV2 sample_trace))"
    using bytes_free [of id sample_trace] sample_bytes [of id] by metis
  show "dt_CanonicalVersion sample_trace = ''v2''" by (simp add: sample_trace_def)
  show "valid_trace sample_trace" by (rule sample_valid)
  then show "valid_trace (sample_trace \<lparr> dt_Resolution := ''approved'' \<rparr>)"
    by (simp add: valid_trace_def trace_texts_def)
qed

definition sample_receipt :: DecisionReceipt where
  "sample_receipt = \<lparr> dr_ReceiptVersion = ''1'', dr_TraceID = ''trc-1'',
     dr_TraceHash = dt_TraceHash (sample_linked sample_codec), dr_HashAlgorithm = ''sha256'',
     dr_CanonicalTraceVersion = ''v2'', dr_IntegrityModel = ''hash-chain'', dr_Decision = ''denied'',
     dr_ActionTaken = ''denied'', dr_Timestamp = ''2026-01-02T03:04:05Z'', dr_Issuer = [],
     dr_ReceiptURI = ''urn:tool-guard:trace:v2:'' @ dt_TraceHash (sample_linked sample_codec) \<rparr>"

lemma receipt_binds_trace_witness:
  "ComputeCanonicalTraceHash sample_codec (sample_linked sample_codec) = Inr (dr_TraceHash sample_receipt)"
proof -
  let ?t = "sample_linked sample_codec"
  have hash: "ComputeCanonicalTraceHash sample_codec ?t = Inr (dt_TraceHash ?t)"
    using sample_link link_trace_Inr(3) by blast
  have shape: "validReceiptSHA256 (dt_TraceHash ?t)" 
    using sample_digest(1) by (simp add: sample_linked_simps(1) sample_codec_def)
  have m: "dt_TraceID ?t = ''trc-1''" "dt_Timestamp ?t = ''2026-01-02T03:04:05Z''" "dt_Decision ?t = ''denied''"
    "dt_ActionTaken ?t = ''denied''" "dt_SignedBy ?t = []" "dt_CanonicalVersion ?t = ''v2''"
    by (subst sample_linked_simps(2), simp add: sample_trace_def)+
  have z: "TrimSpace ''trc-1'' \<noteq> []" "cd_time sample_codec (cd_zero_time sample_codec) = ''-1''" by code_simp+
  have "NewDecisionReceipt sample_codec ?t = Some sample_receipt"
    using hash shape z
    by (simp add: NewDecisionReceipt_def VerifyCanonicalTraceHash_def m effectiveCanonicalTraceVersion_def
        canonicalTraceVersionV1_def canonicalTraceVersionV2_def CanonicalTraceVersion_def sample_receipt_def Let_def)
  from receipt_binds_trace [OF this] hash show ?thesis by (simp add: sample_receipt_def)
qed

end
