(* ===== verification/Audit_Writer.thy ===== *)
theory Audit_Writer
  imports Audit_Chain "HOL-Library.Multiset"
begin

text \<open>
  The audit writer of the proxy (\<open>cmd/tg-proxy/audit_chain.go\<close>): opening a log, appending a linked
  record, rotating the active file, rolling a failed write back, and the sticky poisoned state; with
  the rotation set of \<open>pkg/audit/rotation.go\<close>.

  The directory of the log is part of the state. Every system call whose outcome the code tests is
  a member of the record \<open>append_io\<close>, \<open>rotate_io\<close> or \<open>open_io\<close>, so that a theorem over all values of
  these records covers every pattern of faults.
\<close>

section \<open>The rotation set\<close>

datatype dirent = Regular string | Directory

type_synonym directory = "(string \<times> dirent) list"

definition file_bytes :: "directory \<Rightarrow> string \<Rightarrow> string option" where
  "file_bytes d name = (case map_of d name of Some (Regular c) \<Rightarrow> Some c | _ \<Rightarrow> None)"

definition candidate :: "string \<Rightarrow> int \<Rightarrow> string" where
  "candidate base i = base @ ''.'' @ show_int i"

definition member_index :: "string \<Rightarrow> string \<Rightarrow> int option" where
  "member_index base name = (if HasPrefix name (base @ ''.'') then Atoi (drop (Suc (length base)) name) else None)"

definition rotated :: "bool \<Rightarrow> string \<Rightarrow> directory \<Rightarrow> (int \<times> string) list" where
  "rotated skipDirs base d =
     List.map_filter (\<lambda>(name, e). if skipDirs \<and> e = Directory then None
       else map_option (\<lambda>i. (i, name)) (member_index base name)) d"

text \<open>Two names with the same index (\<open>log.1\<close> and \<open>log.01\<close>) come in the order of the listing;
  the theorems are about sets without them.\<close>

definition RotationSetOldestFirst :: "bool \<Rightarrow> string \<Rightarrow> directory \<Rightarrow> string list option" where
  "RotationSetOldestFirst listed base d =
     (if \<not> listed then None
      else let out = map snd (sort_key fst (rotated True base d)) @ (if map_of d base = None then [] else [base])
           in if out = [] then None else Some out)"

definition auditCandidatesNewestFirst :: "bool \<Rightarrow> string \<Rightarrow> directory \<Rightarrow> string list" where
  "auditCandidatesNewestFirst listed base d =
     base # (if \<not> listed then [] else map snd (sort_key (\<lambda>x. - fst x) (rotated False base d)))"

section \<open>State\<close>

text \<open>The values \<open>stampTraceProvenance\<close> reads; the last two are the results of
  \<open>policyload.PolicySetHash\<close> and \<open>resolvedEngineVersion\<close>.\<close>

record provenance =
  pv_engineVersion :: string
  pv_policySetHash :: string
  pv_computedHash :: "string option"
  pv_resolvedVersion :: string

datatype stamp_error = StampNoHash | StampInvalid audit_error

definition stampTraceProvenance :: "provenance \<Rightarrow> string \<Rightarrow> DecisionTrace \<Rightarrow> stamp_error + DecisionTrace" where
  "stampTraceProvenance pv policySetHash t =
     (let hash = (if policySetHash \<noteq> [] then Some policySetHash
                  else if pv_policySetHash pv \<noteq> [] then Some (pv_policySetHash pv) else pv_computedHash pv);
          version = (if pv_engineVersion pv = [] then pv_resolvedVersion pv else pv_engineVersion pv)
      in case hash of
           None \<Rightarrow> Inl StampNoHash
         | Some h \<Rightarrow> (case StampProvenance version h t of Inl e \<Rightarrow> Inl (StampInvalid e) | Inr t \<Rightarrow> Inr t))"

datatype rotate_error =
    RotUnconfigured | RotSync
  | RotClose | RotRename | RotOverflow | RotOpen | RotSyncNew | RotSyncDir

definition rotation_uncertain :: "rotate_error \<Rightarrow> bool" where
  "rotation_uncertain e \<longleftrightarrow> e \<noteq> RotUnconfigured \<and> e \<noteq> RotSync"

datatype rollback_error = RbTruncate | RbSync | RbStat | RbSize nat

datatype poison_reason =
    PreRotation rotate_error
  | PartialWrite nat nat nat rollback_error
  | UnsyncedWrite rollback_error

text \<open>The descriptor is the name of the file it is open on, \<open>None\<close> once closed.\<close>

record audit_writer =
  aw_base :: string
  aw_dir :: directory
  aw_handle :: "string option"
  aw_lastHash :: string
  aw_needsSeparator :: bool
  aw_poisoned :: bool
  aw_poisonReason :: "poison_reason option"
  aw_appendSeq :: int
  aw_currentBytes :: nat
  aw_provenance :: provenance
  aw_rotateBytes :: int
  aw_syncMode :: string
  aw_syncEvery :: int
  aw_rotationConfigured :: bool

definition set_file :: "string \<Rightarrow> string \<Rightarrow> audit_writer \<Rightarrow> audit_writer" where
  "set_file name c w = w \<lparr> aw_dir := AList.update name (Regular c) (aw_dir w) \<rparr>"

definition handle_bytes :: "audit_writer \<Rightarrow> string option" where
  "handle_bytes w = (case aw_handle w of None \<Rightarrow> None | Some n \<Rightarrow> file_bytes (aw_dir w) n)"

text \<open>\<open>openDiskAuditLog\<close>: append mode, the file is created when absent; a directory does not open.\<close>

definition openDiskAuditLog :: "bool \<Rightarrow> string \<Rightarrow> audit_writer \<Rightarrow> audit_writer option" where
  "openDiskAuditLog ok name w =
     (if \<not> ok then None
      else case map_of (aw_dir w) name of
          Some Directory \<Rightarrow> None
        | Some (Regular _) \<Rightarrow> Some (w \<lparr> aw_handle := Some name \<rparr>)
        | None \<Rightarrow> Some ((set_file name [] w) \<lparr> aw_handle := Some name \<rparr>))"

section \<open>Poisoning\<close>

text \<open>An error of an append. \<open>PoisonedWriter\<close> is what \<open>auditPoisonErrorLocked\<close> returns, and
  \<open>Indeterminate\<close> the join of \<open>errAuditStateIndeterminate\<close> with it and, if the flag is set, with
  \<open>errAuditRecordCommitted\<close>.\<close>

datatype append_error =
    StampFailed stamp_error
  | PoisonedWriter "poison_reason option"
  | CanonicalHashFailed audit_error
  | RecordOversize
  | StatFailed
  | RotateFailed rotate_error
  | StatNewFailed
  | WriteRolledBack nat nat
  | SyncRolledBack
  | Indeterminate "poison_reason option" bool

fun is_poisoned_error :: "append_error \<Rightarrow> bool" where
  "is_poisoned_error (PoisonedWriter _) = True"
| "is_poisoned_error (Indeterminate _ _) = True"
| "is_poisoned_error _ = False"

fun is_indeterminate_error :: "append_error \<Rightarrow> bool" where
  "is_indeterminate_error (Indeterminate _ _) = True"
| "is_indeterminate_error _ = False"

fun is_committed_error :: "append_error \<Rightarrow> bool" where
  "is_committed_error (Indeterminate _ complete) = complete"
| "is_committed_error _ = False"

text \<open>The first reason wins.\<close>

definition poison :: "poison_reason \<Rightarrow> audit_writer \<Rightarrow> audit_writer" where
  "poison reason w = (if aw_poisoned w then w else w \<lparr> aw_poisoned := True, aw_poisonReason := Some reason \<rparr>)"

definition poisonAuditLocked :: "poison_reason \<Rightarrow> audit_writer \<Rightarrow> append_error \<times> audit_writer" where
  "poisonAuditLocked reason w = (PoisonedWriter (aw_poisonReason (poison reason w)), poison reason w)"

definition poisonIndeterminateAuditLocked ::
  "poison_reason \<Rightarrow> bool \<Rightarrow> audit_writer \<Rightarrow> append_error \<times> audit_writer" where
  "poisonIndeterminateAuditLocked reason recordComplete w =
     (Indeterminate (aw_poisonReason (poison reason w)) recordComplete, poison reason w)"

definition poisonCommittedAuditLocked :: "rollback_error \<Rightarrow> audit_writer \<Rightarrow> append_error \<times> audit_writer" where
  "poisonCommittedAuditLocked e w = poisonIndeterminateAuditLocked (UnsyncedWrite e) True w"

section \<open>Rotation\<close>

record rotate_io =
  ri_sync :: bool
  ri_close :: bool
  ri_rename :: bool
  ri_open :: bool
  ri_reopen :: bool
  ri_reopenStat :: bool
  ri_syncNew :: bool
  ri_syncDir :: bool

definition max_rotations :: int where
  "max_rotations = 1048576"

text \<open>The loop over the candidate names; \<open>None\<close> is the overflow of the index.\<close>

function free_index :: "directory \<Rightarrow> string \<Rightarrow> int \<Rightarrow> int option" where
  "free_index d base idx =
     (if max_rotations < idx then None
      else if map_of d (candidate base idx) = None then Some idx
      else free_index d base (idx + 1))"
  by pat_completeness auto
termination
  by (relation "measure (\<lambda>(d, base, idx). nat (max_rotations + 1 - idx))") (auto simp: max_rotations_def)

declare free_index.simps [simp del]

text \<open>\<open>reopenAuditLocked\<close> and \<open>reopenRotatedLocked\<close>: a failed re-open leaves the closed descriptor.\<close>

definition reopen :: "rotate_io \<Rightarrow> string \<Rightarrow> audit_writer \<Rightarrow> audit_writer" where
  "reopen io name w =
     (case openDiskAuditLog (ri_reopen io) name w of
        None \<Rightarrow> w
      | Some w \<Rightarrow>
          (if ri_reopenStat io
           then (case handle_bytes w of Some c \<Rightarrow> w \<lparr> aw_currentBytes := length c \<rparr> | None \<Rightarrow> w)
           else w))"

definition rename_active :: "string \<Rightarrow> audit_writer \<Rightarrow> audit_writer" where
  "rename_active target w =
     (case map_of (aw_dir w) (aw_base w) of
        None \<Rightarrow> w
      | Some e \<Rightarrow> w \<lparr> aw_dir := AList.update target e (AList.delete (aw_base w) (aw_dir w)) \<rparr>)"

definition rotateAuditLocked :: "rotate_io \<Rightarrow> audit_writer \<Rightarrow> rotate_error option \<times> audit_writer" where
  "rotateAuditLocked io w =
     (if \<not> aw_rotationConfigured w then (Some RotUnconfigured, w)
      else if \<not> ri_sync io then (Some RotSync, w)
      else if \<not> ri_close io then (Some RotClose, w)
      else
        let w = w \<lparr> aw_handle := None \<rparr> in
        case free_index (aw_dir w) (aw_base w) 1 of
          None \<Rightarrow> (Some RotOverflow, reopen io (aw_base w) w)
        | Some idx \<Rightarrow>
            (if \<not> ri_rename io then (Some RotRename, reopen io (aw_base w) w)
             else
               let w = rename_active (candidate (aw_base w) idx) w in
               case openDiskAuditLog (ri_open io) (aw_base w) w of
                 None \<Rightarrow> (Some RotOpen, reopen io (candidate (aw_base w) idx) w)
               | Some w \<Rightarrow>
                   (let w = w \<lparr> aw_currentBytes := 0 \<rparr> in
                    if \<not> ri_syncNew io then (Some RotSyncNew, w)
                    else if \<not> ri_syncDir io then (Some RotSyncDir, w)
                    else (None, w))))"

section \<open>Append\<close>

text \<open>\<open>ai_written\<close> is the number of bytes the write transfers, \<open>ai_rsize\<close> the size the check after
  a rollback reads, \<open>None\<close> if it fails.\<close>

record append_io =
  ai_stat :: bool
  ai_rotate :: rotate_io
  ai_statNew :: bool
  ai_written :: nat
  ai_writeOk :: bool
  ai_sync :: bool
  ai_truncate :: bool
  ai_rsync :: bool
  ai_rsize :: "nat option"

definition write_bytes :: "string \<Rightarrow> audit_writer \<Rightarrow> audit_writer" where
  "write_bytes b w =
     (case (aw_handle w, handle_bytes w) of (Some n, Some c) \<Rightarrow> set_file n (c @ b) w | _ \<Rightarrow> w)"

definition truncate_to :: "nat \<Rightarrow> audit_writer \<Rightarrow> audit_writer" where
  "truncate_to k w =
     (case (aw_handle w, handle_bytes w) of (Some n, Some c) \<Rightarrow> set_file n (take k c) w | _ \<Rightarrow> w)"

definition rollbackAuditWriteLocked ::
  "append_io \<Rightarrow> nat \<Rightarrow> audit_writer \<Rightarrow> rollback_error option \<times> audit_writer" where
  "rollbackAuditWriteLocked io preWriteSize w =
     (if \<not> ai_truncate io then (Some RbTruncate, w)
      else
        let w = truncate_to preWriteSize w in
        if \<not> ai_rsync io then (Some RbSync, w)
        else case ai_rsize io of
            None \<Rightarrow> (Some RbStat, w)
          | Some n \<Rightarrow> (if n \<noteq> preWriteSize then (Some (RbSize n), w) else (None, w)))"

definition stat_size :: "bool \<Rightarrow> audit_writer \<Rightarrow> nat option" where
  "stat_size ok w = (if ok then map_option length (handle_bytes w) else None)"

text \<open>From the write of the record on, on a file of \<open>pre\<close> bytes.\<close>

definition write_record ::
  "append_io \<Rightarrow> bool \<Rightarrow> string \<Rightarrow> string \<Rightarrow> nat \<Rightarrow> audit_writer \<Rightarrow> append_error option \<times> audit_writer" where
  "write_record io forceDurable hash raw pre w =
     (let rec = (if aw_needsSeparator w then [CHR 0x0A] else []) @ raw @ [CHR 0x0A];
          n = min (ai_written io) (length rec);
          w1 = write_bytes (take n rec) w
      in if \<not> ai_writeOk io \<or> n \<noteq> length rec then
           (case rollbackAuditWriteLocked io pre w1 of
              (Some e, w2) \<Rightarrow> map_prod Some id
                (poisonIndeterminateAuditLocked (PartialWrite n (length rec) pre e) (n = length rec) w2)
            | (None, w2) \<Rightarrow> (Some (WriteRolledBack n (length rec)), w2 \<lparr> aw_currentBytes := pre \<rparr>))
         else
           let w1 = w1 \<lparr> aw_currentBytes := pre + length rec, aw_appendSeq := aw_appendSeq w1 + 1,
                       aw_needsSeparator := False, aw_lastHash := hash \<rparr>;
               shouldSync = (forceDurable \<or> aw_syncMode w1 = ''every'' \<or>
                 aw_syncMode w1 = ''interval'' \<and> aw_appendSeq w1 mod aw_syncEvery w1 = 0)
           in if shouldSync \<and> \<not> ai_sync io then
                (case rollbackAuditWriteLocked io pre w1 of
                   (Some e, w2) \<Rightarrow> map_prod Some id (poisonCommittedAuditLocked e w2)
                 | (None, w2) \<Rightarrow> (Some SyncRolledBack, w2 \<lparr> aw_lastHash := aw_lastHash w, aw_currentBytes := pre,
                     aw_appendSeq := aw_appendSeq w, aw_needsSeparator := aw_needsSeparator w \<rparr>))
              else (None, w1))"

text \<open>The defensive stamp of a record that carries no provenance.\<close>

definition ensure_provenance :: "audit_writer \<Rightarrow> DecisionTrace \<Rightarrow> stamp_error + DecisionTrace" where
  "ensure_provenance w t =
     (if dt_SchemaVersion t = [] \<and> dt_EngineVersion t = [] \<and> dt_PolicySetHash t = []
      then stampTraceProvenance (aw_provenance w) [] t else Inr t)"

definition appendTraceWithDurability ::
  "codec \<Rightarrow> append_io \<Rightarrow> bool \<Rightarrow> DecisionTrace \<Rightarrow> audit_writer \<Rightarrow> append_error option \<times> DecisionTrace \<times> audit_writer" where
  "appendTraceWithDurability cd io forceDurable t0 w =
     (case ensure_provenance w t0 of
        Inl e \<Rightarrow> (Some (StampFailed e), t0, w)
      | Inr t1 \<Rightarrow>
          (if aw_poisoned w then (Some (PoisonedWriter (aw_poisonReason w)), t1, w)
           else
             case link_trace cd (aw_lastHash w) t1 of
               Inl e \<Rightarrow> (Some (CanonicalHashFailed e),
                 t1 \<lparr> dt_CanonicalVersion := CanonicalTraceVersion, dt_PreviousTraceHash := aw_lastHash w \<rparr>, w)
             | Inr t \<Rightarrow>
                 (case MarshalTraceRecord cd t of
                    None \<Rightarrow> (Some RecordOversize, t, w)
                  | Some raw \<Rightarrow>
                      (case stat_size (ai_stat io) w of
                         None \<Rightarrow> (Some StatFailed, t, w)
                       | Some sz \<Rightarrow>
                           (let recordBytes = int (length raw) + 1 + (if aw_needsSeparator w then 1 else 0) in
                            if 0 < aw_rotateBytes w \<and> 0 < sz \<and> aw_rotateBytes w \<le> int sz + recordBytes then
                              (case rotateAuditLocked (ai_rotate io) w of
                                 (Some e, w1) \<Rightarrow>
                                   (if rotation_uncertain e
                                    then (let (err, w2) = poisonAuditLocked (PreRotation e) w1 in (Some err, t, w2))
                                    else (Some (RotateFailed e), t, w1))
                               | (None, w1) \<Rightarrow>
                                   (case stat_size (ai_statNew io) w1 of
                                      None \<Rightarrow> (Some StatNewFailed, t, w1)
                                    | Some sz1 \<Rightarrow>
                                        (let (err, w2) = write_record io forceDurable (dt_TraceHash t) raw sz1 w1
                                         in (err, t, w2))))
                            else
                              (let (err, w2) = write_record io forceDurable (dt_TraceHash t) raw sz w
                               in (err, t, w2)))))))"

definition appendTrace ::
  "codec \<Rightarrow> append_io \<Rightarrow> DecisionTrace \<Rightarrow> audit_writer \<Rightarrow> append_error option \<times> DecisionTrace \<times> audit_writer" where
  "appendTrace cd io t w = appendTraceWithDurability cd io False t w"

definition appendTraceDurable ::
  "codec \<Rightarrow> append_io \<Rightarrow> DecisionTrace \<Rightarrow> audit_writer \<Rightarrow> append_error option \<times> DecisionTrace \<times> audit_writer" where
  "appendTraceDurable cd io t w = appendTraceWithDurability cd io True t w"

section \<open>Opening\<close>

text \<open>\<open>oi_read\<close> tells which files can be read.\<close>

record open_io =
  oi_mkdir :: bool
  oi_list :: bool
  oi_read :: "string \<Rightarrow> bool"
  oi_open :: bool
  oi_stat :: bool

datatype open_error =
    OpenMkdir | TailOpen | TailScan | TailTooLarge | TailUnparseable
  | TailHash audit_error | TailMismatch
  | VerifyList | VerifyOpen | VerifyRead | VerifyPruned | VerifyBroken StreamReport
  | OpenActive

fun scan_tail :: "codec \<Rightarrow> string option list \<Rightarrow> DecisionTrace option \<Rightarrow> open_error + DecisionTrace option" where
  "scan_tail cd [] found = Inr found"
| "scan_tail cd (None # ls) found = Inl TailScan"
| "scan_tail cd (Some raw # ls) found =
     (if MaxTraceRecordBytes < length raw then Inl TailTooLarge
      else if raw = [] then scan_tail cd ls found
      else case cd_trace cd raw of
          None \<Rightarrow> Inl TailUnparseable
        | Some t \<Rightarrow> scan_tail cd ls (Some t))"

fun recover_from ::
  "codec \<Rightarrow> (string \<Rightarrow> bool) \<Rightarrow> directory \<Rightarrow> string list \<Rightarrow> open_error + (DecisionTrace \<times> bool) option" where
  "recover_from cd readable d [] = Inr None"
| "recover_from cd readable d (name # names) =
     (case map_of d name of
        None \<Rightarrow> recover_from cd readable d names
      | Some Directory \<Rightarrow> Inl TailScan
      | Some (Regular c) \<Rightarrow>
          (if \<not> readable name then Inl TailOpen
           else case scan_tail cd (scan_lines c) None of
               Inl e \<Rightarrow> Inl e
             | Inr (Some t) \<Rightarrow> Inr (Some (t, NeedsRecordSeparator c))
             | Inr None \<Rightarrow> recover_from cd readable d names))"

definition recoverAuditTail ::
  "codec \<Rightarrow> open_io \<Rightarrow> string \<Rightarrow> directory \<Rightarrow> open_error + (DecisionTrace \<times> bool) option" where
  "recoverAuditTail cd io base d =
     recover_from cd (oi_read io) d (auditCandidatesNewestFirst (oi_list io) base d)"

definition verifyFullAuditChain :: "codec \<Rightarrow> open_io \<Rightarrow> string \<Rightarrow> directory \<Rightarrow> open_error option" where
  "verifyFullAuditChain cd io base d =
     (case RotationSetOldestFirst (oi_list io) base d of
        None \<Rightarrow> Some VerifyList
      | Some names \<Rightarrow>
          (if \<not> list_all (oi_read io) names then Some VerifyOpen
           else case those (map (file_bytes d) names) of
               None \<Rightarrow> Some VerifyRead
             | Some cs \<Rightarrow>
                 (let rep = VerifyChainFromReader cd (concat cs) in
                  if sr_Pruned rep then Some VerifyPruned
                  else if \<not> sr_Intact rep then Some (VerifyBroken rep)
                  else None)))"

definition openAuditLog :: "codec \<Rightarrow> open_io \<Rightarrow> audit_writer \<Rightarrow> open_error option \<times> audit_writer" where
  "openAuditLog cd io w0 =
     (let w = w0 \<lparr> aw_lastHash := [], aw_needsSeparator := False \<rparr>;
          base = aw_base w;
          open_active = (\<lambda>w. case openDiskAuditLog (oi_open io) base w of
              None \<Rightarrow> (Some OpenActive, w)
            | Some w \<Rightarrow> (None, (case handle_bytes w of
                  Some c \<Rightarrow> if oi_stat io then w \<lparr> aw_currentBytes := length c \<rparr> else w
                | None \<Rightarrow> w)))
      in if \<not> oi_mkdir io then (Some OpenMkdir, w)
         else case recoverAuditTail cd io base (aw_dir w) of
             Inl e \<Rightarrow> (Some e, w)
           | Inr None \<Rightarrow> open_active w
           | Inr (Some (t, needsSeparator)) \<Rightarrow>
               (case ComputeCanonicalTraceHash cd t of
                  Inl e \<Rightarrow> (Some (TailHash e), w)
                | Inr want \<Rightarrow>
                    (if dt_TraceHash t \<noteq> want then (Some TailMismatch, w)
                     else case verifyFullAuditChain cd io base (aw_dir w) of
                         Some e \<Rightarrow> (Some e, w)
                       | None \<Rightarrow> open_active (w \<lparr> aw_lastHash := dt_TraceHash t,
                                                aw_needsSeparator := needsSeparator \<rparr>))))"

section \<open>The rotation set of a numbered directory\<close>

lemma Atoi_show_int: "0 \<le> i \<Longrightarrow> i < 2 ^ 63 \<Longrightarrow> Atoi (show_int i) = Some i"
proof -
  assume i: "0 \<le> i" "i < 2 ^ 63"
  obtain c cs where ds: "int_digits i = c # cs" "is_digit c" "list_all is_digit cs"
    using int_digits_chars [OF i(1)] by (cases "int_digits i") auto
  have "c \<noteq> CHR ''-''" "c \<noteq> CHR ''+''" using ds(2) by (auto simp: is_digit_def byte_def)
  moreover have "digits_val 0 (c # cs) = i" using digits_val_int_digits [OF i(1)] ds(1) by simp
  ultimately show ?thesis using i ds by (simp add: Atoi_def show_int_def all_digits_def)
qed

lemma member_index_candidate: "0 \<le> i \<Longrightarrow> i < 2 ^ 63 \<Longrightarrow> member_index base (candidate base i) = Some i"
proof -
  assume i: "0 \<le> i" "i < 2 ^ 63"
  have "candidate base i = (base @ ''.'') @ show_int i" by (simp add: candidate_def)
  then have "HasPrefix (candidate base i) (base @ ''.'')" "drop (Suc (length base)) (candidate base i) = show_int i"
    by (simp_all only: HasPrefix_append) simp
  then show ?thesis using Atoi_show_int [OF i] by (simp add: member_index_def)
qed

lemma member_index_base [simp]: "member_index base base = None"
  by (simp add: member_index_def HasPrefix_def)

text \<open>The files \<open>log.1\<close> to \<open>log.n\<close>, and no other name that counts as a member.\<close>

definition numbered :: "string \<Rightarrow> int \<Rightarrow> (int \<times> string) list" where
  "numbered base n = map (\<lambda>i. (i, candidate base i)) [1..n]"

definition members_ok :: "int \<Rightarrow> string \<Rightarrow> directory \<Rightarrow> bool" where
  "members_ok n base d \<longleftrightarrow> 0 \<le> n \<and> n \<le> max_rotations \<and> distinct (map fst d) \<and>
     sort_key fst (rotated False base d) = numbered base n \<and>
     (\<forall>i\<in>{1..n}. file_bytes d (candidate base i) \<noteq> None)"

definition contiguous :: "int \<Rightarrow> string \<Rightarrow> directory \<Rightarrow> bool" where
  "contiguous n base d \<longleftrightarrow> members_ok n base d \<and> file_bytes d base \<noteq> None"

text \<open>The contents of the files in chain order, and the stream they make.\<close>

definition contents :: "string \<Rightarrow> directory \<Rightarrow> string list" where
  "contents base d =
     (case RotationSetOldestFirst True base d of
        None \<Rightarrow> [] | Some names \<Rightarrow> map (\<lambda>n. case file_bytes d n of Some c \<Rightarrow> c | None \<Rightarrow> []) names)"

definition member_bytes :: "int \<Rightarrow> string \<Rightarrow> directory \<Rightarrow> string list" where
  "member_bytes n base d = map (\<lambda>i. the (file_bytes d (candidate base i))) [1..n]"

lemma sort_key_snoc:
  assumes "sort_key f xs = ys" "\<forall>y\<in>set ys. f y < f x"
  shows "sort_key f (xs @ [x]) = ys @ [x]"
proof (rule properties_for_sort_key)
  have ys: "mset ys = mset xs" "sorted (map f ys)" "\<And>k. filter (\<lambda>y. f y = k) ys = filter (\<lambda>y. f y = k) xs"
    using assms(1) sort_key_stable [of f _ xs] by (auto simp flip: assms(1))
  show "mset (ys @ [x]) = mset (xs @ [x])" using ys(1) by simp
  show "sorted (map f (ys @ [x]))" using ys(2) assms(2) by (auto simp: sorted_append intro: less_imp_le)
  show "filter (\<lambda>y. f k = f y) (ys @ [x]) = filter (\<lambda>y. f k = f y) (xs @ [x])" for k
    using ys(3) [of "f k"] by (simp add: eq_commute)
qed

lemma rotated_append: "rotated sd base (d @ d') = rotated sd base d @ rotated sd base d'"
  by (simp add: rotated_def map_filter_def)

lemma rotated_Nil [simp]: "rotated sd base [] = []"
  by (simp add: rotated_def map_filter_def)

lemma rotated_Cons [simp]: "rotated sd base ((name, e) # d) =
    (if sd \<and> e = Directory then [] else case member_index base name of None \<Rightarrow> [] | Some i \<Rightarrow> [(i, name)]) @ rotated sd base d"
  by (simp add: rotated_def map_filter_def split: option.splits)

lemma rotated_update_base [simp]: "rotated sd base (AList.update base e d) = rotated sd base d"
  by (induction d) auto

lemma rotated_delete_base [simp]: "rotated sd base (AList.delete base d) = rotated sd base d"
  by (induction d) (auto simp: AList.delete_eq)

lemma update_fresh: "map_of d k = None \<Longrightarrow> AList.update k v d = d @ [(k, v)]"
  by (induction d) (auto split: if_splits)

lemma in_rotated: "(i, name) \<in> set (rotated False base d) \<longleftrightarrow> member_index base name = Some i \<and> name \<in> fst ` set d"
  by (force simp: rotated_def map_filter_def)

lemma numbered_set: "(i, name) \<in> set (numbered base n) \<longleftrightarrow> 1 \<le> i \<and> i \<le> n \<and> name = candidate base i"
  by (auto simp: numbered_def)

lemma members_iff:
  assumes "members_ok n base d" "name \<in> fst ` set d"
  shows "member_index base name = Some i \<longleftrightarrow> 1 \<le> i \<and> i \<le> n \<and> name = candidate base i"
proof -
  have "set (rotated False base d) = set (numbered base n)"
    using assms(1) unfolding members_ok_def by (metis set_sort)
  then show ?thesis using in_rotated [of i name base d] numbered_set [of i name base n] assms(2) by auto
qed

lemma rotated_skip:
  "\<forall>name. (name, Directory) \<in> set d \<longrightarrow> member_index base name = None \<Longrightarrow> rotated True base d = rotated False base d"
  by (induction d) (auto split: option.splits)

lemma rotated_no_dirs: "members_ok n base d \<Longrightarrow> rotated True base d = rotated False base d"
proof (rule rotated_skip, intro allI impI)
  fix name assume ok: "members_ok n base d" and dir: "(name, Directory) \<in> set d"
  show "member_index base name = None"
  proof (cases "member_index base name")
    case (Some i)
    with dir members_iff [OF ok, of name i] have i: "i \<in> {1..n}" "name = candidate base i" by force+
    have "map_of d name = Some Directory" using ok dir by (simp add: members_ok_def)
    then have "file_bytes d name = None" by (simp add: file_bytes_def)
    moreover from ok i(1) have "file_bytes d (candidate base i) \<noteq> None" by (simp only: members_ok_def) blast
    ultimately show ?thesis using i(2) by simp
  qed simp
qed

lemma RotationSet_numbered:
  "members_ok n base d \<Longrightarrow> RotationSetOldestFirst True base d =
     (let out = map (candidate base) [1..n] @ (if map_of d base = None then [] else [base])
      in if out = [] then None else Some out)"
  using rotated_no_dirs [of n base d]
  by (simp add: RotationSetOldestFirst_def members_ok_def numbered_def comp_def)

lemma contents_numbered:
  "members_ok n base d \<Longrightarrow> contents base d =
     member_bytes n base d @ (if map_of d base = None then [] else [case file_bytes d base of Some c \<Rightarrow> c | None \<Rightarrow> []])"
  unfolding contents_def RotationSet_numbered Let_def
  by (auto simp: member_bytes_def members_ok_def split: option.splits)

lemma candidate_inj: "0 \<le> i \<Longrightarrow> i < 2 ^ 63 \<Longrightarrow> 0 \<le> j \<Longrightarrow> j < 2 ^ 63 \<Longrightarrow> candidate base i = candidate base j \<longleftrightarrow> i = j"
  by (metis member_index_candidate option.inject)

lemma candidate_not_base [simp]: "candidate base i \<noteq> base" "base \<noteq> candidate base i"
  by (simp_all add: candidate_def)

lemma next_candidate_free:
  assumes "members_ok n base d" "n < max_rotations"
  shows "map_of d (candidate base (n + 1)) = None"
proof (rule ccontr)
  assume "\<not> ?thesis"
  then have "candidate base (n + 1) \<in> fst ` set d" by (metis map_of_eq_None_iff)
  from members_iff [OF assms(1) this, of "n + 1"] member_index_candidate [of "n + 1" base] assms
  show False by (simp add: members_ok_def max_rotations_def)
qed

lemma free_index_first:
  assumes "idx \<le> j" "j \<le> max_rotations" "\<forall>i. idx \<le> i \<and> i < j \<longrightarrow> map_of d (candidate base i) \<noteq> None"
    "map_of d (candidate base j) = None"
  shows "free_index d base idx = Some j"
  using assms
proof (induction d base idx rule: free_index.induct)
  case (1 d base idx)
  show ?case
  proof (cases "idx = j")
    case True
    with 1(3,5) show ?thesis by (subst free_index.simps) simp
  next
    case False
    with 1 have "map_of d (candidate base idx) \<noteq> None" "\<not> max_rotations < idx" by auto
    with 1 False show ?thesis by (subst free_index.simps) auto
  qed
qed

lemma free_index_none:
  assumes "\<forall>i. idx \<le> i \<and> i \<le> max_rotations \<longrightarrow> map_of d (candidate base i) \<noteq> None"
  shows "free_index d base idx = None"
  using assms
proof (induction d base idx rule: free_index.induct)
  case (1 d base idx)
  then show ?case by (subst free_index.simps) auto
qed

lemma free_index_numbered:
  assumes "members_ok n base d"
  shows "free_index d base 1 = (if n < max_rotations then Some (n + 1) else None)"
proof -
  have m: "map_of d (candidate base i) \<noteq> None" if "1 \<le> i" "i \<le> n" for i
    using assms that by (auto simp: members_ok_def file_bytes_def split: option.splits)
  show ?thesis
    using assms next_candidate_free [OF assms] m
    by (auto simp: members_ok_def intro!: free_index_first free_index_none)
qed

lemma contents_contiguous:
  "contiguous n base d \<Longrightarrow> contents base d = member_bytes n base d @ [the (file_bytes d base)]"
  using contents_numbered [of n base d]
  by (auto simp: contiguous_def file_bytes_def split: option.splits dirent.splits)

lemma file_bytes_update: "file_bytes (AList.update name (Regular c) d) m = (if m = name then Some c else file_bytes d m)"
  by (simp add: file_bytes_def update_conv')

lemma file_bytes_delete: "m \<noteq> name \<Longrightarrow> file_bytes (AList.delete name d) m = file_bytes d m"
  by (simp add: file_bytes_def delete_conv')

lemma update_same: "map_of d k = Some v \<Longrightarrow> AList.update k v d = d"
  by (induction d) (auto split: if_splits)

lemma file_bytes_Some: "file_bytes d name = Some c \<longleftrightarrow> map_of d name = Some (Regular c)"
  by (auto simp: file_bytes_def split: option.splits dirent.splits)

text \<open>Replacing the active file.\<close>

lemma set_active:
  assumes "contiguous n base d"
  shows "contiguous n base (AList.update base (Regular c) d)"
    "contents base (AList.update base (Regular c) d) = member_bytes n base d @ [c]"
proof -
  have m: "member_bytes n base (AList.update base (Regular c) d) = member_bytes n base d"
    by (simp add: member_bytes_def file_bytes_update)
  show ok: "contiguous n base (AList.update base (Regular c) d)"
    using assms by (simp add: contiguous_def members_ok_def file_bytes_update distinct_update)
  show "contents base (AList.update base (Regular c) d) = member_bytes n base d @ [c]"
    using contents_contiguous [OF ok] m by (simp add: file_bytes_update)
qed

text \<open>Renaming the active file to the next member.\<close>

lemma rename_active_members:
  assumes "contiguous n base d" "n < max_rotations" "file_bytes d base = Some c"
    and d1: "d1 = AList.update (candidate base (n + 1)) (Regular c) (AList.delete base d)"
  shows "members_ok (n + 1) base d1" "map_of d1 base = None"
    "member_bytes (n + 1) base d1 = member_bytes n base d @ [c]"
proof -
  have ok: "members_ok n base d" and n: "0 \<le> n" using assms(1) by (simp_all add: contiguous_def members_ok_def)
  have fresh: "map_of (AList.delete base d) (candidate base (n + 1)) = None"
    using next_candidate_free [OF ok assms(2)] by (simp add: delete_conv')
  have d1': "d1 = AList.delete base d @ [(candidate base (n + 1), Regular c)]"
    unfolding d1 by (rule update_fresh [OF fresh])
  have idx: "member_index base (candidate base (n + 1)) = Some (n + 1)"
    using n assms(2) by (intro member_index_candidate) (simp_all add: max_rotations_def)
  have upto: "[1..n + 1] = [1..n] @ [n + 1]" using n by (simp add: upto_rec2)
  have "sort_key fst (rotated False base d1) = numbered base n @ [(n + 1, candidate base (n + 1))]"
    unfolding d1' rotated_append using ok idx
    by (simp, intro sort_key_snoc) (auto simp: members_ok_def numbered_def)
  then have sorted: "sort_key fst (rotated False base d1) = numbered base (n + 1)"
    using upto by (simp add: numbered_def)
  have bytes: "file_bytes d1 (candidate base i) = (if i = n + 1 then Some c else file_bytes d (candidate base i))"
    if "1 \<le> i" "i \<le> n + 1" for i
    unfolding d1 using that assms(2) candidate_inj [of i "n + 1" base] n
    by (simp add: file_bytes_update file_bytes_delete max_rotations_def)
  show "members_ok (n + 1) base d1"
    using ok assms(2) sorted bytes unfolding members_ok_def
    by (auto simp: d1 distinct_update distinct_delete)
  show "map_of d1 base = None" by (simp add: d1 update_conv' delete_conv')
  show "member_bytes (n + 1) base d1 = member_bytes n base d @ [c]"
    using bytes bytes [of "n + 1"] n by (simp add: member_bytes_def upto)
qed

lemma open_new_active:
  assumes "members_ok n base d" "map_of d base = None"
  shows "contiguous n base (AList.update base (Regular []) d)"
    "contents base (AList.update base (Regular []) d) = member_bytes n base d @ [[]]"
proof -
  have m: "member_bytes n base (AList.update base (Regular []) d) = member_bytes n base d"
    by (simp add: member_bytes_def file_bytes_update)
  show ok: "contiguous n base (AList.update base (Regular []) d)"
    using assms by (simp add: contiguous_def members_ok_def file_bytes_update distinct_update)
  show "contents base (AList.update base (Regular []) d) = member_bytes n base d @ [[]]"
    using contents_contiguous [OF ok] m by (simp add: file_bytes_update)
qed

section \<open>What rotating and writing do\<close>

definition log_bytes :: "audit_writer \<Rightarrow> string" where
  "log_bytes w = concat (contents (aw_base w) (aw_dir w))"

text \<open>Only the directory, the descriptor and the byte counter change.\<close>

definition same_state :: "audit_writer \<Rightarrow> audit_writer \<Rightarrow> bool" where
  "same_state w w' \<longleftrightarrow> w' = w \<lparr> aw_dir := aw_dir w', aw_handle := aw_handle w', aw_currentBytes := aw_currentBytes w' \<rparr>"

lemma same_state_simps:
  assumes "same_state w w'"
  shows "aw_base w' = aw_base w" "aw_lastHash w' = aw_lastHash w" "aw_needsSeparator w' = aw_needsSeparator w"
    "aw_poisoned w' = aw_poisoned w" "aw_poisonReason w' = aw_poisonReason w" "aw_appendSeq w' = aw_appendSeq w"
    "aw_provenance w' = aw_provenance w" "aw_rotateBytes w' = aw_rotateBytes w" "aw_syncMode w' = aw_syncMode w"
    "aw_syncEvery w' = aw_syncEvery w" "aw_rotationConfigured w' = aw_rotationConfigured w"
  by (subst assms [unfolded same_state_def], simp)+

lemma openDisk_regular:
  "map_of (aw_dir w) name = Some (Regular c) \<Longrightarrow>
     openDiskAuditLog ok name w = (if ok then Some (w \<lparr> aw_handle := Some name \<rparr>) else None)"
  by (simp add: openDiskAuditLog_def)

lemma reopen_regular:
  assumes "map_of (aw_dir w) name = Some (Regular c)"
  shows "aw_dir (reopen io name w) = aw_dir w" "same_state w (reopen io name w)"
    "aw_base (reopen io name w) = aw_base w"
  using assms by (auto simp: reopen_def openDisk_regular same_state_def split: option.splits)

definition rotation_result :: "int \<Rightarrow> audit_writer \<Rightarrow> rotate_error option \<times> audit_writer \<Rightarrow> bool" where
  "rotation_result n w res \<longleftrightarrow> (case res of
     (None, w') \<Rightarrow> same_state w w' \<and> aw_handle w' = Some (aw_base w) \<and> contiguous (n + 1) (aw_base w) (aw_dir w') \<and>
       contents (aw_base w) (aw_dir w') = contents (aw_base w) (aw_dir w) @ [[]]
   | (Some e, w') \<Rightarrow> if rotation_uncertain e then same_state w w' \<and> log_bytes w' = log_bytes w else w' = w)"

lemma rotate_spec:
  assumes "contiguous n (aw_base w) (aw_dir w)"
  shows "rotation_result n w (rotateAuditLocked io w)"
proof -
  let ?b = "aw_base w" and ?w0 = "w \<lparr> aw_handle := None \<rparr>"
  obtain c where c: "file_bytes (aw_dir w) ?b = Some c" and ok: "members_ok n ?b (aw_dir w)"
    using assms by (auto simp: contiguous_def)
  have reg: "map_of (aw_dir w) ?b = Some (Regular c)" using c by (simp add: file_bytes_Some)
  have reopened: "same_state w (reopen io ?b ?w0)" "aw_dir (reopen io ?b ?w0) = aw_dir w"
    using reopen_regular [of ?w0 ?b c io] reg by (auto simp: same_state_def)
  then have kept: "log_bytes (reopen io ?b ?w0) = log_bytes w"
    by (simp add: log_bytes_def same_state_simps)
  let ?cand = "candidate ?b (n + 1)"
  let ?d1 = "AList.update ?cand (Regular c) (AList.delete ?b (aw_dir w))"
  let ?w1 = "w \<lparr> aw_handle := None, aw_dir := ?d1 \<rparr>"
  have renamed: "rename_active ?cand ?w0 = ?w1" by (simp add: rename_active_def reg)
  show ?thesis
  proof (cases "n < max_rotations")
    case False
    then show ?thesis
      using free_index_numbered [OF ok] reopened kept
      by (auto simp: rotateAuditLocked_def rotation_result_def rotation_uncertain_def same_state_def)
  next
    case True
    note d1 = rename_active_members [OF assms True c refl]
    have d1_bytes: "contents ?b ?d1 = contents ?b (aw_dir w)"
      using contents_numbered [OF d1(1)] contents_contiguous [OF assms] d1(2,3) c by simp
    note new = open_new_active [OF d1(1,2)]
    have cand: "map_of ?d1 ?cand = Some (Regular c)" by (simp add: update_conv')
    have moved: "same_state w (reopen io ?cand ?w1)" "log_bytes (reopen io ?cand ?w1) = log_bytes w"
      using reopen_regular [of ?w1 ?cand c io] cand d1_bytes
      by (simp_all add: same_state_def log_bytes_def)
    let ?w2 = "w \<lparr> aw_handle := Some ?b, aw_dir := AList.update ?b (Regular []) ?d1, aw_currentBytes := 0 \<rparr>"
    have opened: "openDiskAuditLog k ?b ?w1 =
        (if k then Some (w \<lparr> aw_handle := Some ?b, aw_dir := AList.update ?b (Regular []) ?d1 \<rparr>) else None)" for k
      using d1(2) by (simp add: openDiskAuditLog_def set_file_def)
    have "contents ?b (AList.update ?b (Regular []) ?d1) = contents ?b (aw_dir w) @ [[]]"
      using new(2) d1(3) contents_contiguous [OF assms] c by simp
    then have "same_state w ?w2" "log_bytes ?w2 = log_bytes w"
      "contents ?b (aw_dir ?w2) = contents ?b (aw_dir w) @ [[]]" "contiguous (n + 1) ?b (aw_dir ?w2)"
      using new(1) by (simp_all add: same_state_def log_bytes_def)
    then show ?thesis
      using free_index_numbered [OF ok] True reopened kept moved
      by (auto simp: rotateAuditLocked_def rotation_result_def rotation_uncertain_def renamed opened Let_def
          same_state_def)
  qed
qed

lemma update_twice [simp]: "AList.update name e (AList.update name e' d) = AList.update name e d"
  by (induction d) auto

lemma set_file_simps [simp]:
  "set_file name c (set_file name c' w) = set_file name c w"
  "aw_base (set_file name c w) = aw_base w" "aw_handle (set_file name c w) = aw_handle w"
  "aw_poisoned (set_file name c w) = aw_poisoned w"
  "aw_dir (set_file name c w) = AList.update name (Regular c) (aw_dir w)"
  by (simp_all add: set_file_def)

lemma write_bytes_active:
  "aw_handle w = Some name \<Longrightarrow> file_bytes (aw_dir w) name = Some c \<Longrightarrow> write_bytes b w = set_file name (c @ b) w"
  by (simp add: write_bytes_def handle_bytes_def)

lemma rollback_spec:
  assumes "aw_handle w = Some name" "file_bytes (aw_dir w) name = Some (c @ x)"
  shows "case rollbackAuditWriteLocked io (length c) w of
      (None, w') \<Rightarrow> w' = set_file name c w
    | (Some e, w') \<Rightarrow> w' = w \<or> w' = set_file name c w"
  using assms by (auto simp: rollbackAuditWriteLocked_def truncate_to_def handle_bytes_def Let_def split: option.splits)

definition record_bytes :: "bool \<Rightarrow> string \<Rightarrow> string" where
  "record_bytes sep raw = (if sep then [CHR 0x0A] else []) @ raw @ [CHR 0x0A]"

text \<open>What is left in the active file by a write that poisons the writer: a part of the record, the
  whole of it only under the committed error.\<close>

definition torn_write :: "string \<Rightarrow> string \<Rightarrow> append_error \<Rightarrow> audit_writer \<Rightarrow> audit_writer \<Rightarrow> bool" where
  "torn_write c rec e w w' \<longleftrightarrow> aw_poisoned w' \<and> aw_base w' = aw_base w \<and>
     (\<exists>k\<le>length rec. aw_dir w' = AList.update (aw_base w) (Regular (c @ take k rec)) (aw_dir w) \<and>
        (k = length rec \<longrightarrow> is_committed_error e))"

lemma write_spec:
  assumes "aw_handle w = Some (aw_base w)" "file_bytes (aw_dir w) (aw_base w) = Some c" "\<not> aw_poisoned w"
  shows "case write_record io force hash raw (length c) w of
      (None, w') \<Rightarrow> w' = w \<lparr> aw_dir := AList.update (aw_base w) (Regular (c @ record_bytes (aw_needsSeparator w) raw)) (aw_dir w),
          aw_currentBytes := aw_currentBytes w', aw_appendSeq := aw_appendSeq w + 1, aw_needsSeparator := False, aw_lastHash := hash \<rparr>
    | (Some e, w') \<Rightarrow>
        if is_poisoned_error e then torn_write c (record_bytes (aw_needsSeparator w) raw) e w w'
        else w' = w \<lparr> aw_currentBytes := aw_currentBytes w' \<rparr>"
proof -
  let ?b = "aw_base w" and ?rec = "record_bytes (aw_needsSeparator w) raw"
  define k where "k = min (ai_written io) (length ?rec)"
  define w1 where "w1 = set_file ?b (c @ take k ?rec) w"
  have undo: "set_file ?b c w = w" using assms(2) by (simp add: set_file_def update_same file_bytes_Some)
  have k: "k \<le> length ?rec" by (simp add: k_def)
  have written: "write_bytes (take k ?rec) w = w1" using assms by (simp add: w1_def write_bytes_active)
  have rec: "record_bytes (aw_needsSeparator w) raw \<noteq> []" by (simp add: record_bytes_def)
  have torn: "torn_write c ?rec e w w'"
    if "w2 = w1 \<or> w2 = set_file ?b c w1" "aw_dir w' = aw_dir w2" "aw_poisoned w'" "aw_base w' = ?b"
      "k = length ?rec \<longrightarrow> is_committed_error e" for w2 w' e
  proof -
    have "AList.update ?b (Regular c) (aw_dir w) = AList.update ?b (Regular (c @ take 0 ?rec)) (aw_dir w)" by simp
    then have "\<exists>j\<le>length ?rec. aw_dir w' = AList.update ?b (Regular (c @ take j ?rec)) (aw_dir w) \<and>
        (j = length ?rec \<longrightarrow> is_committed_error e)"
      using that k rec unfolding w1_def by (metis le0 length_0_conv set_file_simps(1,5))
    with that show ?thesis by (simp add: torn_write_def)
  qed
  show ?thesis
  proof (cases "\<not> ai_writeOk io \<or> k \<noteq> length ?rec")
    case True
    obtain r w2 where rb: "rollbackAuditWriteLocked io (length c) w1 = (r, w2)" by fastforce
    with rollback_spec [of w1 ?b c "take k ?rec" io] assms
    have w2: "case r of None \<Rightarrow> w2 = w | Some e \<Rightarrow> w2 = w1 \<or> w2 = set_file ?b c w1"
      by (auto simp: w1_def file_bytes_update undo split: option.splits)
    show ?thesis
    proof (cases r)
      case None
      then show ?thesis using True rb w2 written assms(3)
        unfolding write_record_def Let_def record_bytes_def [symmetric] k_def [symmetric] by simp
    next
      case (Some e)
      with w2 assms(3) have p: "\<not> aw_poisoned w2" "aw_base w2 = ?b" by (auto simp: w1_def)
      show ?thesis using True rb w2 written Some p
        unfolding write_record_def Let_def record_bytes_def [symmetric] k_def [symmetric]
        by (auto simp: poisonIndeterminateAuditLocked_def poison_def intro!: torn [of w2])
    qed
  next
    case False
    let ?w3 = "w1 \<lparr> aw_currentBytes := length c + length ?rec, aw_appendSeq := aw_appendSeq w1 + 1,
        aw_needsSeparator := False, aw_lastHash := hash \<rparr>"
    have full: "w1 = set_file ?b (c @ ?rec) w" using False by (simp add: w1_def)
    obtain r w2 where rb: "rollbackAuditWriteLocked io (length c) ?w3 = (r, w2)" by fastforce
    with rollback_spec [of ?w3 ?b c "?rec" io] assms
    have w2: "case r of None \<Rightarrow> w2 = set_file ?b c ?w3 | Some e \<Rightarrow> w2 = ?w3 \<or> w2 = set_file ?b c ?w3"
      by (auto simp: full file_bytes_update split: option.splits)
    have same: "AList.update ?b (Regular c) (aw_dir w) = aw_dir w"
      using assms(2) by (simp add: update_same file_bytes_Some)
    then have restored: "(set_file ?b c ?w3) \<lparr> aw_lastHash := aw_lastHash w, aw_currentBytes := x,
        aw_appendSeq := aw_appendSeq w, aw_needsSeparator := aw_needsSeparator w \<rparr> = w \<lparr> aw_currentBytes := x \<rparr>" for x
      by (simp add: full set_file_def)
    let ?sync = "force \<or> aw_syncMode ?w3 = ''every'' \<or>
        aw_syncMode ?w3 = ''interval'' \<and> aw_appendSeq ?w3 mod aw_syncEvery ?w3 = 0"
    have res: "write_record io force hash raw (length c) w =
        (if ?sync \<and> \<not> ai_sync io then
           (case rollbackAuditWriteLocked io (length c) ?w3 of
              (Some e, w2) \<Rightarrow> map_prod Some id (poisonCommittedAuditLocked e w2)
            | (None, w2) \<Rightarrow> (Some SyncRolledBack, w2 \<lparr> aw_lastHash := aw_lastHash w, aw_currentBytes := length c,
                aw_appendSeq := aw_appendSeq w, aw_needsSeparator := aw_needsSeparator w \<rparr>))
         else (None, ?w3))"
      using False written unfolding write_record_def Let_def record_bytes_def [symmetric] k_def [symmetric] by simp
    show ?thesis
    proof (cases "?sync \<and> \<not> ai_sync io")
      case False
      show ?thesis unfolding res if_not_P [OF False] by (simp add: full set_file_def)
    next
      case True
      show ?thesis
      proof (cases r)
        case None
        with w2 have "w2 = set_file ?b c ?w3" by simp
        with rb None restored show ?thesis unfolding res if_P [OF True] by simp
      next
        case (Some e)
        with w2 assms(3) have p: "\<not> aw_poisoned w2" "aw_base w2 = ?b" "aw_dir w2 = aw_dir w1 \<or> aw_dir w2 = aw_dir (set_file ?b c w1)"
          by (auto simp: full)
        then have "torn_write c ?rec (Indeterminate x True) w (poison y w2)" for x y
          by (intro torn [of "if aw_dir w2 = aw_dir w1 then w1 else set_file ?b c w1"]) (auto simp: poison_def)
        with rb Some show ?thesis unfolding res if_P [OF True]
          by (simp add: poisonCommittedAuditLocked_def poisonIndeterminateAuditLocked_def)
      qed
    qed
  qed
qed

section \<open>The effect of an append\<close>

text \<open>The writer is in order: its descriptor is on the active file of a numbered set.\<close>

definition writer_shape :: "audit_writer \<Rightarrow> bool" where
  "writer_shape w \<longleftrightarrow>
     \<not> aw_poisoned w \<and> aw_handle w = Some (aw_base w) \<and> (\<exists>n. contiguous n (aw_base w) (aw_dir w))"

definition file_list :: "audit_writer \<Rightarrow> string list" where
  "file_list w = contents (aw_base w) (aw_dir w)"

lemma log_bytes_files: "log_bytes w = concat (file_list w)"
  by (simp add: log_bytes_def file_list_def)

text \<open>Bytes added to the last file, or to a new one after it.\<close>

definition extends_last :: "string list \<Rightarrow> string \<Rightarrow> string list \<Rightarrow> bool" where
  "extends_last cs x cs' \<longleftrightarrow> (\<exists>ds c. cs = ds @ [c] \<and> cs' = ds @ [c @ x])"

definition grows :: "string list \<Rightarrow> string \<Rightarrow> string list \<Rightarrow> bool" where
  "grows cs x cs' \<longleftrightarrow> cs' = cs @ [x] \<or> extends_last cs x cs'"

lemma grows_concat: "grows cs x cs' \<Longrightarrow> concat cs' = concat cs @ x"
  by (auto simp: grows_def extends_last_def)

lemma extends_new_file: "extends_last (cs @ [[]]) x cs' \<Longrightarrow> grows cs x cs'"
  by (auto simp: grows_def extends_last_def)

text \<open>A part of the record, the whole of it only under the committed error.\<close>

definition torn_stream :: "string \<Rightarrow> string \<Rightarrow> string \<Rightarrow> append_error \<Rightarrow> bool" where
  "torn_stream before rec after e \<longleftrightarrow>
     (\<exists>k\<le>length rec. after = before @ take k rec \<and> (k = length rec \<longrightarrow> is_committed_error e))"

lemma torn_stream_same: "torn_stream a (record_bytes sep raw) a e"
  unfolding torn_stream_def by (intro exI [of _ 0]) (simp add: record_bytes_def)

definition written :: "audit_writer \<Rightarrow> string \<Rightarrow> DecisionTrace \<Rightarrow> audit_writer \<Rightarrow> bool" where
  "written w raw t w' \<longleftrightarrow> writer_shape w' \<and>
     grows (file_list w) (record_bytes (aw_needsSeparator w) raw) (file_list w') \<and>
     aw_lastHash w' = dt_TraceHash t \<and> \<not> aw_needsSeparator w'"

definition unchanged :: "audit_writer \<Rightarrow> audit_writer \<Rightarrow> bool" where
  "unchanged w w' \<longleftrightarrow> writer_shape w' \<and> (file_list w' = file_list w \<or> file_list w' = file_list w @ [[]]) \<and>
     aw_lastHash w' = aw_lastHash w \<and> aw_needsSeparator w' = aw_needsSeparator w"

definition torn :: "audit_writer \<Rightarrow> string \<Rightarrow> append_error \<Rightarrow> audit_writer \<Rightarrow> bool" where
  "torn w raw e w' \<longleftrightarrow> aw_poisoned w' \<and>
     torn_stream (log_bytes w) (record_bytes (aw_needsSeparator w) raw) (log_bytes w') e"

definition append_effect ::
  "codec \<Rightarrow> audit_writer \<Rightarrow> DecisionTrace \<Rightarrow> append_error option \<times> DecisionTrace \<times> audit_writer \<Rightarrow> bool" where
  "append_effect cd w t0 res \<longleftrightarrow> (case res of
     (None, t, w') \<Rightarrow> written w (cd_marshal cd t) t w' \<and> MarshalTraceRecord cd t = Some (cd_marshal cd t) \<and>
       (\<exists>t1. ensure_provenance w t0 = Inr t1 \<and> link_trace cd (aw_lastHash w) t1 = Inr t)
   | (Some e, t, w') \<Rightarrow> if is_poisoned_error e then torn w (cd_marshal cd t) e w' else unchanged w w')"

lemma shape_active:
  assumes "writer_shape w"
  obtains n c where "contiguous n (aw_base w) (aw_dir w)" "file_bytes (aw_dir w) (aw_base w) = Some c"
    "file_list w = member_bytes n (aw_base w) (aw_dir w) @ [c]"
  using assms contents_contiguous unfolding writer_shape_def contiguous_def file_list_def by fastforce

lemma write_effect:
  assumes shape: "writer_shape w" and sz: "stat_size k w = Some n"
  shows "case write_record io force (dt_TraceHash t) raw n w of
      (None, w') \<Rightarrow> written w raw t w' \<and>
        extends_last (file_list w) (record_bytes (aw_needsSeparator w) raw) (file_list w')
    | (Some e, w') \<Rightarrow> if is_poisoned_error e then torn w raw e w' else unchanged w w' \<and> file_list w' = file_list w"
proof -
  let ?rec = "record_bytes (aw_needsSeparator w) raw" and ?b = "aw_base w"
  obtain m c where active: "contiguous m ?b (aw_dir w)" "file_bytes (aw_dir w) ?b = Some c"
    "file_list w = member_bytes m ?b (aw_dir w) @ [c]"
    using shape_active [OF shape] by metis
  have h: "aw_handle w = Some ?b" "\<not> aw_poisoned w" using shape by (simp_all add: writer_shape_def)
  have n: "n = length c" using sz h active by (simp add: stat_size_def handle_bytes_def split: if_splits)
  note new = set_active [OF active(1)]
  obtain err w' where res: "write_record io force (dt_TraceHash t) raw n w = (err, w')" by fastforce
  note spec = write_spec [OF h(1) active(2) h(2), where io = io and force = force and hash = "dt_TraceHash t" and raw = raw,
      unfolded n [symmetric] res]
  show ?thesis
  proof (cases err)
    case None
    with spec have e: "w' = w \<lparr> aw_dir := AList.update ?b (Regular (c @ ?rec)) (aw_dir w),
        aw_currentBytes := aw_currentBytes w', aw_appendSeq := aw_appendSeq w + 1, aw_needsSeparator := False,
        aw_lastHash := dt_TraceHash t \<rparr>" by simp
    have w': "aw_dir w' = AList.update ?b (Regular (c @ ?rec)) (aw_dir w)" "aw_base w' = ?b"
      "aw_handle w' = Some ?b" "aw_lastHash w' = dt_TraceHash t" "\<not> aw_needsSeparator w'" "\<not> aw_poisoned w'"
      by (subst e, simp add: h)+
    have last: "extends_last (file_list w) ?rec (file_list w')"
      using active(3) new(2) w' by (auto simp: extends_last_def file_list_def)
    with w' new(1) have "written w raw t w'" by (auto simp: written_def writer_shape_def grows_def)
    with None last show ?thesis by (simp add: res)
  next
    case (Some e)
    show ?thesis
    proof (cases "is_poisoned_error e")
      case True
      with Some spec have "torn_write c ?rec e w w'" by simp
      then obtain j where j: "aw_poisoned w'" "j \<le> length ?rec" "j = length ?rec \<longrightarrow> is_committed_error e"
        "aw_dir w' = AList.update ?b (Regular (c @ take j ?rec)) (aw_dir w)" "aw_base w' = ?b"
        unfolding torn_write_def by blast
      have "log_bytes w' = log_bytes w @ take j ?rec"
        using active(3) new(2) j(4,5) by (simp add: log_bytes_files file_list_def)
      with j have "torn w raw e w'" unfolding torn_def torn_stream_def by blast
      with True Some show ?thesis by (simp add: res)
    next
      case False
      with Some spec have w': "w' = w \<lparr> aw_currentBytes := aw_currentBytes w' \<rparr>" by simp
      have "unchanged w w' \<and> file_list w' = file_list w"
        using shape by (subst (1 2) w') (simp add: unchanged_def writer_shape_def file_list_def)
      with False Some show ?thesis by (simp add: res)
    qed
  qed
qed

lemma rotated_shape:
  assumes "writer_shape w" "contiguous n (aw_base w) (aw_dir w)" "rotation_result n w (None, w')"
  shows "writer_shape w'" "file_list w' = file_list w @ [[]]" "aw_needsSeparator w' = aw_needsSeparator w"
    "aw_lastHash w' = aw_lastHash w"
  using assms by (auto simp: rotation_result_def same_state_simps writer_shape_def file_list_def)
lemma append_effect_holds:
  assumes shape: "writer_shape w"
  shows "append_effect cd w t0 (appendTraceWithDurability cd io forceDurable t0 w)"
proof -
  have free: "\<not> aw_poisoned w" using shape by (simp add: writer_shape_def)
  obtain n where n: "contiguous n (aw_base w) (aw_dir w)" using shape by (auto simp: writer_shape_def)
  have same: "append_effect cd w t0 (Some e, t, w)" if "\<not> is_poisoned_error e" for e t
    using that shape by (simp add: append_effect_def unchanged_def)
  show ?thesis
  proof (cases "ensure_provenance w t0")
    case (Inl e)
    then show ?thesis by (simp add: appendTraceWithDurability_def same)
  next
    case (Inr t1)
    note t1 = this
    show ?thesis
    proof (cases "link_trace cd (aw_lastHash w) t1")
      case (Inl e)
      then show ?thesis by (simp add: appendTraceWithDurability_def t1 free same)
    next
      case (Inr t)
      note t = this
      show ?thesis
      proof (cases "MarshalTraceRecord cd t")
        case None
        then show ?thesis by (simp add: appendTraceWithDurability_def t1 t free same)
      next
        case (Some raw)
        then have raw: "raw = cd_marshal cd t" by (auto simp: MarshalTraceRecord_def Let_def split: if_splits)
        have fin: "append_effect cd w t0 (None, t, w')" if "written w raw t w'" for w'
          using that raw Some t t1 by (simp add: append_effect_def)
        show ?thesis
        proof (cases "stat_size (ai_stat io) w")
          case None
          then show ?thesis by (simp add: appendTraceWithDurability_def t1 t Some free same)
        next
          case sz: (Some sz)
          let ?rotate = "0 < aw_rotateBytes w \<and> 0 < sz \<and> aw_rotateBytes w \<le> int sz +
              (int (length raw) + 1 + (if aw_needsSeparator w then 1 else 0))"
          obtain r w1 where rot: "rotateAuditLocked (ai_rotate io) w = (r, w1)" by fastforce
          note spec = rotate_spec [OF n, of "ai_rotate io", unfolded rot]
          show ?thesis
          proof (cases ?rotate)
            case False
            obtain err w' where res: "write_record io forceDurable (dt_TraceHash t) raw sz w = (err, w')" by fastforce
            note eff = write_effect [OF shape sz, where io = io and force = forceDurable and t = t and raw = raw, unfolded res]
            have "append_effect cd w t0 (err, t, w')"
              using eff fin raw by (cases err) (simp, auto simp: append_effect_def split: if_splits)
            then show ?thesis using False
              by (cases "aw_needsSeparator w") (auto simp: appendTraceWithDurability_def t1 t Some sz free res)
          next
            case rotate: True
            show ?thesis
            proof (cases r)
              case None
              note w1 = rotated_shape [OF shape n spec [unfolded None]]
              have log: "log_bytes w1 = log_bytes w" by (simp add: log_bytes_files w1(2))
              show ?thesis
              proof (cases "stat_size (ai_statNew io) w1")
                case none: None
                have "append_effect cd w t0 (Some StatNewFailed, t, w1)"
                  using w1 by (simp add: append_effect_def unchanged_def)
                then show ?thesis using rotate rot None none
                  by (simp add: appendTraceWithDurability_def t1 t Some sz free)
              next
                case sz1: (Some sz1)
                obtain err w' where res: "write_record io forceDurable (dt_TraceHash t) raw sz1 w1 = (err, w')" by fastforce
                note eff = write_effect [OF w1(1) sz1, where io = io and force = forceDurable and t = t and raw = raw, unfolded res]
                have "append_effect cd w t0 (err, t, w')"
                proof (cases err)
                  case None
                  with eff w1 have "written w raw t w'" by (auto simp: written_def intro: extends_new_file)
                  with None fin show ?thesis by simp
                next
                  case (Some e)
                  with eff w1 log raw show ?thesis
                    by (auto simp: append_effect_def torn_def unchanged_def split: if_splits)
                qed
                then show ?thesis using rotate rot None sz1
                  by (simp add: appendTraceWithDurability_def t1 t Some sz free res)
              qed
            next
              case e: (Some e)
              have "append_effect cd w t0 (Some (PoisonedWriter y), t, w2)"
                if "log_bytes w2 = log_bytes w" "aw_poisoned w2" for y w2
                using that torn_stream_same by (simp add: append_effect_def torn_def)
              moreover have "log_bytes (poison x w1) = log_bytes w" "aw_poisoned (poison x w1)"
                if "rotation_uncertain e" for x
                using spec that e by (auto simp: rotation_result_def poison_def log_bytes_def)
              moreover have "w1 = w" if "\<not> rotation_uncertain e"
                using spec that e by (simp add: rotation_result_def)
              ultimately show ?thesis
                using rotate rot e same
                by (simp add: appendTraceWithDurability_def t1 t Some sz free poisonAuditLocked_def)
            qed
          qed
        qed
      qed
    qed
  qed
qed

end
