(* ===== verification/Audit_History.thy ===== *)
theory Audit_History
  imports Audit_Writer
begin

text \<open>
  What the audit writer guarantees over its life: an append is all or nothing, the acknowledged
  records are the ones the verifier reads, a restart resumes the chain, and the two ways in which a
  restart is refused although nobody touched the log.
\<close>

section \<open>Streams of several files\<close>

lemma SplitByte_eq_Nil: "SplitByte s x = [[]] \<longleftrightarrow> s = []"
  by (cases s) (auto split: list.splits)

lemma last_SplitByte: "last (SplitByte s x) = [] \<longleftrightarrow> s = [] \<or> last s = x"
proof (induction s)
  case (Cons y s)
  then show ?case using SplitByte_eq_Nil [of s x] by (cases "SplitByte s x") (auto split: list.splits if_splits)
qed simp

lemma raw_lines_terminated: "raw_lines (a @ CHR 0x0A # b) = SplitByte a (CHR 0x0A) @ raw_lines b"
  by (simp add: raw_lines_def Let_def SplitByte_append butlast_append)

lemma raw_lines_open: "NeedsRecordSeparator a \<Longrightarrow> raw_lines a = SplitByte a (CHR 0x0A)"
  by (simp add: raw_lines_def Let_def last_SplitByte NeedsRecordSeparator_def)

lemma raw_lines_Nil [simp]: "raw_lines [] = []"
  by (simp add: raw_lines_def)

lemma map_option_append_Nil [simp]: "map_option ((@) []) x = x"
  by (cases x) simp_all

lemma lines_traces_append:
  "lines_traces cd (ls @ ms) =
     (case lines_traces cd ls of None \<Rightarrow> None | Some ts \<Rightarrow> map_option (append ts) (lines_traces cd ms))"
proof (induction cd ls rule: lines_traces.induct)
  case (3 cd raw ls)
  then show ?case by (cases "lines_traces cd ms") (auto split: option.splits)
qed simp_all

definition line_fits :: "string \<Rightarrow> bool" where
  "line_fits l \<longleftrightarrow> length l < MaxTraceRecordScanBytes"

definition scanned :: "string list \<Rightarrow> string option list" where
  "scanned ls = map (\<lambda>l. Some (drop_cr l)) (takeWhile line_fits ls) @
     (if list_all line_fits ls then [] else [None])"

lemma scan_lines_scanned: "scan_lines c = scanned (raw_lines c)"
proof -
  have "length (takeWhile P ls) < length ls \<longleftrightarrow> \<not> list_all P ls" for P and ls :: "string list"
    by (induction ls) auto
  then show ?thesis by (simp add: scan_lines_def scanned_def Let_def line_fits_def [abs_def])
qed

lemma lines_traces_scanned:
  "lines_traces cd (scanned ls) =
     (if list_all line_fits ls then lines_traces cd (map (\<lambda>l. Some (drop_cr l)) ls) else None)"
proof (cases "list_all line_fits ls")
  case True
  then have "takeWhile line_fits ls = ls" by (simp add: list_all_iff)
  with True show ?thesis unfolding scanned_def by (metis append_Nil2)
qed (simp add: scanned_def lines_traces_append split: option.split)

definition raw_traces :: "codec \<Rightarrow> string list \<Rightarrow> DecisionTrace list option" where
  "raw_traces cd ls = lines_traces cd (scanned ls)"

lemma raw_traces_append:
  "raw_traces cd (ls @ ms) =
     (case raw_traces cd ls of None \<Rightarrow> None | Some ts \<Rightarrow> map_option (append ts) (raw_traces cd ms))"
  by (auto simp: raw_traces_def lines_traces_scanned lines_traces_append split: option.splits)

lemma raw_traces_blank [simp]: "raw_traces cd [] = Some []" "raw_traces cd ([] # ls) = raw_traces cd ls"
  by (simp_all add: raw_traces_def lines_traces_scanned line_fits_def MaxTraceRecordScanBytes_def
      drop_cr_def TrimSuffix_def HasSuffix_def)

lemma stream_traces_raw: "stream_traces cd c = raw_traces cd (raw_lines c)"
  by (simp add: stream_traces_def raw_traces_def scan_lines_scanned)

text \<open>A file that starts on a line boundary adds its records to those of the files before it.\<close>

definition boundary :: "string \<Rightarrow> string \<Rightarrow> bool" where
  "boundary before c \<longleftrightarrow> NeedsRecordSeparator before \<longrightarrow> c = [] \<or> hd c = CHR 0x0A"

lemma stream_traces_append:
  assumes "boundary a c"
  shows "stream_traces cd (a @ c) =
    (case stream_traces cd a of None \<Rightarrow> None | Some ts \<Rightarrow> map_option (append ts) (stream_traces cd c))"
proof -
  consider "c = []" | "a = []" | a' where "a = a' @ [CHR 0x0A]" | c' where "NeedsRecordSeparator a" "c = CHR 0x0A # c'"
    using assms unfolding boundary_def NeedsRecordSeparator_def
    by (metis append_butlast_last_id list.collapse)
  then show ?thesis
  proof cases
    case 3
    then show ?thesis
      using raw_lines_terminated [of a' c] raw_lines_terminated [of a' "[]"]
      by (simp add: stream_traces_raw raw_traces_append split: option.split)
  next
    case 4
    then show ?thesis
      using raw_lines_terminated [of a c'] raw_lines_terminated [of "[]" c'] raw_lines_open [of a]
      by (simp add: stream_traces_raw raw_traces_append split: option.split)
  qed (auto simp: stream_traces_raw split: option.splits)
qed

fun aligned :: "string \<Rightarrow> string list \<Rightarrow> bool" where
  "aligned before [] = True"
| "aligned before (c # cs) \<longleftrightarrow> boundary before c \<and> aligned (before @ c) cs"

lemma aligned_snoc: "aligned before (cs @ [c]) \<longleftrightarrow> aligned before cs \<and> boundary (before @ concat cs) c"
  by (induction cs arbitrary: before) auto

lemma boundary_Nil [simp]: "boundary before []" "boundary [] c"
  by (simp_all add: boundary_def NeedsRecordSeparator_def)

lemma boundary_extend: "boundary before c \<Longrightarrow> c \<noteq> [] \<Longrightarrow> boundary before (c @ b)"
  by (simp add: boundary_def)

section \<open>The writer and the verifier\<close>

text \<open>The codec reads back the record it wrote, from one line.\<close>

definition round_trips :: "codec \<Rightarrow> DecisionTrace \<Rightarrow> bool" where
  "round_trips cd t \<longleftrightarrow>
     (let raw = cd_marshal cd t
      in raw \<noteq> [] \<and> CHR 0x0A \<notin> set raw \<and> last raw \<noteq> CHR 0x0D \<and> cd_trace cd raw = Some t \<and>
         cd_record_type cd raw \<noteq> None \<and> cd_record_type cd raw \<noteq> Some ''prune_checkpoint'')"

lemma drop_cr_id: "last raw \<noteq> CHR 0x0D \<Longrightarrow> drop_cr raw = raw"
  by (cases raw rule: rev_cases) (simp_all add: drop_cr_def TrimSuffix_def HasSuffix_def)

lemma record_stream:
  assumes "round_trips cd t" "MarshalTraceRecord cd t = Some raw"
  shows "stream_traces cd (record_bytes sep raw) = Some [t]"
proof -
  have raw: "raw = cd_marshal cd t" "length raw \<le> MaxTraceRecordBytes"
    using assms(2) by (auto simp: MarshalTraceRecord_def Let_def split: if_splits)
  have one: "raw_lines (raw @ [CHR 0x0A]) = [raw]"
    using assms(1) raw raw_lines_terminated [of raw "[]"] by (simp add: round_trips_def Let_def SplitByte_noocc)
  have "raw_traces cd [raw] = Some [t]"
    using assms(1) raw
    by (auto simp: raw_traces_def lines_traces_scanned round_trips_def Let_def drop_cr_id line_fits_def
        MaxTraceRecordScanBytes_def)
  then show ?thesis
    using one raw_lines_terminated [of "[]" "raw @ [CHR 0x0A]"] by (simp add: stream_traces_raw record_bytes_def)
qed

definition writer_ok :: "codec \<Rightarrow> DecisionTrace list \<Rightarrow> audit_writer \<Rightarrow> bool" where
  "writer_ok cd ts w \<longleftrightarrow> writer_shape w \<and> aligned [] (file_list w) \<and>
     stream_traces cd (log_bytes w) = Some ts \<and> intact_chain cd ts \<and> aw_lastHash w = tail_from [] ts \<and>
     (NeedsRecordSeparator (log_bytes w) \<longrightarrow> aw_needsSeparator w)"

lemma aligned_grows:
  assumes "aligned [] cs" "boundary (concat cs) x" "grows cs x cs'"
  shows "aligned [] cs'"
proof -
  have "aligned [] (ds @ [c @ x])" if "cs = ds @ [c]" for ds c
    using assms(1,2) that boundary_extend [of "concat ds" c x] by (cases "c = []") (auto simp: aligned_snoc)
  with assms show ?thesis by (auto simp: grows_def extends_last_def aligned_snoc)
qed

lemma writer_ok_written:
  assumes ok: "writer_ok cd ts w" and link: "link_trace cd (aw_lastHash w) t1 = Inr t"
    and rt: "round_trips cd t" and raw: "MarshalTraceRecord cd t = Some raw" and w': "written w raw t w'"
  shows "writer_ok cd (ts @ [t]) w'"
proof -
  let ?rec = "record_bytes (aw_needsSeparator w) raw"
  have grow: "grows (file_list w) ?rec (file_list w')" using w' by (simp add: written_def)
  then have log: "log_bytes w' = log_bytes w @ ?rec" by (simp add: log_bytes_files grows_concat)
  have bd: "boundary (log_bytes w) ?rec"
    using ok by (auto simp: boundary_def writer_ok_def record_bytes_def)
  have "aligned [] (file_list w')"
    using ok bd grow by (intro aligned_grows [OF _ _ grow]) (simp_all add: writer_ok_def log_bytes_files)
  moreover have "stream_traces cd (log_bytes w') = Some (ts @ [t])"
    using stream_traces_append [OF bd, of cd] record_stream [OF rt raw] ok log by (simp add: writer_ok_def)
  moreover have "intact_chain cd (ts @ [t])"
    using ok link by (intro link_trace_extends) (simp_all add: writer_ok_def)
  moreover have "\<not> NeedsRecordSeparator (log_bytes w')"
    by (simp add: log NeedsRecordSeparator_def record_bytes_def)
  ultimately show ?thesis using w' by (simp add: writer_ok_def written_def)
qed

lemma writer_ok_unchanged:
  assumes "writer_ok cd ts w" "unchanged w w'"
  shows "writer_ok cd ts w'" "log_bytes w' = log_bytes w"
proof -
  show log: "log_bytes w' = log_bytes w" using assms(2) by (auto simp: unchanged_def log_bytes_files)
  show "writer_ok cd ts w'"
    using assms by (auto simp: writer_ok_def unchanged_def log_bytes_files aligned_snoc)
qed

text \<open>What an append promises: a record on success, nothing on a plain error, and on a poisoned writer
  at most a part of the record, or all of it under the committed error.\<close>

definition append_promise ::
  "codec \<Rightarrow> DecisionTrace list \<Rightarrow> audit_writer \<Rightarrow> append_error option \<times> DecisionTrace \<times> audit_writer \<Rightarrow> bool" where
  "append_promise cd ts w res \<longleftrightarrow> (case res of
     (None, t, w') \<Rightarrow> writer_ok cd (ts @ [t]) w'
   | (Some e, t, w') \<Rightarrow>
       if is_poisoned_error e then
         aw_poisoned w' \<and>
         torn_stream (log_bytes w) (record_bytes (aw_needsSeparator w) (cd_marshal cd t)) (log_bytes w') e
       else writer_ok cd ts w' \<and> log_bytes w' = log_bytes w)"

lemma append_promise_kept:
  assumes ok: "writer_ok cd ts w"
    and rt: "\<forall>t1 t. ensure_provenance w t0 = Inr t1 \<longrightarrow> link_trace cd (aw_lastHash w) t1 = Inr t \<longrightarrow> round_trips cd t"
  shows "append_promise cd ts w (appendTraceWithDurability cd io forceDurable t0 w)"
proof -
  obtain err t w' where res: "appendTraceWithDurability cd io forceDurable t0 w = (err, t, w')" by (metis prod_cases3)
  have "writer_shape w" using ok by (simp add: writer_ok_def)
  note eff = append_effect_holds [OF this, of cd t0 io forceDurable, unfolded res append_effect_def]
  show ?thesis
  proof (cases err)
    case None
    with eff obtain t1 where "ensure_provenance w t0 = Inr t1" "link_trace cd (aw_lastHash w) t1 = Inr t"
      "MarshalTraceRecord cd t = Some (cd_marshal cd t)" "written w (cd_marshal cd t) t w'" by auto
    with rt have "writer_ok cd (ts @ [t]) w'" by (intro writer_ok_written [OF ok]) simp_all
    with None show ?thesis by (simp add: res append_promise_def)
  next
    case (Some e)
    with eff writer_ok_unchanged [OF ok, of w'] show ?thesis
      by (auto simp: res append_promise_def torn_def split: if_splits)
  qed
qed

section \<open>Recovering the tail\<close>

lemma scan_tail_traces:
  "lines_traces cd ls = Some ts \<Longrightarrow> scan_tail cd ls found = Inr (if ts = [] then found else Some (last ts))"
  by (induction cd ls arbitrary: ts found rule: lines_traces.induct) (auto split: if_splits option.splits)

lemma scan_tail_blank: "scan_tail cd ls None = Inr None \<Longrightarrow> lines_traces cd ls = Some []"
proof -
  have found: "scan_tail cd ls (Some t) \<noteq> Inr None" for cd t ls
    by (induction cd ls "Some t" arbitrary: t rule: scan_tail.induct) (auto split: option.splits)
  show "scan_tail cd ls None = Inr None \<Longrightarrow> lines_traces cd ls = Some []"
    by (induction cd ls rule: lines_traces.induct) (auto simp: found split: if_splits option.splits)
qed

lemma in_SplitByte_subset: "l \<in> set (SplitByte s x) \<Longrightarrow> set l \<subseteq> set s"
proof -
  have "\<forall>l\<in>set (SplitByte s x). set l \<subseteq> set s"
  proof (induction s)
    case (Cons y s)
    then show ?case by (cases "SplitByte s x") auto
  qed simp
  then show "l \<in> set (SplitByte s x) \<Longrightarrow> set l \<subseteq> set s" by blast
qed

lemma blank_terminated:
  assumes "stream_traces cd c = Some []" "CHR 0x0D \<notin> set c"
  shows "\<not> NeedsRecordSeparator c"
proof
  assume needs: "NeedsRecordSeparator c"
  define l where "l = last (SplitByte c (CHR 0x0A))"
  have l: "l \<noteq> []" "CHR 0x0D \<notin> set l"
    using needs in_SplitByte_subset [of l c "CHR 0x0A"] assms(2)
    by (auto simp: l_def last_SplitByte NeedsRecordSeparator_def)
  then have "drop_cr l = l" by (intro drop_cr_id) (metis last_in_set)
  then have "raw_traces cd [l] \<noteq> Some []"
    using l by (auto simp: raw_traces_def lines_traces_scanned split: option.splits)
  moreover have "stream_traces cd c = raw_traces cd (butlast (SplitByte c (CHR 0x0A)) @ [l])"
    by (simp add: stream_traces_raw raw_lines_open [OF needs] l_def)
  ultimately show False using assms(1)
    by (cases "raw_traces cd [l]") (auto simp: raw_traces_append split: option.splits)
qed

text \<open>The recovery over the contents of the files, newest first.\<close>

fun tail_of :: "codec \<Rightarrow> string list \<Rightarrow> open_error + (DecisionTrace \<times> bool) option" where
  "tail_of cd [] = Inr None"
| "tail_of cd (c # cs) =
     (case scan_tail cd (scan_lines c) None of
        Inl e \<Rightarrow> Inl e
      | Inr (Some t) \<Rightarrow> Inr (Some (t, NeedsRecordSeparator c))
      | Inr None \<Rightarrow> tail_of cd cs)"

lemma recover_names:
  "\<forall>n\<in>set names. file_bytes d n = Some (g n) \<and> readable n \<Longrightarrow>
     recover_from cd readable d names = tail_of cd (map g names)"
  by (induction names) (auto simp: file_bytes_Some split: sum.splits option.splits)

lemma needs_append: "c \<noteq> [] \<Longrightarrow> NeedsRecordSeparator (a @ c) = NeedsRecordSeparator c"
  by (simp add: NeedsRecordSeparator_def)

lemma tail_of_stream:
  assumes "aligned [] cs" "stream_traces cd (concat cs) = Some ts" "CHR 0x0D \<notin> set (concat cs)"
  shows "if ts = [] then tail_of cd (rev cs) = Inr None
    else \<exists>sep. tail_of cd (rev cs) = Inr (Some (last ts, sep)) \<and> (NeedsRecordSeparator (concat cs) \<longrightarrow> sep)"
  using assms
proof (induction cs arbitrary: ts rule: rev_induct)
  case Nil
  then show ?case by (simp add: stream_traces_raw)
next
  case (snoc c cs)
  have al: "aligned [] cs" "boundary (concat cs) c" using snoc(2) by (simp_all add: aligned_snoc)
  obtain us vs where t: "stream_traces cd (concat cs) = Some us" "stream_traces cd c = Some vs" "ts = us @ vs"
    using snoc(3) stream_traces_append [OF al(2), of cd] by (auto split: option.splits)
  have scan: "scan_tail cd (scan_lines c) None = Inr (if vs = [] then None else Some (last vs))"
    using t(2) by (intro scan_tail_traces) (simp add: stream_traces_def)
  have cr: "CHR 0x0D \<notin> set (concat cs)" "CHR 0x0D \<notin> set c" using snoc(4) by auto
  note IH = snoc.IH [OF al(1) t(1) cr(1)]
  show ?case
  proof (cases "vs = []")
    case True
    then have "\<not> NeedsRecordSeparator c" using blank_terminated cr(2) t(2) by simp
    then have "NeedsRecordSeparator (concat cs @ c) \<Longrightarrow> NeedsRecordSeparator (concat cs)"
      using needs_append by (cases "c = []") auto
    with IH True scan t(3) show ?thesis by (auto split: if_splits)
  next
    case False
    then have "c \<noteq> []" using t(2) by (auto simp: stream_traces_raw)
    with False scan t(3) show ?thesis by (simp add: needs_append)
  qed
qed

lemma tail_of_blank:
  assumes "aligned [] cs" "tail_of cd (rev cs) = Inr None"
  shows "stream_traces cd (concat cs) = Some []"
  using assms
proof (induction cs rule: rev_induct)
  case Nil
  then show ?case by (simp add: stream_traces_raw)
next
  case (snoc c cs)
  then have "boundary (concat cs) c" "scan_tail cd (scan_lines c) None = Inr None" "tail_of cd (rev cs) = Inr None"
    "aligned [] cs"
    by (simp_all add: aligned_snoc split: sum.splits option.splits)
  with snoc.IH show ?case
    by (simp add: stream_traces_append scan_tail_blank stream_traces_def [of cd c])
qed

lemma scan_loop_unpruned:
  "scan_loop cd False pin s ls = Inr s' \<Longrightarrow> sr_Pruned (sc_report s') = sr_Pruned (sc_report s)"
proof (induction cd False pin s ls rule: scan_loop.induct)
  case (3 cd pin s raw ls)
  obtain s1 where s1: "line_step cd False pin s raw = Inr s1" "scan_loop cd False pin s1 ls = Inr s'"
    using 3(2) by (auto split: sum.splits)
  have "sr_Pruned (sc_report s1) = sr_Pruned (sc_report s)"
    using s1(1) by (auto simp: line_step_def checkpoint_step_def trace_step_def Let_def split: if_splits option.splits sum.splits)
  with 3(1) [OF s1(1) s1(2)] show ?case by simp
qed simp_all

lemma intact_unpruned: "sr_Intact (VerifyChainFromReader cd content) \<Longrightarrow> \<not> sr_Pruned (VerifyChainFromReader cd content)"
proof -
  assume ok: "sr_Intact (VerifyChainFromReader cd content)"
  let ?r = "scan_loop cd False [] scan_start (scan_lines content)"
  have start: "scanning scan_start" by (simp add: scanning_def scan_start_def)
  have v: "VerifyChainFromReader cd content = (case ?r of Inl rep \<Rightarrow> rep | Inr s \<Rightarrow> scan_finish [] s)"
    by (simp add: VerifyChainFromReader_def verifyChainFromReader_def)
  show ?thesis
  proof (cases ?r)
    case (Inl rep)
    with scan_loop_chain [OF start, of cd "scan_lines content"] ok v show ?thesis by simp
  next
    case (Inr s)
    with scan_loop_unpruned [OF Inr] scan_loop_chain [OF start, of cd "scan_lines content"] v show ?thesis
      by (simp add: scan_finish_def scanning_def scan_start_def)
  qed
qed

section \<open>Opening a log\<close>

definition all_readable :: "open_io \<Rightarrow> bool" where
  "all_readable io \<longleftrightarrow> oi_mkdir io \<and> oi_list io \<and> oi_open io \<and> oi_read io = (\<lambda>_. True)"

lemma newest_first:
  assumes "members_ok n base d"
  shows "auditCandidatesNewestFirst True base d = base # rev (map (candidate base) [1..n])"
proof -
  have "mset (rotated False base d) = mset (rev (numbered base n))"
    using assms unfolding members_ok_def by (metis mset_rev mset_sort)
  moreover have "inj_on (\<lambda>x. - fst x) (set (rotated False base d))"
  proof -
    have "set (rotated False base d) = set (numbered base n)"
      using assms unfolding members_ok_def by (metis set_sort)
    then show ?thesis by (auto simp: inj_on_def numbered_def)
  qed
  moreover have "sorted (map (\<lambda>x. - fst x) (rev (numbered base n)))"
  proof -
    have "map (\<lambda>x. - fst x) (rev (numbered base n)) = rev (map uminus [1..n])"
      by (simp add: numbered_def rev_map comp_def)
    then show ?thesis by (simp add: sorted_wrt_rev sorted_wrt_map)
  qed
  ultimately have "sort_key (\<lambda>x. - fst x) (rotated False base d) = rev (numbered base n)"
    by (rule sort_key_inj_key_eq)
  then show ?thesis by (simp add: auditCandidatesNewestFirst_def numbered_def rev_map comp_def)
qed

lemma those_map: "\<forall>n\<in>set names. f n = Some (g n) \<Longrightarrow> those (map f names) = Some (map g names)"
  by (induction names) auto

text \<open>A directory the writer can start on: numbered members, and an active file that is a regular one or
  missing, as after a crash in the middle of a rotation.\<close>

definition startable :: "int \<Rightarrow> string \<Rightarrow> directory \<Rightarrow> bool" where
  "startable n base d \<longleftrightarrow> members_ok n base d \<and> map_of d base \<noteq> Some Directory"

lemma contiguous_startable: "contiguous n base d \<Longrightarrow> startable n base d"
  by (auto simp: contiguous_def startable_def file_bytes_Some)

lemma startable_cases:
  assumes "startable n base d"
  obtains (active) c where "map_of d base = Some (Regular c)" "contiguous n base d"
      "contents base d = member_bytes n base d @ [c]"
  | (missing) "map_of d base = None" "contents base d = member_bytes n base d"
proof (cases "map_of d base")
  case None
  then show ?thesis using assms missing contents_numbered [of n base d] by (simp add: startable_def)
next
  case (Some e)
  with assms obtain c where "e = Regular c" by (cases e) (auto simp: startable_def)
  with Some have c: "file_bytes d base = Some c" by (simp add: file_bytes_Some)
  with assms have "contiguous n base d" by (simp add: startable_def contiguous_def)
  moreover have "the (file_bytes d base) = c" using c by simp
  ultimately show ?thesis using active [of c] contents_contiguous [of n base d] Some \<open>e = Regular c\<close> by simp
qed

definition set_names :: "int \<Rightarrow> string \<Rightarrow> directory \<Rightarrow> string list" where
  "set_names n base d = map (candidate base) [1..n] @ (if map_of d base = None then [] else [base])"

lemma set_names_bytes:
  assumes "startable n base d"
  shows "\<forall>m\<in>set (set_names n base d). file_bytes d m = Some (the (file_bytes d m))"
    "map (\<lambda>m. the (file_bytes d m)) (set_names n base d) = contents base d"
proof -
  have "map_of d base \<noteq> None \<Longrightarrow> file_bytes d base \<noteq> None"
    using assms by (auto simp: startable_def file_bytes_def split: dirent.splits)
  moreover have "\<forall>i\<in>{1..n}. file_bytes d (candidate base i) \<noteq> None"
    using assms by (simp add: startable_def members_ok_def)
  ultimately show "\<forall>m\<in>set (set_names n base d). file_bytes d m = Some (the (file_bytes d m))"
    by (auto simp: set_names_def)
  show "map (\<lambda>m. the (file_bytes d m)) (set_names n base d) = contents base d"
    using assms by (cases rule: startable_cases) (auto simp: set_names_def member_bytes_def file_bytes_def)
qed

lemma verify_full:
  assumes "startable n base d" "all_readable io" "contents base d \<noteq> []"
  shows "(verifyFullAuditChain cd io base d = None) \<longleftrightarrow> sr_Intact (VerifyChainFromReader cd (concat (contents base d)))"
proof -
  have ok: "members_ok n base d" using assms(1) by (simp add: startable_def)
  have "set_names n base d \<noteq> []" using assms(3) set_names_bytes(2) [OF assms(1)] by auto
  then have rs: "RotationSetOldestFirst True base d = Some (set_names n base d)"
    using RotationSet_numbered [OF ok] by (simp add: set_names_def Let_def split: if_splits)
  have "those (map (file_bytes d) (set_names n base d)) = Some (contents base d)"
    using those_map [OF set_names_bytes(1) [OF assms(1)]] set_names_bytes(2) [OF assms(1)] by simp
  then show ?thesis
    using assms(2) rs intact_unpruned [of cd "concat (contents base d)"]
    by (auto simp: verifyFullAuditChain_def all_readable_def list_all_iff Let_def)
qed

lemma recover_full:
  assumes "startable n base d" "all_readable io"
  shows "recoverAuditTail cd io base d = tail_of cd (rev (contents base d))"
proof -
  have "members_ok n base d" using assms(1) by (simp add: startable_def)
  note names = newest_first [OF this]
  have "recover_from cd (oi_read io) d (base # rev (map (candidate base) [1..n])) =
      recover_from cd (oi_read io) d (rev (set_names n base d))"
    by (simp add: set_names_def)
  also have "\<dots> = tail_of cd (map (\<lambda>m. the (file_bytes d m)) (rev (set_names n base d)))"
    using set_names_bytes(1) [OF assms(1)] assms(2) by (intro recover_names) (auto simp: all_readable_def)
  also have "\<dots> = tail_of cd (rev (contents base d))"
    by (simp only: rev_map set_names_bytes(2) [OF assms(1), symmetric])
  finally have "recover_from cd (oi_read io) d (base # rev (map (candidate base) [1..n])) = tail_of cd (rev (contents base d))" .
  moreover have "oi_list io" using assms(2) by (simp add: all_readable_def)
  ultimately show ?thesis using names by (simp only: recoverAuditTail_def)
qed

text \<open>Opening the active file keeps the stream.\<close>

definition ensure_file :: "string \<Rightarrow> directory \<Rightarrow> directory" where
  "ensure_file name d = (if map_of d name = None then AList.update name (Regular []) d else d)"

lemma openDisk_ensure:
  "map_of (aw_dir w) name \<noteq> Some Directory \<Longrightarrow>
     openDiskAuditLog True name w = Some (w \<lparr> aw_dir := ensure_file name (aw_dir w), aw_handle := Some name \<rparr>)"
  by (auto simp: openDiskAuditLog_def ensure_file_def set_file_def split: option.splits dirent.splits)

lemma ensure_active:
  assumes "startable n base d" "aligned [] (contents base d)"
  shows "contiguous n base (ensure_file base d)" "concat (contents base (ensure_file base d)) = concat (contents base d)"
    "aligned [] (contents base (ensure_file base d))"
proof -
  have "contiguous n base (ensure_file base d) \<and> concat (contents base (ensure_file base d)) = concat (contents base d) \<and>
      aligned [] (contents base (ensure_file base d))"
    using assms(1)
  proof (cases rule: startable_cases)
    case (active c)
    then show ?thesis using assms(2) by (simp add: ensure_file_def)
  next
    case missing
    have "members_ok n base d" using assms(1) by (simp add: startable_def)
    note new = open_new_active [OF this missing(1)]
    show ?thesis using new missing assms(2) by (simp add: ensure_file_def aligned_snoc)
  qed
  then show "contiguous n base (ensure_file base d)" "concat (contents base (ensure_file base d)) = concat (contents base d)"
    "aligned [] (contents base (ensure_file base d))" by simp_all
qed

lemma intact_last:
  "intact_chain cd ts \<Longrightarrow> ts \<noteq> [] \<Longrightarrow> ComputeCanonicalTraceHash cd (last ts) = Inr (dt_TraceHash (last ts))"
  by (cases ts rule: rev_cases) (simp_all add: intact_chain_def chain_from_append)

lemma open_result:
  assumes set: "startable n (aw_base w) (aw_dir w)" "aligned [] (contents (aw_base w) (aw_dir w))"
    "CHR 0x0D \<notin> set (log_bytes w)" and w: "\<not> aw_poisoned w" and io: "all_readable io"
  shows "case openAuditLog cd io w of
      (None, w') \<Rightarrow> log_bytes w' = log_bytes w \<and>
        (\<exists>ts. stream_traces cd (log_bytes w) = Some ts \<and> intact_chain cd ts \<and> writer_ok cd ts w')
    | (Some e, w') \<Rightarrow> \<not> sr_Intact (VerifyChainFromReader cd (log_bytes w)) \<and> aw_lastHash w' = []"
proof -
  let ?b = "aw_base w" and ?d = "aw_dir w"
  let ?ok = "sr_Intact (VerifyChainFromReader cd (log_bytes w))"
  define d where "d = ensure_file ?b ?d"
  have d: "contiguous n ?b d" "concat (contents ?b d) = log_bytes w" "aligned [] (contents ?b d)"
    using ensure_active [OF set(1,2)] by (simp_all add: d_def log_bytes_def)
  obtain c where c: "file_bytes d ?b = Some c" using d(1) by (auto simp: contiguous_def)
  define result where "result h sep x = w \<lparr> aw_lastHash := h, aw_needsSeparator := sep,
      aw_dir := d, aw_handle := Some ?b, aw_currentBytes := x \<rparr>" for h sep x
  have opened: "openDiskAuditLog True ?b (w \<lparr> aw_lastHash := h, aw_needsSeparator := sep \<rparr>) =
      Some (result h sep (aw_currentBytes w))" for h sep
    using openDisk_ensure [of "w \<lparr> aw_lastHash := h, aw_needsSeparator := sep \<rparr>" ?b] set(1)
    by (simp add: startable_def result_def d_def)
  have exact: "?ok \<longleftrightarrow> (\<exists>ts. stream_traces cd (log_bytes w) = Some ts \<and> intact_chain cd ts)"
    by (rule verify_chain_exact(1))
  note stream = tail_of_stream [OF set(2), of cd, folded log_bytes_def, OF _ set(3)]
  have log: "log_bytes (result h sep x) = log_bytes w" for h sep x
    using d(2) by (simp add: result_def log_bytes_def)
  have final: "writer_ok cd ts (result (tail_from [] ts) sep x)"
    if "stream_traces cd (log_bytes w) = Some ts" "intact_chain cd ts" "NeedsRecordSeparator (log_bytes w) \<longrightarrow> sep" for ts sep x
    using that w d(1,3) log unfolding writer_ok_def writer_shape_def file_list_def by (auto simp: result_def)
  have sized: "handle_bytes (result h sep x) = Some c" "(result h sep x) \<lparr> aw_currentBytes := y \<rparr> = result h sep y" for h sep x y
    using c by (simp_all add: result_def handle_bytes_def)
  note recover = recover_full [OF set(1) io, of cd]
  have open_io: "oi_mkdir io" "oi_open io" using io by (simp_all add: all_readable_def)
  show ?thesis
  proof (cases "tail_of cd (rev (contents ?b ?d))")
    case (Inl e)
    have "\<not> ?ok" using stream Inl unfolding exact by (auto split: if_splits)
    then show ?thesis using Inl recover open_io by (simp add: openAuditLog_def Let_def)
  next
    case found: (Inr f)
    show ?thesis
    proof (cases f)
      case None
      then have blank: "stream_traces cd (log_bytes w) = Some []"
        using tail_of_blank [OF set(2)] found by (simp add: log_bytes_def)
      then have "\<not> NeedsRecordSeparator (log_bytes w)" by (rule blank_terminated [OF _ set(3)])
      with blank have fin: "writer_ok cd [] (result [] False x)" for x
        using final [of "[]" False x] by (simp add: intact_chain_def)
      show ?thesis
        using None found recover open_io blank fin opened [where h = "[]" and sep = False] sized log
        by (simp add: openAuditLog_def Let_def intact_chain_def)
    next
      case (Some p)
      obtain t sep where p: "p = (t, sep)" by fastforce
      have tail: "ts \<noteq> [] \<and> t = last ts \<and> (NeedsRecordSeparator (log_bytes w) \<longrightarrow> sep)"
        if "stream_traces cd (log_bytes w) = Some ts" for ts
        using stream [OF that] found Some p by (auto split: if_splits)
      show ?thesis
      proof (cases "ComputeCanonicalTraceHash cd t = Inr (dt_TraceHash t)")
        case False
        have "\<not> ?ok" using tail intact_last False unfolding exact by metis
        then show ?thesis using False found Some p recover open_io
          by (cases "ComputeCanonicalTraceHash cd t") (auto simp: openAuditLog_def Let_def)
      next
        case True
        have "contents ?b ?d \<noteq> []" using found Some by auto
        then have full: "(verifyFullAuditChain cd io ?b ?d = None) \<longleftrightarrow> ?ok"
          using verify_full [OF set(1) io] by (simp add: log_bytes_def)
        show ?thesis
        proof (cases ?ok)
          case False
          with full have "\<exists>e. verifyFullAuditChain cd io ?b ?d = Some e" by auto
          with False True found Some p recover open_io show ?thesis by (auto simp: openAuditLog_def Let_def)
        next
          case ok: True
          then obtain ts where ts: "stream_traces cd (log_bytes w) = Some ts" "intact_chain cd ts" unfolding exact by blast
          have "tail_from [] ts = dt_TraceHash t" using tail [OF ts(1)] by (simp add: tail_from_def)
          with final [OF ts] tail [OF ts(1)] have fin: "writer_ok cd ts (result (dt_TraceHash t) sep x)" for x by simp
          have none: "verifyFullAuditChain cd io ?b ?d = None" using full ok by simp
          show ?thesis
            using True none found Some p recover open_io ts fin opened [where h = "dt_TraceHash t" and sep = sep] sized log
            by (simp add: openAuditLog_def Let_def)
        qed
      qed
    qed
  qed
qed

section \<open>The life of a writer\<close>

definition writes_back :: "codec \<Rightarrow> audit_writer \<Rightarrow> DecisionTrace \<Rightarrow> bool" where
  "writes_back cd w t0 \<longleftrightarrow>
     (case ensure_provenance w t0 of
        Inl _ \<Rightarrow> True
      | Inr t1 \<Rightarrow> (case link_trace cd (aw_lastHash w) t1 of Inl _ \<Rightarrow> True | Inr t \<Rightarrow> round_trips cd t))"

lemma append_promise_holds:
  "writer_ok cd ts w \<Longrightarrow> writes_back cd w t0 \<Longrightarrow>
     append_promise cd ts w (appendTraceWithDurability cd io forceDurable t0 w)"
  by (rule append_promise_kept) (auto simp: writes_back_def split: sum.splits)

text \<open>A writer opened on a log that verifies, then any sequence of appends, whatever the system calls
  return. The list holds the records of the log at the start and the acknowledged ones since.\<close>

inductive audit_run :: "codec \<Rightarrow> DecisionTrace list \<Rightarrow> audit_writer \<Rightarrow> bool" for cd where
  opened: "openAuditLog cd io w = (None, w') \<Longrightarrow> all_readable io \<Longrightarrow> \<not> aw_poisoned w \<Longrightarrow>
    startable n (aw_base w) (aw_dir w) \<Longrightarrow> aligned [] (contents (aw_base w) (aw_dir w)) \<Longrightarrow>
    CHR 0x0D \<notin> set (log_bytes w) \<Longrightarrow> stream_traces cd (log_bytes w) = Some ts \<Longrightarrow> audit_run cd ts w'"
| acknowledged: "audit_run cd ts w \<Longrightarrow> writes_back cd w t0 \<Longrightarrow>
    appendTraceWithDurability cd io forceDurable t0 w = (None, t, w') \<Longrightarrow> audit_run cd (ts @ [t]) w'"
| refused: "audit_run cd ts w \<Longrightarrow> writes_back cd w t0 \<Longrightarrow>
    appendTraceWithDurability cd io forceDurable t0 w = (Some e, t, w') \<Longrightarrow> audit_run cd ts w'"

lemma poisoned_append:
  assumes "aw_poisoned w"
  shows "\<exists>e t. appendTraceWithDurability cd io forceDurable t0 w = (Some e, t, w)"
  using assms by (auto simp: appendTraceWithDurability_def split: sum.splits)

definition run_invariant :: "codec \<Rightarrow> DecisionTrace list \<Rightarrow> audit_writer \<Rightarrow> bool" where
  "run_invariant cd ts w \<longleftrightarrow>
     (if aw_poisoned w then
        \<exists>before rest. log_bytes w = before @ rest \<and> stream_traces cd before = Some ts \<and> intact_chain cd ts
      else writer_ok cd ts w)"

lemma audit_run_invariant: "audit_run cd ts w \<Longrightarrow> run_invariant cd ts w"
proof (induction rule: audit_run.induct)
  case (opened io w w' n ts)
  from open_result [OF opened(4,5,6,3,2), of cd] opened(1,7) have "writer_ok cd ts w'" by auto
  then show ?case by (simp add: run_invariant_def writer_ok_def writer_shape_def)
next
  case (acknowledged ts w t0 io forceDurable t w')
  show ?case
  proof (cases "aw_poisoned w")
    case True
    with poisoned_append [OF True, of cd io forceDurable t0] acknowledged(3) show ?thesis by auto
  next
    case False
    with acknowledged(4) have "writer_ok cd ts w" by (simp add: run_invariant_def)
    from append_promise_holds [OF this acknowledged(2), of io forceDurable] acknowledged(3)
    have "writer_ok cd (ts @ [t]) w'" by (simp add: append_promise_def)
    then show ?thesis by (simp add: run_invariant_def writer_ok_def writer_shape_def)
  qed
next
  case (refused ts w t0 io forceDurable e t w')
  show ?case
  proof (cases "aw_poisoned w")
    case True
    with poisoned_append [OF True, of cd io forceDurable t0] refused(3,4) show ?thesis by auto
  next
    case False
    with refused(4) have ok: "writer_ok cd ts w" by (simp add: run_invariant_def)
    from append_promise_holds [OF this refused(2), of io forceDurable] refused(3)
    have p: "append_promise cd ts w (Some e, t, w')" by simp
    show ?thesis
    proof (cases "is_poisoned_error e")
      case True
      with p have "aw_poisoned w'" "\<exists>x. log_bytes w' = log_bytes w @ x"
        by (auto simp: append_promise_def torn_stream_def)
      with ok show ?thesis by (auto simp: run_invariant_def writer_ok_def)
    next
      case False
      with p have "writer_ok cd ts w'" by (simp add: append_promise_def)
      then show ?thesis by (simp add: run_invariant_def writer_ok_def writer_shape_def)
    qed
  qed
qed

lemma writer_ok_verifies:
  "writer_ok cd ts w \<Longrightarrow> sr_Intact (VerifyChainFromReader cd (log_bytes w)) \<and>
     stream_traces cd (log_bytes w) = Some ts \<and> sr_Tail (VerifyChainFromReader cd (log_bytes w)) = aw_lastHash w"
  using verify_chain_exact by (auto simp: writer_ok_def)

lemma writer_ok_startable:
  "writer_ok cd ts w \<Longrightarrow> \<exists>n. startable n (aw_base w) (aw_dir w)"
  "writer_ok cd ts w \<Longrightarrow> aligned [] (contents (aw_base w) (aw_dir w))"
  "writer_ok cd ts w \<Longrightarrow> \<not> aw_poisoned w"
  by (auto simp: writer_ok_def writer_shape_def file_list_def intro: contiguous_startable)

section \<open>Properties\<close>

text \<open>C11: an append is all or nothing under every pattern of system-call faults. A success adds exactly
  the returned record to the verified log; a plain error leaves the log as it was and the writer in
  order; an error that poisons the writer leaves at most a part of the record, and the whole of it
  only if the error says that the record was committed.\<close>

theorem append_all_or_nothing:
  assumes "writer_ok cd ts w" and "writes_back cd w t0"
  shows "case appendTraceWithDurability cd io forceDurable t0 w of
      (None, t, w') \<Rightarrow> writer_ok cd (ts @ [t]) w'
    | (Some e, t, w') \<Rightarrow>
        if is_poisoned_error e then
          aw_poisoned w' \<and>
          torn_stream (log_bytes w) (record_bytes (aw_needsSeparator w) (cd_marshal cd t)) (log_bytes w') e
        else writer_ok cd ts w' \<and> log_bytes w' = log_bytes w"
  using append_promise_holds [OF assms, of io forceDurable] by (simp add: append_promise_def)

text \<open>C13: what was acknowledged is what the verifier reads. After any history of a writer that is not
  poisoned, the streaming verifier finds the log intact, its records are those of the start and the
  acknowledged ones in order, and its tail is the writer's; on a poisoned writer these records are
  still the beginning of the log.\<close>

theorem acknowledged_is_persisted:
  assumes "audit_run cd ts w"
  shows "if aw_poisoned w then
      \<exists>before rest. log_bytes w = before @ rest \<and> stream_traces cd before = Some ts \<and>
        sr_Intact (VerifyChainFromReader cd before)
    else sr_Intact (VerifyChainFromReader cd (log_bytes w)) \<and> stream_traces cd (log_bytes w) = Some ts \<and>
      sr_Tail (VerifyChainFromReader cd (log_bytes w)) = aw_lastHash w"
proof (cases "aw_poisoned w")
  case True
  with audit_run_invariant [OF assms] obtain before rest where
    "log_bytes w = before @ rest" "stream_traces cd before = Some ts" "intact_chain cd ts"
    by (auto simp: run_invariant_def)
  with True show ?thesis using verify_chain_exact(1) [of cd before] by auto
next
  case False
  with audit_run_invariant [OF assms] writer_ok_verifies [of cd ts w] show ?thesis by (simp add: run_invariant_def)
qed

text \<open>C21: the proxy starts exactly on the logs the verifier accepts. On a numbered rotation set whose
  files can be read, also one whose active file is missing after a crash in a rotation, opening
  succeeds if and only if the stream verifies, and a refused start publishes no tail.\<close>

theorem opens_iff_verified:
  assumes "startable n (aw_base w) (aw_dir w)" and "aligned [] (contents (aw_base w) (aw_dir w))"
    and "CHR 0x0D \<notin> set (log_bytes w)" and "\<not> aw_poisoned w" and "all_readable io"
  shows "if sr_Intact (VerifyChainFromReader cd (log_bytes w)) then fst (openAuditLog cd io w) = None
    else fst (openAuditLog cd io w) \<noteq> None \<and> aw_lastHash (snd (openAuditLog cd io w)) = []"
  using open_result [OF assms, of cd] verify_chain_exact(1) [of cd "log_bytes w"]
  by (auto split: prod.splits option.splits)

text \<open>C12: a restart resumes the chain. After any history that did not poison the writer, opening the
  same directory again succeeds, with the same records and the same tail, and the new writer is one
  to which every statement about a history applies again.\<close>

theorem restart_resumes:
  assumes "audit_run cd ts w" and "\<not> aw_poisoned w" and "CHR 0x0D \<notin> set (log_bytes w)" and "all_readable io"
  shows "\<exists>w'. openAuditLog cd io w = (None, w') \<and> audit_run cd ts w' \<and>
    log_bytes w' = log_bytes w \<and> aw_lastHash w' = aw_lastHash w"
proof -
  have ok: "writer_ok cd ts w" using audit_run_invariant [OF assms(1)] assms(2) by (simp add: run_invariant_def)
  obtain n where n: "startable n (aw_base w) (aw_dir w)" using writer_ok_startable(1) [OF ok] by blast
  note start = n writer_ok_startable(2) [OF ok] assms(3,2,4)
  have s: "sr_Intact (VerifyChainFromReader cd (log_bytes w))" "stream_traces cd (log_bytes w) = Some ts"
    using writer_ok_verifies [OF ok] by simp_all
  with open_result [OF start, of cd] obtain w' where w': "openAuditLog cd io w = (None, w')"
      "log_bytes w' = log_bytes w" "writer_ok cd ts w'"
    by (cases "openAuditLog cd io w") (auto split: option.splits)
  moreover have "audit_run cd ts w'"
    using w'(1) assms(4,2) start(1,2,3) s(2) by (rule audit_run.opened)
  ultimately show ?thesis using ok by (auto simp: writer_ok_def)
qed

section \<open>Witnesses\<close>

definition good_open :: open_io where
  "good_open = \<lparr> oi_mkdir = True, oi_list = True, oi_read = (\<lambda>_. True), oi_open = True, oi_stat = True \<rparr>"

definition good_append :: append_io where
  "good_append = \<lparr> ai_stat = True,
     ai_rotate = \<lparr> ri_sync = True, ri_close = True, ri_rename = True, ri_open = True, ri_reopen = True,
       ri_reopenStat = True, ri_syncNew = True, ri_syncDir = True \<rparr>,
     ai_statNew = True, ai_written = 4194306, ai_writeOk = True, ai_sync = True, ai_truncate = True,
     ai_rsync = True, ai_rsize = None \<rparr>"

text \<open>A disk that is full: the write stops after one byte, and the file cannot be cut back.\<close>

definition torn_append :: append_io where
  "torn_append = good_append \<lparr> ai_written := 1, ai_truncate := False \<rparr>"

definition store_codec :: codec where
  "store_codec = sample_codec \<lparr> cd_marshal := (\<lambda>t. ''{}''),
     cd_trace := (\<lambda>l. if l = ''{}'' then Some (sample_linked sample_codec) else None) \<rparr>"

definition sample_writer :: audit_writer where
  "sample_writer = \<lparr> aw_base = ''log'', aw_dir = [], aw_handle = None, aw_lastHash = [],
     aw_needsSeparator = False, aw_poisoned = False, aw_poisonReason = None, aw_appendSeq = 0, aw_currentBytes = 0,
     aw_provenance = \<lparr> pv_engineVersion = [], pv_policySetHash = [], pv_computedHash = None, pv_resolvedVersion = [] \<rparr>,
     aw_rotateBytes = 0, aw_syncMode = ''every'', aw_syncEvery = 1, aw_rotationConfigured = True \<rparr>"

definition sample_opened :: audit_writer where
  "sample_opened = sample_writer \<lparr> aw_dir := [(''log'', Regular [])], aw_handle := Some ''log'' \<rparr>"

definition sample_appended :: audit_writer where
  "sample_appended = sample_opened \<lparr> aw_dir := [(''log'', Regular (''{}'' @ [CHR 0x0A]))], aw_currentBytes := 3,
     aw_appendSeq := 1, aw_lastHash := dt_TraceHash (sample_linked sample_codec) \<rparr>"

lemma store_linked: "sample_linked store_codec = sample_linked sample_codec"
proof -
  have "dt_TraceHash (sample_linked store_codec) = dt_TraceHash (sample_linked sample_codec)"
    unfolding sample_linked_simps(1) by (simp add: store_codec_def)
  then show ?thesis using sample_linked_simps(2) by metis
qed

lemma store_link: "link_trace store_codec [] sample_trace = Inr (sample_linked sample_codec)"
  using sample_link [of store_codec] by (simp add: store_linked)

lemma store_round_trips: "round_trips store_codec (sample_linked sample_codec)"
  by (simp add: round_trips_def store_codec_def sample_codec_def)

lemma sample_provenance: "ensure_provenance w sample_trace = Inr sample_trace"
  by (simp add: ensure_provenance_def sample_trace_def)

lemma numbered_empty [simp]: "numbered base 0 = []"
  by (simp add: numbered_def)

lemma member_bytes_empty [simp]: "member_bytes 0 base d = []"
  by (simp add: member_bytes_def)

lemma sample_contiguous: "contiguous 0 ''log'' [(''log'', Regular c)]" "startable 0 ''log'' []"
  using member_index_base [of "''log''"]
  by (simp_all add: contiguous_def members_ok_def max_rotations_def file_bytes_def startable_def)

lemma sample_stream: "contents ''log'' [(''log'', Regular c)] = [c]" "contents ''log'' [] = []"
  using contents_contiguous [OF sample_contiguous(1), of c] contents_numbered [of 0 "''log''" "[]"] sample_contiguous(2)
  by (simp_all add: file_bytes_def startable_def)

lemma sample_open: "openAuditLog cd good_open sample_writer = (None, sample_opened)"
  by (simp add: openAuditLog_def good_open_def sample_writer_def sample_opened_def recoverAuditTail_def
      auditCandidatesNewestFirst_def openDiskAuditLog_def set_file_def handle_bytes_def file_bytes_def Let_def)

lemma sample_run: "audit_run cd [] sample_opened"
  using sample_open
proof (rule audit_run.opened)
  show "startable 0 (aw_base sample_writer) (aw_dir sample_writer)"
    using sample_contiguous(2) by (simp add: sample_writer_def)
qed (simp_all add: sample_writer_def log_bytes_def sample_stream good_open_def all_readable_def stream_traces_raw)

lemma sample_writes_back: "writes_back store_codec sample_opened sample_trace"
  by (simp add: writes_back_def sample_provenance sample_opened_def sample_writer_def store_link store_round_trips)

lemma sample_append:
  "appendTraceWithDurability store_codec good_append True sample_trace sample_opened =
     (None, sample_linked sample_codec, sample_appended)"
proof -
  have "MarshalTraceRecord store_codec t = Some ''{}''" for t
    by (simp add: MarshalTraceRecord_def MaxTraceRecordBytes_def store_codec_def)
  then show ?thesis
    by (simp add: appendTraceWithDurability_def sample_provenance sample_opened_def sample_writer_def store_link
        stat_size_def good_append_def handle_bytes_def file_bytes_def write_record_def write_bytes_def set_file_def
        sample_appended_def Let_def)
qed

lemma sample_run_appended: "audit_run store_codec ([] @ [sample_linked sample_codec]) sample_appended"
  using sample_run sample_writes_back sample_append by (rule audit_run.acknowledged)

lemma sample_opened_ok: "writer_ok cd [] sample_opened"
  using audit_run_invariant [OF sample_run [of cd]] by (simp add: run_invariant_def sample_opened_def sample_writer_def)

lemma append_all_or_nothing_witness:
  "case appendTraceWithDurability store_codec torn_append True sample_trace sample_opened of
      (None, t, w') \<Rightarrow> writer_ok store_codec ([] @ [t]) w'
    | (Some e, t, w') \<Rightarrow>
        if is_poisoned_error e then
          aw_poisoned w' \<and>
          torn_stream (log_bytes sample_opened) (record_bytes (aw_needsSeparator sample_opened) (cd_marshal store_codec t))
            (log_bytes w') e
        else writer_ok store_codec [] w' \<and> log_bytes w' = log_bytes sample_opened"
  using append_all_or_nothing [OF sample_opened_ok sample_writes_back] .

lemma acknowledged_is_persisted_witness:
  "sr_Intact (VerifyChainFromReader store_codec (''{}'' @ [CHR 0x0A])) \<and>
   stream_traces store_codec (''{}'' @ [CHR 0x0A]) = Some [sample_linked sample_codec]"
  using acknowledged_is_persisted [OF sample_run_appended]
  by (simp add: sample_appended_def sample_opened_def sample_writer_def log_bytes_def sample_stream)

lemma opens_iff_verified_witness:
  "sr_Intact (VerifyChainFromReader store_codec []) \<and> fst (openAuditLog store_codec good_open sample_writer) = None"
  using opens_iff_verified [of 0 sample_writer good_open store_codec] sample_open [of store_codec]
  by (simp add: sample_writer_def sample_contiguous log_bytes_def sample_stream good_open_def all_readable_def split: if_splits)

lemma restart_resumes_witness:
  "\<exists>w'. openAuditLog store_codec good_open sample_appended = (None, w') \<and>
     audit_run store_codec [sample_linked sample_codec] w' \<and>
     log_bytes w' = log_bytes sample_appended \<and> aw_lastHash w' = aw_lastHash sample_appended"
  using restart_resumes [OF sample_run_appended, of good_open]
  by (simp add: sample_appended_def sample_opened_def sample_writer_def log_bytes_def sample_stream good_open_def all_readable_def)

section \<open>Two refused restarts\<close>

text \<open>The rotation takes the first free index, so a gap in the numbering is filled by a file that is newer
  than the ones after it. The stream then starts with the newest file.\<close>

definition gap_writer :: "string \<Rightarrow> string \<Rightarrow> audit_writer" where
  "gap_writer a b = sample_opened \<lparr> aw_dir := [(''log.2'', Regular a), (''log'', Regular b)] \<rparr>"

theorem rotation_fills_gap:
  "contents ''log'' (aw_dir (gap_writer a b)) = [a, b] \<and>
   fst (rotateAuditLocked (ai_rotate good_append) (gap_writer a b)) = None \<and>
   contents ''log'' (aw_dir (snd (rotateAuditLocked (ai_rotate good_append) (gap_writer a b)))) = [b, a, []]"
proof -
  have idx: "member_index ''log'' ''log.2'' = Some 2" "member_index ''log'' ''log.1'' = Some 1"
    "member_index ''log'' ''log'' = None" "candidate ''log'' 1 = ''log.1''" by code_simp+
  have free: "free_index [(''log.2'', Regular a), (''log'', Regular b)] ''log'' 1 = Some 1"
    by (subst free_index.simps) (simp add: max_rotations_def idx)
  have rot: "rotateAuditLocked (ai_rotate good_append) (gap_writer a b) =
      (None, (gap_writer a b) \<lparr> aw_dir := [(''log.2'', Regular a), (''log.1'', Regular b), (''log'', Regular [])],
         aw_currentBytes := 0 \<rparr>)"
    by (simp add: rotateAuditLocked_def gap_writer_def sample_opened_def sample_writer_def good_append_def free idx
        rename_active_def openDiskAuditLog_def set_file_def Let_def AList.delete_eq)
  show ?thesis
    by (simp add: rot) (simp add: gap_writer_def contents_def RotationSetOldestFirst_def idx file_bytes_def)
qed

end
