(* ===== verification/Limits.thy ===== *)
theory Limits
  imports Domain Float64
begin

text \<open>
  The two keyed limiters of the proxy: the token buckets of \<open>cmd/tg-proxy/ratelimit.go\<close> and the
  sliding monetary windows of \<open>velocity.go\<close>. The clock is an argument, in nanoseconds; a Go map is
  an association list with distinct keys.
\<close>

section \<open>Durations\<close>

definition Second :: int where "Second = 1000000000"
definition Minute :: int where "Minute = 60 * Second"
definition Hour :: int where "Hour = 60 * Minute"

text \<open>\<open>Time.Sub\<close> saturates; \<open>Duration.Seconds\<close> adds the whole seconds and the fraction.\<close>

definition time_Sub :: "time \<Rightarrow> time \<Rightarrow> int" where
  "time_Sub a b = max (- (2 ^ 63)) (min (2 ^ 63 - 1) (a - b))"

definition duration_Seconds :: "int \<Rightarrow> f64" where
  "duration_Seconds d =
     (let s = \<bar>d\<bar> div Second; ns = \<bar>d\<bar> mod Second; k = (if d < 0 then -1 else 1)
      in f64_add (f64_of_int (k * s)) (f64_div (f64_of_int (k * ns)) (f64_of_int Second)))"

section \<open>Rate limiter\<close>

record tokenBucket =
  tb_tokens :: f64
  tb_cap :: f64
  tb_refillRate :: f64
  tb_last :: time

definition newTokenBucket :: "time \<Rightarrow> f64 \<Rightarrow> f64 \<Rightarrow> tokenBucket" where
  "newTokenBucket now rps burst = \<lparr> tb_tokens = burst, tb_cap = burst, tb_refillRate = rps, tb_last = now \<rparr>"

definition refill :: "time \<Rightarrow> tokenBucket \<Rightarrow> f64" where
  "refill now b =
     (let t = f64_add (tb_tokens b) (f64_mul (duration_Seconds (time_Sub now (tb_last b))) (tb_refillRate b))
      in if f64_lt (tb_cap b) t then tb_cap b else t)"

definition bucket_take :: "time \<Rightarrow> tokenBucket \<Rightarrow> bool \<times> tokenBucket" where
  "bucket_take now b =
     (let t = refill now b; b = b \<lparr> tb_last := now \<rparr>
      in if f64_lt (f64_of_int 1) t \<or> f64_eq (f64_of_int 1) t then (True, b \<lparr> tb_tokens := f64_add t (f64_of_int (- 1)) \<rparr>)
         else (False, b \<lparr> tb_tokens := t \<rparr>))"

record rateLimiter =
  rl_buckets :: "(string \<times> tokenBucket) list"
  rl_rps :: f64
  rl_burst :: f64
  rl_idleEvict :: int
  rl_maxKeys :: nat

definition defaultIdleEvict :: int where
  "defaultIdleEvict = 30 * Minute"

definition defaultRateLimitMaxKeys :: nat where
  "defaultRateLimitMaxKeys = 100000"

definition newRateLimiter :: "f64 \<Rightarrow> f64 \<Rightarrow> rateLimiter" where
  "newRateLimiter rps burst = \<lparr> rl_buckets = [], rl_rps = rps, rl_burst = burst,
     rl_idleEvict = defaultIdleEvict, rl_maxKeys = defaultRateLimitMaxKeys \<rparr>"

text \<open>Both stores drop the entries whose last access is before the cutoff.\<close>

definition sweep_idle :: "('a \<Rightarrow> time) \<Rightarrow> int \<Rightarrow> time \<Rightarrow> (string \<times> 'a) list \<Rightarrow> (string \<times> 'a) list" where
  "sweep_idle last_access idle now m = filter (\<lambda>(k, b). \<not> last_access b < now - idle) m"

definition limit_key :: "string \<Rightarrow> string" where
  "limit_key key = (if key = [] then ''_unknown'' else key)"

text \<open>\<open>None\<close> is the nil limiter.\<close>

definition rate_allow :: "time \<Rightarrow> string \<Rightarrow> rateLimiter option \<Rightarrow> bool \<times> rateLimiter option" where
  "rate_allow now key0 rl =
     (case rl of
        None \<Rightarrow> (True, None)
      | Some r \<Rightarrow>
          (let key = limit_key key0;
               (b, m) = (case map_of (rl_buckets r) key of
                   Some b \<Rightarrow> (b, rl_buckets r)
                 | None \<Rightarrow>
                     (newTokenBucket now (rl_rps r) (rl_burst r),
                      if rl_maxKeys r \<le> length (rl_buckets r)
                      then sweep_idle tb_last (rl_idleEvict r) now (rl_buckets r) else rl_buckets r));
               (ok, b) = bucket_take now b
           in (ok, Some (r \<lparr> rl_buckets := AList.update key b m \<rparr>))))"

definition rate_stats :: "rateLimiter option \<Rightarrow> nat" where
  "rate_stats rl = (case rl of None \<Rightarrow> 0 | Some r \<Rightarrow> length (rl_buckets r))"

section \<open>Velocity windows\<close>

record velocityEvent =
  ve_at :: time
  ve_amount :: f64

record velocityWindow =
  vw_events :: "velocityEvent list"
  vw_last :: time

definition velocityMaxEventsPerKey :: nat where
  "velocityMaxEventsPerKey = 20000"

definition prune_events :: "time \<Rightarrow> velocityEvent list \<Rightarrow> velocityEvent list" where
  "prune_events now es =
     (let es = dropWhile (\<lambda>e. ve_at e < now - 24 * Hour) es
      in drop (length es - velocityMaxEventsPerKey) es)"

definition window_prune :: "time \<Rightarrow> velocityWindow \<Rightarrow> velocityWindow" where
  "window_prune now w = w \<lparr> vw_events := prune_events now (vw_events w) \<rparr>"

text \<open>The sums and counts over one hour and over a day.\<close>

record velocity_sums =
  vs_sum1h :: f64
  vs_count1h :: nat
  vs_sum24h :: f64
  vs_count24h :: nat

definition no_sums :: velocity_sums where
  "no_sums = \<lparr> vs_sum1h = 0, vs_count1h = 0, vs_sum24h = 0, vs_count24h = 0 \<rparr>"

definition sum_event :: "time \<Rightarrow> velocityEvent \<Rightarrow> velocity_sums \<Rightarrow> velocity_sums" where
  "sum_event cut1h e s =
     (let s = s \<lparr> vs_sum24h := f64_add (vs_sum24h s) (ve_amount e), vs_count24h := Suc (vs_count24h s) \<rparr>
      in if \<not> ve_at e < cut1h
         then s \<lparr> vs_sum1h := f64_add (vs_sum1h s) (ve_amount e), vs_count1h := Suc (vs_count1h s) \<rparr> else s)"

definition window_aggregate :: "time \<Rightarrow> velocityWindow \<Rightarrow> velocity_sums \<times> velocityWindow" where
  "window_aggregate now w0 =
     (let w = window_prune now (w0 \<lparr> vw_last := now \<rparr>)
      in (fold (sum_event (now - Hour)) (vw_events w) no_sums, w))"

definition window_record :: "time \<Rightarrow> f64 \<Rightarrow> velocityWindow \<Rightarrow> velocityWindow" where
  "window_record now amount w =
     window_prune now (w \<lparr> vw_events := vw_events w @ [\<lparr> ve_at = now, ve_amount = amount \<rparr>], vw_last := now \<rparr>)"

record velocityTracker =
  vt_windows :: "(string \<times> velocityWindow) list"
  vt_idleEvict :: int
  vt_maxKeys :: nat

definition newVelocityTracker :: velocityTracker where
  "newVelocityTracker = \<lparr> vt_windows = [], vt_idleEvict = defaultIdleEvict, vt_maxKeys = defaultRateLimitMaxKeys \<rparr>"

text \<open>\<open>windowFor\<close> returns a pointer into the map; here it returns the key under which the window is.\<close>

definition windowFor :: "time \<Rightarrow> string \<Rightarrow> velocityTracker \<Rightarrow> string \<times> velocityTracker" where
  "windowFor now key0 v =
     (let key = limit_key key0
      in (key,
          case map_of (vt_windows v) key of
            Some _ \<Rightarrow> v
          | None \<Rightarrow>
              (let m = (if vt_maxKeys v \<le> length (vt_windows v)
                        then sweep_idle vw_last (vt_idleEvict v) now (vt_windows v) else vt_windows v)
               in v \<lparr> vt_windows := AList.update key \<lparr> vw_events = [], vw_last = now \<rparr> m \<rparr>)))"

definition velocity_stats :: "velocityTracker option \<Rightarrow> nat" where
  "velocity_stats v = (case v of None \<Rightarrow> 0 | Some v \<Rightarrow> length (vt_windows v))"

definition key_of_envelope :: "ActionEnvelope \<Rightarrow> string \<Rightarrow> string" where
  "key_of_envelope env keyBy =
     (if keyBy = ''session_id'' then e_SessionID env
      else if keyBy = ''org_id'' then e_OrgID env
      else e_AgentID env)"

section \<open>The window as a history\<close>

definition in_order :: "velocityEvent list \<Rightarrow> bool" where
  "in_order es \<longleftrightarrow> sorted (map ve_at es)"

definition since :: "time \<Rightarrow> velocityEvent list \<Rightarrow> velocityEvent list" where
  "since lo es = filter (\<lambda>e. lo \<le> ve_at e) es"

lemma since_simps [simp]: "since lo [] = []" "since lo (e # es) = (if lo \<le> ve_at e then e # since lo es else since lo es)"
  "since lo (es @ es') = since lo es @ since lo es'"
  by (simp_all add: since_def)

lemma since_since: "lo \<le> lo' \<Longrightarrow> since lo' (since lo es) = since lo' es"
  by (auto simp: since_def intro: filter_cong)

lemma since_length: "length es \<le> n \<Longrightarrow> length (since lo es) \<le> n"
  using length_filter_le [of "\<lambda>e. lo \<le> ve_at e" es] by (simp add: since_def del: length_filter_le)

lemma since_in_order: "in_order es \<Longrightarrow> in_order (since lo es)"
  by (simp add: in_order_def since_def sorted_filter)

lemma dropWhile_since: "in_order es \<Longrightarrow> dropWhile (\<lambda>e. ve_at e < lo) es = since lo es"
proof (induction es)
  case (Cons e es)
  then have "in_order es" "\<forall>x\<in>set es. ve_at e \<le> ve_at x" by (simp_all add: in_order_def)
  then show ?case using Cons.IH
    by (cases "lo \<le> ve_at e") (auto simp: since_def intro!: filter_True [symmetric] intro: order_trans)
qed simp

lemma prune_since:
  "in_order es \<Longrightarrow> length es \<le> velocityMaxEventsPerKey \<Longrightarrow> prune_events now es = since (now - 24 * Hour) es"
  using since_length [of es velocityMaxEventsPerKey "now - 24 * Hour"]
  by (simp add: prune_events_def dropWhile_since Let_def)

lemma prune_length: "length (prune_events now es) \<le> velocityMaxEventsPerKey"
  by (simp add: prune_events_def Let_def)

text \<open>The sums of a list of events, in order.\<close>

definition total :: "velocityEvent list \<Rightarrow> f64" where
  "total es = fold (\<lambda>e s. f64_add s (ve_amount e)) es 0"

lemma fold_sums:
  "fold (sum_event lo) es s =
     \<lparr> vs_sum1h = fold (\<lambda>e s. f64_add s (ve_amount e)) (since lo es) (vs_sum1h s),
       vs_count1h = vs_count1h s + length (since lo es),
       vs_sum24h = fold (\<lambda>e s. f64_add s (ve_amount e)) es (vs_sum24h s),
       vs_count24h = vs_count24h s + length es \<rparr>"
  by (induction es arbitrary: s) (auto simp: sum_event_def not_less)

lemma aggregate_sums:
  "fst (window_aggregate now w) =
     (let es = prune_events now (vw_events w)
      in \<lparr> vs_sum1h = total (since (now - Hour) es), vs_count1h = length (since (now - Hour) es),
           vs_sum24h = total es, vs_count24h = length es \<rparr>)"
  by (simp add: window_aggregate_def window_prune_def fold_sums no_sums_def total_def Let_def)

text \<open>The window after a sequence of recorded actions.\<close>

definition replay :: "velocityEvent list \<Rightarrow> velocityWindow \<Rightarrow> velocityWindow" where
  "replay es w = fold (\<lambda>e. window_record (ve_at e) (ve_amount e)) es w"

definition new_window :: "time \<Rightarrow> velocityWindow" where
  "new_window now = \<lparr> vw_events = [], vw_last = now \<rparr>"

lemma replay_events:
  assumes "in_order es" "length es \<le> velocityMaxEventsPerKey" "es \<noteq> []"
  shows "vw_events (replay es (new_window t0)) = since (ve_at (last es) - 24 * Hour) es"
  using assms
proof (induction es rule: rev_induct)
  case (snoc e es)
  show ?case
  proof (cases "es = []")
    case True
    then show ?thesis
      by (simp add: replay_def window_record_def window_prune_def new_window_def prune_since in_order_def
          velocityMaxEventsPerKey_def Hour_def Minute_def Second_def)
  next
    case False
    have ord: "in_order es" "ve_at (last es) \<le> ve_at e"
      using snoc(2) False by (auto simp: in_order_def sorted_append)
    let ?old = "since (ve_at (last es) - 24 * Hour) es"
    have ev: "vw_events (replay es (new_window t0)) = ?old" using snoc ord False by simp
    have "in_order (?old @ [\<lparr> ve_at = ve_at e, ve_amount = ve_amount e \<rparr>])"
      using snoc(2) since_in_order [OF ord(1)] by (auto simp: in_order_def sorted_append since_def)
    moreover have "length ?old < velocityMaxEventsPerKey"
      using since_length [of es "length es" "ve_at (last es) - 24 * Hour"] snoc(3) by simp
    ultimately have "prune_events (ve_at e) (?old @ [\<lparr> ve_at = ve_at e, ve_amount = ve_amount e \<rparr>]) =
        since (ve_at e - 24 * Hour) (?old @ [\<lparr> ve_at = ve_at e, ve_amount = ve_amount e \<rparr>])"
      by (intro prune_since) simp_all
    then show ?thesis using ev ord(2)
      by (simp add: replay_def window_record_def window_prune_def since_since)
  qed
qed simp

lemma replay_aggregate:
  assumes "in_order es" "length es \<le> velocityMaxEventsPerKey" "\<forall>e\<in>set es. ve_at e \<le> now"
  shows "fst (window_aggregate now (replay es (new_window t0))) =
    \<lparr> vs_sum1h = total (since (now - Hour) es), vs_count1h = length (since (now - Hour) es),
      vs_sum24h = total (since (now - 24 * Hour) es), vs_count24h = length (since (now - 24 * Hour) es) \<rparr>"
proof (cases "es = []")
  case True
  then show ?thesis by (simp add: aggregate_sums replay_def new_window_def prune_events_def)
next
  case False
  let ?lo = "ve_at (last es) - 24 * Hour"
  have le: "?lo \<le> now - 24 * Hour" using assms(3) False by simp
  have "length (since ?lo es) \<le> velocityMaxEventsPerKey"
    using assms(2) by (rule since_length)
  then have "prune_events now (since ?lo es) = since (now - 24 * Hour) es"
    using prune_since [OF since_in_order [OF assms(1)], of ?lo now] since_since [OF le] by simp
  moreover have "now - 24 * Hour \<le> now - Hour" by (simp add: Hour_def Minute_def Second_def)
  ultimately show ?thesis
    by (simp add: aggregate_sums replay_events [OF assms(1,2) False] since_since Let_def)
qed

section \<open>Properties\<close>

text \<open>C23: the velocity sums are those of the whole history. After any sequence of at most 20000 actions
  recorded in the order of the clock, the window's aggregates are the sums and counts of all actions
  of the last hour and of the last day, although older ones have been pruned.\<close>

theorem velocity_sums_exact:
  assumes "in_order es" and "length es \<le> velocityMaxEventsPerKey" and "\<forall>e\<in>set es. ve_at e \<le> now"
  shows "fst (window_aggregate now (replay es (new_window t0))) =
    \<lparr> vs_sum1h = total (since (now - Hour) es), vs_count1h = length (since (now - Hour) es),
      vs_sum24h = total (since (now - 24 * Hour) es), vs_count24h = length (since (now - 24 * Hour) es) \<rparr>"
  using assms by (rule replay_aggregate)

lemma velocity_sums_exact_witness:
  "fst (window_aggregate (25 * Hour)
     (replay [\<lparr> ve_at = 0, ve_amount = f64_of_int 5 \<rparr>, \<lparr> ve_at = 2 * Hour, ve_amount = f64_of_int 7 \<rparr>] (new_window 0))) =
   \<lparr> vs_sum1h = 0, vs_count1h = 0, vs_sum24h = f64_of_int 7, vs_count24h = 1 \<rparr>"
proof -
  have "total [\<lparr> ve_at = 2 * Hour, ve_amount = f64_of_int 7 \<rparr>] = f64_of_int 7" by code_simp
  then show ?thesis
    using velocity_sums_exact [of "[\<lparr> ve_at = 0, ve_amount = f64_of_int 5 \<rparr>, \<lparr> ve_at = 2 * Hour, ve_amount = f64_of_int 7 \<rparr>]"
        "25 * Hour" 0]
    by (simp add: in_order_def velocityMaxEventsPerKey_def Hour_def Minute_def Second_def total_def)
qed

text \<open>Under key pressure a window is forgotten after 30 idle minutes. When the tracker holds its
  maximum of keys, a first request under a new key drops every window without access for 30 minutes,
  and the next aggregate under that key starts from nothing, whatever was spent in the last day.\<close>

theorem idle_window_forgets_the_day:
  assumes "vt_maxKeys v \<le> length (vt_windows v)" and "map_of (vt_windows v) (limit_key other) = None"
    and "distinct (map fst (vt_windows v))" and "map_of (vt_windows v) (limit_key key) = Some w"
    and "vw_last w < now - vt_idleEvict v" and "now \<le> later"
  shows "map_of (vt_windows (snd (windowFor now other v))) (limit_key key) = None \<and>
    (\<exists>w'. map_of (vt_windows (snd (windowFor later key (snd (windowFor now other v))))) (limit_key key) = Some w' \<and>
       fst (window_aggregate later w') = no_sums)"
proof -
  let ?v = "snd (windowFor now other v)"
  have "map_of (filter (\<lambda>(k, b). \<not> vw_last b < now - vt_idleEvict v) (vt_windows v)) (limit_key key) = None"
  proof (rule ccontr)
    assume "\<not> ?thesis"
    then obtain w' where "(limit_key key, w') \<in> set (vt_windows v)" "\<not> vw_last w' < now - vt_idleEvict v"
      by (auto dest!: map_of_SomeD)
    with assms(3-5) show False by (metis map_of_is_SomeI option.inject)
  qed
  moreover have "limit_key key \<noteq> limit_key other" using assms(2,4) by auto
  ultimately have gone: "map_of (vt_windows ?v) (limit_key key) = None"
    using assms(1,2) by (simp add: windowFor_def Let_def sweep_idle_def update_conv')
  then have "map_of (vt_windows (snd (windowFor later key ?v))) (limit_key key) = Some \<lparr> vw_events = [], vw_last = later \<rparr>"
    by (simp add: windowFor_def [of later] update_conv' Let_def)
  moreover have "fst (window_aggregate later \<lparr> vw_events = [], vw_last = later \<rparr>) = no_sums"
    by (simp add: window_aggregate_def window_prune_def prune_events_def Let_def)
  ultimately show ?thesis using gone by blast
qed

definition full_tracker :: velocityTracker where
  "full_tracker = \<lparr> vt_windows = [(''a'', \<lparr> vw_events = [\<lparr> ve_at = 0, ve_amount = f64_of_int 4000 \<rparr>], vw_last = 0 \<rparr>)],
     vt_idleEvict = defaultIdleEvict, vt_maxKeys = 1 \<rparr>"

lemma idle_window_forgets_the_day_witness:
  "map_of (vt_windows (snd (windowFor Hour ''b'' full_tracker))) (limit_key ''a'') = None"
  using idle_window_forgets_the_day [of full_tracker "''b''" "''a''"
      "\<lparr> vw_events = [\<lparr> ve_at = 0, ve_amount = f64_of_int 4000 \<rparr>], vw_last = 0 \<rparr>" Hour Hour]
  by (simp add: full_tracker_def limit_key_def defaultIdleEvict_def Hour_def Minute_def Second_def)

text \<open>The number of keys is not bounded: with no idle entry to drop, a new key is added above the
  maximum.\<close>

theorem key_cap_is_soft:
  assumes "rl_maxKeys r \<le> length (rl_buckets r)" and "map_of (rl_buckets r) (limit_key key) = None"
    and "\<forall>(k, b)\<in>set (rl_buckets r). now - rl_idleEvict r \<le> tb_last b"
  shows "rate_stats (snd (rate_allow now key (Some r))) = Suc (length (rl_buckets r))"
proof -
  have upd: "map_of m k = None \<Longrightarrow> length (AList.update k x m) = Suc (length m)" for m :: "(string \<times> tokenBucket) list" and k x
    by (induction m) (auto split: if_splits)
  have "sweep_idle tb_last (rl_idleEvict r) now (rl_buckets r) = rl_buckets r"
    using assms(3) by (auto simp: sweep_idle_def filter_id_conv)
  then show ?thesis using assms(1,2) upd
    by (simp add: rate_allow_def rate_stats_def Let_def split: prod.splits)
qed

text \<open>A request without the key field is limited like any other: it is charged to the shared
  bucket of \<open>_unknown\<close>.\<close>

theorem empty_key_is_limited: "rate_allow now [] rl = rate_allow now ''_unknown'' rl"
proof -
  have "limit_key [] = limit_key ''_unknown''" by (simp add: limit_key_def)
  then show ?thesis unfolding rate_allow_def by (rule ssubst) (rule refl)
qed

end
