(* ===== verification/Escalation.thy ===== *)
theory Escalation
  imports Audit_Writer Limits
begin

text \<open>
  The registry of human reviews (\<open>cmd/tg-proxy/escalation.go\<close>). Entries are pointers in the source
  and are compared by identity, so the store keeps a heap of entries and a map from identifiers to
  addresses. The clock and the iteration order of the map are arguments. The audit writer is seen
  through the callback of \<open>resolveAudited\<close> and \<open>reapExpiredAudited\<close>; the locale states what the store
  needs from it.
\<close>

section \<open>State\<close>

datatype EscalationState =
    escRegistering | EscPending | EscApproved | EscDenied | EscExpired | EscIndeterminate

record Escalation =
  es_ID :: string
  es_State :: EscalationState
  es_CreatedAt :: time
  es_ExpiresAt :: time
  es_ResolvedAt :: "time option"
  es_Approver :: string
  es_ApproverReason :: string
  es_Envelope :: ActionEnvelope
  es_Decision :: EvaluationResult
  es_ResolutionReceipt :: "DecisionReceipt option"

record escalationStore =
  st_heap :: "Escalation list"
  st_entries :: "(string \<times> nat) list"
  st_maxEntries :: nat

definition newEscalationStore :: escalationStore where
  "newEscalationStore = \<lparr> st_heap = [], st_entries = [], st_maxEntries = 10000 \<rparr>"

definition entry :: "escalationStore \<Rightarrow> string \<Rightarrow> Escalation option" where
  "entry st i = map_option (\<lambda>a. st_heap st ! a) (map_of (st_entries st) i)"

definition set_entry :: "nat \<Rightarrow> Escalation \<Rightarrow> escalationStore \<Rightarrow> escalationStore" where
  "set_entry a e st = st \<lparr> st_heap := (st_heap st)[a := e] \<rparr>"

definition remove_entry :: "string \<Rightarrow> escalationStore \<Rightarrow> escalationStore" where
  "remove_entry i st = st \<lparr> st_entries := AList.delete i (st_entries st) \<rparr>"

section \<open>Eviction and reservation\<close>

text \<open>The loop of \<open>evictOldestResolvedLocked\<close>; the empty string stands for no candidate yet.\<close>

fun evict_pick :: "escalationStore \<Rightarrow> string list \<Rightarrow> string \<times> time \<Rightarrow> string \<times> time" where
  "evict_pick st [] acc = acc"
| "evict_pick st (i # ids) (oldestID, oldest) =
     evict_pick st ids
       (case entry st i of
          None \<Rightarrow> (oldestID, oldest)
        | Some e \<Rightarrow>
            (if es_State e = EscPending \<or> es_State e = escRegistering then (oldestID, oldest)
             else let t = (case es_ResolvedAt e of Some r \<Rightarrow> r | None \<Rightarrow> es_CreatedAt e)
                  in if oldestID = [] \<or> t < oldest then (i, t) else (oldestID, oldest)))"

definition evictOldestResolvedLocked :: "string list \<Rightarrow> escalationStore \<Rightarrow> bool \<times> escalationStore" where
  "evictOldestResolvedLocked order st =
     (let (i, _) = evict_pick st order ([], 0)
      in if i = [] then (False, st) else (True, remove_entry i st))"

text \<open>\<open>time.Duration(timeoutMinutes) * time.Minute\<close> wraps at 64 bits.\<close>

definition escalation_timeout :: "int \<Rightarrow> int" where
  "escalation_timeout timeoutMinutes =
     sint (word_of_int ((if timeoutMinutes < 1 then 15 else timeoutMinutes) * Minute) :: 64 word)"

definition new_escalation :: "time \<Rightarrow> ActionEnvelope \<Rightarrow> EvaluationResult \<Rightarrow> int \<Rightarrow> Escalation" where
  "new_escalation now env dec timeoutMinutes =
     \<lparr> es_ID = e_EnvelopeID env, es_State = escRegistering, es_CreatedAt = now,
       es_ExpiresAt = now + escalation_timeout timeoutMinutes, es_ResolvedAt = None, es_Approver = [],
       es_ApproverReason = [], es_Envelope = env, es_Decision = dec, es_ResolutionReceipt = None \<rparr>"

text \<open>The result is the address of the new entry, \<open>None\<close> for nil.\<close>

definition reserve ::
  "time \<Rightarrow> string list \<Rightarrow> ActionEnvelope \<Rightarrow> EvaluationResult \<Rightarrow> int \<Rightarrow> escalationStore \<Rightarrow> nat option \<times> escalationStore" where
  "reserve now order env dec timeoutMinutes st =
     (let e = new_escalation now env dec timeoutMinutes in
      if map_of (st_entries st) (es_ID e) \<noteq> None then (None, st)
      else
        let (room, st) = (if st_maxEntries st \<le> length (st_entries st)
                          then evictOldestResolvedLocked order st else (True, st)) in
        if \<not> room then (None, st)
        else (Some (length (st_heap st)),
              st \<lparr> st_heap := st_heap st @ [e],
                   st_entries := AList.update (es_ID e) (length (st_heap st)) (st_entries st) \<rparr>))"

text \<open>The entry an address still stands for: the map leads to that very address, and it is hidden.\<close>

definition reserved_at :: "escalationStore \<Rightarrow> nat \<Rightarrow> bool" where
  "reserved_at st a \<longleftrightarrow>
     map_of (st_entries st) (es_ID (st_heap st ! a)) = Some a \<and> es_State (st_heap st ! a) = escRegistering"

definition publishReserved :: "nat option \<Rightarrow> escalationStore \<Rightarrow> bool \<times> escalationStore" where
  "publishReserved expected st =
     (case expected of
        None \<Rightarrow> (False, st)
      | Some a \<Rightarrow>
          (if \<not> reserved_at st a then (False, st)
           else (True, set_entry a ((st_heap st ! a) \<lparr> es_State := EscPending \<rparr>) st)))"

definition discardReserved :: "nat option \<Rightarrow> escalationStore \<Rightarrow> bool \<times> escalationStore" where
  "discardReserved expected st =
     (case expected of
        None \<Rightarrow> (False, st)
      | Some a \<Rightarrow>
          (if \<not> reserved_at st a then (False, st)
           else (True, remove_entry (es_ID (st_heap st ! a)) st)))"

definition add_escalation ::
  "time \<Rightarrow> string list \<Rightarrow> ActionEnvelope \<Rightarrow> EvaluationResult \<Rightarrow> int \<Rightarrow> escalationStore \<Rightarrow> nat option \<times> escalationStore" where
  "add_escalation now order env dec timeoutMinutes st =
     (let (e, st) = reserve now order env dec timeoutMinutes st in
      case e of
        None \<Rightarrow> (None, st)
      | Some a \<Rightarrow> (let (ok, st) = publishReserved (Some a) st in (if ok then Some a else None, st)))"

definition get_escalation :: "string \<Rightarrow> escalationStore \<Rightarrow> Escalation option" where
  "get_escalation i st =
     (case entry st i of
        Some e \<Rightarrow> if es_State e \<noteq> escRegistering then Some e else None
      | None \<Rightarrow> None)"

definition list_escalations :: "string list \<Rightarrow> escalationStore \<Rightarrow> Escalation list" where
  "list_escalations order st =
     filter (\<lambda>e. es_State e \<noteq> escRegistering) (List.map_filter (entry st) order)"

section \<open>Resolution and expiry\<close>

text \<open>The callback gets the candidate, may change it, and returns nil or an error.\<close>

type_synonym 'w commit = "Escalation \<Rightarrow> 'w \<Rightarrow> append_error option \<times> Escalation \<times> 'w"

datatype resolve_error = EscalationPastDue | AuditFailed append_error

definition audit_uncertain :: "append_error \<Rightarrow> bool" where
  "audit_uncertain e \<longleftrightarrow> is_indeterminate_error e \<or> is_committed_error e"

definition run_commit :: "'w commit option \<Rightarrow> Escalation \<Rightarrow> 'w \<Rightarrow> append_error option \<times> Escalation \<times> 'w" where
  "run_commit beforeCommit e w = (case beforeCommit of None \<Rightarrow> (None, e, w) | Some cb \<Rightarrow> cb e w)"

definition resolveAudited ::
  "time \<Rightarrow> string \<Rightarrow> string \<Rightarrow> string \<Rightarrow> bool \<Rightarrow> 'w commit option \<Rightarrow> escalationStore \<Rightarrow> 'w \<Rightarrow>
     (Escalation option \<times> bool \<times> resolve_error option) \<times> escalationStore \<times> 'w" where
  "resolveAudited now i approver reason approved beforeCommit st w =
     (case map_of (st_entries st) i of
        None \<Rightarrow> ((None, False, None), st, w)
      | Some a \<Rightarrow>
          (let e = st_heap st ! a in
           if es_State e = escRegistering then ((None, False, None), st, w)
           else if es_State e \<noteq> EscPending then ((Some e, False, None), st, w)
           else if \<not> now < es_ExpiresAt e then ((Some e, False, Some EscalationPastDue), st, w)
           else
             let candidate = e \<lparr> es_ResolvedAt := Some now, es_Approver := approver, es_ApproverReason := reason,
                                 es_State := (if approved then EscApproved else EscDenied) \<rparr>;
                 (err, candidate, w) = run_commit beforeCommit candidate w
             in case err of
                  Some er \<Rightarrow>
                    (if audit_uncertain er then
                       (let candidate = candidate \<lparr> es_State := EscIndeterminate \<rparr>
                        in ((Some candidate, False, Some (AuditFailed er)), set_entry a candidate st, w))
                     else ((Some e, False, Some (AuditFailed er)), st, w))
                | None \<Rightarrow> ((Some candidate, True, None), set_entry a candidate st, w)))"

definition resolve :: "time \<Rightarrow> string \<Rightarrow> string \<Rightarrow> string \<Rightarrow> bool \<Rightarrow> escalationStore \<Rightarrow> (Escalation option \<times> bool) \<times> escalationStore" where
  "resolve now i approver reason approved st =
     (let ((e, ok, _), st, _) = resolveAudited now i approver reason approved (None :: unit commit option) st ()
      in ((e, ok), st))"

text \<open>One entry of the loop of \<open>reapExpiredAudited\<close>.\<close>

definition reap_one ::
  "time \<Rightarrow> 'w commit option \<Rightarrow> string \<Rightarrow> escalationStore \<Rightarrow> 'w \<Rightarrow>
     (Escalation list \<times> (Escalation \<times> append_error) list) \<times> escalationStore \<times> 'w" where
  "reap_one now beforeCommit i st w =
     (case map_of (st_entries st) i of
        None \<Rightarrow> (([], []), st, w)
      | Some a \<Rightarrow>
          (let e = st_heap st ! a in
           if es_State e = EscPending \<and> \<not> now < es_ExpiresAt e then
             (let (err, candidate, w) =
                    run_commit beforeCommit (e \<lparr> es_State := EscExpired, es_ResolvedAt := Some now \<rparr>) w
              in case err of
                   Some er \<Rightarrow>
                     (if audit_uncertain er then
                        (let candidate = candidate \<lparr> es_State := EscIndeterminate \<rparr>
                         in (([], [(candidate, er)]), set_entry a candidate st, w))
                      else (([], [(e, er)]), st, w))
                 | None \<Rightarrow> (([candidate], []), set_entry a candidate st, w))
           else (([], []), st, w)))"

fun reapExpiredAudited ::
  "time \<Rightarrow> string list \<Rightarrow> 'w commit option \<Rightarrow> escalationStore \<Rightarrow> 'w \<Rightarrow>
     (Escalation list \<times> (Escalation \<times> append_error) list) \<times> escalationStore \<times> 'w" where
  "reapExpiredAudited now [] beforeCommit st w = (([], []), st, w)"
| "reapExpiredAudited now (i # order) beforeCommit st w =
     (let ((out, fails), st, w) = reap_one now beforeCommit i st w;
          ((out', fails'), st, w) = reapExpiredAudited now order beforeCommit st w
      in ((out @ out', fails @ fails'), st, w))"

definition reapExpired :: "time \<Rightarrow> string list \<Rightarrow> escalationStore \<Rightarrow> Escalation list \<times> escalationStore" where
  "reapExpired now order st =
     (let ((out, _), st, _) = reapExpiredAudited now order (None :: unit commit option) st () in (out, st))"

definition attachResolutionReceipt ::
  "string \<Rightarrow> EscalationState \<Rightarrow> time \<Rightarrow> DecisionReceipt option \<Rightarrow> escalationStore \<Rightarrow> Escalation option \<times> escalationStore" where
  "attachResolutionReceipt i expectedState expectedResolvedAt receipt st =
     (case receipt of
        None \<Rightarrow> (None, st)
      | Some _ \<Rightarrow>
          (case map_of (st_entries st) i of
             None \<Rightarrow> (None, st)
           | Some a \<Rightarrow>
               (let e = st_heap st ! a in
                if es_State e \<noteq> expectedState \<or> es_ResolvedAt e \<noteq> Some expectedResolvedAt then (None, st)
                else let e = e \<lparr> es_ResolutionReceipt := receipt \<rparr> in (Some e, set_entry a e st))))"

section \<open>The store as a set of entries\<close>

definition store_ok :: "escalationStore \<Rightarrow> bool" where
  "store_ok st \<longleftrightarrow> distinct (map fst (st_entries st)) \<and> length (st_entries st) \<le> st_maxEntries st \<and>
     (\<forall>i a. map_of (st_entries st) i = Some a \<longrightarrow> a < length (st_heap st) \<and> es_ID (st_heap st ! a) = i)"

lemma entry_Some: "entry st i = Some e \<longleftrightarrow> (\<exists>a. map_of (st_entries st) i = Some a \<and> e = st_heap st ! a)"
  by (auto simp: entry_def)

lemma set_entry_ok:
  assumes "store_ok st" "map_of (st_entries st) i = Some a" "es_ID e = i"
  shows "store_ok (set_entry a e st)" "entry (set_entry a e st) j = (if j = i then Some e else entry st j)"
proof -
  have a: "a < length (st_heap st)" "es_ID (st_heap st ! a) = i" using assms by (auto simp: store_ok_def)
  have other: "b \<noteq> a" if "map_of (st_entries st) j = Some b" "j \<noteq> i" for j b
    using that a assms(1) by (auto simp: store_ok_def)
  show "store_ok (set_entry a e st)"
    using assms a other by (auto simp: store_ok_def set_entry_def nth_list_update)
  show "entry (set_entry a e st) j = (if j = i then Some e else entry st j)"
    using assms(2) a other [of j] by (cases "map_of (st_entries st) j") (auto simp: entry_def set_entry_def nth_list_update)
qed

lemma length_delete: "length (AList.delete k m) \<le> length m"
  by (simp add: AList.delete_eq)

lemma length_update: "map_of m k = None \<Longrightarrow> length (AList.update k x m) = Suc (length m)"
  by (induction m) (auto split: if_splits)

lemma remove_entry_ok:
  "store_ok st \<Longrightarrow> store_ok (remove_entry i st)"
  "entry (remove_entry i st) j = (if j = i then None else entry st j)"
  using length_delete [of i "st_entries st"]
  by (auto simp: store_ok_def remove_entry_def entry_def delete_conv' distinct_delete split: if_splits)

lemma length_delete_less: "map_of m k \<noteq> None \<Longrightarrow> length (AList.delete k m) < length m"
  by (auto simp: AList.delete_eq map_of_eq_None_iff image_iff intro!: length_filter_less)

definition terminal :: "EscalationState \<Rightarrow> bool" where
  "terminal s \<longleftrightarrow> s \<noteq> escRegistering \<and> s \<noteq> EscPending"

lemma evict_pick_terminal:
  assumes "fst acc = [] \<or> (\<exists>e. entry st (fst acc) = Some e \<and> terminal (es_State e))"
  shows "fst (evict_pick st order acc) = [] \<or>
    (\<exists>e. entry st (fst (evict_pick st order acc)) = Some e \<and> terminal (es_State e))"
  using assms
proof (induction st order acc rule: evict_pick.induct)
  case (2 st i ids oldestID oldest)
  then show ?case by (auto simp: terminal_def Let_def split: option.splits if_splits)
qed simp

lemma evict_result:
  assumes "evictOldestResolvedLocked order st = (ok, st')"
  shows "if ok then (\<exists>i e. entry st i = Some e \<and> terminal (es_State e) \<and> st' = remove_entry i st) else st' = st"
  using evict_pick_terminal [of "([], 0)" st order] assms
  by (auto simp: evictOldestResolvedLocked_def split: prod.splits if_splits)

text \<open>Below its maximum, a store that differs by at most the loss of a terminal entry.\<close>

definition made_room :: "escalationStore \<Rightarrow> escalationStore \<Rightarrow> bool" where
  "made_room st st1 \<longleftrightarrow> store_ok st1 \<and> length (st_entries st1) < st_maxEntries st \<and>
     st_heap st1 = st_heap st \<and> st_maxEntries st1 = st_maxEntries st \<and>
     (\<forall>k. map_of (st_entries st1) k = map_of (st_entries st) k \<or>
        (map_of (st_entries st1) k = None \<and> (\<exists>e. entry st k = Some e \<and> terminal (es_State e))))"

lemma room_result:
  assumes "store_ok st"
    and "(if st_maxEntries st \<le> length (st_entries st) then evictOldestResolvedLocked order st else (True, st)) = (room, st1)"
  shows "if room then made_room st st1 else st1 = st"
proof (cases "st_maxEntries st \<le> length (st_entries st)")
  case False
  with assms show ?thesis by (auto simp: made_room_def)
next
  case True
  with assms(2) have ev: "evictOldestResolvedLocked order st = (room, st1)" by simp
  show ?thesis
  proof (cases room)
    case False
    with evict_result [OF ev] show ?thesis by simp
  next
    case True
    with evict_result [OF ev] obtain j e where e: "entry st j = Some e" "terminal (es_State e)" "st1 = remove_entry j st"
      by auto
    then have "length (st_entries st1) < length (st_entries st)"
      by (auto simp: remove_entry_def entry_Some intro!: length_delete_less)
    moreover have "length (st_entries st) \<le> st_maxEntries st" using assms(1) by (simp add: store_ok_def)
    moreover have "store_ok st1" using remove_entry_ok(1) [OF assms(1)] e(3) by simp
    ultimately have "made_room st st1" using e by (auto simp: made_room_def remove_entry_def delete_conv')
    with True show ?thesis by simp
  qed
qed

text \<open>What a reservation does to the entries: it fails and changes nothing, or it adds a hidden entry
  under a fresh identifier, possibly in place of a terminal one.\<close>

lemma reserve_result:
  assumes "store_ok st" "reserve now order env dec tm st = (r, st')"
  shows "case r of
      None \<Rightarrow> st' = st
    | Some a \<Rightarrow> entry st (e_EnvelopeID env) = None \<and> store_ok st' \<and> st_maxEntries st' = st_maxEntries st \<and>
        entry st' (e_EnvelopeID env) = Some (new_escalation now env dec tm) \<and>
        map_of (st_entries st') (e_EnvelopeID env) = Some a \<and> reserved_at st' a \<and>
        (\<forall>j. j \<noteq> e_EnvelopeID env \<longrightarrow> entry st' j = entry st j \<or>
           (entry st' j = None \<and> (\<exists>e. entry st j = Some e \<and> terminal (es_State e))))"
proof -
  let ?e = "new_escalation now env dec tm" and ?i = "e_EnvelopeID env"
  have id: "es_ID ?e = ?i" "es_State ?e = escRegistering" by (simp_all add: new_escalation_def)
  obtain room st1 where ev: "(if st_maxEntries st \<le> length (st_entries st) then evictOldestResolvedLocked order st
      else (True, st)) = (room, st1)" by fastforce
  note mr = room_result [OF assms(1) ev]
  show ?thesis
  proof (cases "map_of (st_entries st) ?i = None \<and> room")
    case False
    then show ?thesis using assms(2) id ev mr by (auto simp: reserve_def Let_def split: if_splits)
  next
    case True
    with mr have st1: "made_room st st1" by simp
    then have free: "map_of (st_entries st1) ?i = None" using True unfolding made_room_def by metis
    define st2 where "st2 = st1 \<lparr> st_heap := st_heap st1 @ [?e],
        st_entries := AList.update ?i (length (st_heap st1)) (st_entries st1) \<rparr>"
    have res: "r = Some (length (st_heap st1))" "st' = st2"
      using assms(2) True id ev by (auto simp: reserve_def Let_def st2_def)
    have ok1: "store_ok st1" "length (st_entries st1) < st_maxEntries st1"
      using st1 by (simp_all add: made_room_def)
    have "store_ok st2"
      using ok1 free id by (auto simp: store_ok_def st2_def update_conv' distinct_update length_update nth_append less_Suc_eq)
    moreover have "entry st2 k = entry st1 k" if "k \<noteq> ?i" for k
      using that ok1(1) by (cases "map_of (st_entries st1) k") (auto simp: st2_def entry_def update_conv' store_ok_def nth_append)
    moreover have "entry st1 k = entry st k \<or> (entry st1 k = None \<and> (\<exists>e. entry st k = Some e \<and> terminal (es_State e)))" for k
      using st1 unfolding made_room_def entry_def by (metis option.map(1))
    moreover have "entry st ?i = None" using True by (simp add: entry_def)
    ultimately show ?thesis
      using res id st1 by (auto simp: st2_def entry_def update_conv' reserved_at_def made_room_def)
  qed
qed

lemma reserved_at_entry:
  "reserved_at st a \<Longrightarrow> entry st (es_ID (st_heap st ! a)) = Some (st_heap st ! a)"
  by (simp add: reserved_at_def entry_def)

section \<open>Steps\<close>

text \<open>Every operation on the store, and any step of the world between them.\<close>

inductive esc_step ::
  "'w commit \<Rightarrow> ('w \<Rightarrow> 'w \<Rightarrow> bool) \<Rightarrow> escalationStore \<times> 'w \<Rightarrow> escalationStore \<times> 'w \<Rightarrow> bool"
  for commit other where
  reserves: "reserve now order env dec tm st = (r, st') \<Longrightarrow> esc_step commit other (st, w) (st', w)"
| publishes: "publishReserved r st = (b, st') \<Longrightarrow> esc_step commit other (st, w) (st', w)"
| discards: "discardReserved r st = (b, st') \<Longrightarrow> esc_step commit other (st, w) (st', w)"
| resolves: "resolveAudited now i approver reason approved (Some commit) st w = (res, st', w') \<Longrightarrow>
    esc_step commit other (st, w) (st', w')"
| reaps: "reapExpiredAudited now order (Some commit) st w = (res, st', w') \<Longrightarrow> esc_step commit other (st, w) (st', w')"
| attaches: "attachResolutionReceipt i s t receipt st = (r, st') \<Longrightarrow> esc_step commit other (st, w) (st', w)"
| world: "other w w' \<Longrightarrow> esc_step commit other (st, w) (st, w')"

inductive_cases esc_stepE: "esc_step commit other (st, w) (st', w')"

section \<open>What the store needs from the audit writer\<close>

text \<open>The callback records the transition it acknowledges, keeps the candidate but for its receipt, and
  nothing the world does takes a record back.\<close>

locale audit_commit =
  fixes commit :: "'w commit" and other :: "'w \<Rightarrow> 'w \<Rightarrow> bool"
    and good :: "'w \<Rightarrow> bool" and recorded :: "'w \<Rightarrow> Escalation \<Rightarrow> bool"
  assumes candidate_kept: "commit e w = (err, e', w') \<Longrightarrow> e' = e \<lparr> es_ResolutionReceipt := es_ResolutionReceipt e' \<rparr>"
    and success_recorded: "good w \<Longrightarrow> commit e w = (None, e', w') \<Longrightarrow>
      es_State e \<in> {EscApproved, EscDenied, EscExpired} \<Longrightarrow> recorded w' e"
    and commit_good: "good w \<Longrightarrow> commit e w = (err, e', w') \<Longrightarrow> good w'"
    and commit_monotone: "good w \<Longrightarrow> commit e w = (err, e', w') \<Longrightarrow> recorded w x \<Longrightarrow> recorded w' x"
    and other_good: "good w \<Longrightarrow> other w w' \<Longrightarrow> good w'"
    and other_monotone: "good w \<Longrightarrow> other w w' \<Longrightarrow> recorded w x \<Longrightarrow> recorded w' x"
    and receipt_irrelevant: "recorded w (x \<lparr> es_ResolutionReceipt := r \<rparr>) = recorded w x"
begin

text \<open>A terminal entry is recorded, and was resolved on the right side of its deadline.\<close>

definition sound_entry :: "'w \<Rightarrow> Escalation \<Rightarrow> bool" where
  "sound_entry w e \<longleftrightarrow>
     (es_State e \<in> {EscApproved, EscDenied, EscExpired} \<longrightarrow> recorded w e) \<and>
     (es_State e \<in> {EscApproved, EscDenied} \<longrightarrow> (\<exists>t. es_ResolvedAt e = Some t \<and> t < es_ExpiresAt e)) \<and>
     (es_State e = EscExpired \<longrightarrow> (\<exists>t. es_ResolvedAt e = Some t \<and> es_ExpiresAt e \<le> t))"

definition sound :: "escalationStore \<times> 'w \<Rightarrow> bool" where
  "sound c \<longleftrightarrow> store_ok (fst c) \<and> good (snd c) \<and> (\<forall>i e. entry (fst c) i = Some e \<longrightarrow> sound_entry (snd c) e)"

lemma sound_entry_mono: "(\<And>x. recorded w x \<Longrightarrow> recorded w' x) \<Longrightarrow> sound_entry w e \<Longrightarrow> sound_entry w' e"
  by (auto simp: sound_entry_def)

lemma sound_fresh: "sound_entry w (new_escalation now env dec tm)"
  by (simp add: sound_entry_def new_escalation_def)

lemma sound_set:
  assumes "sound (st, w)" "map_of (st_entries st) i = Some a" "es_ID e = i" "good w'" "sound_entry w' e"
    "\<And>x. recorded w x \<Longrightarrow> recorded w' x"
  shows "sound (set_entry a e st, w')"
  using assms set_entry_ok [of st i a e] sound_entry_mono [OF assms(6)]
  by (auto simp: sound_def split: if_splits)

lemma sound_world:
  "sound (st, w) \<Longrightarrow> good w' \<Longrightarrow> (\<And>x. recorded w x \<Longrightarrow> recorded w' x) \<Longrightarrow> sound (st, w')"
  using sound_entry_mono [of w w'] by (auto simp: sound_def)

lemma sound_remove: "sound (st, w) \<Longrightarrow> sound (remove_entry i st, w)"
  using remove_entry_ok(1) [of st i] by (auto simp: sound_def remove_entry_ok(2) split: if_splits)

lemma sound_commit:
  assumes "sound (st, w)" "commit c w = (err, e, w')" "map_of (st_entries st) i = Some a" "es_ID c = i"
    and state: "es_State c \<in> {EscApproved, EscDenied, EscExpired}"
    and time: "es_State c \<in> {EscApproved, EscDenied} \<Longrightarrow> \<exists>t. es_ResolvedAt c = Some t \<and> t < es_ExpiresAt c"
      "es_State c = EscExpired \<Longrightarrow> \<exists>t. es_ResolvedAt c = Some t \<and> es_ExpiresAt c \<le> t"
  shows "err = None \<Longrightarrow> sound (set_entry a e st, w')" "sound (set_entry a (e \<lparr> es_State := EscIndeterminate \<rparr>) st, w')"
    "sound (st, w')"
proof -
  have g: "good w" using assms(1) by (simp add: sound_def)
  have mono: "recorded w x \<Longrightarrow> recorded w' x" for x by (rule commit_monotone [OF g assms(2)])
  note good' = commit_good [OF g assms(2)]
  obtain r where e: "e = c \<lparr> es_ResolutionReceipt := r \<rparr>" using candidate_kept [OF assms(2)] by blast
  show "sound (st, w')" using assms(1) good' mono by (rule sound_world)
  show "sound (set_entry a (e \<lparr> es_State := EscIndeterminate \<rparr>) st, w')"
    by (intro sound_set [OF assms(1,3)]) (simp_all add: e assms(4) sound_entry_def good' mono)
  assume "err = None"
  then have "recorded w' c" using success_recorded [OF g _ state] assms(2) by simp
  then have "sound_entry w' e" using time by (auto simp: e sound_entry_def receipt_irrelevant)
  then show "sound (set_entry a e st, w')"
    by (intro sound_set [OF assms(1,3)]) (simp_all add: e assms(4) good' mono)
qed

lemma sound_resolve:
  assumes "sound (st, w)" "resolveAudited now i approver reason approved (Some commit) st w = (res, st', w')"
  shows "sound (st', w')"
proof (cases "map_of (st_entries st) i")
  case None
  with assms show ?thesis by (simp add: resolveAudited_def)
next
  case (Some a)
  let ?e = "st_heap st ! a"
  let ?c = "?e \<lparr> es_ResolvedAt := Some now, es_Approver := approver, es_ApproverReason := reason,
    es_State := (if approved then EscApproved else EscDenied) \<rparr>"
  obtain err c' w1 where c: "commit ?c w = (err, c', w1)" by (metis prod_cases3)
  have id: "es_ID ?c = i" using assms(1) Some by (simp add: sound_def store_ok_def)
  show ?thesis
  proof (cases "es_State ?e = EscPending \<and> now < es_ExpiresAt ?e")
    case False
    with assms Some show ?thesis by (auto simp: resolveAudited_def Let_def split: if_splits)
  next
    case True
    have "es_State ?c \<in> {EscApproved, EscDenied, EscExpired}"
      "es_State ?c \<in> {EscApproved, EscDenied} \<Longrightarrow> \<exists>t. es_ResolvedAt ?c = Some t \<and> t < es_ExpiresAt ?c"
      "es_State ?c = EscExpired \<Longrightarrow> \<exists>t. es_ResolvedAt ?c = Some t \<and> es_ExpiresAt ?c \<le> t"
      using True by (simp_all split: if_splits)
    note sc = sound_commit [OF assms(1) c Some id this]
    with assms(2) Some True c sc show ?thesis
      by (cases err) (auto simp: resolveAudited_def run_commit_def Let_def split: if_splits)
  qed
qed

lemma sound_reap_one:
  assumes "sound (st, w)" "reap_one now (Some commit) i st w = (res, st', w')"
  shows "sound (st', w')"
proof (cases "map_of (st_entries st) i")
  case None
  with assms show ?thesis by (simp add: reap_one_def)
next
  case (Some a)
  let ?e = "st_heap st ! a"
  let ?c = "?e \<lparr> es_State := EscExpired, es_ResolvedAt := Some now \<rparr>"
  obtain err c' w1 where c: "commit ?c w = (err, c', w1)" by (metis prod_cases3)
  have id: "es_ID ?c = i" using assms(1) Some by (simp add: sound_def store_ok_def)
  show ?thesis
  proof (cases "es_State ?e = EscPending \<and> \<not> now < es_ExpiresAt ?e")
    case False
    with assms Some show ?thesis by (auto simp: reap_one_def Let_def split: if_splits)
  next
    case True
    have "es_State ?c \<in> {EscApproved, EscDenied, EscExpired}"
      "es_State ?c \<in> {EscApproved, EscDenied} \<Longrightarrow> \<exists>t. es_ResolvedAt ?c = Some t \<and> t < es_ExpiresAt ?c"
      "es_State ?c = EscExpired \<Longrightarrow> \<exists>t. es_ResolvedAt ?c = Some t \<and> es_ExpiresAt ?c \<le> t"
      using True by (simp_all split: if_splits)
    note sc = sound_commit [OF assms(1) c Some id this]
    with assms(2) Some True c sc show ?thesis
      by (cases err) (auto simp: reap_one_def run_commit_def Let_def split: if_splits)
  qed
qed

lemma sound_reap:
  "sound (st, w) \<Longrightarrow> reapExpiredAudited now order (Some commit) st w = (res, st', w') \<Longrightarrow> sound (st', w')"
proof (induction order arbitrary: st w res)
  case (Cons i order)
  obtain r1 st1 w1 where one: "reap_one now (Some commit) i st w = (r1, st1, w1)" by (metis prod_cases3)
  obtain r2 where "reapExpiredAudited now order (Some commit) st1 w1 = (r2, st', w')"
    using Cons(3) one by (auto split: prod.splits)
  with Cons.IH sound_reap_one [OF Cons(2) one] show ?case by blast
qed simp

lemma sound_reserve:
  assumes "sound (st, w)" "reserve now order env dec tm st = (r, st')"
  shows "sound (st', w)"
proof (cases r)
  case None
  with assms reserve_result [OF _ assms(2)] show ?thesis by (simp add: sound_def)
next
  case (Some a)
  have ok: "store_ok st" "good w" "\<forall>i e. entry st i = Some e \<longrightarrow> sound_entry w e" using assms(1) by (simp_all add: sound_def)
  with reserve_result [OF ok(1) assms(2)] Some have st': "store_ok st'"
    "entry st' (e_EnvelopeID env) = Some (new_escalation now env dec tm)"
    "\<forall>j. j \<noteq> e_EnvelopeID env \<longrightarrow> entry st' j = entry st j \<or> entry st' j = None" by auto
  have "sound_entry w e" if "entry st' i = Some e" for i e
    using that st'(2,3) ok(3) sound_fresh by (metis option.inject option.distinct(1))
  then show ?thesis using st'(1) ok(2) by (simp add: sound_def)
qed

lemma sound_step:
  assumes "sound c" "esc_step commit other c c'"
  shows "sound c'"
  using assms(2,1)
proof (cases rule: esc_step.cases)
  case (reserves now order env dec tm st r st' w)
  with sound_reserve assms(1) show ?thesis by blast
next
  case (publishes r st b st' w)
  show ?thesis
  proof (cases "\<exists>a. r = Some a \<and> reserved_at st a")
    case True
    then obtain a where a: "r = Some a" "reserved_at st a" by blast
    with publishes have "st' = set_entry a ((st_heap st ! a) \<lparr> es_State := EscPending \<rparr>) st"
      by (simp add: publishReserved_def)
    with publishes assms(1) a show ?thesis
      using sound_set [of st w "es_ID (st_heap st ! a)" a "(st_heap st ! a) \<lparr> es_State := EscPending \<rparr>" w]
      by (simp add: reserved_at_def sound_entry_def sound_def)
  qed (use publishes assms(1) in \<open>auto simp: publishReserved_def split: option.splits if_splits\<close>)
next
  case (discards r st b st' w)
  with assms(1) sound_remove show ?thesis by (auto simp: discardReserved_def split: option.splits if_splits)
next
  case (attaches i s t receipt st r st' w)
  show ?thesis
  proof (cases "st' = st")
    case False
    then obtain a where a: "map_of (st_entries st) i = Some a"
      "st' = set_entry a ((st_heap st ! a) \<lparr> es_ResolutionReceipt := receipt \<rparr>) st"
      using attaches by (auto simp: attachResolutionReceipt_def Let_def split: option.splits if_splits)
    have "entry st i = Some (st_heap st ! a)" using a(1) by (simp add: entry_def)
    then have "sound_entry w (st_heap st ! a)" "es_ID (st_heap st ! a) = i" "good w"
      using assms(1) attaches(1) a(1) unfolding sound_def store_ok_def by simp_all
    moreover from this(1) have "sound_entry w ((st_heap st ! a) \<lparr> es_ResolutionReceipt := receipt \<rparr>)"
      by (simp add: sound_entry_def receipt_irrelevant)
    ultimately show ?thesis
      using attaches assms(1) a sound_set [of st w i a "(st_heap st ! a) \<lparr> es_ResolutionReceipt := receipt \<rparr>" w] by simp
  qed (use attaches assms(1) in simp)
next
  case (world w w' st)
  with assms(1) sound_world [of st w w'] other_good other_monotone show ?thesis by (auto simp: sound_def)
qed (use assms(1) sound_resolve sound_reap in blast)+

lemma sound_run: "(esc_step commit other)\<^sup>*\<^sup>* c c' \<Longrightarrow> sound c \<Longrightarrow> sound c'"
  by (induction rule: rtranclp_induct) (auto intro: sound_step)

end

section \<open>The life of an entry\<close>

definition keeps_candidate :: "'w commit \<Rightarrow> bool" where
  "keeps_candidate commit \<longleftrightarrow>
     (\<forall>e w err e' w'. commit e w = (err, e', w') \<longrightarrow> e' = e \<lparr> es_ResolutionReceipt := es_ResolutionReceipt e' \<rparr>)"

text \<open>The moves of one entry: a receipt is attached, a hidden entry is published, a pending one ends.\<close>

definition moves :: "Escalation \<Rightarrow> Escalation \<Rightarrow> bool" where
  "moves e e' \<longleftrightarrow> e' = e \<lparr> es_ResolutionReceipt := es_ResolutionReceipt e' \<rparr> \<or>
     (es_State e = escRegistering \<and> e' = e \<lparr> es_State := EscPending \<rparr>) \<or>
     (es_State e = EscPending \<and> terminal (es_State e') \<and> es_ID e' = es_ID e \<and> es_Envelope e' = es_Envelope e \<and>
        es_ExpiresAt e' = es_ExpiresAt e)"

lemma moves_refl: "moves e e"
  by (simp add: moves_def)

lemma moves_terminal: "moves e e' \<Longrightarrow> terminal (es_State e) \<Longrightarrow> es_State e' = es_State e"
  unfolding moves_def terminal_def by (elim disjE conjE) (erule ssubst, simp_all)

text \<open>Of all entries: pending ones stay, and what is new is hidden.\<close>

definition evolves :: "escalationStore \<Rightarrow> escalationStore \<Rightarrow> bool" where
  "evolves st st' \<longleftrightarrow> (\<forall>i. case (entry st i, entry st' i) of
      (Some e, Some e') \<Rightarrow> moves e e'
    | (Some e, None) \<Rightarrow> es_State e \<noteq> EscPending
    | (None, Some e') \<Rightarrow> es_State e' = escRegistering
    | (None, None) \<Rightarrow> True)"

definition kept :: "escalationStore \<Rightarrow> escalationStore \<Rightarrow> bool" where
  "kept st st' \<longleftrightarrow> store_ok st' \<and> st_maxEntries st' = st_maxEntries st \<and> evolves st st'"

lemma evolves_refl: "evolves st st"
  by (simp add: evolves_def moves_refl split: option.splits)

lemma kept_set:
  assumes "store_ok st" "map_of (st_entries st) i = Some a" "es_ID e = i" "moves (st_heap st ! a) e"
  shows "kept st (set_entry a e st)"
proof -
  have old: "entry st i = Some (st_heap st ! a)" using assms(2) by (simp add: entry_def)
  show ?thesis
    using set_entry_ok(1) [OF assms(1-3)] old assms(4) moves_refl
    by (auto simp: kept_def evolves_def set_entry_ok(2) [OF assms(1-3)] split: option.splits)
      (simp add: set_entry_def)
qed

lemma kept_remove:
  assumes "store_ok st" "\<forall>e. entry st i = Some e \<longrightarrow> es_State e \<noteq> EscPending"
  shows "kept st (remove_entry i st)"
  using remove_entry_ok(1) [OF assms(1), of i] remove_entry_ok(2) [of i st] assms(2) moves_refl
  by (auto simp: kept_def evolves_def remove_entry_def split: option.splits)

lemma kept_refl: "store_ok st \<Longrightarrow> kept st st"
  by (simp add: kept_def evolves_refl)

text \<open>Resolving and reaping only end pending entries.\<close>

definition ends_only :: "escalationStore \<Rightarrow> escalationStore \<Rightarrow> bool" where
  "ends_only st st' \<longleftrightarrow> store_ok st' \<and> st_maxEntries st' = st_maxEntries st \<and>
     (\<forall>i. entry st' i = entry st i \<or>
       (\<exists>e e'. entry st i = Some e \<and> entry st' i = Some e' \<and> es_State e = EscPending \<and> terminal (es_State e') \<and> moves e e'))"

lemma ends_only_refl: "store_ok st \<Longrightarrow> ends_only st st"
  by (simp add: ends_only_def)

lemma ends_only_trans:
  assumes "ends_only st st1" "ends_only st1 st2"
  shows "ends_only st st2"
  using assms unfolding ends_only_def terminal_def by (metis option.inject)

lemma ends_only_kept: "ends_only st st' \<Longrightarrow> kept st st'"
proof -
  assume e: "ends_only st st'"
  have "case (entry st i, entry st' i) of
      (Some e, Some e') \<Rightarrow> moves e e' | (Some e, None) \<Rightarrow> es_State e \<noteq> EscPending
    | (None, Some e') \<Rightarrow> es_State e' = escRegistering | (None, None) \<Rightarrow> True" if "entry st i \<noteq> None \<longrightarrow> entry st' i \<noteq> None" for i
    using e that moves_refl unfolding ends_only_def by (auto split: option.splits) (metis option.inject option.distinct(1))+
  moreover have "entry st i \<noteq> None \<longrightarrow> entry st' i \<noteq> None" for i
    using e unfolding ends_only_def by (metis option.distinct(1))
  ultimately show ?thesis using e by (simp add: kept_def evolves_def ends_only_def)
qed

lemma ends_set:
  assumes "store_ok st" "keeps_candidate commit" "map_of (st_entries st) i = Some a" "es_State (st_heap st ! a) = EscPending"
    and "commit c w = (err, e, w')" "terminal (es_State c)" "es_ID c = i" "es_Envelope c = es_Envelope (st_heap st ! a)"
    "es_ExpiresAt c = es_ExpiresAt (st_heap st ! a)"
  shows "ends_only st (set_entry a e st)" "ends_only st (set_entry a (e \<lparr> es_State := EscIndeterminate \<rparr>) st)"
proof -
  have i: "es_ID (st_heap st ! a) = i" using assms(1,3) by (simp add: store_ok_def)
  have old: "entry st i = Some (st_heap st ! a)" using assms(3) by (simp add: entry_def)
  have ends: "ends_only st (set_entry a x st)" if "es_ID x = i" "terminal (es_State x)" "moves (st_heap st ! a) x" for x
    using set_entry_ok [OF assms(1,3) that(1)] that old assms(4)
    by (auto simp: ends_only_def) (simp add: set_entry_def)
  obtain r where "e = c \<lparr> es_ResolutionReceipt := r \<rparr>" using assms(2,5) unfolding keeps_candidate_def by blast
  then show "ends_only st (set_entry a e st)" "ends_only st (set_entry a (e \<lparr> es_State := EscIndeterminate \<rparr>) st)"
    using assms(4-9) i by (auto intro!: ends simp: moves_def terminal_def)
qed

lemma resolve_ends:
  assumes "store_ok st" "keeps_candidate commit"
    "resolveAudited now i approver reason approved (Some commit) st w = (res, st', w')"
  shows "ends_only st st'"
proof (cases "\<exists>a. map_of (st_entries st) i = Some a \<and> es_State (st_heap st ! a) = EscPending \<and> now < es_ExpiresAt (st_heap st ! a)")
  case False
  then show ?thesis using assms ends_only_refl by (auto simp: resolveAudited_def Let_def split: option.splits if_splits)
next
  case True
  then obtain a where a: "map_of (st_entries st) i = Some a" "es_State (st_heap st ! a) = EscPending"
    "now < es_ExpiresAt (st_heap st ! a)" by blast
  let ?c = "(st_heap st ! a) \<lparr> es_ResolvedAt := Some now, es_Approver := approver, es_ApproverReason := reason,
    es_State := (if approved then EscApproved else EscDenied) \<rparr>"
  obtain err e w1 where c: "commit ?c w = (err, e, w1)" by (metis prod_cases3)
  have "terminal (es_State ?c)" "es_ID ?c = i" "es_Envelope ?c = es_Envelope (st_heap st ! a)"
    "es_ExpiresAt ?c = es_ExpiresAt (st_heap st ! a)" using assms(1) a(1) by (simp_all add: terminal_def store_ok_def)
  note fin = ends_set [OF assms(1,2) a(1,2) c this]
  show ?thesis
    using assms(3) a c fin ends_only_refl [OF assms(1)]
    by (cases err) (auto simp: resolveAudited_def run_commit_def Let_def split: if_splits)
qed

lemma reap_one_ends:
  assumes "store_ok st" "keeps_candidate commit" "reap_one now (Some commit) i st w = (res, st', w')"
  shows "ends_only st st'"
proof (cases "\<exists>a. map_of (st_entries st) i = Some a \<and> es_State (st_heap st ! a) = EscPending \<and> \<not> now < es_ExpiresAt (st_heap st ! a)")
  case False
  then show ?thesis using assms ends_only_refl by (auto simp: reap_one_def Let_def split: option.splits if_splits)
next
  case True
  then obtain a where a: "map_of (st_entries st) i = Some a" "es_State (st_heap st ! a) = EscPending"
    "\<not> now < es_ExpiresAt (st_heap st ! a)" by blast
  let ?c = "(st_heap st ! a) \<lparr> es_State := EscExpired, es_ResolvedAt := Some now \<rparr>"
  obtain err e w1 where c: "commit ?c w = (err, e, w1)" by (metis prod_cases3)
  have "terminal (es_State ?c)" "es_ID ?c = i" "es_Envelope ?c = es_Envelope (st_heap st ! a)"
    "es_ExpiresAt ?c = es_ExpiresAt (st_heap st ! a)" using assms(1) a(1) by (simp_all add: terminal_def store_ok_def)
  note fin = ends_set [OF assms(1,2) a(1,2) c this]
  show ?thesis
    using assms(3) a c fin ends_only_refl [OF assms(1)]
    by (cases err) (auto simp: reap_one_def run_commit_def Let_def split: if_splits)
qed

lemma reap_ends:
  "store_ok st \<Longrightarrow> keeps_candidate commit \<Longrightarrow>
     reapExpiredAudited now order (Some commit) st w = (res, st', w') \<Longrightarrow> ends_only st st'"
proof (induction order arbitrary: st w res)
  case Nil
  then show ?case by (simp add: ends_only_refl)
next
  case (Cons i order)
  obtain r1 st1 w1 where one: "reap_one now (Some commit) i st w = (r1, st1, w1)" by (metis prod_cases3)
  obtain r2 where rest: "reapExpiredAudited now order (Some commit) st1 w1 = (r2, st', w')"
    using Cons(4) one by (auto split: prod.splits)
  have e1: "ends_only st st1" by (rule reap_one_ends [OF Cons(2,3) one])
  then have "store_ok st1" by (simp add: ends_only_def)
  from ends_only_trans [OF e1 Cons.IH [OF this Cons(3) rest]] show ?case .
qed

lemma reserve_kept:
  assumes "store_ok st" "reserve now order env dec tm st = (r, st')"
  shows "kept st st'"
proof (cases r)
  case None
  with reserve_result [OF assms] assms(1) kept_refl show ?thesis by simp
next
  case (Some a)
  with reserve_result [OF assms] have r: "entry st (e_EnvelopeID env) = None" "store_ok st'" "st_maxEntries st' = st_maxEntries st"
    "entry st' (e_EnvelopeID env) = Some (new_escalation now env dec tm)"
    "\<And>j. j \<noteq> e_EnvelopeID env \<Longrightarrow> entry st' j = entry st j \<or>
           (entry st' j = None \<and> (\<exists>e. entry st j = Some e \<and> terminal (es_State e)))" by auto
  have "case (entry st i, entry st' i) of
      (Some e, Some e') \<Rightarrow> moves e e' | (Some e, None) \<Rightarrow> es_State e \<noteq> EscPending
    | (None, Some e') \<Rightarrow> es_State e' = escRegistering | (None, None) \<Rightarrow> True" for i
  proof (cases "i = e_EnvelopeID env")
    case True
    with r show ?thesis by (simp add: new_escalation_def)
  next
    case False
    from r(5) [OF this] moves_refl show ?thesis by (auto simp: terminal_def split: option.splits)
  qed
  then show ?thesis using r by (simp add: kept_def evolves_def)
qed

lemma publish_kept:
  assumes "store_ok st" "publishReserved r st = (b, st')"
  shows "kept st st'"
proof (cases "\<exists>a. r = Some a \<and> reserved_at st a")
  case True
  then obtain a where a: "r = Some a" "reserved_at st a" by blast
  with assms(2) have "st' = set_entry a ((st_heap st ! a) \<lparr> es_State := EscPending \<rparr>) st" by (simp add: publishReserved_def)
  then show ?thesis
    using a(2) by (auto simp: reserved_at_def moves_def intro!: kept_set [OF assms(1), where i = "es_ID (st_heap st ! a)"])
qed (use assms kept_refl in \<open>auto simp: publishReserved_def split: option.splits if_splits\<close>)

lemma discard_kept:
  assumes "store_ok st" "discardReserved r st = (b, st')"
  shows "kept st st'"
proof (cases "\<exists>a. r = Some a \<and> reserved_at st a")
  case True
  then obtain a where a: "r = Some a" "reserved_at st a" by blast
  with assms(2) have "st' = remove_entry (es_ID (st_heap st ! a)) st" by (simp add: discardReserved_def)
  then show ?thesis using a(2) by (auto simp: reserved_at_def entry_def intro!: kept_remove [OF assms(1)])
qed (use assms kept_refl in \<open>auto simp: discardReserved_def split: option.splits if_splits\<close>)

lemma attach_kept:
  assumes "store_ok st" "attachResolutionReceipt i s t receipt st = (r, st')"
  shows "kept st st'"
proof (cases "st' = st")
  case False
  then obtain a where a: "map_of (st_entries st) i = Some a"
    "st' = set_entry a ((st_heap st ! a) \<lparr> es_ResolutionReceipt := receipt \<rparr>) st"
    using assms(2) by (auto simp: attachResolutionReceipt_def Let_def split: option.splits if_splits)
  then show ?thesis using assms(1) by (auto simp: moves_def store_ok_def intro!: kept_set [OF assms(1)])
qed (use assms kept_refl in simp)

lemma step_kept:
  assumes "store_ok st" "keeps_candidate commit" "esc_step commit other (st, w) (st', w')"
  shows "kept st st'"
  using assms(3)
  by (rule esc_stepE)
    (use assms(1,2) in \<open>auto intro: reserve_kept publish_kept discard_kept attach_kept kept_refl
       resolve_ends [THEN ends_only_kept] reap_ends [THEN ends_only_kept]\<close>)

lemma run_store_ok:
  assumes "(esc_step commit other)\<^sup>*\<^sup>* c c'" "keeps_candidate commit" "store_ok (fst c)"
  shows "store_ok (fst c') \<and> st_maxEntries (fst c') = st_maxEntries (fst c)"
  using assms(1)
proof (induction rule: rtranclp_induct)
  case (step b c')
  then have "kept (fst b) (fst c')" using assms(2) step_kept [of "fst b" commit other "snd b" "fst c'" "snd c'"] by simp
  with step show ?case by (simp add: kept_def)
qed (use assms(3) in simp)

section \<open>Properties\<close>

text \<open>C22: the states of a review. In any step, whatever the audit writer answers, an entry only gets a
  receipt, is published, or goes from pending to a terminal state; a pending entry never disappears,
  a terminal one never changes its state, and a new one starts hidden. The bound on the number of
  entries and the identifiers are kept.\<close>

theorem escalation_state_machine:
  assumes "store_ok st" and "keeps_candidate commit" and "esc_step commit other (st, w) (st', w')"
  shows "store_ok st' \<and> (case (entry st i, entry st' i) of
      (Some e, Some e') \<Rightarrow> moves e e' \<and> (terminal (es_State e) \<longrightarrow> es_State e' = es_State e)
    | (Some e, None) \<Rightarrow> es_State e \<noteq> EscPending
    | (None, Some e') \<Rightarrow> es_State e' = escRegistering
    | (None, None) \<Rightarrow> True)"
proof -
  have k: "store_ok st'" "evolves st st'" using step_kept [OF assms] by (simp_all add: kept_def)
  note at_i = k(2) [unfolded evolves_def, THEN spec, of i]
  show ?thesis
  proof (cases "entry st i")
    case None
    with k(1) at_i show ?thesis by simp
  next
    case (Some e)
    note e = this
    show ?thesis
    proof (cases "entry st' i")
      case None
      with e k(1) at_i show ?thesis by simp
    next
      case (Some e')
      with e at_i have m: "moves e e'" by simp
      have "terminal (es_State e) \<longrightarrow> es_State e' = es_State e" using moves_terminal [OF m] by blast
      with e Some m k(1) show ?thesis by simp
    qed
  qed
qed

text \<open>C24: an identifier in use is never reused. A reservation under the identifier of any entry, hidden,
  pending or resolved, is refused and leaves the store as it was; a granted one is invisible to
  pollers and approvers until it is published.\<close>

theorem reservation_is_exclusive_and_hidden:
  assumes "store_ok st"
  shows "case reserve now order env dec tm st of
      (None, st') \<Rightarrow> st' = st
    | (Some a, st') \<Rightarrow> entry st (e_EnvelopeID env) = None \<and> get_escalation (e_EnvelopeID env) st' = None \<and>
        resolveAudited t (e_EnvelopeID env) approver reason approved cb st' w = ((None, False, None), st', w)"
proof -
  obtain r st' where res: "reserve now order env dec tm st = (r, st')" by fastforce
  note spec = reserve_result [OF assms res]
  show ?thesis
  proof (cases r)
    case None
    with spec res show ?thesis by simp
  next
    case (Some a)
    with spec have e: "entry st (e_EnvelopeID env) = None" "entry st' (e_EnvelopeID env) = Some (new_escalation now env dec tm)"
      by simp_all
    then obtain b where b: "map_of (st_entries st') (e_EnvelopeID env) = Some b" "st_heap st' ! b = new_escalation now env dec tm"
      by (auto simp: entry_Some)
    have "es_State (new_escalation now env dec tm) = escRegistering" by (simp add: new_escalation_def)
    with e b Some show ?thesis by (simp add: res get_escalation_def resolveAudited_def)
  qed
qed

end
