(* ===== verification/Proxy.thy ===== *)
theory Proxy
  imports Evaluator Audit_History Escalation
begin

text \<open>
  The state of the proxy process and what it writes to the audit log (\<open>cmd/tg-proxy\<close>: \<open>main.go\<close>,
  \<open>helpers.go\<close>, \<open>policy\_loader.go\<close> and \<open>escalation\_handlers.go\<close>). The clock, the answers
  of the operating system and the iteration order of a map come from a script, one tick at a time.
  The last part interprets the contract of the escalation store on the writer of this proxy.
\<close>

section \<open>State\<close>

text \<open>What the code prints or calls outside: \<open>%q\<close>, the texts of the diagnostics and violations, the
  delimiters of a token stream, and the decoders of an envelope and of an approval; of an approval
  that does not parse the members stay empty.\<close>

record approval =
  ap_Approver :: string
  ap_Reason :: string

record services =
  sv_engine :: engine_env
  sv_sort :: policy_sorter
  sv_codec :: codec
  sv_Quote :: "string \<Rightarrow> string"
  sv_Details :: "detail \<Rightarrow> string"
  sv_Violation :: "violation \<Rightarrow> string"
  sv_Delims :: "string \<Rightarrow> char list"
  sv_Envelope :: "string \<Rightarrow> string + ActionEnvelope"
  sv_Approval :: "string \<Rightarrow> approval"

text \<open>One tick: the time a call of \<open>time.Now\<close> reads, the answers to an append, the order in which a
  map is walked, and a panic of the engine, if it panics.\<close>

record tick =
  tk_now :: time
  tk_append :: append_io
  tk_order :: "string list"
  tk_panic :: "string option"

text \<open>The writer and what all handlers share with it.\<close>

record world =
  wo_writer :: audit_writer
  wo_auditFailureCount :: nat
  wo_script :: "nat \<Rightarrow> tick"
  wo_pos :: nat

definition next_tick :: "world \<Rightarrow> tick \<times> world" where
  "next_tick w = (wo_script w (wo_pos w), w \<lparr> wo_pos := Suc (wo_pos w) \<rparr>)"

definition time_Now :: "world \<Rightarrow> time \<times> world" where
  "time_Now w = map_prod tk_now id (next_tick w)"

definition count_audit_failure :: "world \<Rightarrow> world" where
  "count_audit_failure w = w \<lparr> wo_auditFailureCount := Suc (wo_auditFailureCount w) \<rparr>"

text \<open>The policies are swapped together with the hash in the writer's provenance.\<close>

record config =
  cf_defaultMode :: PolicyMode
  cf_failClosed :: bool
  cf_unknownToolsDeny :: bool
  cf_maxJSONDepth :: int
  cf_rateLimitKeyBy :: string
  cf_velocityKeyBy :: string
  cf_approverToken :: string
  cf_escalationDefaultMin :: int
  cf_protectPaths :: "string list"

record proxy =
  px_policies :: "Policy list"
  px_world :: world
  px_escalations :: escalationStore
  px_rateLimit :: "rateLimiter option"
  px_velocity :: "velocityTracker option"
  px_evalCount :: nat
  px_allowCount :: nat
  px_denyCount :: nat
  px_escalateCount :: nat
  px_flagCount :: nat
  px_failClosedCount :: nat
  px_loadCount :: nat

definition px_policySetHash :: "proxy \<Rightarrow> string" where
  "px_policySetHash p = pv_policySetHash (aw_provenance (wo_writer (px_world p)))"

section \<open>Appending through the world\<close>

definition stamp_trace :: "string \<Rightarrow> DecisionTrace \<Rightarrow> world \<Rightarrow> stamp_error + DecisionTrace" where
  "stamp_trace policySetHash t w = stampTraceProvenance (aw_provenance (wo_writer w)) policySetHash t"

definition append_in :: "services \<Rightarrow> bool \<Rightarrow> DecisionTrace \<Rightarrow> world \<Rightarrow> append_error option \<times> DecisionTrace \<times> world" where
  "append_in sv durable t w =
     (let (tk, w) = next_tick w;
          (err, t, wr) = (if durable then appendTraceDurable (sv_codec sv) (tk_append tk) t (wo_writer w)
                          else appendTrace (sv_codec sv) (tk_append tk) t (wo_writer w))
      in (err, t, w \<lparr> wo_writer := wr \<rparr>))"

definition receiptForAppendedTrace :: "services \<Rightarrow> DecisionTrace \<Rightarrow> DecisionReceipt option" where
  "receiptForAppendedTrace sv t = NewDecisionReceipt (sv_codec sv) t"

text \<open>\<open>UnixNano\<close> counts from 1970 and wraps at 64 bits.\<close>

definition UnixNano :: "time \<Rightarrow> int" where
  "UnixNano t = sint (word_of_int (t - 62135596800 * Second) :: 64 word)"

definition no_trace :: DecisionTrace where
  "no_trace = \<lparr> dt_TraceID = [], dt_Timestamp = [], dt_OrgID = [], dt_EnvelopeID = [], dt_AgentID = [],
     dt_AgentVersion = [], dt_SessionID = [], dt_TurnNumber = 0, dt_ToolName = [], dt_ToolGroup = [], dt_Amount = 0,
     dt_AmountParseStatus = [], dt_Decision = [], dt_ActionTaken = [], dt_DecisionReason = [], dt_Mode = [],
     dt_PoliciesMatched = 0, dt_RulesEvaluated = 0, dt_RulesTriggered = 0, dt_RuleResults = [],
     dt_AppliedRuleResults = [], dt_PrimaryCitation = None, dt_AppliedPrimaryCitation = None,
     dt_SuggestedResponse = [], dt_IsNearMiss = False, dt_EscalationID = None, dt_EscalatedTo = [],
     dt_EscalatedAt = None, dt_ResolvedAt = None, dt_Resolution = [], dt_CanonicalVersion = [], dt_TraceHash = [],
     dt_PreviousTraceHash = [], dt_SignedBy = [], dt_EngineVersion = [], dt_PolicySetHash = [], dt_SchemaVersion = [],
     dt_ParametersRedacted = [], dt_ContextSnapshot = RawNil, dt_EvaluationDurationMs = 0, dt_AgentTokensIn = 0,
     dt_AgentTokensOut = 0, dt_AgentLLMCostUSD = 0, dt_DeepEvalResult = None \<rparr>"

text \<open>The identity fields every trace of the proxy copies from its envelope.\<close>

definition envelope_trace :: "services \<Rightarrow> time \<Rightarrow> time \<Rightarrow> ActionEnvelope \<Rightarrow> DecisionTrace" where
  "envelope_trace sv idTime stamp env =
     (let (amount, amountStatus) = EvaluatedAmount (en_rt (sv_engine sv)) env in
      no_trace \<lparr> dt_TraceID := ''trc-'' @ show_int (UnixNano idTime), dt_Timestamp := cd_time (sv_codec sv) stamp,
        dt_OrgID := e_OrgID env, dt_EnvelopeID := e_EnvelopeID env, dt_AgentID := e_AgentID env,
        dt_AgentVersion := e_AgentVersion env, dt_SessionID := e_SessionID env, dt_TurnNumber := e_TurnNumber env,
        dt_ToolName := e_ToolName env, dt_ToolGroup := e_ToolGroup env, dt_Amount := amount,
        dt_AmountParseStatus := amountStatus \<rparr>)"

definition mode_string :: "PolicyMode \<Rightarrow> string" where
  "mode_string m = (case m of PolicyModeShadow \<Rightarrow> ''shadow'' | PolicyModeEnforcement \<Rightarrow> ''enforcement''
     | PolicyModeOther s \<Rightarrow> s)"

text \<open>The common end of the three emitters: stamp, append, count a failure.\<close>

definition emit :: "services \<Rightarrow> bool \<Rightarrow> string \<Rightarrow> DecisionTrace \<Rightarrow> world \<Rightarrow> (append_error + DecisionTrace) \<times> world" where
  "emit sv durable policySetHash t0 w =
     (case stamp_trace policySetHash t0 w of
        Inl err \<Rightarrow> (Inl (StampFailed err), count_audit_failure w)
      | Inr t \<Rightarrow>
          (case append_in sv durable t w of
             (Some err, _, w) \<Rightarrow> (Inl err, count_audit_failure w)
           | (None, t, w) \<Rightarrow> (Inr t, w)))"

definition boundary_trace :: "services \<Rightarrow> ActionEnvelope \<Rightarrow> string \<Rightarrow> PolicyMode \<Rightarrow> time \<Rightarrow> time \<Rightarrow> DecisionTrace" where
  "boundary_trace sv env reason m t1 t2 = (envelope_trace sv t1 t2 env) \<lparr>
     dt_Decision := decision_string DecisionDenied, dt_ActionTaken := action_string ActionDenied,
     dt_DecisionReason := reason, dt_Mode := mode_string m \<rparr>"

definition emitBoundaryDeny ::
  "services \<Rightarrow> ActionEnvelope \<Rightarrow> string \<Rightarrow> PolicyMode \<Rightarrow> string \<Rightarrow> world \<Rightarrow> DecisionReceipt option \<times> world" where
  "emitBoundaryDeny sv env reason m policySetHash w =
     (let (t1, w) = time_Now w; (t2, w) = time_Now w
      in case emit sv False policySetHash (boundary_trace sv env reason m t1 t2) w of
           (Inl _, w) \<Rightarrow> (None, w)
         | (Inr t, w) \<Rightarrow> (receiptForAppendedTrace sv t, w))"

definition resolution_reason :: "services \<Rightarrow> Escalation \<Rightarrow> bool \<Rightarrow> string" where
  "resolution_reason sv e approved =
     ''escalation '' @ es_ID e @ (if approved then '' approved by '' else '' denied by '') @
     sv_Quote sv (es_Approver e) @ '': '' @ es_ApproverReason e"

definition resolution_trace :: "services \<Rightarrow> Escalation \<Rightarrow> bool \<Rightarrow> time \<Rightarrow> time \<Rightarrow> DecisionTrace" where
  "resolution_trace sv e approved t1 t2 = (envelope_trace sv t1 t2 (es_Envelope e)) \<lparr>
     dt_Decision := decision_string (if approved then DecisionAllowed else DecisionDenied),
     dt_ActionTaken := action_string (if approved then ActionAllowed else ActionDenied),
     dt_DecisionReason := resolution_reason sv e approved \<rparr>"

definition emitEscalationResolution ::
  "services \<Rightarrow> Escalation \<Rightarrow> bool \<Rightarrow> world \<Rightarrow> (append_error + DecisionTrace) \<times> world" where
  "emitEscalationResolution sv e approved w =
     (let (t1, w) = time_Now w; (t2, w) = time_Now w in emit sv True [] (resolution_trace sv e approved t1 t2) w)"

definition expiry_reason :: "Escalation \<Rightarrow> string" where
  "expiry_reason e = ''escalation '' @ es_ID e @ '' expired without approval''"

definition expiry_trace :: "services \<Rightarrow> Escalation \<Rightarrow> time \<Rightarrow> time \<Rightarrow> DecisionTrace" where
  "expiry_trace sv e t1 t2 = (envelope_trace sv t1 t2 (es_Envelope e)) \<lparr>
     dt_Decision := decision_string DecisionDenied, dt_ActionTaken := action_string ActionDenied,
     dt_DecisionReason := expiry_reason e, dt_Mode := mode_string PolicyModeEnforcement \<rparr>"

definition emitEscalationExpiry :: "services \<Rightarrow> Escalation \<Rightarrow> world \<Rightarrow> append_error option \<times> world" where
  "emitEscalationExpiry sv e w =
     (let (t1, w) = time_Now w; (t2, w) = time_Now w
      in case emit sv True [] (expiry_trace sv e t1 t2) w of (Inl err, w) \<Rightarrow> (Some err, w) | (Inr _, w) \<Rightarrow> (None, w))"

section \<open>Escalation handlers\<close>

text \<open>The callback of \<open>escalationByID\<close> and the reaper's.\<close>

definition commit_resolution :: "services \<Rightarrow> bool \<Rightarrow> world commit" where
  "commit_resolution sv approved cand w =
     (case emitEscalationResolution sv cand approved w of
        (Inl err, w) \<Rightarrow> (Some err, cand, w)
      | (Inr t, w) \<Rightarrow> (None, cand \<lparr> es_ResolutionReceipt := receiptForAppendedTrace sv t \<rparr>, w))"

definition commit_expiry :: "services \<Rightarrow> world commit" where
  "commit_expiry sv cand w = (case emitEscalationExpiry sv cand w of (err, w) \<Rightarrow> (err, cand, w))"

text \<open>A request as the handlers read it: method, path, the query's mode, the authorization header and
  the body; \<open>Inl\<close> is what had arrived when reading it failed, and the error.\<close>

record request =
  rq_Method :: string
  rq_Path :: string
  rq_Mode :: string
  rq_Authorization :: string
  rq_Body :: "(string \<times> string) + string"

datatype reply =
    ErrorText string
  | ErrorBody string
  | StatusBody string string nat
  | DenyBody string PolicyMode "DecisionReceipt option"
  | EscalatedBody EvaluationResult string "DecisionReceipt option"
  | ResultBody EvaluationResult "DecisionReceipt option"
  | EscalationBody Escalation
  | ConflictBody string Escalation
  | EscalationsBody "Escalation list"
  | LoadedBody nat

text \<open>Comparing the digests of two tokens is comparing the tokens.\<close>

definition checkApproverToken :: "config \<Rightarrow> request \<Rightarrow> bool" where
  "checkApproverToken cf rq \<longleftrightarrow>
     cf_approverToken cf \<noteq> [] \<and> HasPrefix (rq_Authorization rq) ''Bearer '' \<and>
     drop 7 (rq_Authorization rq) = cf_approverToken cf"

text \<open>\<open>SplitN\<close> with a limit of two: the part before the first slash and the rest.\<close>

definition split_action :: "string \<Rightarrow> string \<times> string" where
  "split_action rest = (takeWhile (\<lambda>c. c \<noteq> CHR ''/'') rest, drop 1 (dropWhile (\<lambda>c. c \<noteq> CHR ''/'') rest))"

definition resolve_escalation ::
  "services \<Rightarrow> string \<Rightarrow> approval \<Rightarrow> bool \<Rightarrow> proxy \<Rightarrow> (nat \<times> reply) \<times> proxy" where
  "resolve_escalation sv i ap approved p =
     (let (now, w) = time_Now (px_world p);
          ((e, ok, auditErr), st, w) = resolveAudited now i (ap_Approver ap) (ap_Reason ap) approved
            (Some (commit_resolution sv approved)) (px_escalations p) w;
          p = p \<lparr> px_world := w, px_escalations := st \<rparr>
      in case e of
           None \<Rightarrow> ((404, ErrorText ''not found''), p)
         | Some e \<Rightarrow>
             (case auditErr of
                Some EscalationPastDue \<Rightarrow> ((409, ConflictBody ''escalation_past_due'' e), p)
              | Some (AuditFailed _) \<Rightarrow> ((503, ConflictBody ''audit_append_failed'' e), p)
              | None \<Rightarrow>
                  (if \<not> ok then ((409, ConflictBody ''already resolved'' e), p)
                   else ((200, EscalationBody e), p))))"

definition escalationByID ::
  "services \<Rightarrow> config \<Rightarrow> request \<Rightarrow> proxy \<Rightarrow> (nat \<times> reply) \<times> proxy" where
  "escalationByID sv cf rq p =
     (let rest = (if HasPrefix (rq_Path rq) ''/escalations/'' then drop 13 (rq_Path rq) else rq_Path rq) in
      if rest = [] then ((400, ErrorText ''missing escalation id''), p)
      else
        let (i, action) = split_action rest in
        if action = [] then
          (if rq_Method rq \<noteq> ''GET'' then ((405, ErrorText ''GET only''), p)
           else case get_escalation i (px_escalations p) of
               None \<Rightarrow> ((404, ErrorText ''not found''), p)
             | Some e \<Rightarrow> ((200, EscalationBody e), p))
        else if action = ''approve'' \<or> action = ''deny'' then
          (if rq_Method rq \<noteq> ''POST'' then ((405, ErrorText ''POST only''), p)
           else if \<not> checkApproverToken cf rq then ((401, ErrorText ''approver token missing or invalid''), p)
           else resolve_escalation sv i
                  (sv_Approval sv (take 65536 (case rq_Body rq of Inl (part, _) \<Rightarrow> part | Inr body \<Rightarrow> body)))
                  (action = ''approve'') p)
        else ((400, ErrorText ''unknown action; valid: approve | deny''), p))"

definition listEscalations :: "request \<Rightarrow> proxy \<Rightarrow> (nat \<times> reply) \<times> proxy" where
  "listEscalations rq p =
     (if rq_Method rq \<noteq> ''GET'' then ((405, ErrorText ''GET only''), p)
      else
        let (tk, w) = next_tick (px_world p)
        in ((200, EscalationsBody (list_escalations (tk_order tk) (px_escalations p))), p \<lparr> px_world := w \<rparr>))"

text \<open>One tick of the reaper in \<open>main\<close>.\<close>

definition reap :: "services \<Rightarrow> proxy \<Rightarrow> proxy" where
  "reap sv p =
     (let (tk, w) = next_tick (px_world p);
          (_, st, w) = reapExpiredAudited (tk_now tk) (tk_order tk) (Some (commit_expiry sv)) (px_escalations p) w
      in p \<lparr> px_world := w, px_escalations := st \<rparr>)"

end
