(* ===== verification/Handlers.thy ===== *)
theory Handlers
  imports Proxy
begin

text \<open>
  The \<open>/evaluate\<close> handler and its neighbours (\<open>cmd/tg-proxy/handlers.go\<close>), and the selection of
  an escalation's timeout (\<open>helpers.go\<close>). A request is handled in one step, from the limiter to the
  reply; the audit writer, the store and the clock are those of the proxy's state.
\<close>

section \<open>Reading the request\<close>

text \<open>\<open>validateJSONDepth\<close> over the delimiters of the token stream: \<open>Some d\<close> is the depth that is too
  much.\<close>

fun validateJSONDepth :: "int \<Rightarrow> int \<Rightarrow> char list \<Rightarrow> int option" where
  "validateJSONDepth maxDepth depth [] = None"
| "validateJSONDepth maxDepth depth (d # ds) =
     (if d = CHR ''{'' \<or> d = CHR ''['' then
        (if maxDepth < depth + 1 then Some (depth + 1) else validateJSONDepth maxDepth (depth + 1) ds)
      else if d = CHR ''}'' \<or> d = CHR '']'' then validateJSONDepth maxDepth (depth - 1) ds
      else validateJSONDepth maxDepth depth ds)"

definition maxBodyBytes :: nat where
  "maxBodyBytes = 1048576"

definition read_body :: "request \<Rightarrow> string + string" where
  "read_body rq =
     (case rq_Body rq of
        Inl (_, err) \<Rightarrow> Inl err
      | Inr b \<Rightarrow> (if maxBodyBytes < length b then Inl ''http: request body too large'' else Inr b))"

text \<open>An envelope without an id or a timestamp gets them from the clock.\<close>

definition complete_envelope :: "ActionEnvelope \<Rightarrow> world \<Rightarrow> ActionEnvelope \<times> world" where
  "complete_envelope env w =
     (let (env, w) = (if e_EnvelopeID env = []
                      then (let (t, w) = time_Now w in (env \<lparr> e_EnvelopeID := ''env-'' @ show_int (UnixNano t) \<rparr>, w))
                      else (env, w))
      in if e_Timestamp env = 0 then (let (t, w) = time_Now w in (env \<lparr> e_Timestamp := t \<rparr>, w)) else (env, w))"

definition read_envelope :: "services \<Rightarrow> config \<Rightarrow> request \<Rightarrow> (nat \<times> reply) + ActionEnvelope" where
  "read_envelope sv cf rq =
     (case read_body rq of
        Inl err \<Rightarrow> Inl (413, ErrorBody (''read body: '' @ err))
      | Inr body \<Rightarrow>
          (case validateJSONDepth (cf_maxJSONDepth cf) 0 (sv_Delims sv body) of
             Some d \<Rightarrow> Inl (400, ErrorBody (''envelope rejected: JSON nesting depth '' @ show_int d @
                 '' exceeds maximum '' @ show_int (cf_maxJSONDepth cf)))
           | None \<Rightarrow>
               (case sv_Envelope sv body of
                  Inl err \<Rightarrow> Inl (400, ErrorBody (''decode envelope: '' @ err))
                | Inr env \<Rightarrow> Inr env)))"

definition rate_key :: "config \<Rightarrow> ActionEnvelope \<Rightarrow> string" where
  "rate_key cf env =
     (if cf_rateLimitKeyBy cf = ''session_id'' then e_SessionID env
      else if cf_rateLimitKeyBy cf = ''org_id'' then e_OrgID env
      else e_AgentID env)"

definition request_mode :: "config \<Rightarrow> request \<Rightarrow> PolicyMode option" where
  "request_mode cf rq =
     (if rq_Mode rq = ''shadow'' then Some PolicyModeShadow
      else if rq_Mode rq = ''enforcement'' then Some PolicyModeEnforcement
      else if rq_Mode rq = [] then Some (cf_defaultMode cf)
      else None)"

section \<open>Outcomes\<close>

definition actionProceeds :: "ActionTaken \<Rightarrow> bool" where
  "actionProceeds a \<longleftrightarrow> a = ActionAllowed \<or> a = ActionAllowedShadow \<or> a = ActionFlagged"

definition applyOperationalDeny :: "string \<Rightarrow> EvaluationResult \<Rightarrow> EvaluationResult" where
  "applyOperationalDeny reason res = res \<lparr> ev_Decision := DecisionDenied, ev_ActionTaken := ActionDenied,
     ev_DecisionReason := reason, ev_AppliedRuleResults := [], ev_PrimaryCitation := None,
     ev_AppliedPrimaryCitation := None, ev_SuggestedResponse := [] \<rparr>"

definition trace_rule :: "services \<Rightarrow> RuleResult \<Rightarrow> TraceRuleResult" where
  "trace_rule sv r = \<lparr> tr_RuleID = rr_RuleID r, tr_RuleName = rr_RuleName r, tr_PolicyID = rr_PolicyID r,
     tr_PolicyVersion = rr_PolicyVersion r, tr_Matched = rr_Matched r, tr_Effect = effect_string (rr_Effect r),
     tr_Severity = rr_Severity r, tr_Citation = rr_Citation r, tr_Details = sv_Details sv (rr_Details r) \<rparr>"

definition syncResultOutcomeToTrace :: "services \<Rightarrow> EvaluationResult \<Rightarrow> DecisionTrace \<Rightarrow> DecisionTrace" where
  "syncResultOutcomeToTrace sv res t = t \<lparr> dt_Decision := decision_string (ev_Decision res),
     dt_ActionTaken := action_string (ev_ActionTaken res), dt_DecisionReason := ev_DecisionReason res,
     dt_AppliedRuleResults := map (trace_rule sv) (ev_AppliedRuleResults res),
     dt_PrimaryCitation := ev_PrimaryCitation res, dt_AppliedPrimaryCitation := ev_AppliedPrimaryCitation res,
     dt_SuggestedResponse := ev_SuggestedResponse res \<rparr>"

definition evaluation_trace :: "services \<Rightarrow> time \<Rightarrow> ActionEnvelope \<Rightarrow> EvaluationResult \<Rightarrow> DecisionTrace" where
  "evaluation_trace sv idTime env res =
     (envelope_trace sv idTime (e_Timestamp env) env) \<lparr>
       dt_Decision := decision_string (ev_Decision res), dt_ActionTaken := action_string (ev_ActionTaken res),
       dt_DecisionReason := ev_DecisionReason res, dt_Mode := mode_string (ev_EffectiveMode res),
       dt_PoliciesMatched := int (ev_PoliciesMatched res), dt_RulesEvaluated := int (ev_RulesEvaluated res),
       dt_RulesTriggered := int (ev_RulesTriggered res), dt_RuleResults := map (trace_rule sv) (ev_RuleResults res),
       dt_AppliedRuleResults := map (trace_rule sv) (ev_AppliedRuleResults res),
       dt_PrimaryCitation := ev_PrimaryCitation res, dt_AppliedPrimaryCitation := ev_AppliedPrimaryCitation res,
       dt_SuggestedResponse := ev_SuggestedResponse res, dt_IsNearMiss := ev_IsNearMiss res,
       dt_EvaluationDurationMs := 0 \<rparr>"

text \<open>The first positive timeout among the rules a result names, in the enforced policies it names.\<close>

definition policy_timeout :: "RuleResult \<Rightarrow> Policy \<Rightarrow> int list" where
  "policy_timeout rr p =
     (if p_PolicyID p \<noteq> rr_PolicyID rr \<or> p_Version p \<noteq> rr_PolicyVersion rr \<or> p_Mode p = PolicyModeShadow then []
      else map (\<lambda>rule. ec_TimeoutMinutes (r_EffectConfig rule))
             (filter (\<lambda>rule. r_RuleID rule = rr_RuleID rr \<and> r_Effect rule = EffectEscalate \<and>
                        0 < ec_TimeoutMinutes (r_EffectConfig rule)) (p_Rules p)))"

definition timeoutFromMatchedRules :: "EvaluationResult \<Rightarrow> Policy list \<Rightarrow> int" where
  "timeoutFromMatchedRules res policies =
     (case concat (map (\<lambda>rr. if \<not> rr_Matched rr \<or> rr_Effect rr \<noteq> EffectEscalate then []
                          else concat (map (policy_timeout rr) policies)) (ev_RuleResults res)) of
        [] \<Rightarrow> 0 | t # _ \<Rightarrow> t)"

text \<open>\<open>recoverEvaluation\<close>: a panic of the engine becomes an error.\<close>

definition recoverEvaluation :: "string option \<Rightarrow> 'a \<Rightarrow> string + 'a" where
  "recoverEvaluation panic res = (case panic of Some r \<Rightarrow> Inl (''engine panic: '' @ r) | None \<Rightarrow> Inr res)"

definition safeEvaluate ::
  "services \<Rightarrow> ActionEnvelope \<Rightarrow> Policy list \<Rightarrow> PolicyMode \<Rightarrow> world \<Rightarrow> (string + EvaluationResult) \<times> world" where
  "safeEvaluate sv env policies m w =
     (let (tk, w) = next_tick w
      in (recoverEvaluation (tk_panic tk) (Evaluate (sv_engine sv) (sv_sort sv) env policies m), w))"

section \<open>Boundary denials\<close>

definition boundary_deny ::
  "services \<Rightarrow> nat \<Rightarrow> ActionEnvelope \<Rightarrow> string \<Rightarrow> PolicyMode \<Rightarrow> string \<Rightarrow> proxy \<Rightarrow> (nat \<times> reply) \<times> proxy" where
  "boundary_deny sv status env reason m policySetHash p =
     (let (receipt, w) = emitBoundaryDeny sv env reason m policySetHash (px_world p)
      in ((status, DenyBody reason m receipt), p \<lparr> px_world := w, px_denyCount := Suc (px_denyCount p) \<rparr>))"

definition count_fail_closed :: "proxy \<Rightarrow> proxy" where
  "count_fail_closed p = p \<lparr> px_failClosedCount := Suc (px_failClosedCount p) \<rparr>"

definition rate_reason :: "services \<Rightarrow> config \<Rightarrow> string \<Rightarrow> string" where
  "rate_reason sv cf key = ''rate limit exceeded for '' @ cf_rateLimitKeyBy cf @ ''='' @ sv_Quote sv key"

section \<open>Velocity\<close>

text \<open>What the handler keeps for the end of the request: the window's key, the time, and the amount if
  it counts.\<close>

record velocity_call =
  vl_key :: string
  vl_now :: time
  vl_amount :: "f64 option"

definition monetary_amount :: "services \<Rightarrow> ActionEnvelope \<Rightarrow> f64 option" where
  "monetary_amount sv env =
     (case Amount (en_rt (sv_engine sv)) env of
        Inl _ \<Rightarrow> None | Inr amt \<Rightarrow> if f64_lt 0 amt then Some amt else None)"

definition set_velocity :: "AgentVelocityContext \<Rightarrow> ActionEnvelope \<Rightarrow> ActionEnvelope" where
  "set_velocity av env = env \<lparr> e_Context := (e_Context env) \<lparr> cx_Verified :=
     (cx_Verified (e_Context env)) \<lparr> vc_AgentVelocity := Some av \<rparr> \<rparr> \<rparr>"

definition velocity_context :: "velocity_sums \<Rightarrow> f64 option \<Rightarrow> AgentVelocityContext" where
  "velocity_context s amount =
     (let a = (case amount of Some a \<Rightarrow> a | None \<Rightarrow> 0); n = (case amount of Some _ \<Rightarrow> 1 | None \<Rightarrow> 0)
      in \<lparr> av_MonetaryCount1h = int (vs_count1h s) + n, av_MonetarySum1h = f64_add (vs_sum1h s) a,
           av_MonetaryCount24h = int (vs_count24h s) + n, av_MonetarySum24h = f64_add (vs_sum24h s) a,
           av_TokenCount1h = 0, av_TokenCount24h = 0, av_LLMCostUSD1h = 0, av_LLMCostUSD24h = 0 \<rparr>)"

definition inject_velocity ::
  "services \<Rightarrow> config \<Rightarrow> ActionEnvelope \<Rightarrow> proxy \<Rightarrow> velocity_call option \<times> ActionEnvelope \<times> proxy" where
  "inject_velocity sv cf env p =
     (case px_velocity p of
        None \<Rightarrow> (None, env, p)
      | Some v \<Rightarrow>
          (let (now, w) = time_Now (px_world p);
               (key, v) = windowFor now (key_of_envelope env (cf_velocityKeyBy cf)) v;
               amount = monetary_amount sv env;
               (env, v) = (case (vc_AgentVelocity (cx_Verified (e_Context env)), map_of (vt_windows v) key) of
                   (None, Some win) \<Rightarrow>
                     (let (s, win) = window_aggregate now win
                      in (set_velocity (velocity_context s amount) env,
                          v \<lparr> vt_windows := AList.update key win (vt_windows v) \<rparr>))
                 | _ \<Rightarrow> (env, v))
           in (Some \<lparr> vl_key = key, vl_now = now, vl_amount = amount \<rparr>, env,
               p \<lparr> px_world := w, px_velocity := Some v \<rparr>)))"

definition record_velocity :: "velocity_call option \<Rightarrow> ActionTaken \<Rightarrow> proxy \<Rightarrow> proxy" where
  "record_velocity vl action p =
     (case (vl, px_velocity p) of
        (Some c, Some v) \<Rightarrow>
          (case (vl_amount c, map_of (vt_windows v) (vl_key c)) of
             (Some a, Some win) \<Rightarrow>
               (if actionProceeds action
                then p \<lparr> px_velocity := Some (v \<lparr> vt_windows :=
                       AList.update (vl_key c) (window_record (vl_now c) a win) (vt_windows v) \<rparr>) \<rparr>
                else p)
           | _ \<Rightarrow> p)
      | _ \<Rightarrow> p)"

section \<open>The decision and its record\<close>

text \<open>The reasons of the operational denials.\<close>

definition not_registered :: string where
  "not_registered = ''escalation could not be registered (envelope_id collision or pending-store at cap); downgraded to deny''"

definition reservation_discarded :: string where
  "reservation_discarded = ''escalation audit append failed; hidden reservation discarded and action downgraded to deny''"

definition would_proceed_unaudited :: string where
  "would_proceed_unaudited = ''applied action would proceed but audit append failed; downgraded to deny (--fail-closed=true)''"

definition not_published :: string where
  "not_published = ''audited escalation could not be published; downgraded to deny''"

definition unknown_tool :: "services \<Rightarrow> config \<Rightarrow> ActionEnvelope \<Rightarrow> Policy list \<Rightarrow> EvaluationResult \<Rightarrow> EvaluationResult" where
  "unknown_tool sv cf env policies res =
     (if cf_unknownToolsDeny cf \<and> \<not> ToolNameKnown (e_ToolName env) policies
      then applyOperationalDeny (''tool_name '' @ sv_Quote sv (e_ToolName env) @
        '' is not declared in scope.tool_names of any loaded enforcement policy (--unknown-tools-deny)'') res
      else res)"

text \<open>An escalated action reserves its entry; without a reservation it is denied.\<close>

definition reserve_escalation ::
  "services \<Rightarrow> config \<Rightarrow> ActionEnvelope \<Rightarrow> Policy list \<Rightarrow> EvaluationResult \<Rightarrow> DecisionTrace \<Rightarrow> proxy \<Rightarrow>
     (nat option \<times> EvaluationResult \<times> DecisionTrace) \<times> proxy" where
  "reserve_escalation sv cf env policies res t p =
     (if ev_ActionTaken res \<noteq> ActionEscalated then ((None, res, t), p)
      else
        let matched = timeoutFromMatchedRules res policies;
            timeoutMin = (if 0 < matched then matched else cf_escalationDefaultMin cf);
            (tk, w) = next_tick (px_world p);
            (r, st) = reserve (tk_now tk) (tk_order tk) env res timeoutMin (px_escalations p);
            p = p \<lparr> px_world := w, px_escalations := st \<rparr>
        in case r of
             Some a \<Rightarrow> ((Some a, res, t), p)
           | None \<Rightarrow>
               (let res = applyOperationalDeny not_registered res
                in ((None, res, syncResultOutcomeToTrace sv res t), p)))"

definition audit_failed ::
  "services \<Rightarrow> config \<Rightarrow> append_error \<Rightarrow> nat option \<Rightarrow> EvaluationResult \<Rightarrow> DecisionTrace \<Rightarrow> proxy \<Rightarrow>
     (EvaluationResult \<times> DecisionReceipt option) \<times> proxy" where
  "audit_failed sv cf err reservation res t p0 =
     (let p = p0 \<lparr> px_world := count_audit_failure (px_world p0) \<rparr> in
      case reservation of
        Some a \<Rightarrow>
          (let (_, st) = discardReserved (Some a) (px_escalations p);
               res = applyOperationalDeny reservation_discarded res;
               t = syncResultOutcomeToTrace sv res t;
               (receipt, w) = (if is_poisoned_error err then (None, px_world p)
                 else case append_in sv True t (px_world p) of
                     (None, t, w) \<Rightarrow> (receiptForAppendedTrace sv t, w) | (Some _, _, w) \<Rightarrow> (None, w))
           in ((res, receipt), p \<lparr> px_world := w, px_escalations := st \<rparr>))
      | None \<Rightarrow>
          (if cf_failClosed cf \<and> actionProceeds (ev_ActionTaken res) then
             (let res = applyOperationalDeny would_proceed_unaudited res;
                  t = syncResultOutcomeToTrace sv res t;
                  w = (if is_poisoned_error err then px_world p else snd (snd (append_in sv False t (px_world p))))
              in ((res, None), p \<lparr> px_world := w \<rparr>))
           else ((res, None), p)))"

definition settle_audit ::
  "services \<Rightarrow> config \<Rightarrow> stamp_error option \<Rightarrow> nat option \<Rightarrow> EvaluationResult \<Rightarrow> DecisionTrace \<Rightarrow> proxy \<Rightarrow>
     (EvaluationResult \<times> DecisionReceipt option) \<times> proxy" where
  "settle_audit sv cf provenanceErr reservation res t0 p0 =
     (let (auditErr, t, w) = (case provenanceErr of
              Some e \<Rightarrow> (Some (StampFailed e), t0, px_world p0)
            | None \<Rightarrow> append_in sv (reservation \<noteq> None) t0 (px_world p0));
          p = p0 \<lparr> px_world := w \<rparr>
      in case auditErr of
           Some err \<Rightarrow> audit_failed sv cf err reservation res t p
         | None \<Rightarrow>
             (case reservation of
                None \<Rightarrow> ((res, receiptForAppendedTrace sv t), p)
              | Some a \<Rightarrow>
                  (let (ok, st) = publishReserved (Some a) (px_escalations p);
                       p = p \<lparr> px_escalations := st \<rparr>
                   in if ok then ((res, receiptForAppendedTrace sv t), p)
                      else ((applyOperationalDeny not_published res, None), p))))"

definition count_action :: "ActionTaken \<Rightarrow> proxy \<Rightarrow> proxy" where
  "count_action a p =
     (case a of
        ActionAllowed \<Rightarrow> p \<lparr> px_allowCount := Suc (px_allowCount p) \<rparr>
      | ActionAllowedShadow \<Rightarrow> p \<lparr> px_allowCount := Suc (px_allowCount p) \<rparr>
      | ActionDenied \<Rightarrow> p \<lparr> px_denyCount := Suc (px_denyCount p) \<rparr>
      | ActionEscalated \<Rightarrow> p \<lparr> px_escalateCount := Suc (px_escalateCount p) \<rparr>
      | ActionFlagged \<Rightarrow> p \<lparr> px_flagCount := Suc (px_flagCount p) \<rparr>)"

section \<open>The handler\<close>

text \<open>From the result of the engine to the reply.\<close>

definition conclude ::
  "services \<Rightarrow> config \<Rightarrow> velocity_call option \<Rightarrow> ActionEnvelope \<Rightarrow> Policy list \<Rightarrow> string \<Rightarrow> EvaluationResult \<Rightarrow> proxy \<Rightarrow>
     (nat \<times> reply) \<times> proxy" where
  "conclude sv cf vl env policies policySetHash res0 p0 =
     (let res = unknown_tool sv cf env policies res0;
          (idTime, w) = time_Now (px_world p0);
          t0 = evaluation_trace sv idTime env res;
          stamped = stamp_trace policySetHash t0 w;
          ((reservation, res, t), p) = reserve_escalation sv cf env policies res
            (case stamped of Inl _ \<Rightarrow> t0 | Inr t \<Rightarrow> t) (p0 \<lparr> px_world := w \<rparr>);
          ((res, receipt), p) = settle_audit sv cf (case stamped of Inl e \<Rightarrow> Some e | Inr _ \<Rightarrow> None) reservation res t p;
          p = record_velocity vl (ev_ActionTaken res) (count_action (ev_ActionTaken res) p)
      in (if ev_ActionTaken res = ActionEscalated then (202, EscalatedBody res (e_EnvelopeID env) receipt)
          else (200, ResultBody res receipt), p))"

definition decide ::
  "services \<Rightarrow> config \<Rightarrow> PolicyMode \<Rightarrow> ActionEnvelope \<Rightarrow> Policy list \<Rightarrow> string \<Rightarrow> proxy \<Rightarrow> (nat \<times> reply) \<times> proxy" where
  "decide sv cf m env0 policies policySetHash p0 =
     (let (vl, env, p) = inject_velocity sv cf env0 p0 in
      if policies = [] \<and> cf_failClosed cf
      then boundary_deny sv 503 env ''no policies loaded; fail-closed engaged'' m policySetHash (count_fail_closed p)
      else
        let (r, w) = safeEvaluate sv env policies m (px_world p); p = p \<lparr> px_world := w \<rparr> in
        case r of
          Inl err \<Rightarrow> boundary_deny sv 500 env
            (''policy evaluator error; failing closed (unconditional '' @ [CHR 0xE2, CHR 0x80, CHR 0x94] @
             '' see safeEvaluate): '' @ err) m policySetHash (count_fail_closed p)
        | Inr res \<Rightarrow> conclude sv cf vl env policies policySetHash res p)"

definition guarded ::
  "services \<Rightarrow> config \<Rightarrow> PolicyMode \<Rightarrow> ActionEnvelope \<Rightarrow> Policy list \<Rightarrow> string \<Rightarrow> proxy \<Rightarrow> (nat \<times> reply) \<times> proxy" where
  "guarded sv cf m env policies policySetHash p =
     (case (if cf_protectPaths cf = [] then None
            else ViolatesProtectedPaths (en_rt (sv_engine sv)) (Some env) (cf_protectPaths cf)) of
        Some v \<Rightarrow> boundary_deny sv 403 env (sv_Violation sv v) m policySetHash p
      | None \<Rightarrow> decide sv cf m env policies policySetHash p)"

definition admit ::
  "services \<Rightarrow> config \<Rightarrow> request \<Rightarrow> ActionEnvelope \<Rightarrow> Policy list \<Rightarrow> string \<Rightarrow> proxy \<Rightarrow> (nat \<times> reply) \<times> proxy" where
  "admit sv cf rq env policies policySetHash p0 =
     (let key = rate_key cf env;
          (now, w) = time_Now (px_world p0);
          (ok, rl) = rate_allow now key (px_rateLimit p0);
          p = p0 \<lparr> px_world := w, px_rateLimit := rl \<rparr>
      in if \<not> ok then boundary_deny sv 429 env (rate_reason sv cf key) (cf_defaultMode cf) policySetHash p
         else case request_mode cf rq of
             None \<Rightarrow> ((400, ErrorBody ''unknown mode (must be shadow|enforcement)''), p)
           | Some m \<Rightarrow> guarded sv cf m env policies policySetHash p)"

definition evaluate :: "services \<Rightarrow> config \<Rightarrow> request \<Rightarrow> proxy \<Rightarrow> (nat \<times> reply) \<times> proxy" where
  "evaluate sv cf rq p0 =
     (if rq_Method rq \<noteq> ''POST'' then ((405, ErrorBody ''POST only''), p0)
      else
        let p = p0 \<lparr> px_evalCount := Suc (px_evalCount p0) \<rparr> in
        case read_envelope sv cf rq of
          Inl r \<Rightarrow> (r, p)
        | Inr env \<Rightarrow>
            (let (env, w) = complete_envelope env (px_world p)
             in admit sv cf rq env (px_policies p) (px_policySetHash p) (p \<lparr> px_world := w \<rparr>)))"

section \<open>Health and readiness\<close>

definition requireHTTPMethod :: "request \<Rightarrow> string \<Rightarrow> (nat \<times> reply) option" where
  "requireHTTPMethod rq m = (if rq_Method rq = m then None else Some (405, ErrorBody (m @ '' only'')))"

definition readyz :: "config \<Rightarrow> request \<Rightarrow> proxy \<Rightarrow> nat \<times> reply" where
  "readyz cf rq p =
     (case requireHTTPMethod rq ''GET'' of
        Some r \<Rightarrow> r
      | None \<Rightarrow>
          (let n = length (px_policies p) in
           if aw_poisoned (wo_writer (px_world p))
           then (503, StatusBody ''not_ready'' ''audit writer is poisoned; restart after repairing and verifying the audit log'' n)
           else if n = 0 \<and> cf_failClosed cf
           then (503, StatusBody ''not_ready'' ''no policies loaded and -fail-closed is set'' 0)
           else (200, StatusBody ''ready'' [] n)))"

end
