(* ===== verification/Approvals.thy ===== *)
theory Approvals
  imports Handlers
begin

text \<open>
  The composition of the store, the writer and the handlers. The contract of the escalation store is
  interpreted on the writer of the proxy: an approval that a poller can see is a record of the log.
\<close>

section \<open>Appends through the world\<close>

text \<open>The same trace but for its provenance and its link.\<close>

definition linked_from :: "DecisionTrace \<Rightarrow> DecisionTrace \<Rightarrow> bool" where
  "linked_from t0 t \<longleftrightarrow> (\<exists>ev ps sv cv pr h. t = t0 \<lparr> dt_EngineVersion := ev, dt_PolicySetHash := ps,
     dt_SchemaVersion := sv, dt_CanonicalVersion := cv, dt_PreviousTraceHash := pr, dt_TraceHash := h \<rparr>)"

lemma linked_from_refl: "linked_from t t"
  unfolding linked_from_def
  by (rule exI [of _ "dt_EngineVersion t"], rule exI [of _ "dt_PolicySetHash t"], rule exI [of _ "dt_SchemaVersion t"],
      rule exI [of _ "dt_CanonicalVersion t"], rule exI [of _ "dt_PreviousTraceHash t"], rule exI [of _ "dt_TraceHash t"])
    (rule DecisionTrace.equality, simp_all)

lemma linked_from_trans: "linked_from a b \<Longrightarrow> linked_from b c \<Longrightarrow> linked_from a c"
  unfolding linked_from_def by (elim exE) (simp, intro exI, rule refl)

lemma linked_from_fields:
  assumes "linked_from t0 t"
  shows "dt_EnvelopeID t = dt_EnvelopeID t0" "dt_Decision t = dt_Decision t0" "dt_ActionTaken t = dt_ActionTaken t0"
    "dt_DecisionReason t = dt_DecisionReason t0" "dt_ToolName t = dt_ToolName t0" "dt_AgentID t = dt_AgentID t0"
  using assms unfolding linked_from_def by auto

lemma stamp_linked:
  assumes "stampTraceProvenance pv h t0 = Inr t"
  shows "linked_from t0 t"
proof -
  obtain v ph where "StampProvenance v ph t0 = Inr t"
    using assms by (auto simp: stampTraceProvenance_def Let_def split: option.splits sum.splits)
  then have "t = t0 \<lparr> dt_EngineVersion := TrimSpace v, dt_PolicySetHash := ph, dt_SchemaVersion := CanonicalTraceVersion,
      dt_CanonicalVersion := CanonicalTraceVersion, dt_PreviousTraceHash := dt_PreviousTraceHash t0,
      dt_TraceHash := dt_TraceHash t0 \<rparr>"
    by (auto simp: StampProvenance_def Let_def split: if_splits option.splits)
  then show ?thesis unfolding linked_from_def by blast
qed

lemma link_linked:
  assumes "link_trace cd prev t0 = Inr t"
  shows "linked_from t0 t"
  unfolding linked_from_def
  by (rule exI [of _ "dt_EngineVersion t0"], rule exI [of _ "dt_PolicySetHash t0"], rule exI [of _ "dt_SchemaVersion t0"],
      rule exI [of _ CanonicalTraceVersion], rule exI [of _ prev], rule exI [of _ "dt_TraceHash t"])
    (subst link_trace_Inr(4) [OF assms], simp)

text \<open>A complete record of the log, with the hash of its content.\<close>

definition logged :: "codec \<Rightarrow> audit_writer \<Rightarrow> DecisionTrace \<Rightarrow> bool" where
  "logged cd wr t \<longleftrightarrow> ComputeCanonicalTraceHash cd t = Inr (dt_TraceHash t) \<and>
     (\<exists>before sep rest. log_bytes wr = before @ record_bytes sep (cd_marshal cd t) @ rest)"

definition extends_log :: "audit_writer \<Rightarrow> audit_writer \<Rightarrow> bool" where
  "extends_log wr wr' \<longleftrightarrow> (\<exists>x. log_bytes wr' = log_bytes wr @ x)"

lemma extends_log_refl: "extends_log wr wr"
  by (simp add: extends_log_def)

lemma extends_log_trans: "extends_log a b \<Longrightarrow> extends_log b c \<Longrightarrow> extends_log a c"
  by (auto simp: extends_log_def)

lemma logged_extends: "logged cd wr t \<Longrightarrow> extends_log wr wr' \<Longrightarrow> logged cd wr' t"
  unfolding logged_def extends_log_def by (metis append.assoc)

definition good_writer :: "audit_writer \<Rightarrow> bool" where
  "good_writer wr \<longleftrightarrow> writer_shape wr \<or> aw_poisoned wr"

lemma append_logs:
  assumes "good_writer wr" "appendTraceWithDurability cd io force t0 wr = (err, t, wr')"
  shows "good_writer wr' \<and> extends_log wr wr' \<and> (err = None \<longrightarrow> logged cd wr' t \<and> linked_from t0 t)"
proof (cases "aw_poisoned wr")
  case True
  then have "err \<noteq> None \<and> wr' = wr" using poisoned_append [OF True, of cd io force t0] assms(2) by auto
  then show ?thesis using assms(1) extends_log_refl by auto
next
  case False
  then have shape: "writer_shape wr" using assms(1) by (simp add: good_writer_def)
  note eff = append_effect_holds [OF shape, of cd t0 io force, unfolded assms(2) append_effect_def]
  show ?thesis
  proof (cases err)
    case (Some e)
    show ?thesis
    proof (cases "is_poisoned_error e")
      case True
      with eff Some have "torn wr (cd_marshal cd t) e wr'" by simp
      with Some show ?thesis by (auto simp: torn_def torn_stream_def good_writer_def extends_log_def)
    next
      case False
      with eff Some have "unchanged wr wr'" by simp
      with Some show ?thesis by (auto simp: unchanged_def good_writer_def extends_log_def log_bytes_files)
    qed
  next
    case None
    with eff obtain t1 where e: "written wr (cd_marshal cd t) t wr'" "ensure_provenance wr t0 = Inr t1"
      "link_trace cd (aw_lastHash wr) t1 = Inr t" by auto
    have bytes: "log_bytes wr' = log_bytes wr @ record_bytes (aw_needsSeparator wr) (cd_marshal cd t) @ []"
      using e(1) by (simp add: written_def log_bytes_files grows_concat)
    have "logged cd wr' t" unfolding logged_def using bytes link_trace_Inr(3) [OF e(3)] by blast
    moreover have "linked_from t0 t1"
      using e(2) stamp_linked linked_from_refl by (auto simp: ensure_provenance_def split: if_splits)
    ultimately show ?thesis using e(1) link_linked [OF e(3)] bytes linked_from_trans
      by (auto simp: written_def good_writer_def extends_log_def)
  qed
qed

text \<open>What any part of the proxy does to the writer between two operations of the store.\<close>

inductive writer_step :: "codec \<Rightarrow> audit_writer \<Rightarrow> audit_writer \<Rightarrow> bool" for cd where
  appends: "appendTraceWithDurability cd io force t0 wr = (err, t, wr') \<Longrightarrow> writer_step cd wr wr'"
| new_provenance: "writer_step cd wr (wr \<lparr> aw_provenance := pv \<rparr>)"

definition world_moves :: "services \<Rightarrow> world \<Rightarrow> world \<Rightarrow> bool" where
  "world_moves sv w w' \<longleftrightarrow> (writer_step (sv_codec sv))\<^sup>*\<^sup>* (wo_writer w) (wo_writer w')"

lemma world_moves_same: "wo_writer w' = wo_writer w \<Longrightarrow> world_moves sv w w'"
  by (simp add: world_moves_def)

lemma world_moves_trans: "world_moves sv a b \<Longrightarrow> world_moves sv b c \<Longrightarrow> world_moves sv a c"
  unfolding world_moves_def by (rule rtranclp_trans)

lemma writer_steps_good:
  "(writer_step cd)\<^sup>*\<^sup>* wr wr' \<Longrightarrow> good_writer wr \<Longrightarrow> good_writer wr' \<and> extends_log wr wr'"
proof (induction rule: rtranclp_induct)
  case (step b c)
  from step(2) have "good_writer b \<Longrightarrow> good_writer c \<and> extends_log b c"
  proof (cases rule: writer_step.cases)
    case (appends io force t0 err t)
    then show "good_writer b \<Longrightarrow> good_writer c \<and> extends_log b c" using append_logs [of b cd io force t0] by blast
  qed (simp add: good_writer_def writer_shape_def extends_log_def log_bytes_def)
  with step extends_log_trans show ?case by blast
qed (simp add: extends_log_refl)

lemma world_clock [simp]:
  "wo_writer (snd (next_tick w)) = wo_writer w" "wo_writer (snd (time_Now w)) = wo_writer w"
  "wo_writer (count_audit_failure w) = wo_writer w"
  by (simp_all add: next_tick_def time_Now_def count_audit_failure_def)

lemma append_in_step:
  assumes "append_in sv d t0 w = (err, t, w')"
  shows "\<exists>io. appendTraceWithDurability (sv_codec sv) io d t0 (wo_writer w) = (err, t, wo_writer w')"
  using assms
  by (cases d) (auto simp: append_in_def appendTrace_def appendTraceDurable_def next_tick_def Let_def split: prod.splits)

lemma append_in_moves: "append_in sv d t0 w = (err, t, w') \<Longrightarrow> world_moves sv w w'"
  unfolding world_moves_def using append_in_step writer_step.appends by blast

lemma append_in_logs:
  assumes "append_in sv d t0 w = (None, t, w')" "good_writer (wo_writer w)"
  shows "logged (sv_codec sv) (wo_writer w') t \<and> linked_from t0 t"
  using append_in_step [OF assms(1)] append_logs [OF assms(2)] by blast

section \<open>The callbacks record what they acknowledge\<close>

lemma emit_moves: "emit sv d h t0 w = (r, w') \<Longrightarrow> world_moves sv w w'"
proof -
  have "world_moves sv w w1 \<Longrightarrow> world_moves sv w (count_audit_failure w1)" for w1
    by (simp add: world_moves_def)
  then show "emit sv d h t0 w = (r, w') \<Longrightarrow> world_moves sv w w'"
    by (auto simp: emit_def world_moves_same dest: append_in_moves split: sum.splits prod.splits option.splits)
qed

lemma emit_logs:
  assumes "emit sv d h t0 w = (Inr t, w')" "good_writer (wo_writer w)"
  shows "logged (sv_codec sv) (wo_writer w') t \<and> linked_from t0 t"
proof -
  obtain t1 where "stamp_trace h t0 w = Inr t1" "append_in sv d t1 w = (None, t, w')"
    using assms(1) by (auto simp: emit_def split: sum.splits prod.splits option.splits)
  with append_in_logs [OF _ assms(2)] stamp_linked linked_from_trans show ?thesis
    unfolding stamp_trace_def by blast
qed

lemma resolution_emits:
  "\<exists>t1 t2 w1. wo_writer w1 = wo_writer w \<and>
     emitEscalationResolution sv e approved w = emit sv True [] (resolution_trace sv e approved t1 t2) w1"
  unfolding emitEscalationResolution_def Let_def case_prod_beta by (metis world_clock(2))

lemma expiry_emits:
  "\<exists>t1 t2 w1. wo_writer w1 = wo_writer w \<and> emitEscalationExpiry sv e w =
     (case emit sv True [] (expiry_trace sv e t1 t2) w1 of (Inl err, w) \<Rightarrow> (Some err, w) | (Inr _, w) \<Rightarrow> (None, w))"
  by (rule exI [of _ "fst (time_Now w)"], rule exI [of _ "fst (time_Now (snd (time_Now w)))"],
      rule exI [of _ "snd (time_Now (snd (time_Now w)))"]) (simp add: emitEscalationExpiry_def case_prod_beta)

lemma trace_fields [simp]:
  "dt_EnvelopeID (envelope_trace sv t1 t2 env) = e_EnvelopeID env"
  "dt_ToolName (envelope_trace sv t1 t2 env) = e_ToolName env"
  "dt_AgentID (envelope_trace sv t1 t2 env) = e_AgentID env"
  by (simp_all add: envelope_trace_def case_prod_beta no_trace_def)

section \<open>The store's contract on this writer\<close>

text \<open>The two callbacks as one: the state the candidate asks for tells them apart.\<close>

definition escalation_commit :: "services \<Rightarrow> world commit" where
  "escalation_commit sv e w =
     (if es_State e = EscExpired then commit_expiry sv e w else commit_resolution sv (es_State e = EscApproved) e w)"

text \<open>The record that a resolved entry promises.\<close>

definition outcome_reason :: "services \<Rightarrow> Escalation \<Rightarrow> string" where
  "outcome_reason sv e =
     (if es_State e = EscExpired then expiry_reason e else resolution_reason sv e (es_State e = EscApproved))"

definition outcome_of :: "services \<Rightarrow> Escalation \<Rightarrow> DecisionTrace \<Rightarrow> bool" where
  "outcome_of sv e t \<longleftrightarrow> dt_EnvelopeID t = e_EnvelopeID (es_Envelope e) \<and>
     dt_ToolName t = e_ToolName (es_Envelope e) \<and> dt_AgentID t = e_AgentID (es_Envelope e) \<and>
     dt_Decision t = (if es_State e = EscApproved then ''allowed'' else ''denied'') \<and>
     dt_ActionTaken t = (if es_State e = EscApproved then ''allowed'' else ''denied'') \<and>
     dt_DecisionReason t = outcome_reason sv e"

definition recorded_in :: "services \<Rightarrow> world \<Rightarrow> Escalation \<Rightarrow> bool" where
  "recorded_in sv w e \<longleftrightarrow> (\<exists>t. logged (sv_codec sv) (wo_writer w) t \<and> outcome_of sv e t)"

lemma commit_cases:
  assumes "escalation_commit sv e w = (err, e', w')"
  obtains t0 w1 r where "wo_writer w1 = wo_writer w" "emit sv True [] t0 w1 = (r, w')"
    "\<And>t. linked_from t0 t \<Longrightarrow> outcome_of sv e t" "err = None \<longleftrightarrow> (\<exists>t. r = Inr t)"
    "e' = e \<lparr> es_ResolutionReceipt := es_ResolutionReceipt e' \<rparr>"
proof (cases "es_State e = EscExpired")
  case True
  obtain t1 t2 w1 where x: "wo_writer w1 = wo_writer w" "emitEscalationExpiry sv e w =
     (case emit sv True [] (expiry_trace sv e t1 t2) w1 of (Inl err, w) \<Rightarrow> (Some err, w) | (Inr _, w) \<Rightarrow> (None, w))"
    using expiry_emits by blast
  have "linked_from (expiry_trace sv e t1 t2) t \<Longrightarrow> outcome_of sv e t" for t
    using linked_from_fields [of "expiry_trace sv e t1 t2" t] True
    by (simp add: outcome_of_def expiry_trace_def outcome_reason_def)
  with True x assms that [of w1 "expiry_trace sv e t1 t2"] show thesis
    by (cases "emit sv True [] (expiry_trace sv e t1 t2) w1")
      (auto simp: escalation_commit_def commit_expiry_def split: sum.splits)
next
  case False
  let ?a = "es_State e = EscApproved"
  obtain t1 t2 w1 where x: "wo_writer w1 = wo_writer w"
    "emitEscalationResolution sv e ?a w = emit sv True [] (resolution_trace sv e ?a t1 t2) w1"
    using resolution_emits by blast
  have "linked_from (resolution_trace sv e ?a t1 t2) t \<Longrightarrow> outcome_of sv e t" for t
    using linked_from_fields [of "resolution_trace sv e ?a t1 t2" t] False
    by (simp add: outcome_of_def resolution_trace_def outcome_reason_def)
  with False x assms that [of w1 "resolution_trace sv e ?a t1 t2"] show thesis
    by (cases "emit sv True [] (resolution_trace sv e ?a t1 t2) w1")
      (auto simp: escalation_commit_def commit_resolution_def split: sum.splits)
qed

lemma recorded_moves:
  "good_writer (wo_writer w) \<Longrightarrow> world_moves sv w w' \<Longrightarrow> recorded_in sv w e \<Longrightarrow> recorded_in sv w' e"
  using writer_steps_good logged_extends unfolding world_moves_def recorded_in_def by blast

lemma good_moves: "good_writer (wo_writer w) \<Longrightarrow> world_moves sv w w' \<Longrightarrow> good_writer (wo_writer w')"
  using writer_steps_good unfolding world_moves_def by blast

lemma commit_moves: "escalation_commit sv e w = (err, e', w') \<Longrightarrow> world_moves sv w w'"
  by (erule commit_cases) (metis emit_moves world_moves_def)

interpretation review: audit_commit "escalation_commit sv" "world_moves sv" "\<lambda>w. good_writer (wo_writer w)" "recorded_in sv"
  for sv
proof
  show "e' = e \<lparr> es_ResolutionReceipt := es_ResolutionReceipt e' \<rparr>"
    if "escalation_commit sv e w = (err, e', w')" for e w err e' w'
    using that by (rule commit_cases)
  show "recorded_in sv w' e" if "good_writer (wo_writer w)" "escalation_commit sv e w = (None, e', w')" for w e e' w'
    using that(2) by (rule commit_cases) (metis that(1) emit_logs recorded_in_def)
  show "recorded_in sv w (x \<lparr> es_ResolutionReceipt := r \<rparr>) = recorded_in sv w x" for w x r
    by (simp add: recorded_in_def outcome_of_def outcome_reason_def expiry_reason_def resolution_reason_def)
qed (blast intro: good_moves commit_moves recorded_moves)+

section \<open>Requests are steps of the store and the writer\<close>

definition steps :: "services \<Rightarrow> escalationStore \<times> world \<Rightarrow> escalationStore \<times> world \<Rightarrow> bool" where
  "steps sv = (esc_step (escalation_commit sv) (world_moves sv))\<^sup>*\<^sup>*"

definition px_core :: "proxy \<Rightarrow> escalationStore \<times> world" where
  "px_core p = (px_escalations p, px_world p)"

lemma px_core_simps [simp]:
  "px_core (p \<lparr> px_world := w \<rparr>) = (px_escalations p, w)"
  "px_core (p \<lparr> px_escalations := st \<rparr>) = (st, px_world p)"
  "px_core (p \<lparr> px_denyCount := n \<rparr>) = px_core p"
  "px_core (count_fail_closed p) = px_core p"
  "px_core (count_action a p) = px_core p"
  by (simp_all add: px_core_def count_fail_closed_def count_action_def split: ActionTaken.splits)

lemma px_core_velocity [simp]: "px_core (record_velocity vl a p) = px_core p"
  by (simp add: px_core_def record_velocity_def split: option.splits)

lemma nested4: "\<exists>a b c d. x = ((a, b, c), d)"
  by (metis surj_pair)

lemma nested3: "\<exists>a b c. x = ((a, b), c)"
  by (metis surj_pair)

lemma steps_refl: "steps sv c c"
  by (simp add: steps_def)

lemma steps_trans [trans]: "steps sv a b \<Longrightarrow> steps sv b c \<Longrightarrow> steps sv a c"
  unfolding steps_def by (rule rtranclp_trans)

lemma steps_one: "esc_step (escalation_commit sv) (world_moves sv) a b \<Longrightarrow> steps sv a b"
  unfolding steps_def by (rule r_into_rtranclp)

lemma steps_world: "world_moves sv w w' \<Longrightarrow> steps sv (st, w) (st, w')"
  by (intro steps_one esc_step.world)

lemma steps_same: "wo_writer w' = wo_writer w \<Longrightarrow> steps sv (st, w) (st, w')"
  by (intro steps_world world_moves_same)

lemma resolve_commit:
  "resolveAudited now i approver reason approved (Some (commit_resolution sv approved)) st w =
   resolveAudited now i approver reason approved (Some (escalation_commit sv)) st w"
proof -
  have "escalation_commit sv c = commit_resolution sv approved c" if "es_State c = (if approved then EscApproved else EscDenied)" for c
    using that by (intro ext) (simp add: escalation_commit_def split: if_splits)
  then have "run_commit (Some (escalation_commit sv)) c = run_commit (Some (commit_resolution sv approved)) c"
    if "es_State c = (if approved then EscApproved else EscDenied)" for c
    using that by (intro ext) (simp add: run_commit_def)
  then show ?thesis unfolding resolveAudited_def Let_def by (simp cong: option.case_cong if_cong)
qed

lemma reap_commit:
  "reapExpiredAudited now order (Some (commit_expiry sv)) st w =
   reapExpiredAudited now order (Some (escalation_commit sv)) st w"
proof -
  have "run_commit (Some (escalation_commit sv)) c = run_commit (Some (commit_expiry sv)) c" if "es_State c = EscExpired" for c
    using that by (intro ext) (simp add: run_commit_def escalation_commit_def)
  then have "reap_one now (Some (commit_expiry sv)) i st w = reap_one now (Some (escalation_commit sv)) i st w" for i st w
    unfolding reap_one_def Let_def by (simp cong: option.case_cong if_cong)
  then show ?thesis by (induction order arbitrary: st w) simp_all
qed

lemma resolve_steps: "steps sv (px_core p) (px_core (snd (resolve_escalation sv i ap approved p)))"
proof -
  obtain now w where n: "time_Now (px_world p) = (now, w)" by fastforce
  obtain x st w' where x: "resolveAudited now i (ap_Approver ap) (ap_Reason ap) approved
      (Some (commit_resolution sv approved)) (px_escalations p) w = (x, st, w')" by (metis prod_cases3)
  obtain e ok err where "x = (e, ok, err)" by (metis prod_cases3)
  note r = x [unfolded this]
  have "wo_writer w = wo_writer (px_world p)" using world_clock(2) [of "px_world p"] n by simp
  then have "steps sv (px_core p) (px_escalations p, w)" by (simp add: px_core_def steps_same)
  also have "steps sv (px_escalations p, w) (st, w')"
    using r unfolding resolve_commit by (intro steps_one esc_step.resolves)
  finally show ?thesis
    using n r by (simp add: resolve_escalation_def px_core_def Let_def split: option.split resolve_error.split)
qed

lemma review_steps: "steps sv (px_core p) (px_core (snd (escalationByID sv cf rq p)))"
  using resolve_steps steps_refl
  by (simp add: escalationByID_def Let_def case_prod_beta split: option.split)

lemma list_steps: "steps sv (px_core p) (px_core (snd (listEscalations rq p)))"
  by (simp add: listEscalations_def case_prod_beta steps_refl steps_same px_core_def)

lemma reap_steps: "steps sv (px_core p) (px_core (reap sv p))"
proof -
  obtain tk w where n: "next_tick (px_world p) = (tk, w)" by fastforce
  obtain r st w' where r: "reapExpiredAudited (tk_now tk) (tk_order tk) (Some (commit_expiry sv)) (px_escalations p) w =
      (r, st, w')" by (metis prod_cases3)
  have "wo_writer w = wo_writer (px_world p)" using world_clock(1) [of "px_world p"] n by simp
  then have "steps sv (px_core p) (px_escalations p, w)" by (simp add: px_core_def steps_same)
  also have "steps sv (px_escalations p, w) (st, w')"
    using r unfolding reap_commit by (intro steps_one esc_step.reaps)
  finally show ?thesis using n r by (simp add: reap_def px_core_def)
qed

lemma boundary_moves: "world_moves sv w (snd (emitBoundaryDeny sv env reason m h w))"
proof -
  let ?w = "snd (time_Now (snd (time_Now w)))"
  let ?t = "boundary_trace sv env reason m (fst (time_Now w)) (fst (time_Now (snd (time_Now w))))"
  obtain r w' where e: "emit sv False h ?t ?w = (r, w')" by fastforce
  have "world_moves sv w ?w" by (simp add: world_moves_same)
  moreover have "world_moves sv ?w w'" by (rule emit_moves [OF e])
  moreover have "snd (emitBoundaryDeny sv env reason m h w) = w'"
    using e by (simp add: emitBoundaryDeny_def case_prod_beta split: sum.split)
  ultimately show ?thesis using world_moves_trans by simp
qed

lemma boundary_steps: "steps sv (px_core p) (px_core (snd (boundary_deny sv status env reason m h p)))"
  using steps_world [OF boundary_moves]
  by (simp add: boundary_deny_def case_prod_beta px_core_def)

lemma velocity_core:
  assumes "inject_velocity sv cf env p = (vl, env', p')"
  shows "px_escalations p' = px_escalations p" "wo_writer (px_world p') = wo_writer (px_world p)"
    "e_EnvelopeID env' = e_EnvelopeID env" "px_policies p' = px_policies p"
  using assms by (auto simp: inject_velocity_def set_velocity_def case_prod_beta Let_def split: option.splits)

lemma velocity_steps: "inject_velocity sv cf env p = (vl, env', p') \<Longrightarrow> steps sv (px_core p) (px_core p')"
  using velocity_core [of sv cf env p vl env' p'] by (simp add: px_core_def steps_same)

lemma reserve_steps:
  assumes "reserve_escalation sv cf env policies res t p = ((r, res', t'), p')"
  shows "steps sv (px_core p) (px_core p')"
proof (cases "ev_ActionTaken res = ActionEscalated")
  case False
  with assms show ?thesis by (simp add: reserve_escalation_def steps_refl)
next
  case True
  obtain tk w where n: "next_tick (px_world p) = (tk, w)" by fastforce
  obtain r1 st where r: "reserve (tk_now tk) (tk_order tk) env res
      (if 0 < timeoutFromMatchedRules res policies then timeoutFromMatchedRules res policies else cf_escalationDefaultMin cf)
      (px_escalations p) = (r1, st)" by fastforce
  have "wo_writer w = wo_writer (px_world p)" using world_clock(1) [of "px_world p"] n by simp
  then have "steps sv (px_core p) (px_escalations p, w)" by (simp add: px_core_def steps_same)
  also have "steps sv (px_escalations p, w) (st, w)" using r by (intro steps_one esc_step.reserves)
  finally show ?thesis
    using assms n r True by (auto simp: reserve_escalation_def Let_def px_core_def split: option.splits)
qed

lemma append_steps: "append_in sv d t w = (err, t', w') \<Longrightarrow> steps sv (st, w) (st, w')"
  by (intro steps_world append_in_moves)

lemma audit_failed_steps:
  assumes "audit_failed sv cf err reservation res t p = (x, p')"
  shows "steps sv (px_core p) (px_core p')"
proof -
  let ?w = "count_audit_failure (px_world p)"
  have one: "steps sv (px_core p) (px_escalations p, ?w)" by (simp add: px_core_def steps_same)
  show ?thesis
  proof (cases reservation)
    case None
    let ?t = "syncResultOutcomeToTrace sv (applyOperationalDeny would_proceed_unaudited res) t"
    have "steps sv (px_escalations p, ?w) (px_escalations p, snd (snd (append_in sv False ?t ?w)))"
      by (rule append_steps [of sv False ?t _ "fst (append_in sv False ?t ?w)" "fst (snd (append_in sv False ?t ?w))"]) simp
    from steps_trans [OF one this] one None assms show ?thesis
      by (auto simp: audit_failed_def Let_def px_core_def split: if_splits)
  next
    case (Some a)
    obtain b st where d: "discardReserved (Some a) (px_escalations p) = (b, st)" by fastforce
    let ?t = "syncResultOutcomeToTrace sv (applyOperationalDeny reservation_discarded res) t"
    obtain e t1 w1 where w1: "append_in sv True ?t ?w = (e, t1, w1)" by (metis prod_cases3)
    have two: "steps sv (px_core p) (st, ?w)"
      using one steps_trans steps_one [OF esc_step.discards [OF d]] by blast
    moreover have "steps sv (px_core p) (st, w1)" using two steps_trans append_steps [OF w1] by blast
    ultimately show ?thesis
      using assms Some d w1 by (cases e) (auto simp: audit_failed_def Let_def px_core_def split: if_splits)
  qed
qed

lemma settle_steps:
  assumes "settle_audit sv cf perr reservation res t p = (x, p')"
  shows "steps sv (px_core p) (px_core p')"
proof -
  obtain err t1 w where a: "(case perr of Some e \<Rightarrow> (Some (StampFailed e), t, px_world p)
      | None \<Rightarrow> append_in sv (reservation \<noteq> None) t (px_world p)) = (err, t1, w)" by (metis prod_cases3)
  have one: "steps sv (px_core p) (px_escalations p, w)"
    using a append_steps [of sv _ t "px_world p" err t1 w "px_escalations p"]
    by (auto simp: px_core_def steps_refl split: option.splits)
  show ?thesis
  proof (cases err)
    case (Some e)
    with assms a have f: "audit_failed sv cf e reservation res t1 (p \<lparr> px_world := w \<rparr>) = (x, p')"
      by (simp add: settle_audit_def Let_def)
    have "steps sv (px_escalations p, w) (px_core p')" using audit_failed_steps [OF f] by simp
    then show ?thesis by (rule steps_trans [OF one])
  next
    case None
    show ?thesis
    proof (cases reservation)
      case None
      with assms a \<open>err = None\<close> one show ?thesis by (auto simp: settle_audit_def Let_def)
    next
      case (Some r)
      obtain b st where pub: "publishReserved (Some r) (px_escalations p) = (b, st)" by fastforce
      have "steps sv (px_core p) (st, w)"
        using one steps_trans steps_one [OF esc_step.publishes [OF pub]] by blast
      with assms a \<open>err = None\<close> Some pub show ?thesis
        by (auto simp: settle_audit_def Let_def px_core_def split: if_splits)
    qed
  qed
qed

lemma conclude_steps: "steps sv (px_core p) (px_core (snd (conclude sv cf vl env policies h res p)))"
proof -
  obtain idTime w where n: "time_Now (px_world p) = (idTime, w)" by fastforce
  let ?res = "unknown_tool sv cf env policies res"
  let ?t0 = "evaluation_trace sv idTime env ?res"
  let ?st = "stamp_trace h ?t0 w"
  obtain r res1 t p1 where r: "reserve_escalation sv cf env policies ?res (case ?st of Inl _ \<Rightarrow> ?t0 | Inr t \<Rightarrow> t)
      (p \<lparr> px_world := w \<rparr>) = ((r, res1, t), p1)" using nested4 by metis
  obtain res2 receipt p2 where s: "settle_audit sv cf (case ?st of Inl e \<Rightarrow> Some e | Inr _ \<Rightarrow> None) r res1 t p1 =
      ((res2, receipt), p2)" using nested3 by metis
  have "wo_writer w = wo_writer (px_world p)" using world_clock(2) [of "px_world p"] n by simp
  then have "steps sv (px_core p) (px_core (p \<lparr> px_world := w \<rparr>))" by (simp add: px_core_def steps_same)
  also note reserve_steps [OF r]
  also note settle_steps [OF s]
  finally show ?thesis using n r s by (simp add: conclude_def Let_def)
qed

lemma decide_steps: "steps sv (px_core p) (px_core (snd (decide sv cf m env policies h p)))"
proof -
  obtain vl env' p1 where v: "inject_velocity sv cf env p = (vl, env', p1)" by (metis prod_cases3)
  obtain r w where e: "safeEvaluate sv env' policies m (px_world p1) = (r, w)" by fastforce
  have "wo_writer w = wo_writer (px_world p1)"
    using e world_clock(1) [of "px_world p1"] by (auto simp: safeEvaluate_def case_prod_beta)
  then have w: "steps sv (px_core p) (px_core (p1 \<lparr> px_world := w \<rparr>))"
    using steps_trans [OF velocity_steps [OF v]] by (simp add: px_core_def steps_same)
  have closed: "steps sv (px_core p) (px_core (snd (boundary_deny sv n env' reason m h (count_fail_closed q))))"
    if "steps sv (px_core p) (px_core q)" for n reason q
    using steps_trans [OF that] boundary_steps [of sv "count_fail_closed q"] by simp
  have fin: "steps sv (px_core p) (px_core (snd (conclude sv cf vl env' policies h res (p1 \<lparr> px_world := w \<rparr>))))" for res
    by (rule steps_trans [OF w conclude_steps])
  show ?thesis
    using closed [OF velocity_steps [OF v]] closed [OF w] fin v e
    by (cases "policies = [] \<and> cf_failClosed cf"; cases r) (auto simp: decide_def)
qed

lemma evaluate_steps: "steps sv (px_core p) (px_core (snd (evaluate sv cf rq p)))"
proof -
  have guarded: "steps sv (px_core q) (px_core (snd (guarded sv cf m env policies h q)))" for m env policies h q
    unfolding guarded_def using boundary_steps decide_steps by (simp split: option.split)
  have limit: "steps sv (px_core q) (px_core (q \<lparr> px_world := snd (time_Now (px_world q)), px_rateLimit := rl \<rparr>))" for q rl
    by (simp add: px_core_def steps_same)
  have admit: "steps sv (px_core q) (px_core (snd (admit sv cf rq env policies h q)))" for env policies h q
    using steps_trans [OF limit boundary_steps] steps_trans [OF limit guarded] limit
    by (simp add: admit_def Let_def case_prod_beta split: option.split)
  have env: "wo_writer (snd (complete_envelope env w)) = wo_writer w" for env w
    by (simp add: complete_envelope_def case_prod_beta Let_def)
  have "steps sv (px_core p) (px_core (p \<lparr> px_evalCount := n, px_world := snd (complete_envelope env w) \<rparr>))"
    if "wo_writer w = wo_writer (px_world p)" for n env w
    using that env by (simp add: px_core_def steps_same)
  from steps_trans [OF this admit] show ?thesis
    by (simp add: evaluate_def Let_def case_prod_beta steps_refl px_core_def split: sum.split)
qed

end
