(* ===== verification/Policy_Load.thy ===== *)
theory Policy_Load
  imports Handlers "HOL-Library.Char_ord" "HOL-Library.List_Lexorder"
begin

text \<open>
  Loading policies: the checks of a decoded file and the digest of a set (\<open>pkg/policyload\<close>), and
  the reload of the proxy (\<open>cmd/tg-proxy/policy\_loader.go\<close>). The YAML parser, the decoder of a
  policy and its JSON encoder are parameters.
\<close>

section \<open>Unknown fields\<close>

text \<open>A decoded document, after \<open>normalizeYAML\<close>; an integer is one that fits the machine's \<open>int\<close>.\<close>

datatype yval =
    YNull
  | YBool bool
  | YInt int
  | YFloat f64
  | YStr string
  | YList "yval list"
  | YMap "(string \<times> yval) list"

text \<open>The types reflection meets below \<open>domain.Policy\<close>; a pointer is its element, and a plain type is
  one the walk does not descend into.\<close>

datatype struct_name =
    SPolicy | SScope | SSourceDocument | SRule | SCondition | SSQLClassify | SSQLRequire | SPathClassify | SPathRequire
  | SShellClassify | SShellRequire | SWriteClassify | SWriteRequire | SHTTPClassify | SHTTPRequire | SLLMClassify | SEffectConfig | SCitation

datatype gotype = TPlain | TSlice gotype | TMap gotype | TStruct struct_name

fun jsonFields :: "struct_name \<Rightarrow> (string \<times> gotype) list" where
  "jsonFields SPolicy =
    [(''schema_version'', TPlain), (''policy_id'', TPlain), (''org_id'', TPlain), (''name'', TPlain),
     (''description'', TPlain), (''version'', TPlain), (''priority'', TPlain), (''status'', TPlain),
     (''mode'', TPlain), (''scope'', TStruct SScope),
     (''source_documents'', TSlice (TStruct SSourceDocument)), (''rules'', TSlice (TStruct SRule)),
     (''compliance'', TMap (TSlice TPlain)), (''created_by'', TPlain), (''approved_by'', TPlain),
     (''created_at'', TPlain), (''updated_at'', TPlain), (''approved_at'', TPlain)]"
| "jsonFields SScope =
    [(''org_ids'', TSlice TPlain), (''agent_ids'', TSlice TPlain), (''tool_names'', TSlice TPlain),
     (''tool_groups'', TSlice TPlain), (''intentionally_global'', TPlain)]"
| "jsonFields SSourceDocument =
    [(''document_id'', TPlain), (''title'', TPlain), (''version'', TPlain), (''path'', TPlain),
     (''content_hash'', TPlain), (''uploaded_at'', TPlain)]"
| "jsonFields SRule =
    [(''rule_id'', TPlain), (''name'', TPlain), (''description'', TPlain), (''rule_type'', TPlain),
     (''enabled'', TPlain), (''conditions'', TStruct SCondition), (''effect'', TPlain),
     (''effect_config'', TStruct SEffectConfig), (''citation'', TStruct SCitation), (''priority'', TPlain)]"
| "jsonFields SCondition =
    [(''and'', TSlice (TStruct SCondition)), (''or'', TSlice (TStruct SCondition)),
     (''not'', TStruct SCondition), (''field'', TPlain), (''operator'', TPlain), (''value'', TPlain),
     (''sql_classify'', TStruct SSQLClassify), (''path_classify'', TStruct SPathClassify),
     (''shell_classify'', TStruct SShellClassify), (''llm_classify'', TStruct SLLMClassify),
     (''write_classify'', TStruct SWriteClassify), (''http_classify'', TStruct SHTTPClassify)]"
| "jsonFields SSQLClassify =
    [(''field'', TPlain), (''dialect'', TPlain), (''require'', TStruct SSQLRequire)]"
| "jsonFields SSQLRequire =
    [(''top_level_kinds'', TSlice TPlain), (''denied_top_level_kinds'', TSlice TPlain),
     (''no_dynamic_sql'', TPlain), (''no_program_exec'', TPlain), (''allowed_functions'', TSlice TPlain),
     (''no_functions'', TPlain), (''denied_function_classes'', TSlice TPlain),
     (''allowed_function_classes'', TSlice TPlain), (''denied_tables'', TSlice TPlain),
     (''allowed_tables'', TSlice TPlain)]"
| "jsonFields SPathClassify =
    [(''field'', TPlain), (''require'', TStruct SPathRequire)]"
| "jsonFields SPathRequire =
    [(''clean_first'', TPlain), (''absolute_only'', TPlain), (''resolve_symlinks'', TPlain),
     (''deny_on_resolve_failure'', TPlain), (''denied_canonical_prefixes'', TSlice TPlain),
     (''allowed_canonical_prefixes'', TSlice TPlain), (''deny_shell_metas'', TPlain),
     (''include_backslash'', TPlain), (''max_path_length'', TPlain)]"
| "jsonFields SShellClassify =
    [(''field'', TPlain), (''require'', TStruct SShellRequire)]"
| "jsonFields SShellRequire =
    [(''argv0_allowlist'', TSlice TPlain), (''argv_deny_patterns'', TSlice TPlain), (''max_argc'', TPlain),
     (''denied_argv_paths'', TSlice TPlain), (''resolve_symlinks'', TPlain),
     (''argv_env_pattern_deny'', TPlain)]"
| "jsonFields SWriteClassify =
    [(''path_field'', TPlain), (''content_field'', TPlain), (''require'', TStruct SWriteRequire)]"
| "jsonFields SWriteRequire =
    [(''allowed_path_prefixes'', TSlice TPlain), (''denied_path_prefixes'', TSlice TPlain),
     (''resolve_symlinks'', TPlain), (''max_bytes'', TPlain), (''denied_content_regex'', TSlice TPlain)]"
| "jsonFields SHTTPClassify =
    [(''url_field'', TPlain), (''method_field'', TPlain), (''require'', TStruct SHTTPRequire)]"
| "jsonFields SHTTPRequire =
    [(''allowed_hosts'', TSlice TPlain), (''denied_hosts'', TSlice TPlain),
     (''allowed_schemes'', TSlice TPlain), (''allowed_methods'', TSlice TPlain),
     (''denied_methods'', TSlice TPlain), (''allowed_ports'', TSlice TPlain),
     (''denied_ports'', TSlice TPlain)]"
| "jsonFields SLLMClassify =
    [(''prompt_field'', TPlain), (''image_url_field'', TPlain), (''forbidden'', TSlice TPlain),
     (''backend'', TPlain), (''model'', TPlain), (''ollama_url'', TPlain), (''timeout_seconds'', TPlain)]"
| "jsonFields SEffectConfig =
    [(''severity'', TPlain), (''escalate_to'', TPlain), (''timeout_minutes'', TPlain),
     (''suggested_response'', TPlain)]"
| "jsonFields SCitation =
    [(''document_id'', TPlain), (''document_title'', TPlain), (''section'', TPlain), (''page'', TPlain),
     (''line'', TPlain), (''excerpt'', TPlain)]"

definition joinPath :: "string \<Rightarrow> string \<Rightarrow> string" where
  "joinPath parent child = (if parent = [] then child else parent @ ''.'' @ child)"

text \<open>The unknown field found first, with its path.\<close>

function (sequential) rejectUnknownFields :: "yval \<Rightarrow> gotype \<Rightarrow> string \<Rightarrow> (string \<times> string) option"
  and reject_members :: "(string \<times> yval) list \<Rightarrow> (string \<times> gotype) list \<Rightarrow> string \<Rightarrow> (string \<times> string) option"
  and reject_items :: "yval list \<Rightarrow> gotype \<Rightarrow> string \<Rightarrow> int \<Rightarrow> (string \<times> string) option"
  and reject_entries :: "(string \<times> yval) list \<Rightarrow> gotype \<Rightarrow> string \<Rightarrow> (string \<times> string) option" where
  "rejectUnknownFields (YMap ms) t path =
     (case t of
        TStruct s \<Rightarrow> reject_members ms (jsonFields s) path
      | TMap elem \<Rightarrow> reject_entries ms elem path
      | _ \<Rightarrow> None)"
| "rejectUnknownFields (YList items) t path = (case t of TSlice elem \<Rightarrow> reject_items items elem path 0 | _ \<Rightarrow> None)"
| "rejectUnknownFields v t path = None"
| "reject_members [] flds path = None"
| "reject_members ((name, child) # ms) flds path =
     (case map_of flds name of
        None \<Rightarrow> Some (name, joinPath path name)
      | Some t \<Rightarrow>
          (case rejectUnknownFields child t (joinPath path name) of
             Some e \<Rightarrow> Some e
           | None \<Rightarrow> reject_members ms flds path))"
| "reject_items [] t path i = None"
| "reject_items (item # items) t path i =
     (case rejectUnknownFields item t (path @ ''['' @ show_int i @ '']'') of
        Some e \<Rightarrow> Some e
      | None \<Rightarrow> reject_items items t path (i + 1))"
| "reject_entries [] t path = None"
| "reject_entries ((key, child) # ms) t path =
     (case rejectUnknownFields child t (joinPath path key) of
        Some e \<Rightarrow> Some e
      | None \<Rightarrow> reject_entries ms t path)"
  by pat_completeness auto
termination
  by (relation "measure (\<lambda>x. case x of Inl (Inl (v, _, _)) \<Rightarrow> size v
      | Inl (Inr (ms, _, _)) \<Rightarrow> size_list (size_prod (\<lambda>_. 0) size) ms
      | Inr (Inl (vs, _, _, _)) \<Rightarrow> size_list size vs
      | Inr (Inr (ms, _, _)) \<Rightarrow> size_list (size_prod (\<lambda>_. 0) size) ms)") auto

section \<open>Loading a file\<close>

definition asWholeInt :: "yval \<Rightarrow> int option" where
  "asWholeInt v =
     (case v of
        YInt n \<Rightarrow> Some n
      | YFloat f \<Rightarrow> (if f64_eq f (f64_of_int (f64_to_int64 f)) then Some (f64_to_int64 f) else None)
      | _ \<Rightarrow> None)"

definition currentSchemaVersion :: int where
  "currentSchemaVersion = 1"

text \<open>The documents a YAML decoder returns before the end of its input; it stops at one that does not
  parse.\<close>

datatype yaml_doc = Doc yval | BadDoc

record loader =
  ld_docs :: "string \<Rightarrow> yaml_doc list"
  ld_decode :: "yval \<Rightarrow> Policy option"
  ld_marshal :: "Policy \<Rightarrow> string option"
  ld_sha256 :: "string \<Rightarrow> string"

datatype load_error =
    ReadFailed | EmptyFile | ParseFailed | SecondDocument
  | BadSchemaValue yval | UnsupportedSchema int | DeepEvaluationRemoved
  | UnknownField string string | DecodeFailed | BlankPolicyID
  | UnknownStatus string | UnknownMode string

definition one_document :: "yaml_doc list \<Rightarrow> load_error + yval" where
  "one_document docs =
     (case docs of
        BadDoc # _ \<Rightarrow> Inl ParseFailed
      | [] \<Rightarrow> Inl EmptyFile
      | Doc v # extra \<Rightarrow>
          (if \<not> list_all (\<lambda>d. d = Doc YNull) extra then Inl SecondDocument
           else if v = YNull then Inl EmptyFile
           else Inr v))"

definition root_of :: "yval \<Rightarrow> (string \<times> yval) list" where
  "root_of v = (case v of YMap ms \<Rightarrow> ms | _ \<Rightarrow> [])"

definition check_schema :: "(string \<times> yval) list \<Rightarrow> load_error option" where
  "check_schema root =
     (case map_of root ''schema_version'' of
        None \<Rightarrow> None
      | Some v \<Rightarrow>
          (case asWholeInt v of
             None \<Rightarrow> Some (BadSchemaValue v)
           | Some n \<Rightarrow> (if n \<noteq> currentSchemaVersion then Some (UnsupportedSchema n) else None)))"

text \<open>The defaults of a decoded policy, and what is still refused.\<close>

definition finish_policy :: "bool \<Rightarrow> Policy \<Rightarrow> load_error + Policy" where
  "finish_policy versioned p0 =
     (let p = (if versioned then p0 else p0 \<lparr> p_SchemaVersion := currentSchemaVersion \<rparr>);
          p = (if p_Status p = PolicyStatusOther [] then p \<lparr> p_Status := PolicyStatusApproved \<rparr> else p);
          p = (if p_Mode p = PolicyModeOther [] then p \<lparr> p_Mode := PolicyModeEnforcement \<rparr> else p)
      in if p_SchemaVersion p \<noteq> currentSchemaVersion then Inl (UnsupportedSchema (p_SchemaVersion p))
         else case p_Status p of
             PolicyStatusOther s \<Rightarrow> Inl (UnknownStatus s)
           | _ \<Rightarrow> (case p_Mode p of PolicyModeOther s \<Rightarrow> Inl (UnknownMode s) | _ \<Rightarrow> Inr p))"

definition Load :: "loader \<Rightarrow> string option \<Rightarrow> load_error + Policy" where
  "Load ld file =
     (case file of
        None \<Rightarrow> Inl ReadFailed
      | Some b \<Rightarrow>
          (if TrimSpace b = [] then Inl EmptyFile
           else case one_document (ld_docs ld b) of
               Inl e \<Rightarrow> Inl e
             | Inr v \<Rightarrow>
                 (case check_schema (root_of v) of
                    Some e \<Rightarrow> Inl e
                  | None \<Rightarrow>
                      (if map_of (root_of v) ''deep_evaluation'' \<noteq> None then Inl DeepEvaluationRemoved
                       else case rejectUnknownFields v (TStruct SPolicy) [] of
                           Some (name, path) \<Rightarrow> Inl (UnknownField name path)
                         | None \<Rightarrow>
                             (case ld_decode ld v of
                                None \<Rightarrow> Inl DecodeFailed
                              | Some p \<Rightarrow>
                                  (if TrimSpace (p_PolicyID p) = [] then Inl BlankPolicyID
                                   else finish_policy (map_of (root_of v) ''schema_version'' \<noteq> None) p))))))"

section \<open>The digest of a set\<close>

text \<open>The encodings in the order of \<open>bytes.Compare\<close>; equal ones cannot be told apart, so the sort need
  not be stable.\<close>

definition PolicySetHash :: "loader \<Rightarrow> Policy list \<Rightarrow> string option" where
  "PolicySetHash ld policies =
     (case those (map (ld_marshal ld) policies) of
        None \<Rightarrow> None
      | Some encoded \<Rightarrow> Some (''sha256:'' @ ld_sha256 ld (''['' @ Join (sort encoded) '','' @ '']'')))"

section \<open>Reloading\<close>

record policy_file =
  pf_name :: string
  pf_isDir :: bool
  pf_bytes :: "string option"

datatype reload_error =
    ReadDirFailed
  | LoadFailed string load_error
  | ValidateFailed string "string \<times> fault"
  | ValidateSetFailed "string \<times> fault"
  | HashFailed

definition policy_file_name :: "string \<Rightarrow> bool" where
  "policy_file_name name \<longleftrightarrow> HasSuffix name ''.yaml'' \<or> HasSuffix name ''.yml''"

fun load_files :: "loader \<Rightarrow> runtime \<Rightarrow> policy_file list \<Rightarrow> reload_error + Policy list" where
  "load_files ld rt [] = Inr []"
| "load_files ld rt (f # fs) =
     (if pf_isDir f \<or> \<not> policy_file_name (pf_name f) then load_files ld rt fs
      else case Load ld (pf_bytes f) of
          Inl e \<Rightarrow> Inl (LoadFailed (pf_name f) e)
        | Inr p \<Rightarrow>
            (case ValidatePolicy rt p of
               Some e \<Rightarrow> Inl (ValidateFailed (pf_name f) e)
             | None \<Rightarrow> (case load_files ld rt fs of Inl e \<Rightarrow> Inl e | Inr ps \<Rightarrow> Inr (p # ps))))"

definition set_policies :: "Policy list \<Rightarrow> string \<Rightarrow> proxy \<Rightarrow> proxy" where
  "set_policies ps hash p =
     (let wr = wo_writer (px_world p)
      in p \<lparr> px_policies := ps, px_loadCount := Suc (px_loadCount p),
             px_world := (px_world p) \<lparr> wo_writer := wr \<lparr> aw_provenance := (aw_provenance wr) \<lparr> pv_policySetHash := hash,
                 pv_computedHash := Some hash \<rparr> \<rparr> \<rparr> \<rparr>)"

definition reload :: "loader \<Rightarrow> services \<Rightarrow> policy_file list option \<Rightarrow> proxy \<Rightarrow> reload_error option \<times> proxy" where
  "reload ld sv entries p =
     (case entries of
        None \<Rightarrow> (Some ReadDirFailed, p)
      | Some fs \<Rightarrow>
          (let rt = en_rt (sv_engine sv) in
           case load_files ld rt fs of
             Inl e \<Rightarrow> (Some e, p)
           | Inr ps \<Rightarrow>
               (case ValidatePolicySet rt ps of
                  Some e \<Rightarrow> (Some (ValidateSetFailed e), p)
                | None \<Rightarrow>
                    (case PolicySetHash ld ps of
                       None \<Rightarrow> (Some HashFailed, p)
                     | Some h \<Rightarrow> (None, set_policies ps h p)))))"

definition reloadHandler ::
  "loader \<Rightarrow> services \<Rightarrow> policy_file list option \<Rightarrow> (reload_error \<Rightarrow> string) \<Rightarrow> request \<Rightarrow> proxy \<Rightarrow> (nat \<times> reply) \<times> proxy" where
  "reloadHandler ld sv entries show_error rq p =
     (if rq_Method rq \<noteq> ''POST'' then ((405, ErrorBody ''POST only''), p)
      else case reload ld sv entries p of
          (Some e, p) \<Rightarrow> ((500, ErrorBody (show_error e)), p)
        | (None, p) \<Rightarrow> ((200, LoadedBody (length (px_policies p))), p))"

section \<open>What loading guarantees\<close>

text \<open>A field no struct on the way to it declares.\<close>

inductive stray :: "yval \<Rightarrow> gotype \<Rightarrow> string \<Rightarrow> bool" where
  here: "(k, c) \<in> set ms \<Longrightarrow> map_of (jsonFields s) k = None \<Longrightarrow> stray (YMap ms) (TStruct s) k"
| in_member: "(n, c) \<in> set ms \<Longrightarrow> map_of (jsonFields s) n = Some t \<Longrightarrow> stray c t k \<Longrightarrow> stray (YMap ms) (TStruct s) k"
| in_item: "c \<in> set vs \<Longrightarrow> stray c t k \<Longrightarrow> stray (YList vs) (TSlice t) k"
| in_entry: "(n, c) \<in> set ms \<Longrightarrow> stray c t k \<Longrightarrow> stray (YMap ms) (TMap t) k"

inductive_cases stray_cases: "stray v t k"

inductive_simps stray_struct: "stray (YMap ms) (TStruct s) k"
inductive_simps stray_slice: "stray (YList vs) (TSlice t) k"
inductive_simps stray_map: "stray (YMap ms) (TMap t) k"

lemmas stray_simps = stray_struct stray_slice stray_map

lemma stray_plain [simp]: "\<not> stray v TPlain k"
  by (auto elim: stray_cases)

lemma stray_shape:
  "stray (YMap ms) (TSlice t) k = False" "stray (YList vs) (TStruct s) k = False" "stray (YList vs) (TMap t) k = False"
  "stray YNull t k = False" "stray (YBool b) t k = False" "stray (YInt n) t k = False" "stray (YFloat f) t k = False"
  "stray (YStr x) t k = False"
  by (auto elim: stray_cases)

lemma stray_in_struct:
  "(\<exists>k. stray (YMap ms) (TStruct s) k) \<longleftrightarrow>
     (\<exists>(n, c) \<in> set ms. case map_of (jsonFields s) n of None \<Rightarrow> True | Some t \<Rightarrow> \<exists>k. stray c t k)"
proof -
  have m: "(case map_of (jsonFields s) n of None \<Rightarrow> True | Some t \<Rightarrow> \<exists>k. stray c t k) \<longleftrightarrow>
      map_of (jsonFields s) n = None \<or> (\<exists>t k. map_of (jsonFields s) n = Some t \<and> stray c t k)" for n c
    by (cases "map_of (jsonFields s) n") simp_all
  show ?thesis unfolding stray_struct m by blast
qed

lemma reject_finds:
  "rejectUnknownFields v t path \<noteq> None \<longleftrightarrow> (\<exists>k. stray v t k)"
  "reject_members ms flds path \<noteq> None \<longleftrightarrow>
     (\<exists>(n, c) \<in> set ms. case map_of flds n of None \<Rightarrow> True | Some t \<Rightarrow> \<exists>k. stray c t k)"
  "reject_items vs t path i \<noteq> None \<longleftrightarrow> (\<exists>c \<in> set vs. \<exists>k. stray c t k)"
  "reject_entries ms t path \<noteq> None \<longleftrightarrow> (\<exists>(n, c) \<in> set ms. \<exists>k. stray c t k)"
proof (induction v t path and ms flds path and vs t path i and ms t path
    rule: rejectUnknownFields_reject_members_reject_items_reject_entries.induct)
  case (1 ms t path)
  show ?case
  proof (cases t)
    case (TStruct s)
    have "rejectUnknownFields (YMap ms) t path = reject_members ms (jsonFields s) path" by (simp add: TStruct)
    then show ?thesis using 1(2) [OF TStruct] unfolding TStruct stray_in_struct by simp
  next
    case (TMap e)
    with 1 have "rejectUnknownFields (YMap ms) t path \<noteq> None \<longleftrightarrow> (\<exists>(n, c) \<in> set ms. \<exists>k. stray c e k)" by simp
    then show ?thesis unfolding TMap stray_map by blast
  qed (simp_all add: stray_shape)
next
  case (2 vs t path)
  show ?case
  proof (cases t)
    case (TSlice e)
    with 2 have "rejectUnknownFields (YList vs) t path \<noteq> None \<longleftrightarrow> (\<exists>c \<in> set vs. \<exists>k. stray c e k)" by simp
    then show ?thesis unfolding TSlice stray_slice by blast
  qed (simp_all add: stray_shape)
next
  case (5 name child ms flds path)
  then show ?case by (cases "map_of flds name"; cases "rejectUnknownFields child (the (map_of flds name)) (joinPath path name)") auto
next
  case (7 item items t path i)
  then show ?case by (cases "rejectUnknownFields item t (path @ ''['' @ show_int i @ '']'')") auto
next
  case (9 key child ms t path)
  then show ?case by (cases "rejectUnknownFields child t (joinPath path key)") (simp_all, blast?)
qed (simp_all add: stray_shape)

lemma one_document_spec:
  "one_document docs = Inr v \<longleftrightarrow> (\<exists>n. docs = Doc v # replicate n (Doc YNull) \<and> v \<noteq> YNull)"
proof -
  have "list_all (\<lambda>d. d = Doc YNull) extra \<longleftrightarrow> (\<exists>n. extra = replicate n (Doc YNull))" for extra
    using replicate_eqI [of extra "length extra" "Doc YNull"] by (auto simp: list_all_iff)
  then show ?thesis by (auto simp: one_document_def split: list.splits yaml_doc.splits if_splits)
qed

lemma finish_spec:
  assumes "finish_policy versioned p0 = Inr p"
  shows "p_SchemaVersion p = 1" "p_Mode p \<in> {PolicyModeShadow, PolicyModeEnforcement}"
    "p_Status p \<in> {PolicyStatusDraft, PolicyStatusReview, PolicyStatusApproved, PolicyStatusArchived}"
    "p_PolicyID p = p_PolicyID p0" "p_Rules p = p_Rules p0" "p_Scope p = p_Scope p0"
    "p_Mode p0 \<noteq> PolicyModeOther [] \<Longrightarrow> p_Mode p = p_Mode p0" "p_Status p0 \<noteq> PolicyStatusOther [] \<Longrightarrow> p_Status p = p_Status p0"
  using assms unfolding finish_policy_def Let_def currentSchemaVersion_def
  by (auto split: if_splits PolicyStatus.splits PolicyMode.splits)

lemma load_spec:
  assumes "Load ld (Some b) = Inr p"
  obtains v n p0 where "ld_docs ld b = Doc v # replicate n (Doc YNull)" "\<And>k. \<not> stray v (TStruct SPolicy) k"
    "ld_decode ld v = Some p0" "TrimSpace (p_PolicyID p0) \<noteq> []"
    "finish_policy (map_of (root_of v) ''schema_version'' \<noteq> None) p0 = Inr p"
proof -
  obtain v p0 where l: "one_document (ld_docs ld b) = Inr v" "rejectUnknownFields v (TStruct SPolicy) [] = None"
    "ld_decode ld v = Some p0" "TrimSpace (p_PolicyID p0) \<noteq> []"
    "finish_policy (map_of (root_of v) ''schema_version'' \<noteq> None) p0 = Inr p"
    using assms by (auto simp: Load_def split: if_splits sum.splits option.splits)
  have "\<not> stray v (TStruct SPolicy) k" for k using reject_finds(1) [of v "TStruct SPolicy" "[]"] l(2) by auto
  then show thesis using that one_document_spec [of "ld_docs ld b" v] l by blast
qed

lemma those_map_Some: "those (map f xs) = Some ys \<longleftrightarrow> map f xs = map Some ys"
proof (induction xs arbitrary: ys)
  case (Cons x xs)
  then show ?case by (cases ys) (auto split: option.splits)
qed auto

lemma those_map_None: "those (map f xs) = None \<longleftrightarrow> (\<exists>x \<in> set xs. f x = None)"
  by (induction xs) (auto split: option.splits)

lemma load_files_spec:
  "load_files ld rt fs = Inr ps \<Longrightarrow>
     (\<forall>p \<in> set ps. ValidatePolicy rt p = None \<and>
        (\<exists>f \<in> set fs. \<not> pf_isDir f \<and> policy_file_name (pf_name f) \<and> Load ld (pf_bytes f) = Inr p))"
proof (induction fs arbitrary: ps)
  case (Cons f fs)
  then show ?case by (fastforce split: if_splits sum.splits option.splits)
qed simp

section \<open>Properties\<close>

text \<open>A policy file loads only as one document, with no field at any depth that its struct does not
  declare, with a known status and mode and an identifier, at schema version 1. Nothing in the file is
  silently ignored.\<close>

theorem loaded_file_is_strict:
  assumes "Load ld (Some b) = Inr p"
  shows "\<exists>v n. ld_docs ld b = Doc v # replicate n (Doc YNull) \<and> (\<forall>k. \<not> stray v (TStruct SPolicy) k) \<and>
    TrimSpace (p_PolicyID p) \<noteq> [] \<and> p_SchemaVersion p = 1 \<and> p_Mode p \<in> {PolicyModeShadow, PolicyModeEnforcement} \<and>
    p_Status p \<in> {PolicyStatusDraft, PolicyStatusReview, PolicyStatusApproved, PolicyStatusArchived}"
proof -
  obtain v n p0 where l: "ld_docs ld b = Doc v # replicate n (Doc YNull)" "\<And>k. \<not> stray v (TStruct SPolicy) k"
    "TrimSpace (p_PolicyID p0) \<noteq> []" "finish_policy (map_of (root_of v) ''schema_version'' \<noteq> None) p0 = Inr p"
    using load_spec [OF assms] by metis
  note f = finish_spec [OF l(4)]
  show ?thesis using l(1,2,3) f(1,2,3,4) by auto
qed

text \<open>The digest of a policy set does not depend on the order in which its files were read.\<close>

theorem policy_hash_order_free:
  assumes "mset ps = mset qs"
  shows "PolicySetHash ld ps = PolicySetHash ld qs"
proof (cases "\<exists>p \<in> set ps. ld_marshal ld p = None")
  case True
  then have "\<exists>p \<in> set qs. ld_marshal ld p = None" using mset_eq_setD [OF assms] by simp
  then have "those (map (ld_marshal ld) qs) = None" by (simp only: those_map_None)
  moreover have "those (map (ld_marshal ld) ps) = None" using True by (simp only: those_map_None)
  ultimately show ?thesis by (simp add: PolicySetHash_def)
next
  case False
  let ?enc = "map (\<lambda>p. the (ld_marshal ld p))"
  have enc: "those (map (ld_marshal ld) xs) = Some (?enc xs)" if "set xs = set ps" for xs
    unfolding those_map_Some using False that by auto
  have "mset (?enc ps) = mset (?enc qs)" using assms by simp
  then have "sort (?enc ps) = sort (?enc qs)" by (metis sorted_list_of_multiset_mset)
  with enc [OF refl] enc [OF mset_eq_setD [OF assms, symmetric]] show ?thesis by (simp add: PolicySetHash_def)
qed


section \<open>Witnesses\<close>

definition sample_document :: yval where
  "sample_document = YMap [(''policy_id'', YStr ''p''), (''rules'', YList [YMap [(''rule_id'', YStr ''r1'')]])]"

definition sample_loader :: loader where
  "sample_loader = \<lparr> ld_docs = (\<lambda>_. [Doc sample_document, Doc YNull]),
     ld_decode = (\<lambda>_. Some ((sample_policy ''p'' (PolicyModeOther []) []) \<lparr> p_Status := PolicyStatusOther [] \<rparr>)),
     ld_marshal = (\<lambda>p. Some (p_PolicyID p)), ld_sha256 = id \<rparr>"

theorem loaded_file_is_strict_witness:
  "\<exists>p v n. Load sample_loader (Some ''x'') = Inr p \<and> p_Mode p = PolicyModeEnforcement \<and>
     ld_docs sample_loader ''x'' = Doc v # replicate n (Doc YNull) \<and> (\<forall>k. \<not> stray v (TStruct SPolicy) k)"
proof -
  have "case Load sample_loader (Some ''x'') of Inl _ \<Rightarrow> False | Inr p \<Rightarrow> p_Mode p = PolicyModeEnforcement"
    by code_simp
  then obtain p where "Load sample_loader (Some ''x'') = Inr p" "p_Mode p = PolicyModeEnforcement"
    by (auto split: sum.splits)
  with loaded_file_is_strict [OF this(1)] show ?thesis by blast
qed

theorem policy_hash_order_free_witness:
  "PolicySetHash sample_loader [sample_policy ''b'' PolicyModeShadow [], sample_policy ''a'' PolicyModeShadow []] =
   PolicySetHash sample_loader [sample_policy ''a'' PolicyModeShadow [], sample_policy ''b'' PolicyModeShadow []]"
  by (rule policy_hash_order_free) simp

end
