(* ===== verification/Proxy_Runs.thy ===== *)
theory Proxy_Runs
  imports Approvals Policy_Load
begin

text \<open>
  Runs of the whole proxy: any sequence of requests, reaper ticks and reloads, with whatever answers the
  clock and the operating system give. The properties here relate what a client is told to what the
  audit log holds.
\<close>

section \<open>Steps of the process\<close>

inductive proxy_step :: "services \<Rightarrow> config \<Rightarrow> loader \<Rightarrow> proxy \<Rightarrow> proxy \<Rightarrow> bool" for sv cf ld where
  evaluates: "proxy_step sv cf ld p (snd (evaluate sv cf rq p))"
| reviews: "proxy_step sv cf ld p (snd (escalationByID sv cf rq p))"
| lists: "proxy_step sv cf ld p (snd (listEscalations rq p))"
| reaps: "proxy_step sv cf ld p (reap sv p)"
| reloads: "proxy_step sv cf ld p (snd (reload ld sv entries p))"

inductive_cases proxy_stepE: "proxy_step sv cf ld p p'"

lemma reload_steps: "steps sv (px_core p) (px_core (snd (reload ld sv entries p)))"
proof -
  have "world_moves sv (px_world p) (px_world (set_policies ps h p))" for ps h
    unfolding world_moves_def set_policies_def Let_def
    by (simp add: r_into_rtranclp writer_step.new_provenance)
  then have "steps sv (px_core p) (px_core (set_policies ps h p))" for ps h
    using steps_world by (simp add: px_core_def set_policies_def Let_def)
  then show ?thesis
    using steps_refl by (simp add: reload_def Let_def split: option.split sum.split)
qed

lemma proxy_step_steps: "proxy_step sv cf ld p p' \<Longrightarrow> steps sv (px_core p) (px_core p')"
  by (cases rule: proxy_step.cases)
    (auto intro: evaluate_steps review_steps list_steps reap_steps reload_steps)

lemma proxy_run_steps: "(proxy_step sv cf ld)\<^sup>*\<^sup>* p p' \<Longrightarrow> steps sv (px_core p) (px_core p')"
proof (induction rule: rtranclp_induct)
  case (step b c)
  with steps_trans proxy_step_steps show ?case by blast
qed (rule steps_refl)

lemma proxy_run_sound:
  "(proxy_step sv cf ld)\<^sup>*\<^sup>* p p' \<Longrightarrow> review.sound sv (px_core p) \<Longrightarrow> review.sound sv (px_core p')"
  using proxy_run_steps review.sound_run unfolding steps_def by blast

text \<open>The store and the writer as they are before the first review ends.\<close>

definition nothing_resolved :: "proxy \<Rightarrow> bool" where
  "nothing_resolved p \<longleftrightarrow> store_ok (px_escalations p) \<and> good_writer (wo_writer (px_world p)) \<and>
     (\<forall>i e. entry (px_escalations p) i = Some e \<longrightarrow> \<not> terminal (es_State e))"

lemma nothing_resolved_sound: "nothing_resolved p \<Longrightarrow> review.sound sv (px_core p)"
proof -
  assume n: "nothing_resolved p"
  have "es_State e = escRegistering \<or> es_State e = EscPending" if "entry (px_escalations p) i = Some e" for i e
    using n that unfolding nothing_resolved_def terminal_def by blast
  then have "review.sound_entry sv (px_world p) e" if "entry (px_escalations p) i = Some e" for i e
    using that unfolding review.sound_entry_def by fastforce
  with n show ?thesis unfolding review.sound_def nothing_resolved_def px_core_def by simp
qed

lemma get_entry: "get_escalation i st = Some e \<Longrightarrow> entry st i = Some e"
  by (auto simp: get_escalation_def split: option.splits if_splits)

section \<open>Approvals are audited\<close>

text \<open>C1: no authorization without a record. Whatever requests, reaper ticks, reloads, write failures and
  rollbacks happen, when a poller reads that a review was approved, denied or expired, the audit log
  holds a complete record of that outcome for that very call, with the approver and the reason given,
  under the hash of its own content; an approval or denial came before the deadline, an expiry not.\<close>

theorem approvals_are_audited:
  assumes "nothing_resolved p" and "(proxy_step sv cf ld)\<^sup>*\<^sup>* p p'"
    and "get_escalation i (px_escalations p') = Some e" and "es_State e \<in> {EscApproved, EscDenied, EscExpired}"
  shows "(\<exists>t before sep rest. log_bytes (wo_writer (px_world p')) = before @ record_bytes sep (cd_marshal (sv_codec sv) t) @ rest \<and>
      ComputeCanonicalTraceHash (sv_codec sv) t = Inr (dt_TraceHash t) \<and> outcome_of sv e t) \<and>
    (\<exists>at. es_ResolvedAt e = Some at \<and> (es_State e = EscExpired \<longleftrightarrow> es_ExpiresAt e \<le> at))"
proof -
  have "review.sound sv (px_core p')" by (rule proxy_run_sound [OF assms(2) nothing_resolved_sound [OF assms(1)]])
  then have s: "review.sound_entry sv (px_world p') e"
    using get_entry [OF assms(3)] unfolding review.sound_def px_core_def by auto
  then have "recorded_in sv (px_world p') e" using assms(4) unfolding review.sound_entry_def by blast
  moreover have "\<exists>at. es_ResolvedAt e = Some at \<and> (es_State e = EscExpired \<longleftrightarrow> es_ExpiresAt e \<le> at)"
    using s assms(4) unfolding review.sound_entry_def by fastforce
  ultimately show ?thesis unfolding recorded_in_def logged_def by blast
qed

section \<open>Replies of the evaluator are audited\<close>

lemma evaluate_concludes:
  assumes "evaluate sv cf rq p = ((status, rep), p')" and "\<And>reason m rc. rep \<noteq> DenyBody reason m rc" and "\<And>msg. rep \<noteq> ErrorBody msg"
  obtains vl env res0 q where "conclude sv cf vl env (px_policies p) (px_policySetHash p) res0 q = ((status, rep), p')"
    "wo_writer (px_world q) = wo_writer (px_world p)" "px_escalations q = px_escalations p"
    "\<exists>en sorter env0 m. res0 = Evaluate en sorter env (px_policies p) m"
proof -
  have no_deny: "boundary_deny sv n env reason m h q \<noteq> ((status, rep), p')" for n env reason m h q
    using assms(2) [symmetric] by (simp add: boundary_deny_def case_prod_beta)
  obtain env where env: "read_envelope sv cf rq = Inr env" "rq_Method rq = ''POST''"
    using assms(1,3) by (cases "read_envelope sv cf rq")
      (auto simp: evaluate_def read_envelope_def split: if_splits sum.splits option.splits)
  define p1 where "p1 = p \<lparr> px_evalCount := Suc (px_evalCount p) \<rparr>"
  obtain env1 w1 where c: "complete_envelope env (px_world p1) = (env1, w1)" by fastforce
  have w1: "wo_writer w1 = wo_writer (px_world p)"
    using c world_clock(2) unfolding p1_def complete_envelope_def
    by (auto simp: case_prod_beta Let_def split: if_splits)
  have adm: "admit sv cf rq env1 (px_policies p) (px_policySetHash p) (p1 \<lparr> px_world := w1 \<rparr>) = ((status, rep), p')"
    using assms(1) env c by (simp add: evaluate_def p1_def px_policySetHash_def)
  define q2 where "q2 = p1 \<lparr> px_world := snd (time_Now w1), px_rateLimit := snd (rate_allow (fst (time_Now w1)) (rate_key cf env1) (px_rateLimit p1)) \<rparr>"
  obtain m where g: "guarded sv cf m env1 (px_policies p) (px_policySetHash p) q2 = ((status, rep), p')"
    using adm no_deny assms(3) [of "''unknown mode (must be shadow|enforcement)''"] by (auto simp: admit_def q2_def case_prod_beta Let_def split: if_splits option.splits)
  have q2: "wo_writer (px_world q2) = wo_writer (px_world p)" "px_escalations q2 = px_escalations p"
    using w1 by (simp_all add: q2_def p1_def)
  have d: "decide sv cf m env1 (px_policies p) (px_policySetHash p) q2 = ((status, rep), p')"
    using g no_deny by (auto simp: guarded_def split: option.splits)
  obtain vl env2 q3 where v: "inject_velocity sv cf env1 q2 = (vl, env2, q3)" by (metis prod_cases3)
  obtain r w3 where r: "safeEvaluate sv env2 (px_policies p) m (px_world q3) = (r, w3)" by fastforce
  have w3: "wo_writer w3 = wo_writer (px_world q3)"
    using r world_clock(1) [of "px_world q3"] by (auto simp: safeEvaluate_def case_prod_beta)
  obtain res0 where res: "r = Inr res0" "conclude sv cf vl env2 (px_policies p) (px_policySetHash p) res0 (q3 \<lparr> px_world := w3 \<rparr>) = ((status, rep), p')"
    using d v r no_deny by (auto simp: decide_def Let_def split: if_splits sum.splits)
  have "res0 = Evaluate (sv_engine sv) (sv_sort sv) env2 (px_policies p) m"
    using r res(1) by (auto simp: safeEvaluate_def recoverEvaluation_def case_prod_beta split: option.splits)
  with that [OF res(2)] velocity_core [OF v] q2 w3 show thesis by auto
qed

lemma denied_stays: "\<not> actionProceeds (ev_ActionTaken (applyOperationalDeny reason res))"
  "ev_ActionTaken (applyOperationalDeny reason res) = ActionDenied"
  by (simp_all add: applyOperationalDeny_def actionProceeds_def)

lemma audit_failed_closed:
  assumes "audit_failed sv cf err reservation res t p = ((res', receipt), p')" "cf_failClosed cf"
  shows "\<not> actionProceeds (ev_ActionTaken res')" "reservation \<noteq> None \<Longrightarrow> ev_ActionTaken res' = ActionDenied"
    "reservation = None \<Longrightarrow> ev_ActionTaken res' = ActionEscalated \<Longrightarrow> ev_ActionTaken res = ActionEscalated"
  using assms denied_stays
  by (auto simp: audit_failed_def Let_def case_prod_beta split: option.splits if_splits)

text \<open>What the handler settles: an operational denial, or the result as it was, recorded.\<close>

lemma settle_recorded:
  assumes "settle_audit sv cf perr reservation res t p = ((res', receipt), p')" "good_writer (wo_writer (px_world p))"
    and "ev_ActionTaken res' \<noteq> ActionDenied"
  shows "(\<exists>err t1 q. audit_failed sv cf err None res t1 q = ((res', receipt), p') \<and> reservation = None) \<or>
    (res' = res \<and> perr = None \<and> \<not> aw_poisoned (wo_writer (px_world p)) \<and> (\<exists>t'. logged (sv_codec sv) (wo_writer (px_world p')) t' \<and> linked_from t t' \<and>
       receipt = NewDecisionReceipt (sv_codec sv) t') \<and>
     (\<forall>a. reservation = Some a \<longrightarrow> publishReserved (Some a) (px_escalations p) = (True, px_escalations p')))"
proof -
  obtain err t1 w where a: "(case perr of Some e \<Rightarrow> (Some (StampFailed e), t, px_world p)
      | None \<Rightarrow> append_in sv (reservation \<noteq> None) t (px_world p)) = (err, t1, w)" by (metis prod_cases3)
  show ?thesis
  proof (cases err)
    case (Some e)
    with assms(1) a have f: "audit_failed sv cf e reservation res t1 (p \<lparr> px_world := w \<rparr>) = ((res', receipt), p')"
      by (simp add: settle_audit_def Let_def)
    have "reservation = None"
      using f assms(3) denied_stays(2) by (cases reservation) (auto simp: audit_failed_def Let_def case_prod_beta)
    with f show ?thesis by blast
  next
    case None
    then have ap: "perr = None" "append_in sv (reservation \<noteq> None) t (px_world p) = (None, t1, w)"
      using a by (auto split: option.splits)
    note l = append_in_logs [OF ap(2) assms(2)]
    have free: "\<not> aw_poisoned (wo_writer (px_world p))"
    proof
      assume dead: "aw_poisoned (wo_writer (px_world p))"
      obtain io where io: "appendTraceWithDurability (sv_codec sv) io (reservation \<noteq> None) t (wo_writer (px_world p)) =
          (None, t1, wo_writer w)" using append_in_step [OF ap(2)] by blast
      from poisoned_append [OF dead, of "sv_codec sv" io "reservation \<noteq> None" t] io show False by auto
    qed
    have "res' = res \<and> receipt = receiptForAppendedTrace sv t1 \<and> px_world p' = w \<and>
        (\<forall>a. reservation = Some a \<longrightarrow> publishReserved (Some a) (px_escalations p) = (True, px_escalations p'))"
      using assms(1,3) a None denied_stays(2)
      by (cases reservation) (auto simp: settle_audit_def Let_def split: prod.splits if_splits)
    with l ap(1) free show ?thesis unfolding receiptForAppendedTrace_def by blast
  qed
qed

lemma conclude_parts:
  assumes "conclude sv cf vl env policies h res0 p = ((status, rep), p')"
  obtains idTime w res t0 r res1 t p1 res2 receipt p2 where
    "wo_writer w = wo_writer (px_world p)" "res = unknown_tool sv cf env policies res0"
    "t0 = evaluation_trace sv idTime env res"
    "reserve_escalation sv cf env policies res (case stamp_trace h t0 w of Inl _ \<Rightarrow> t0 | Inr t \<Rightarrow> t) (p \<lparr> px_world := w \<rparr>) = ((r, res1, t), p1)"
    "settle_audit sv cf (case stamp_trace h t0 w of Inl e \<Rightarrow> Some e | Inr _ \<Rightarrow> None) r res1 t p1 = ((res2, receipt), p2)"
    "px_core p' = px_core p2"
    "rep = (if ev_ActionTaken res2 = ActionEscalated then EscalatedBody res2 (e_EnvelopeID env) receipt else ResultBody res2 receipt)"
proof -
  obtain idTime w where n: "time_Now (px_world p) = (idTime, w)" by fastforce
  let ?res = "unknown_tool sv cf env policies res0"
  let ?t0 = "evaluation_trace sv idTime env ?res"
  let ?st = "stamp_trace h ?t0 w"
  obtain r res1 t p1 where r: "reserve_escalation sv cf env policies ?res (case ?st of Inl _ \<Rightarrow> ?t0 | Inr t \<Rightarrow> t)
      (p \<lparr> px_world := w \<rparr>) = ((r, res1, t), p1)" using nested4 by metis
  obtain res2 receipt p2 where s: "settle_audit sv cf (case ?st of Inl e \<Rightarrow> Some e | Inr _ \<Rightarrow> None) r res1 t p1 =
      ((res2, receipt), p2)" using nested3 by metis
  have w: "wo_writer w = wo_writer (px_world p)" using world_clock(2) [of "px_world p"] n by simp
  have "px_core p' = px_core p2"
    "rep = (if ev_ActionTaken res2 = ActionEscalated then EscalatedBody res2 (e_EnvelopeID env) receipt else ResultBody res2 receipt)"
    using assms n r s by (auto simp: conclude_def Let_def split: if_splits)
  with that [OF w refl refl r s] show thesis by blast
qed

lemma reserve_parts:
  assumes "reserve_escalation sv cf env policies res t p = ((r, res1, t1), p1)"
  shows "wo_writer (px_world p1) = wo_writer (px_world p)"
    "ev_ActionTaken res1 \<noteq> ActionDenied \<Longrightarrow> res1 = res \<and> t1 = t"
    "ev_ActionTaken res1 = ActionEscalated \<Longrightarrow> \<exists>a now order tm. r = Some a \<and>
       reserve now order env res tm (px_escalations p) = (Some a, px_escalations p1)"
proof -
  obtain tk w where n: "next_tick (px_world p) = (tk, w)" by fastforce
  let ?tm = "if 0 < timeoutFromMatchedRules res policies then timeoutFromMatchedRules res policies else cf_escalationDefaultMin cf"
  obtain r1 st where r1: "reserve (tk_now tk) (tk_order tk) env res ?tm (px_escalations p) = (r1, st)" by fastforce
  have "wo_writer w = wo_writer (px_world p)" using world_clock(1) [of "px_world p"] n by simp
  then show "wo_writer (px_world p1) = wo_writer (px_world p)" "ev_ActionTaken res1 \<noteq> ActionDenied \<Longrightarrow> res1 = res \<and> t1 = t"
    "ev_ActionTaken res1 = ActionEscalated \<Longrightarrow> \<exists>a now order tm. r = Some a \<and>
       reserve now order env res tm (px_escalations p) = (Some a, px_escalations p1)"
    using assms n r1 denied_stays(2) by (auto simp: reserve_escalation_def Let_def split: if_splits option.splits) blast+
qed

lemma evaluation_fields [simp]:
  "dt_EnvelopeID (evaluation_trace sv t env res) = e_EnvelopeID env"
  "dt_Decision (evaluation_trace sv t env res) = decision_string (ev_Decision res)"
  "dt_ActionTaken (evaluation_trace sv t env res) = action_string (ev_ActionTaken res)"
  "dt_DecisionReason (evaluation_trace sv t env res) = ev_DecisionReason res"
  by (simp_all add: evaluation_trace_def)

text \<open>The record of a reply that is not a denial.\<close>

lemma conclude_recorded:
  assumes "conclude sv cf vl env policies h res0 p = ((status, rep), p')" "good_writer (wo_writer (px_world p))"
    and "rep = ResultBody res receipt \<or> rep = EscalatedBody res i receipt" "cf_failClosed cf \<or> ev_ActionTaken res = ActionEscalated"
    and "actionProceeds (ev_ActionTaken res) \<or> ev_ActionTaken res = ActionEscalated"
  shows "\<not> aw_poisoned (wo_writer (px_world p)) \<and>
    (\<exists>t. logged (sv_codec sv) (wo_writer (px_world p')) t \<and> dt_EnvelopeID t = e_EnvelopeID env \<and>
      dt_Decision t = decision_string (ev_Decision res) \<and> dt_ActionTaken t = action_string (ev_ActionTaken res) \<and>
      dt_DecisionReason t = ev_DecisionReason res \<and> receipt = NewDecisionReceipt (sv_codec sv) t) \<and>
    (ev_ActionTaken res = ActionEscalated \<longrightarrow> (\<exists>a now order tm st. reserve now order env res tm (px_escalations p) = (Some a, st) \<and>
       publishReserved (Some a) st = (True, px_escalations p')))"
proof -
  obtain idTime w res00 t0 r res1 t p1 res2 receipt2 p2 where c: "wo_writer w = wo_writer (px_world p)"
    "t0 = evaluation_trace sv idTime env res00"
    "reserve_escalation sv cf env policies res00 (case stamp_trace h t0 w of Inl _ \<Rightarrow> t0 | Inr t \<Rightarrow> t) (p \<lparr> px_world := w \<rparr>) = ((r, res1, t), p1)"
    "settle_audit sv cf (case stamp_trace h t0 w of Inl e \<Rightarrow> Some e | Inr _ \<Rightarrow> None) r res1 t p1 = ((res2, receipt2), p2)"
    "px_core p' = px_core p2"
    "rep = (if ev_ActionTaken res2 = ActionEscalated then EscalatedBody res2 (e_EnvelopeID env) receipt2 else ResultBody res2 receipt2)"
    using conclude_parts [OF assms(1)] by metis
  have eq: "res2 = res" "receipt2 = receipt" using c(6) assms(3) by (auto split: if_splits)
  note rp = reserve_parts [OF c(3)]
  have nd: "ev_ActionTaken res2 \<noteq> ActionDenied" using assms(5) eq by (auto simp: actionProceeds_def)
  have good: "good_writer (wo_writer (px_world p1))" using rp(1) c(1) assms(2) by simp
  have failed: False if "audit_failed sv cf err None res1 t1 q = ((res2, receipt2), p2)" "r = None" for err t1 q
  proof (cases "ev_ActionTaken res = ActionEscalated")
    case True
    have "ev_ActionTaken res1 = ActionEscalated"
      using that(1) True eq denied_stays(2) by (auto simp: audit_failed_def Let_def split: if_splits)
    with rp(3) that(2) show False by auto
  next
    case False
    with audit_failed_closed(1) [OF that(1)] assms(4,5) eq show False by auto
  qed
  from settle_recorded [OF c(4) good nd] failed obtain t' where s: "res2 = res1"
    "(case stamp_trace h t0 w of Inl e \<Rightarrow> Some e | Inr _ \<Rightarrow> None) = None"
    "logged (sv_codec sv) (wo_writer (px_world p2)) t'" "linked_from t t'" "receipt2 = NewDecisionReceipt (sv_codec sv) t'"
    "\<forall>a. r = Some a \<longrightarrow> publishReserved (Some a) (px_escalations p1) = (True, px_escalations p2)"
    "\<not> aw_poisoned (wo_writer (px_world p1))" by blast
  have r1: "res1 = res00" "t = (case stamp_trace h t0 w of Inl _ \<Rightarrow> t0 | Inr t \<Rightarrow> t)" using rp(2) nd s(1) by auto
  obtain ts where ts: "stamp_trace h t0 w = Inr ts" using s(2) by (auto split: sum.splits)
  have link: "linked_from t0 t'"
    using linked_from_trans [OF stamp_linked s(4)] ts r1(2) by (simp add: stamp_trace_def)
  have core: "px_world p' = px_world p2" "px_escalations p' = px_escalations p2" using c(5) by (simp_all add: px_core_def)
  have "ev_ActionTaken res = ActionEscalated \<longrightarrow> (\<exists>a now order tm st. reserve now order env res tm (px_escalations p) = (Some a, st) \<and>
       publishReserved (Some a) st = (True, px_escalations p'))"
    using rp(3) s(1,6) r1(1) eq core by fastforce
  moreover have "dt_EnvelopeID t' = e_EnvelopeID env \<and> dt_Decision t' = decision_string (ev_Decision res) \<and>
      dt_ActionTaken t' = action_string (ev_ActionTaken res) \<and> dt_DecisionReason t' = ev_DecisionReason res"
    using linked_from_fields [OF link] c(2) s(1) r1(1) eq(1) by simp
  moreover have "logged (sv_codec sv) (wo_writer (px_world p')) t' \<and> receipt = NewDecisionReceipt (sv_codec sv) t'"
    using s(3,5) eq(2) core(1) by simp
  moreover have "\<not> aw_poisoned (wo_writer (px_world p))" using s(7) rp(1) c(1) by simp
  ultimately show ?thesis by blast
qed

text \<open>C2: with the fail-closed setting, no call proceeds without a record. When the reply lets the action
  proceed, whatever the operating system answered, the log holds a complete record of that very decision
  under the hash of its content, and the receipt of the reply is the receipt of that record.\<close>

theorem nothing_proceeds_unaudited:
  assumes "good_writer (wo_writer (px_world p))" and "cf_failClosed cf"
    and "evaluate sv cf rq p = ((status, ResultBody res receipt), p')" and "actionProceeds (ev_ActionTaken res)"
  shows "\<exists>t before sep rest. log_bytes (wo_writer (px_world p')) = before @ record_bytes sep (cd_marshal (sv_codec sv) t) @ rest \<and>
    ComputeCanonicalTraceHash (sv_codec sv) t = Inr (dt_TraceHash t) \<and> dt_Decision t = decision_string (ev_Decision res) \<and>
    dt_ActionTaken t = action_string (ev_ActionTaken res) \<and> dt_DecisionReason t = ev_DecisionReason res \<and>
    receipt = NewDecisionReceipt (sv_codec sv) t"
proof -
  obtain vl env res0 q where c: "conclude sv cf vl env (px_policies p) (px_policySetHash p) res0 q = ((status, ResultBody res receipt), p')"
    "wo_writer (px_world q) = wo_writer (px_world p)"
    by (rule evaluate_concludes [OF assms(3)]) simp_all
  have good: "good_writer (wo_writer (px_world q))" using c(2) assms(1) by simp
  obtain t where "logged (sv_codec sv) (wo_writer (px_world p')) t" "dt_Decision t = decision_string (ev_Decision res)"
    "dt_ActionTaken t = action_string (ev_ActionTaken res)" "dt_DecisionReason t = ev_DecisionReason res"
    "receipt = NewDecisionReceipt (sv_codec sv) t"
    using conclude_recorded [OF c(1) good disjI1 [OF refl] disjI1 [OF assms(2)] disjI1 [OF assms(4)]] by blast
  then show ?thesis unfolding logged_def by blast
qed

text \<open>C3: an escalated reply is backed by its review. When the client is told to poll an identifier, the
  review under that identifier is pending, holds the decision of the reply, and the log holds the record
  of the escalated call, whether or not the proxy fails closed.\<close>

theorem escalated_reply_is_pending:
  assumes "good_writer (wo_writer (px_world p))" and "store_ok (px_escalations p)"
    and "evaluate sv cf rq p = ((status, EscalatedBody res i receipt), p')"
  shows "(\<exists>e. get_escalation i (px_escalations p') = Some e \<and> es_State e = EscPending \<and> es_Decision e = res \<and>
      e_EnvelopeID (es_Envelope e) = i) \<and> get_escalation i (px_escalations p) = None \<and>
    (\<exists>t. logged (sv_codec sv) (wo_writer (px_world p')) t \<and> dt_EnvelopeID t = i \<and> dt_ActionTaken t = ''escalated'')"
proof -
  obtain vl env res0 q where c: "conclude sv cf vl env (px_policies p) (px_policySetHash p) res0 q = ((status, EscalatedBody res i receipt), p')"
    "wo_writer (px_world q) = wo_writer (px_world p)" "px_escalations q = px_escalations p"
    by (rule evaluate_concludes [OF assms(3)]) simp_all
  have good: "good_writer (wo_writer (px_world q))" using c(2) assms(1) by simp
  have i: "i = e_EnvelopeID env" "ev_ActionTaken res = ActionEscalated"
    by (rule conclude_parts [OF c(1)], simp split: if_splits)+
  obtain t a now order tm st where t: "logged (sv_codec sv) (wo_writer (px_world p')) t" "dt_EnvelopeID t = e_EnvelopeID env"
    "dt_ActionTaken t = action_string (ev_ActionTaken res)" "reserve now order env res tm (px_escalations q) = (Some a, st)"
    "publishReserved (Some a) st = (True, px_escalations p')"
    using conclude_recorded [OF c(1) good disjI2, of res i receipt] i(2) by blast
  have st: "entry (px_escalations p) i = None" "store_ok st" "entry st i = Some (new_escalation now env res tm)"
    "map_of (st_entries st) i = Some a" "reserved_at st a"
    using reserve_result [OF assms(2) t(4) [unfolded c(3)]] i(1) by simp_all
  define e where "e = (st_heap st ! a) \<lparr> es_State := EscPending \<rparr>"
  have heap: "st_heap st ! a = new_escalation now env res tm" using st(3,4) by (simp add: entry_def)
  have p': "px_escalations p' = set_entry a e st" using t(5) st(5) by (simp add: publishReserved_def e_def)
  have "es_ID e = i" using heap i(1) by (simp add: e_def new_escalation_def)
  then have "entry (px_escalations p') i = Some e" using set_entry_ok(2) [OF st(2,4)] p' by simp
  then have "get_escalation i (px_escalations p') = Some e" by (simp add: get_escalation_def e_def)
  moreover have "es_State e = EscPending \<and> es_Decision e = res \<and> e_EnvelopeID (es_Envelope e) = i"
    using heap i(1) by (simp add: e_def new_escalation_def)
  moreover have "get_escalation i (px_escalations p) = None" using st(1) by (simp add: get_escalation_def)
  ultimately show ?thesis using t(1-3) i by auto
qed

text \<open>Only the holder of the configured token changes a review. A request to the review endpoints that
  changes anything is a POST that carries exactly the configured token; without a configured token no
  request changes anything.\<close>

theorem approver_token_required:
  assumes "snd (escalationByID sv cf rq p) \<noteq> p"
  shows "rq_Method rq = ''POST'' \<and> cf_approverToken cf \<noteq> [] \<and> rq_Authorization rq = ''Bearer '' @ cf_approverToken cf"
proof -
  have "rq_Method rq = ''POST'' \<and> checkApproverToken cf rq"
    using assms by (auto simp: escalationByID_def Let_def case_prod_beta split: if_splits option.splits)
  moreover have "rq_Authorization rq = ''Bearer '' @ drop 7 (rq_Authorization rq)" if "checkApproverToken cf rq"
  proof -
    have "take 7 (rq_Authorization rq) = ''Bearer ''" using that by (simp add: checkApproverToken_def HasPrefix_def eval_nat_numeral)
    with append_take_drop_id [of 7 "rq_Authorization rq"] show ?thesis by simp
  qed
  ultimately show ?thesis by (simp add: checkApproverToken_def)
qed

section \<open>A poisoned writer\<close>

lemma world_of_steps:
  assumes "steps sv c c'"
  shows "world_moves sv (snd c) (snd c')"
proof -
  have reap1: "world_moves sv v v'" if "reap_one now (Some (escalation_commit sv)) i s v = (r, s', v')" for now i s v r s' v'
  proof -
    obtain e c v1 where c: "escalation_commit sv ((st_heap s ! the (map_of (st_entries s) i)) \<lparr> es_State := EscExpired, es_ResolvedAt := Some now \<rparr>) v = (e, c, v1)"
      by (metis prod_cases3)
    with that commit_moves [OF c] world_moves_same [of v v sv] show ?thesis
      by (cases e) (auto simp: reap_one_def run_commit_def Let_def split: option.splits if_splits)
  qed
  have reap: "reapExpiredAudited now order (Some (escalation_commit sv)) st w = (res, st', w') \<Longrightarrow> world_moves sv w w'"
    for now order res st w st' w'
  proof (induction order arbitrary: st w res)
    case (Cons i order)
    obtain r1 s1 w1 where one: "reap_one now (Some (escalation_commit sv)) i st w = (r1, s1, w1)" by (metis prod_cases3)
    obtain r2 where "reapExpiredAudited now order (Some (escalation_commit sv)) s1 w1 = (r2, st', w')"
      using Cons(2) one by (auto split: prod.splits)
    with Cons(1) reap1 [OF one] world_moves_trans show ?case by blast
  qed (simp add: world_moves_same)
  have resolve: "world_moves sv w w'"
    if "resolveAudited now i approver reason approved (Some (escalation_commit sv)) st w = (res, st', w')"
    for now i approver reason approved res st w st' w'
  proof -
    let ?c = "(st_heap st ! the (map_of (st_entries st) i)) \<lparr> es_ResolvedAt := Some now, es_Approver := approver,
      es_ApproverReason := reason, es_State := (if approved then EscApproved else EscDenied) \<rparr>"
    obtain e c w1 where c: "escalation_commit sv ?c w = (e, c, w1)" by (metis prod_cases3)
    with that commit_moves [OF c] world_moves_same [of w w sv] show ?thesis
      by (cases e) (auto simp: resolveAudited_def run_commit_def Let_def split: option.splits if_splits)
  qed
  have one: "esc_step (escalation_commit sv) (world_moves sv) (st, w) (st', w') \<Longrightarrow> world_moves sv w w'" for st w st' w'
    by (erule esc_stepE) (auto simp: world_moves_same intro: reap resolve)
  show ?thesis
    using assms unfolding steps_def
  proof (induction rule: rtranclp_induct)
    case (step b c)
    then have "world_moves sv (snd b) (snd c)" using one [of "fst b" "snd b" "fst c" "snd c"] by simp
    with step.IH world_moves_trans show ?case by blast
  qed (simp add: world_moves_same)
qed

lemma poisoned_moves:
  assumes "world_moves sv w w'" "aw_poisoned (wo_writer w)"
  shows "aw_poisoned (wo_writer w') \<and> log_bytes (wo_writer w') = log_bytes (wo_writer w)"
  using assms(1) unfolding world_moves_def
proof (induction rule: rtranclp_induct)
  case (step b c)
  from step(2) show ?case
  proof (cases rule: writer_step.cases)
    case (appends io force t0 err t)
    with step.IH poisoned_append [of b "sv_codec sv" io force t0] show ?thesis by auto
  next
    case (new_provenance pv)
    with step.IH show ?thesis by (simp add: log_bytes_def)
  qed
qed (use assms(2) in simp)


section \<open>The reviews held are bounded\<close>

lemma commit_keeps: "keeps_candidate (escalation_commit sv)"
  unfolding keeps_candidate_def by (metis review.candidate_kept)

text \<open>An agent cannot make the proxy hold ever more reviews. In every run the reviews held, hidden ones
  included, are at most the cap, and identifiers stay distinct.\<close>

theorem reviews_are_bounded:
  assumes "px_escalations p = newEscalationStore" and "(proxy_step sv cf ld)\<^sup>*\<^sup>* p p'"
  shows "length (st_entries (px_escalations p')) \<le> 10000 \<and> distinct (map fst (st_entries (px_escalations p')))"
proof -
  have "store_ok newEscalationStore" by (simp add: store_ok_def newEscalationStore_def)
  with run_store_ok [OF proxy_run_steps [OF assms(2), unfolded steps_def] commit_keeps] assms(1)
  have "store_ok (px_escalations p') \<and> st_maxEntries (px_escalations p') = 10000"
    by (simp add: px_core_def newEscalationStore_def)
  then show ?thesis by (auto simp: store_ok_def)
qed

end
