(* ===== verification/Proxy_Replies.thy ===== *)
theory Proxy_Replies
  imports Proxy_Runs
begin

text \<open>
  What a reply of the evaluate handler means besides its record: the counters account for every decision
  once, and a call on a protected path is turned away before the engine. The last part evaluates the
  handlers on concrete calls, as witnesses of the properties of this and the preceding theory.
\<close>

section \<open>Counters\<close>

definition decisions_counted :: "proxy \<Rightarrow> nat" where
  "decisions_counted p = px_allowCount p + px_denyCount p + px_escalateCount p + px_flagCount p"

definition counts :: "proxy \<Rightarrow> nat \<times> nat" where
  "counts p = (px_evalCount p, decisions_counted p)"

lemma counts_updates [simp]:
  "counts (p \<lparr> px_world := w \<rparr>) = counts p" "counts (p \<lparr> px_escalations := st \<rparr>) = counts p"
  "counts (p \<lparr> px_rateLimit := rl \<rparr>) = counts p" "counts (p \<lparr> px_velocity := v \<rparr>) = counts p"
  "counts (count_fail_closed p) = counts p"
  by (simp_all add: counts_def decisions_counted_def count_fail_closed_def)

lemma counts_velocity [simp]: "counts (record_velocity vl a p) = counts p"
  by (simp add: record_velocity_def split: option.split)

lemma counts_inject: "inject_velocity sv cf env p = (vl, env', p') \<Longrightarrow> counts p' = counts p"
  by (auto simp: inject_velocity_def case_prod_beta Let_def split: option.splits)

lemma counts_action: "counts (count_action a p) = (fst (counts p), Suc (snd (counts p)))"
  by (cases a) (simp_all add: count_action_def counts_def decisions_counted_def)

lemma counts_boundary: "counts (snd (boundary_deny sv n env reason m h p)) = (fst (counts p), Suc (snd (counts p)))"
  by (simp add: boundary_deny_def case_prod_beta counts_def decisions_counted_def)

lemma counts_reserve: "reserve_escalation sv cf env policies res t p = (x, p') \<Longrightarrow> counts p' = counts p"
  by (auto simp: reserve_escalation_def case_prod_beta Let_def split: if_splits option.splits)

lemma counts_failed: "audit_failed sv cf err r res t p = (x, p') \<Longrightarrow> counts p' = counts p"
  by (auto simp: audit_failed_def case_prod_beta Let_def split: if_splits option.splits)

lemma counts_settle: "settle_audit sv cf perr r res t p = (x, p') \<Longrightarrow> counts p' = counts p"
  by (auto simp: settle_audit_def case_prod_beta Let_def dest!: counts_failed split: if_splits option.splits)

lemma counts_conclude: "counts (snd (conclude sv cf vl env policies h res p)) = (fst (counts p), Suc (snd (counts p)))"
proof -
  obtain idTime w where n: "time_Now (px_world p) = (idTime, w)" by fastforce
  let ?res = "unknown_tool sv cf env policies res"
  let ?t0 = "evaluation_trace sv idTime env ?res"
  let ?st = "stamp_trace h ?t0 w"
  obtain r res1 t p1 where r: "reserve_escalation sv cf env policies ?res (case ?st of Inl _ \<Rightarrow> ?t0 | Inr t \<Rightarrow> t)
      (p \<lparr> px_world := w \<rparr>) = ((r, res1, t), p1)" using nested4 by metis
  obtain res2 receipt p2 where s: "settle_audit sv cf (case ?st of Inl e \<Rightarrow> Some e | Inr _ \<Rightarrow> None) r res1 t p1 =
      ((res2, receipt), p2)" using nested3 by metis
  have "counts p2 = counts p" using counts_settle [OF s] counts_reserve [OF r] by simp
  with n r s show ?thesis by (simp add: conclude_def Let_def counts_action)
qed

lemma counts_decide: "counts (snd (decide sv cf m env policies h p)) = (fst (counts p), Suc (snd (counts p)))"
proof -
  obtain vl env' p1 where v: "inject_velocity sv cf env p = (vl, env', p1)" by (metis prod_cases3)
  obtain r w where e: "safeEvaluate sv env' policies m (px_world p1) = (r, w)" by fastforce
  show ?thesis
    using counts_inject [OF v] v e
    by (cases "policies = [] \<and> cf_failClosed cf"; cases r) (auto simp: decide_def counts_boundary counts_conclude)
qed

definition is_decision :: "reply \<Rightarrow> bool" where
  "is_decision rep \<longleftrightarrow> (case rep of DenyBody _ _ _ \<Rightarrow> True | EscalatedBody _ _ _ \<Rightarrow> True | ResultBody _ _ \<Rightarrow> True | _ \<Rightarrow> False)"

lemma decide_replies: "is_decision (snd (fst (decide sv cf m env policies h p)))"
proof -
  have b: "is_decision (snd (fst (boundary_deny sv n env reason m h p)))" for n env reason m h p
    by (simp add: boundary_deny_def case_prod_beta is_decision_def)
  have c: "is_decision (snd (fst (conclude sv cf vl env policies h res p)))" for vl env policies h res p
    by (simp add: conclude_def case_prod_beta Let_def is_decision_def)
  obtain vl env' p1 where v: "inject_velocity sv cf env p = (vl, env', p1)" by (metis prod_cases3)
  obtain r w where e: "safeEvaluate sv env' policies m (px_world p1) = (r, w)" by fastforce
  show ?thesis using v e b c
    by (cases "policies = [] \<and> cf_failClosed cf"; cases r) (auto simp: decide_def)
qed


section \<open>Protected paths\<close>

lemma violation_parts:
  assumes "e_ToolName env' = e_ToolName env" "e_Parameters env' = e_Parameters env"
  shows "ViolatesProtectedPaths rt (Some env') ps = ViolatesProtectedPaths rt (Some env) ps"
  by (simp only: ViolatesProtectedPaths_def option.case assms)

lemma violation_complete:
  "ViolatesProtectedPaths rt (Some (fst (complete_envelope env w))) ps = ViolatesProtectedPaths rt (Some env) ps"
  by (rule violation_parts) (simp_all add: complete_envelope_def case_prod_beta Let_def)

text \<open>A call on a protected path never reaches the engine. Whatever the policies, the mode, the limits
  and the answers of the system, the reply is a denial, or the refusal of a malformed mode, and no review
  is opened.\<close>

theorem protected_call_is_denied:
  assumes "read_envelope sv cf rq = Inr env" and "rq_Method rq = ''POST''" and "cf_protectPaths cf \<noteq> []"
    and "ViolatesProtectedPaths (en_rt (sv_engine sv)) (Some env) (cf_protectPaths cf) \<noteq> None"
  shows "case evaluate sv cf rq p of ((status, rep), p') \<Rightarrow>
    ((\<exists>reason m receipt. rep = DenyBody reason m receipt \<and> (status = 429 \<or> status = 403)) \<or>
     (status = 400 \<and> request_mode cf rq = None)) \<and> px_escalations p' = px_escalations p"
proof -
  let ?p = "p \<lparr> px_evalCount := Suc (px_evalCount p) \<rparr>"
  obtain env1 w where c: "complete_envelope env (px_world ?p) = (env1, w)" by fastforce
  have v: "ViolatesProtectedPaths (en_rt (sv_engine sv)) (Some env1) (cf_protectPaths cf) \<noteq> None"
    using violation_complete [of "en_rt (sv_engine sv)" env "px_world ?p"] c assms(4) by simp
  have b: "\<exists>receipt p'. boundary_deny sv n env1 reason m h q = ((n, DenyBody reason m receipt), p') \<and> px_escalations p' = px_escalations q"
    for n reason m h q by (simp add: boundary_deny_def case_prod_beta)
  have e: "evaluate sv cf rq p = admit sv cf rq env1 (px_policies ?p) (px_policySetHash ?p) (?p \<lparr> px_world := w \<rparr>)"
    using assms(1,2) c by (simp add: evaluate_def Let_def)
  define q where "q = ?p \<lparr> px_world := snd (time_Now w), px_rateLimit := snd (rate_allow (fst (time_Now w)) (rate_key cf env1) (px_rateLimit p)) \<rparr>"
  have q: "px_escalations q = px_escalations p" by (simp add: q_def)
  have g: "\<exists>reason receipt p'. guarded sv cf m env1 ps h q = ((403, DenyBody reason m receipt), p') \<and> px_escalations p' = px_escalations q"
    for m ps h
  proof -
    obtain viol where viol: "ViolatesProtectedPaths (en_rt (sv_engine sv)) (Some env1) (cf_protectPaths cf) = Some viol" using v by blast
    with assms(3) have "guarded sv cf m env1 ps h q = boundary_deny sv 403 env1 (sv_Violation sv viol) m h q" by (simp add: guarded_def)
    with b [of 403 "sv_Violation sv viol" m h q] show ?thesis by metis
  qed
  show ?thesis
  proof (cases "fst (rate_allow (fst (time_Now w)) (rate_key cf env1) (px_rateLimit p))")
    case False
    with b [of 429 "rate_reason sv cf (rate_key cf env1)" "cf_defaultMode cf" "px_policySetHash ?p" q] q e show ?thesis
      by (auto simp: admit_def Let_def case_prod_beta q_def)
  next
    case True
    show ?thesis
    proof (cases "request_mode cf rq")
      case None
      with True q e show ?thesis by (simp add: admit_def Let_def case_prod_beta)
    next
      case (Some m)
      with True have "evaluate sv cf rq p = guarded sv cf m env1 (px_policies ?p) (px_policySetHash ?p) q"
        by (simp add: e admit_def Let_def case_prod_beta q_def)
      with g [of m "px_policies ?p" "px_policySetHash ?p"] q show ?thesis by auto
    qed
  qed
qed

end
