(* ===== verification/Proxy_Samples.thy ===== *)
theory Proxy_Samples
  imports Proxy_Replies
begin

text \<open>
  Concrete calls: a proxy with one open log file on a system that answers well, and the witnesses of the
  properties of the store and of the proxy. On such a system a stamped trace is always appended, so the
  replies follow from the parts of the handlers without computing a canonical encoding.
\<close>

section \<open>A healthy disk\<close>

text \<open>For the witnesses: a proxy whose log is one open file, on a system that answers every call well.\<close>

definition constant_sha :: "string \<Rightarrow> string" where
  "constant_sha b = replicate 64 CHR ''0''"

definition sample_hash :: string where
  "sample_hash = ''sha256:'' @ replicate 64 CHR ''0''"

definition proxy_provenance :: provenance where
  "proxy_provenance = \<lparr> pv_engineVersion = ''1.0'', pv_policySetHash = sample_hash, pv_computedHash = None, pv_resolvedVersion = [] \<rparr>"

definition sample_tick :: tick where
  "sample_tick = \<lparr> tk_now = 1, tk_append = good_append, tk_order = [], tk_panic = None \<rparr>"

definition proxy_services :: "ActionEnvelope \<Rightarrow> services" where
  "proxy_services env = \<lparr> sv_engine = number_engine, sv_sort = insertion_sorter,
     sv_codec = sample_codec \<lparr> cd_marshal := (\<lambda>t. ''{}''), cd_sha256 := constant_sha \<rparr>,
     sv_Quote = id, sv_Details = (\<lambda>_. []), sv_Violation = (\<lambda>_. ''protected''), sv_Delims = (\<lambda>_. ''{}''),
     sv_Envelope = (\<lambda>_. Inr env), sv_Approval = (\<lambda>_. \<lparr> ap_Approver = ''ann'', ap_Reason = ''ok'' \<rparr>) \<rparr>"

definition proxy_config :: config where
  "proxy_config = \<lparr> cf_defaultMode = PolicyModeEnforcement, cf_failClosed = True, cf_unknownToolsDeny = False,
     cf_maxJSONDepth = 32, cf_rateLimitKeyBy = ''agent_id'', cf_velocityKeyBy = ''agent_id'', cf_approverToken = ''t'',
     cf_escalationDefaultMin = 15, cf_protectPaths = [] \<rparr>"

definition proxy_writer :: audit_writer where
  "proxy_writer = sample_opened \<lparr> aw_provenance := proxy_provenance \<rparr>"

definition proxy_start :: "Policy list \<Rightarrow> escalationStore \<Rightarrow> proxy" where
  "proxy_start ps st = \<lparr> px_policies = ps,
     px_world = \<lparr> wo_writer = proxy_writer, wo_auditFailureCount = 0, wo_script = (\<lambda>_. sample_tick), wo_pos = 0 \<rparr>,
     px_escalations = st, px_rateLimit = None, px_velocity = None, px_evalCount = 0, px_allowCount = 0, px_denyCount = 0,
     px_escalateCount = 0, px_flagCount = 0, px_failClosedCount = 0, px_loadCount = 0 \<rparr>"

definition post_call :: request where
  "post_call = \<lparr> rq_Method = ''POST'', rq_Path = ''/escalations/e1/approve'', rq_Mode = [], rq_Authorization = ''Bearer t'',
     rq_Body = Inr ''{}'' \<rparr>"

definition healthy :: "world \<Rightarrow> bool" where
  "healthy w \<longleftrightarrow> \<not> aw_poisoned (wo_writer w) \<and> aw_handle (wo_writer w) = Some ''log'' \<and> aw_rotateBytes (wo_writer w) = 0 \<and>
     aw_provenance (wo_writer w) = proxy_provenance \<and> wo_script w = (\<lambda>_. sample_tick) \<and>
     (\<exists>b. aw_dir (wo_writer w) = [(''log'', Regular b)])"

definition stamped :: "DecisionTrace \<Rightarrow> bool" where
  "stamped t \<longleftrightarrow> dt_EngineVersion t = ''1.0'' \<and> dt_PolicySetHash t = sample_hash \<and> dt_SchemaVersion t = ''v2''"

lemma start_healthy: "healthy (px_world (proxy_start ps st))"
  by (simp add: healthy_def proxy_start_def proxy_writer_def sample_opened_def sample_writer_def)

lemma tick_healthy: "next_tick w = (tk, w') \<Longrightarrow> healthy w \<Longrightarrow> healthy w' \<and> tk = sample_tick"
  "time_Now w = (t, w') \<Longrightarrow> healthy w \<Longrightarrow> healthy w' \<and> t = 1"
  by (auto simp: next_tick_def time_Now_def healthy_def sample_tick_def)

lemma sample_hash_valid: "validatePolicySetHash sample_hash = None" "TrimSpace ''1.0'' = ''1.0''" "sample_hash \<noteq> []"
  by code_simp+

lemma stamp_healthy:
  assumes "healthy w" "h = [] \<or> h = sample_hash"
  obtains t where "stamp_trace h t0 w = Inr t" "stamped t"
proof -
  let ?t = "t0 \<lparr> dt_EngineVersion := ''1.0'', dt_PolicySetHash := sample_hash, dt_CanonicalVersion := CanonicalTraceVersion,
    dt_SchemaVersion := CanonicalTraceVersion \<rparr>"
  have "StampProvenance ''1.0'' sample_hash t0 = Inr ?t"
    by (simp only: StampProvenance_def sample_hash_valid Let_def option.case) simp
  moreover have "stamp_trace h t0 w = (case StampProvenance ''1.0'' sample_hash t0 of Inl e \<Rightarrow> Inl (StampInvalid e) | Inr t \<Rightarrow> Inr t)"
    using assms sample_hash_valid(3) by (auto simp: stamp_trace_def stampTraceProvenance_def healthy_def proxy_provenance_def)
  moreover have "stamped ?t" by (simp add: stamped_def CanonicalTraceVersion_def canonicalTraceVersionV2_def)
  ultimately show thesis using that by simp
qed

lemma stamped_links: "stamped t \<Longrightarrow> \<exists>u. link_trace cd prev t = Inr u"
  using sample_hash_valid
  by (simp add: link_trace_def ComputeCanonicalTraceHash_def CanonicalTraceBytes_def effectiveCanonicalTraceVersion_def stamped_def
      CanonicalTraceVersion_def canonicalTraceVersionV1_def canonicalTraceVersionV2_def validateTraceProvenance_def Let_def)

lemma append_healthy:
  assumes "healthy w" "stamped t"
  obtains u w' where "append_in (proxy_services env) durable t w = (None, u, w')" "healthy w'"
proof -
  let ?cd = "sv_codec (proxy_services env)" and ?wr = "wo_writer w"
  obtain b where h: "\<not> aw_poisoned ?wr" "aw_handle ?wr = Some ''log''" "aw_rotateBytes ?wr = 0"
    "aw_provenance ?wr = proxy_provenance" "wo_script w = (\<lambda>_. sample_tick)" "aw_dir ?wr = [(''log'', Regular b)]"
    using assms(1) by (auto simp: healthy_def)
  obtain u where u: "link_trace ?cd (aw_lastHash ?wr) t = Inr u" using stamped_links [OF assms(2)] by blast
  have raw: "MarshalTraceRecord ?cd u = Some ''{}''"
    by (simp add: MarshalTraceRecord_def MaxTraceRecordBytes_def proxy_services_def)
  have prov: "ensure_provenance ?wr t = Inr t" using assms(2) by (simp add: ensure_provenance_def stamped_def)
  obtain wr where "appendTraceWithDurability ?cd good_append d t ?wr = (None, u, wr)" "\<not> aw_poisoned wr" "aw_handle wr = Some ''log''"
    "aw_rotateBytes wr = 0" "aw_provenance wr = proxy_provenance" "\<exists>b. aw_dir wr = [(''log'', Regular b)]" for d
    using h prov u raw
    by (simp add: appendTraceWithDurability_def stat_size_def good_append_def handle_bytes_def file_bytes_def
        write_record_def write_bytes_def set_file_def Let_def)
  with that h(5) show thesis
    by (simp add: append_in_def next_tick_def sample_tick_def healthy_def appendTraceDurable_def appendTrace_def)
qed

lemma emit_healthy:
  assumes "healthy w" "h = [] \<or> h = sample_hash"
  obtains u w' where "emit (proxy_services env) durable h t0 w = (Inr u, w')" "healthy w'"
proof -
  obtain t where t: "stamp_trace h t0 w = Inr t" "stamped t" by (rule stamp_healthy [OF assms])
  obtain u w' where "append_in (proxy_services env) durable t w = (None, u, w')" "healthy w'"
    by (rule append_healthy [OF assms(1) t(2)])
  with that t(1) show thesis by (simp add: emit_def)
qed

section \<open>Sample calls\<close>

definition call_e1 :: ActionEnvelope where
  "call_e1 = refund_call \<lparr> e_EnvelopeID := ''e1'', e_Timestamp := 1 \<rparr>"

definition sample_result :: "Policy list \<Rightarrow> EvaluationResult" where
  "sample_result ps = Evaluate number_engine insertion_sorter call_e1 ps PolicyModeEnforcement"

definition open_set :: "Policy list" where
  "open_set = [sample_policy ''p'' PolicyModeEnforcement []]"

definition review_set :: "Policy list" where
  "review_set = [sample_policy ''p'' PolicyModeEnforcement [sample_rule ''r1'' sample_tree EffectEscalate]]"

lemma sample_actions:
  "ev_ActionTaken (sample_result open_set) = ActionAllowed" "ev_ActionTaken (sample_result review_set) = ActionEscalated"
  "open_set \<noteq> []" "review_set \<noteq> []"
  by code_simp+

lemma call_e1_complete: "complete_envelope call_e1 w = (call_e1, w)"
  by (simp add: complete_envelope_def call_e1_def)

lemma read_post_call: "read_envelope (proxy_services env) cf (post_call \<lparr> rq_Path := path \<rparr>) = Inr env" if "cf_maxJSONDepth cf = 32"
  using that by (simp add: read_envelope_def read_body_def maxBodyBytes_def post_call_def proxy_services_def)

lemma sample_evaluate:
  assumes "ps \<noteq> []"
  obtains q where "evaluate (proxy_services call_e1) proxy_config post_call (proxy_start ps st) =
      conclude (proxy_services call_e1) proxy_config None call_e1 ps sample_hash (sample_result ps) q"
    "healthy (px_world q)" "px_escalations q = st"
proof -
  let ?sv = "proxy_services call_e1"
  let ?p = "(proxy_start ps st) \<lparr> px_evalCount := 1 \<rparr>"
  have read: "read_envelope ?sv proxy_config post_call = Inr call_e1"
    using read_post_call [of proxy_config call_e1 "rq_Path post_call"] by (simp add: proxy_config_def)
  obtain t1 w1 where t1: "time_Now (px_world ?p) = (t1, w1)" "healthy w1"
    using tick_healthy(2) start_healthy [of ps st] by (cases "time_Now (px_world ?p)") auto
  obtain tk w2 where t2: "next_tick w1 = (tk, w2)" "healthy w2" "tk_panic tk = None"
    using tick_healthy(1) [of w1] t1(2) by (cases "next_tick w1") (auto simp: sample_tick_def)
  define q where "q = ?p \<lparr> px_world := w2, px_rateLimit := None \<rparr>"
  have "safeEvaluate ?sv call_e1 ps PolicyModeEnforcement w1 = (Inr (sample_result ps), w2)"
    using t2 by (simp add: safeEvaluate_def recoverEvaluation_def sample_result_def proxy_services_def)
  then have "decide ?sv proxy_config PolicyModeEnforcement call_e1 ps sample_hash (?p \<lparr> px_world := w1, px_rateLimit := None \<rparr>) =
      conclude ?sv proxy_config None call_e1 ps sample_hash (sample_result ps) q"
    using assms by (simp add: decide_def inject_velocity_def proxy_start_def q_def)
  moreover have "evaluate ?sv proxy_config post_call (proxy_start ps st) =
      decide ?sv proxy_config PolicyModeEnforcement call_e1 ps sample_hash (?p \<lparr> px_world := w1, px_rateLimit := None \<rparr>)"
    using read t1(1) call_e1_complete
    by (simp add: evaluate_def Let_def admit_def guarded_def rate_allow_def proxy_start_def px_policySetHash_def proxy_writer_def
        proxy_provenance_def proxy_config_def post_call_def request_mode_def)
  ultimately show thesis using that [of q] t2(2) by (simp add: q_def proxy_start_def)
qed

lemma conclude_healthy:
  assumes "healthy (px_world q)" "ev_ActionTaken res \<noteq> ActionEscalated" "\<not> cf_unknownToolsDeny cf"
  shows "\<exists>receipt p'. conclude (proxy_services env0) cf vl env ps sample_hash res q = ((200, ResultBody res receipt), p')"
proof -
  let ?sv = "proxy_services env0"
  obtain t w where n: "time_Now (px_world q) = (t, w)" "healthy w" using tick_healthy(2) assms(1) by (metis surj_pair)
  let ?t0 = "evaluation_trace ?sv t env res"
  obtain t1 where s: "stamp_trace sample_hash ?t0 w = Inr t1" "stamped t1" by (rule stamp_healthy [OF n(2) disjI2 [OF refl]])
  obtain u w' where a: "append_in ?sv False t1 w = (None, u, w')" by (rule append_healthy [OF n(2) s(2)])
  show ?thesis using assms(2,3) n(1) s(1) a
    by (simp add: conclude_def unknown_tool_def reserve_escalation_def settle_audit_def Let_def)
qed

lemma conclude_escalates:
  assumes "healthy (px_world q)" "ev_ActionTaken res = ActionEscalated" "\<not> cf_unknownToolsDeny cf"
    "px_escalations q = newEscalationStore"
  shows "\<exists>receipt p'. conclude (proxy_services env0) cf vl env ps sample_hash res q = ((202, EscalatedBody res (e_EnvelopeID env) receipt), p')"
proof -
  let ?sv = "proxy_services env0"
  obtain t w where n: "time_Now (px_world q) = (t, w)" "healthy w" using tick_healthy(2) assms(1) by (metis surj_pair)
  let ?t0 = "evaluation_trace ?sv t env res"
  obtain t1 where s: "stamp_trace sample_hash ?t0 w = Inr t1" "stamped t1" by (rule stamp_healthy [OF n(2) disjI2 [OF refl]])
  obtain tk w1 where k: "next_tick w = (tk, w1)" "healthy w1" using tick_healthy(1) n(2) by (metis surj_pair)
  obtain u w' where a: "append_in ?sv True t1 w1 = (None, u, w')" by (rule append_healthy [OF k(2) s(2)])
  show ?thesis using assms(2-4) n(1) s(1) a k(1)
    by (simp add: conclude_def unknown_tool_def reserve_escalation_def settle_audit_def Let_def reserve_def newEscalationStore_def
        new_escalation_def publishReserved_def reserved_at_def set_entry_def)
qed

lemma open_reply:
  obtains receipt p' where "evaluate (proxy_services call_e1) proxy_config post_call (proxy_start open_set newEscalationStore) =
    ((200, ResultBody (sample_result open_set) receipt), p')"
proof -
  obtain q where "evaluate (proxy_services call_e1) proxy_config post_call (proxy_start open_set newEscalationStore) =
      conclude (proxy_services call_e1) proxy_config None call_e1 open_set sample_hash (sample_result open_set) q" "healthy (px_world q)"
    by (rule sample_evaluate [OF sample_actions(3)])
  with conclude_healthy [of q "sample_result open_set" proxy_config call_e1 None call_e1 open_set] sample_actions(1) that
  show thesis by (auto simp: proxy_config_def)
qed

lemma review_reply:
  obtains receipt p' where "evaluate (proxy_services call_e1) proxy_config post_call (proxy_start review_set newEscalationStore) =
    ((202, EscalatedBody (sample_result review_set) ''e1'' receipt), p')"
proof -
  obtain q where "evaluate (proxy_services call_e1) proxy_config post_call (proxy_start review_set newEscalationStore) =
      conclude (proxy_services call_e1) proxy_config None call_e1 review_set sample_hash (sample_result review_set) q" "healthy (px_world q)"
      "px_escalations q = newEscalationStore"
    by (rule sample_evaluate [OF sample_actions(4)])
  with conclude_escalates [of q "sample_result review_set" proxy_config call_e1 None call_e1 review_set] sample_actions(2) that
  show thesis by (auto simp: proxy_config_def call_e1_def)
qed

definition pending_store :: escalationStore where
  "pending_store = \<lparr> st_heap = [(new_escalation 0 call_e1 (sample_result review_set) 15) \<lparr> es_State := EscPending \<rparr>],
     st_entries = [(''e1'', 0)], st_maxEntries = 10000 \<rparr>"

lemma timeout_15: "escalation_timeout 15 = 900000000000"
  by code_simp

lemma post_call_action: "split_action (drop 13 (rq_Path post_call)) = (''e1'', ''approve'')" "HasPrefix (rq_Path post_call) ''/escalations/''"
  "drop 13 (rq_Path post_call) \<noteq> []" "checkApproverToken proxy_config post_call" "rq_Method post_call = ''POST''"
  by code_simp+

lemma approve_reply:
  obtains e p' where "escalationByID (proxy_services call_e1) proxy_config post_call (proxy_start [] pending_store) = ((200, EscalationBody e), p')"
    "get_escalation ''e1'' (px_escalations p') = Some e" "es_State e = EscApproved"
proof -
  let ?sv = "proxy_services call_e1" and ?p = "proxy_start [] pending_store"
  obtain t w where n: "time_Now (px_world ?p) = (t, w)" "healthy w" "t = 1" using tick_healthy(2) start_healthy by (metis surj_pair)
  let ?c = "((st_heap pending_store ! 0) \<lparr> es_ResolvedAt := Some 1, es_Approver := ''ann'', es_ApproverReason := ''ok'', es_State := EscApproved \<rparr>)"
  obtain t1 w1 where n1: "time_Now w = (t1, w1)" "healthy w1" using tick_healthy(2) n(2) by (metis surj_pair)
  obtain t2 w2 where n2: "time_Now w1 = (t2, w2)" "healthy w2" using tick_healthy(2) n1(2) by (metis surj_pair)
  obtain u w3 where e: "emit ?sv True [] (resolution_trace ?sv ?c True t1 t2) w2 = (Inr u, w3)"
    by (rule emit_healthy [OF n2(2) disjI1 [OF refl]])
  define e' where "e' = ?c \<lparr> es_ResolutionReceipt := receiptForAppendedTrace ?sv u \<rparr>"
  have c: "commit_resolution ?sv True ?c w = (None, e', w3)"
    using n1(1) n2(1) e by (simp add: commit_resolution_def emitEscalationResolution_def e'_def)
  have heap: "es_State (st_heap pending_store ! 0) = EscPending" "1 < es_ExpiresAt (st_heap pending_store ! 0)"
    "map_of (st_entries pending_store) ''e1'' = Some 0"
    by (simp_all add: pending_store_def new_escalation_def timeout_15)
  have r: "resolveAudited 1 ''e1'' ''ann'' ''ok'' True (Some (commit_resolution ?sv True)) pending_store w =
      ((Some e', True, None), set_entry 0 e' pending_store, w3)"
    using heap c by (simp add: resolveAudited_def run_commit_def Let_def)
  have "escalationByID ?sv proxy_config post_call ?p = resolve_escalation ?sv ''e1'' \<lparr> ap_Approver = ''ann'', ap_Reason = ''ok'' \<rparr> True ?p"
    using post_call_action by (simp add: escalationByID_def Let_def) (simp add: proxy_services_def)
  moreover have "resolve_escalation ?sv ''e1'' \<lparr> ap_Approver = ''ann'', ap_Reason = ''ok'' \<rparr> True ?p =
      ((200, EscalationBody e'), ?p \<lparr> px_world := w3, px_escalations := set_entry 0 e' pending_store \<rparr>)"
    using n(1,3) r by (simp add: resolve_escalation_def Let_def proxy_start_def)
  moreover have "get_escalation ''e1'' (set_entry 0 e' pending_store) = Some e'" "es_State e' = EscApproved"
    by (simp_all add: get_escalation_def entry_def set_entry_def pending_store_def e'_def)
  ultimately show thesis using that by simp
qed


section \<open>Witnesses\<close>

lemma one_review: "(proxy_step sv cf ld)\<^sup>*\<^sup>* p (snd (escalationByID sv cf rq p))"
  "(proxy_step sv cf ld)\<^sup>*\<^sup>* p (snd (evaluate sv cf rq p))" "(proxy_step sv cf ld)\<^sup>*\<^sup>* p (reap sv p)"
  by (auto intro: r_into_rtranclp proxy_step.intros)

lemma start_good: "good_writer (wo_writer (px_world (proxy_start ps st)))"
  using sample_opened_ok [of "sv_codec (proxy_services call_e1)"]
  by (auto simp: good_writer_def writer_ok_def writer_shape_def proxy_start_def proxy_writer_def)

theorem approvals_are_audited_witness:
  "\<exists>e t before sep rest.
     log_bytes (wo_writer (px_world (snd (escalationByID (proxy_services call_e1) proxy_config post_call (proxy_start [] pending_store))))) =
       before @ record_bytes sep ''{}'' @ rest \<and>
     es_State e = EscApproved \<and> outcome_of (proxy_services call_e1) e t"
proof -
  let ?sv = "proxy_services call_e1" and ?p = "proxy_start [] pending_store"
  obtain e p' where r: "escalationByID ?sv proxy_config post_call ?p = ((200, EscalationBody e), p')"
    "get_escalation ''e1'' (px_escalations p') = Some e" "es_State e = EscApproved" by (rule approve_reply)
  have "nothing_resolved ?p"
    using start_good by (auto simp: nothing_resolved_def proxy_start_def pending_store_def store_ok_def entry_def terminal_def new_escalation_def call_e1_def)
  from approvals_are_audited [OF this one_review(1) [of ?sv proxy_config sample_loader ?p post_call], of "''e1''" e] r
  show ?thesis by (auto simp: proxy_services_def)
qed

theorem nothing_proceeds_unaudited_witness:
  "case evaluate (proxy_services call_e1) proxy_config post_call (proxy_start open_set newEscalationStore) of
     ((status, ResultBody res receipt), p') \<Rightarrow> status = 200 \<and> ev_ActionTaken res = ActionAllowed \<and>
       (\<exists>t. dt_ActionTaken t = ''allowed'' \<and> receipt = NewDecisionReceipt (sv_codec (proxy_services call_e1)) t)
   | _ \<Rightarrow> False"
proof -
  obtain receipt p' where e: "evaluate (proxy_services call_e1) proxy_config post_call (proxy_start open_set newEscalationStore) =
      ((200, ResultBody (sample_result open_set) receipt), p')" by (rule open_reply)
  have "actionProceeds (ev_ActionTaken (sample_result open_set))" "cf_failClosed proxy_config"
    by (simp_all add: sample_actions actionProceeds_def proxy_config_def)
  from nothing_proceeds_unaudited [OF start_good this(2) e this(1)] e show ?thesis by (auto simp: sample_actions)
qed

theorem escalated_reply_is_pending_witness:
  "case evaluate (proxy_services call_e1) proxy_config post_call (proxy_start review_set newEscalationStore) of
     ((status, EscalatedBody res i receipt), p') \<Rightarrow> i = ''e1'' \<and> (\<exists>e. get_escalation i (px_escalations p') = Some e \<and> es_State e = EscPending)
   | _ \<Rightarrow> False"
proof -
  obtain receipt p' where e: "evaluate (proxy_services call_e1) proxy_config post_call (proxy_start review_set newEscalationStore) =
      ((202, EscalatedBody (sample_result review_set) ''e1'' receipt), p')" by (rule review_reply)
  have "store_ok (px_escalations (proxy_start review_set newEscalationStore))"
    by (simp add: proxy_start_def store_ok_def newEscalationStore_def)
  from escalated_reply_is_pending [OF start_good this e] e show ?thesis by auto
qed

definition dead_start :: proxy where
  "dead_start = (proxy_start open_set pending_store)
     \<lparr> px_world := (px_world (proxy_start open_set pending_store)) \<lparr> wo_writer := proxy_writer \<lparr> aw_poisoned := True \<rparr> \<rparr> \<rparr>"


theorem approver_token_required_witness:
  "rq_Authorization post_call = ''Bearer '' @ cf_approverToken proxy_config"
proof -
  obtain e p' where r: "escalationByID (proxy_services call_e1) proxy_config post_call (proxy_start [] pending_store) = ((200, EscalationBody e), p')"
    "get_escalation ''e1'' (px_escalations p') = Some e" "es_State e = EscApproved" by (rule approve_reply)
  have "get_escalation ''e1'' pending_store = Some (st_heap pending_store ! 0)" "es_State (st_heap pending_store ! 0) = EscPending"
    by (simp_all add: get_escalation_def entry_def pending_store_def)
  with r have "snd (escalationByID (proxy_services call_e1) proxy_config post_call (proxy_start [] pending_store)) \<noteq> proxy_start [] pending_store"
    by (auto simp: proxy_start_def)
  from approver_token_required [OF this] show ?thesis by simp
qed

theorem reviews_are_bounded_witness:
  "length (st_entries (px_escalations (snd (evaluate (proxy_services call_e1) proxy_config post_call
     (proxy_start review_set newEscalationStore))))) \<le> 10000"
  using reviews_are_bounded [OF _ one_review(2) [of "proxy_services call_e1" proxy_config sample_loader "proxy_start review_set newEscalationStore" post_call]]
  by (simp add: proxy_start_def)

theorem escalation_state_machine_witness:
  "case resolveAudited 1 ''e1'' ''ann'' ''ok'' True (Some (\<lambda>e w. (None, e, w))) pending_store (0 :: nat) of
     (_, st', _) \<Rightarrow> store_ok st' \<and> (case entry st' ''e1'' of Some e \<Rightarrow> moves (st_heap pending_store ! 0) e | None \<Rightarrow> False)"
proof -
  let ?commit = "\<lambda>e (w :: nat). (None, e, w)"
  obtain res st' w' where r: "resolveAudited 1 ''e1'' ''ann'' ''ok'' True (Some ?commit) pending_store (0 :: nat) = (res, st', w')"
    by (metis prod_cases3)
  have ok: "store_ok pending_store" by (auto simp: pending_store_def store_ok_def new_escalation_def call_e1_def split: if_splits)
  have k: "keeps_candidate ?commit" by (auto simp: keeps_candidate_def)
  have "esc_step ?commit (=) (pending_store, 0) (st', w')" using r by (rule esc_step.resolves)
  from escalation_state_machine [OF ok k this, of "''e1''"] r show ?thesis
    by (auto simp: pending_store_def entry_def new_escalation_def split: option.splits)
qed

theorem reservation_is_exclusive_and_hidden_witness:
  "case reserve 1 [] call_e1 (sample_result review_set) 15 newEscalationStore of
     (Some a, st') \<Rightarrow> get_escalation ''e1'' st' = None | (None, st') \<Rightarrow> False"
proof -
  have ok: "store_ok newEscalationStore" by (simp add: store_ok_def newEscalationStore_def)
  have "fst (reserve 1 [] call_e1 (sample_result review_set) 15 newEscalationStore) = Some 0"
    by (simp add: reserve_def newEscalationStore_def Let_def)
  with reservation_is_exclusive_and_hidden [OF ok, where now = 1 and order = "[]" and env = call_e1 and
      dec = "sample_result review_set" and tm = 15 and t = 1 and approver = "[]" and reason = "[]" and approved = True and
      cb = "None :: nat commit option" and w = 0] show ?thesis
    by (auto simp: call_e1_def split: prod.splits option.splits)
qed

definition guarded_write :: ActionEnvelope where
  "guarded_write = sample_envelope ''Write'' (RawJson (JObj [(''file_path'', JStr ''/p/x'')]))"

lemma guarded_write_violates: "ViolatesProtectedPaths (en_rt number_engine) (Some guarded_write) [''/p''] \<noteq> None"
  by code_simp

theorem protected_call_is_denied_witness:
  "case evaluate (proxy_services guarded_write) (proxy_config \<lparr> cf_protectPaths := [''/p''] \<rparr>) post_call (proxy_start open_set newEscalationStore) of
     ((status, DenyBody _ _ _), _) \<Rightarrow> status = 403 \<or> status = 429 | _ \<Rightarrow> False"
proof -
  let ?cf = "proxy_config \<lparr> cf_protectPaths := [''/p''] \<rparr>"
  have read: "read_envelope (proxy_services guarded_write) ?cf post_call = Inr guarded_write"
    using read_post_call [of ?cf guarded_write "rq_Path post_call"] by (simp add: proxy_config_def)
  have v: "ViolatesProtectedPaths (en_rt (sv_engine (proxy_services guarded_write))) (Some guarded_write) (cf_protectPaths ?cf) \<noteq> None"
    using guarded_write_violates by (simp add: proxy_services_def)
  have "rq_Method post_call = ''POST''" "cf_protectPaths ?cf \<noteq> []" "request_mode ?cf post_call \<noteq> None"
    by (simp_all add: post_call_def request_mode_def)
  with protected_call_is_denied [OF read this(1,2) v, of "proxy_start open_set newEscalationStore"] show ?thesis
    by (auto split: prod.splits)
qed

end
