(* ===== verification/Hook.thy ===== *)
theory Hook
  imports Policy_Load
begin

text \<open>
  The guard of a coding agent, \<open>tg hook\<close> (\<open>cmd/tg/hook.go\<close>, with \<open>loadPolicySet\<close> of simulate.go):
  one tool call on standard input, one decision on standard output. The flags are parsed as package
  \<open>flag\<close> parses them. What the process reads from outside is in \<open>hook_call\<close>; the exit code is always 0.
\<close>

section \<open>Flags\<close>

record hook_flags =
  hf_policyDir :: string
  hf_policyFile :: string
  hf_mode :: string
  hf_agentID :: string
  hf_failClosed :: bool
  hf_failClosedTools :: string
  hf_protectPaths :: string
  hf_protectPath :: "string list"
  hf_protectSelf :: bool
  hf_auditLog :: string
  hf_unknownToolsDeny :: bool

definition hook_defaults :: hook_flags where
  "hook_defaults = \<lparr> hf_policyDir = [], hf_policyFile = [], hf_mode = ''enforcement'', hf_agentID = ''coding-agent'',
     hf_failClosed = False, hf_failClosedTools = [], hf_protectPaths = [], hf_protectPath = [], hf_protectSelf = False,
     hf_auditLog = [], hf_unknownToolsDeny = False \<rparr>"

text \<open>\<open>strconv.ParseBool\<close>.\<close>

definition ParseBool :: "string \<Rightarrow> bool option" where
  "ParseBool s =
     (if s \<in> {''1'', ''t'', ''T'', ''true'', ''TRUE'', ''True''} then Some True
      else if s \<in> {''0'', ''f'', ''F'', ''false'', ''FALSE'', ''False''} then Some False
      else None)"

text \<open>What setting a flag does: a boolean that does not parse is set to false and is an error; a
  repeatable path refuses a blank.\<close>

datatype flag_kind =
    BoolFlag "bool \<Rightarrow> hook_flags \<Rightarrow> hook_flags"
  | StringFlag "string \<Rightarrow> hook_flags \<Rightarrow> hook_flags"
  | PathFlag

definition hook_flag :: "string \<Rightarrow> flag_kind option" where
  "hook_flag name = map_of
     [(''policy-dir'', StringFlag (\<lambda>v f. f \<lparr> hf_policyDir := v \<rparr>)),
      (''policy'', StringFlag (\<lambda>v f. f \<lparr> hf_policyFile := v \<rparr>)),
      (''mode'', StringFlag (\<lambda>v f. f \<lparr> hf_mode := v \<rparr>)),
      (''agent-id'', StringFlag (\<lambda>v f. f \<lparr> hf_agentID := v \<rparr>)),
      (''fail-closed'', BoolFlag (\<lambda>b f. f \<lparr> hf_failClosed := b \<rparr>)),
      (''fail-closed-tools'', StringFlag (\<lambda>v f. f \<lparr> hf_failClosedTools := v \<rparr>)),
      (''protect-paths'', StringFlag (\<lambda>v f. f \<lparr> hf_protectPaths := v \<rparr>)),
      (''protect-path'', PathFlag),
      (''protect-self'', BoolFlag (\<lambda>b f. f \<lparr> hf_protectSelf := b \<rparr>)),
      (''audit-log'', StringFlag (\<lambda>v f. f \<lparr> hf_auditLog := v \<rparr>)),
      (''unknown-tools-deny'', BoolFlag (\<lambda>b f. f \<lparr> hf_unknownToolsDeny := b \<rparr>))] name"

definition set_flag :: "flag_kind \<Rightarrow> string \<Rightarrow> hook_flags \<Rightarrow> bool \<times> hook_flags" where
  "set_flag k v f =
     (case k of
        BoolFlag put \<Rightarrow> (case ParseBool v of Some b \<Rightarrow> (True, put b f) | None \<Rightarrow> (False, put False f))
      | StringFlag put \<Rightarrow> (True, put v f)
      | PathFlag \<Rightarrow> (if TrimSpace v = [] then (False, f) else (True, f \<lparr> hf_protectPath := hf_protectPath f @ [v] \<rparr>)))"

datatype flag_error = FlagHelp | FlagInvalid

definition is_bool_flag :: "flag_kind \<Rightarrow> bool" where
  "is_bool_flag k \<longleftrightarrow> (case k of BoolFlag _ \<Rightarrow> True | _ \<Rightarrow> False)"

text \<open>The name of an argument that starts with a minus: with one minus or two, and what follows the
  first equals sign behind its first character.\<close>

definition flag_name :: "string \<Rightarrow> string" where
  "flag_name s = (if HasPrefix s ''--'' then drop 2 s else drop 1 s)"

definition flag_parts :: "string \<Rightarrow> string \<times> string option" where
  "flag_parts name =
     (let n = takeWhile (\<lambda>c. c \<noteq> CHR ''='') name
      in (n, if length n < length name then Some (drop (Suc (length n)) name) else None))"

fun parse_flags :: "string list \<Rightarrow> hook_flags \<Rightarrow> flag_error option \<times> hook_flags" where
  "parse_flags [] f = (None, f)"
| "parse_flags (s # args) f =
     (if length s < 2 \<or> \<not> HasPrefix s ''-'' \<or> s = ''--'' then (None, f)
      else
        let full = flag_name s in
        if full = [] \<or> HasPrefix full ''-'' \<or> HasPrefix full ''='' then (Some FlagInvalid, f)
        else
          let (name, given) = flag_parts full in
          case hook_flag name of
            None \<Rightarrow> (Some (if name = ''help'' \<or> name = ''h'' then FlagHelp else FlagInvalid), f)
          | Some k \<Rightarrow>
              (case given of
                 Some v \<Rightarrow>
                   (let (ok, f) = set_flag k v f in if ok then parse_flags args f else (Some FlagInvalid, f))
               | None \<Rightarrow>
                   (if is_bool_flag k then parse_flags args (snd (set_flag k ''true'' f))
                    else case args of
                        [] \<Rightarrow> (Some FlagInvalid, f)
                      | v # rest \<Rightarrow>
                          (let (ok, f) = set_flag k v f in if ok then parse_flags rest f else (Some FlagInvalid, f)))))"

definition csv_parts :: "string \<Rightarrow> string list" where
  "csv_parts s = filter (\<lambda>p. p \<noteq> []) (map TrimSpace (SplitByte s (CHR '','')))"

definition csvSet :: "string \<Rightarrow> string list" where
  "csvSet s = map ToLower (csv_parts s)"

definition splitCSVPaths :: "string \<Rightarrow> string list" where
  "splitCSVPaths s = csv_parts s"

section \<open>What the process reads\<close>

record hook_input =
  hi_ToolName :: string
  hi_ToolInput :: raw

text \<open>Standard input (\<open>Inl\<close> is a read error), the decoder of the input object, the home directory, the
  two readings of the clock, \<open>filepath.Glob\<close>, the files, and a panic while loading or evaluating.\<close>

record hook_call =
  hc_stdin :: "string + string"
  hc_input :: "string \<Rightarrow> hook_input option"
  hc_home :: "string option"
  hc_idTime :: time
  hc_stamp :: time
  hc_glob :: "string \<Rightarrow> string list option"
  hc_file :: "string \<Rightarrow> string option"
  hc_panicLoad :: "string option"
  hc_panicEval :: "string option"

datatype hook_decision = HookAllow | HookAsk | HookDeny

section \<open>The envelope of a call\<close>

definition empty_context :: EnvelopeContext where
  "empty_context =
     \<lparr> cx_Verified = \<lparr> vc_CustomerTier = [], vc_CustomerAccountAgeDays = 0, vc_CustomerLifetimeValue = 0,
         vc_CustomerOrderCount = 0, vc_OrderTotal = 0, vc_OrderAge = 0, vc_OrderCurrency = [], vc_CustomerID = [],
         vc_OrderID = [], vc_OrderItemCount = 0, vc_ProductCategory = [], vc_ProductCategoryAvgPrice = 0,
         vc_ReturnRequestReason = [], vc_ReturnRequestStatus = [], vc_EconomicValueImpact = 0, vc_Rolling24hTotal = 0,
         vc_Rolling24hCount = 0, vc_Rolling7dTotal = 0, vc_Rolling7dCount = 0, vc_AgentBudget = None,
         vc_AgentVelocity = None, vc_Justification = None, vc_ContentRisk = [], vc_ContentCategories = [],
         vc_ContentClassifierTier = [], vc_CounterAgentRisk = [], vc_CounterAgentCategories = [],
         vc_CounterAgentReasoning = [] \<rparr>,
       cx_SessionState = \<lparr> ss_CumulativeAmount = 0, ss_ActionsInSession = 0, ss_EscalationsInSession = 0,
         ss_DeniedInSession = 0, ss_ToolSequence = [], ss_AmountTrajectory = [] \<rparr>,
       cx_AgentSupplied = RawNil \<rparr>"

definition hookToolGroup :: "string \<Rightarrow> string" where
  "hookToolGroup tool =
     (if tool \<in> {''write'', ''edit'', ''notebookedit'', ''apply_patch'', ''multiedit'', ''create''} then ''filesystem_writes''
      else if tool = ''read'' then ''filesystem''
      else if tool \<in> {''http'', ''fetch'', ''webfetch''} then ''network_egress''
      else ''shell'')"

definition hook_params :: "runtime \<Rightarrow> raw \<Rightarrow> raw" where
  "hook_params rt r =
     (if r = RawNil \<or> r = RawEmpty then RawJson (JObj [])
      else case unmarshal_map rt r of Some _ \<Rightarrow> r | None \<Rightarrow> RawJson (JObj []))"

definition hookEnvelope :: "runtime \<Rightarrow> string \<Rightarrow> hook_input \<Rightarrow> string \<Rightarrow> hook_call \<Rightarrow> ActionEnvelope" where
  "hookEnvelope rt tool inp agentID c =
     \<lparr> e_EnvelopeID = ''hook-'' @ show_int (UnixNano (hc_idTime c)), e_Timestamp = hc_stamp c, e_AgentID = agentID,
       e_SessionID = ''tg-hook'', e_OrgID = ''local'', e_AgentVersion = [], e_Framework = [], e_TurnNumber = 0,
       e_Department = [], e_ToolName = tool, e_ToolServer = [], e_ToolGroup = hookToolGroup tool,
       e_Parameters = hook_params rt (hi_ToolInput inp), e_ParametersRedacted = RawNil, e_Context = empty_context,
       e_IntegrationType = [], e_ProxyVersion = [], e_TLSVerified = False, e_Integrity = None \<rparr>"

definition hook_tool :: "hook_input \<Rightarrow> string" where
  "hook_tool inp = (let t = ToLower (TrimSpace (hi_ToolName inp)) in if t = [] then ''bash'' else t)"

definition selfProtectPaths :: "hook_flags \<Rightarrow> hook_call \<Rightarrow> string list" where
  "selfProtectPaths f c =
     (if hf_policyDir f \<noteq> [] then [path_Clean (hf_policyDir f)] else []) @
     (if hf_policyFile f \<noteq> [] then [filepath_Dir (path_Clean (hf_policyFile f))] else []) @
     (case hc_home c of Some h \<Rightarrow> (if h \<noteq> [] then [filepath_Join h ''.claude''] else []) | None \<Rightarrow> [])"

definition protectList :: "hook_flags \<Rightarrow> hook_call \<Rightarrow> string list" where
  "protectList f c =
     (if hf_protectSelf f then selfProtectPaths f c else []) @ splitCSVPaths (hf_protectPaths f) @ hf_protectPath f"

section \<open>Failing open or closed\<close>

definition failDecide :: "services \<Rightarrow> hook_flags \<Rightarrow> string \<Rightarrow> hook_decision \<times> string" where
  "failDecide sv f tool =
     (let failTools = csvSet (hf_failClosedTools f) in
      if failTools \<noteq> [] then
        (if ToLower tool \<in> set failTools
         then (HookDeny, ''Tool Guard hook could not evaluate; failing closed for tool '' @ sv_Quote sv tool @ '' (-fail-closed-tools)'')
         else (HookAllow, []))
      else if hf_failClosed f then (HookDeny, ''Tool Guard hook could not evaluate; failing closed (-fail-closed)'')
      else (HookAllow, []))"

definition failUnattributable :: "hook_flags \<Rightarrow> string \<Rightarrow> hook_decision \<times> string" where
  "failUnattributable f why =
     (if hf_failClosed f \<or> csvSet (hf_failClosedTools f) \<noteq> []
      then (HookDeny, ''Tool Guard hook could not read/parse the tool call ('' @ why @ ''); failing closed (fail-closed engaged)'')
      else (HookAllow, []))"

section \<open>Evaluation\<close>

fun load_paths :: "loader \<Rightarrow> runtime \<Rightarrow> hook_call \<Rightarrow> string list \<Rightarrow> reload_error + Policy list" where
  "load_paths ld rt c [] = Inr []"
| "load_paths ld rt c (p # ps) =
     (case Load ld (hc_file c p) of
        Inl e \<Rightarrow> Inl (LoadFailed p e)
      | Inr pol \<Rightarrow>
          (case ValidatePolicy rt pol of
             Some e \<Rightarrow> Inl (ValidateFailed p e)
           | None \<Rightarrow> (case load_paths ld rt c ps of Inl e \<Rightarrow> Inl e | Inr out \<Rightarrow> Inr (pol # out))))"

definition loadPolicySet :: "loader \<Rightarrow> runtime \<Rightarrow> hook_call \<Rightarrow> string \<Rightarrow> string \<Rightarrow> reload_error + Policy list" where
  "loadPolicySet ld rt c dir file =
     (let paths = (if file \<noteq> [] then Some [file]
                   else case hc_glob c (filepath_Join dir ''*.yaml'') of
                       None \<Rightarrow> None
                     | Some ys \<Rightarrow> map_option (\<lambda>zs. sort (ys @ zs)) (hc_glob c (filepath_Join dir ''*.yml'')))
      in case paths of
           None \<Rightarrow> Inl ReadDirFailed
         | Some ps \<Rightarrow>
             (case load_paths ld rt c ps of
                Inl e \<Rightarrow> Inl e
              | Inr out \<Rightarrow> (case ValidatePolicySet rt out of Some e \<Rightarrow> Inl (ValidateSetFailed e) | None \<Rightarrow> Inr out)))"

definition hookReason :: "EvaluationResult \<Rightarrow> string" where
  "hookReason r =
     (let excerpt = (\<lambda>ci. case ci of Some c \<Rightarrow> ci_Excerpt c | None \<Rightarrow> []) in
      if excerpt (ev_AppliedPrimaryCitation r) \<noteq> [] then excerpt (ev_AppliedPrimaryCitation r)
      else if (ev_ActionTaken r = ActionDenied \<and> ev_Decision r = DecisionDenied \<or>
               ev_ActionTaken r = ActionEscalated \<and> ev_Decision r = DecisionEscalated) \<and>
              excerpt (ev_PrimaryCitation r) \<noteq> [] then excerpt (ev_PrimaryCitation r)
      else ev_DecisionReason r)"

definition hook_decision_of :: "ActionTaken \<Rightarrow> hook_decision" where
  "hook_decision_of a = (case a of ActionDenied \<Rightarrow> HookDeny | ActionEscalated \<Rightarrow> HookAsk | _ \<Rightarrow> HookAllow)"

definition nil_hash :: "loader \<Rightarrow> string" where
  "nil_hash ld = (case PolicySetHash ld [] of Some h \<Rightarrow> h | None \<Rightarrow> [])"

text \<open>The deferred \<open>recover\<close>.\<close>

definition recover_hook :: "services \<Rightarrow> hook_flags \<Rightarrow> string \<Rightarrow> string \<Rightarrow> hook_decision \<times> string" where
  "recover_hook sv f tool r =
     (let (dec, reason) = failDecide sv f tool
      in (dec, if reason = [] \<and> dec = HookDeny then ''Tool Guard hook panicked during evaluation: '' @ r else reason))"

definition evalHook ::
  "services \<Rightarrow> loader \<Rightarrow> hook_flags \<Rightarrow> hook_call \<Rightarrow> ActionEnvelope \<Rightarrow> PolicyMode \<Rightarrow>
     (hook_decision \<times> string) \<times> EvaluationResult option \<times> string" where
  "evalHook sv ld f c env m =
     (case hc_panicLoad c of
        Some r \<Rightarrow> (recover_hook sv f (e_ToolName env) r, None, nil_hash ld)
      | None \<Rightarrow>
          (case loadPolicySet ld (en_rt (sv_engine sv)) c (hf_policyDir f) (hf_policyFile f) of
             Inl _ \<Rightarrow> (failDecide sv f (e_ToolName env), None, nil_hash ld)
           | Inr policies \<Rightarrow>
               (if policies = [] then (failDecide sv f (e_ToolName env), None, nil_hash ld)
                else case PolicySetHash ld policies of
                    None \<Rightarrow> (failDecide sv f (e_ToolName env), None, [])
                  | Some h \<Rightarrow>
                      (if hf_unknownToolsDeny f \<and> \<not> ToolNameKnown (e_ToolName env) policies
                       then ((HookDeny, ''tool_name '' @ sv_Quote sv (e_ToolName env) @
                              '' is not declared in scope.tool_names of any loaded ENFORCEMENT policy (-unknown-tools-deny)''), None, h)
                       else case hc_panicEval c of
                           Some r \<Rightarrow> (recover_hook sv f (e_ToolName env) r, None, h)
                         | None \<Rightarrow>
                             (let res = Evaluate (sv_engine sv) (sv_sort sv) env policies m;
                                  dec = hook_decision_of (ev_ActionTaken res)
                              in ((dec, if dec = HookAllow then [] else hookReason res), Some res, h))))))"

section \<open>The hook\<close>

text \<open>What is handed to the audit log.\<close>

record hook_entry =
  he_Envelope :: ActionEnvelope
  he_Result :: "EvaluationResult option"
  he_Decision :: hook_decision
  he_Reason :: string
  he_PolicySetHash :: string

text \<open>The output, \<open>None\<close> when only the usage is printed, and the entry of the audit log.\<close>

type_synonym hook_reply = "(hook_decision \<times> string) option \<times> hook_entry option"

definition emitAudited ::
  "hook_flags \<Rightarrow> ActionEnvelope \<Rightarrow> (hook_decision \<times> string) \<times> EvaluationResult option \<times> string \<Rightarrow> hook_reply" where
  "emitAudited f env r =
     (case r of ((dec, reason), res, h) \<Rightarrow>
        (Some (dec, reason),
         if hf_auditLog f = [] then None
         else Some \<lparr> he_Envelope = env, he_Result = res, he_Decision = dec, he_Reason = reason, he_PolicySetHash = h \<rparr>))"

definition maxHookStdin :: nat where
  "maxHookStdin = 1048576"

text \<open>The call as it is read, or why it cannot be.\<close>

definition read_hook_input :: "hook_call \<Rightarrow> string + hook_input" where
  "read_hook_input c =
     (case hc_stdin c of
        Inl _ \<Rightarrow> Inl ''stdin read error''
      | Inr b \<Rightarrow>
          (if maxHookStdin < length b then Inl ''oversized stdin''
           else case hc_input c b of None \<Rightarrow> Inl ''malformed JSON'' | Some inp \<Rightarrow> Inr inp))"

definition hook_mode :: "hook_flags \<Rightarrow> PolicyMode" where
  "hook_mode f = (if hf_mode f = ''shadow'' then PolicyModeShadow else PolicyModeEnforcement)"

definition guard_call :: "services \<Rightarrow> loader \<Rightarrow> hook_flags \<Rightarrow> hook_call \<Rightarrow> hook_input \<Rightarrow> hook_reply" where
  "guard_call sv ld f c inp =
     (let env = hookEnvelope (en_rt (sv_engine sv)) (hook_tool inp) inp (hf_agentID f) c in
      case ViolatesProtectedPaths (en_rt (sv_engine sv)) (Some env) (protectList f c) of
        Some v \<Rightarrow> emitAudited f env ((HookDeny, sv_Violation sv v), None, nil_hash ld)
      | None \<Rightarrow>
          (if hf_policyDir f = [] \<and> hf_policyFile f = []
           then emitAudited f env (failDecide sv f (hook_tool inp), None, nil_hash ld)
           else emitAudited f env (evalHook sv ld f c env (hook_mode f))))"

definition runHook :: "services \<Rightarrow> loader \<Rightarrow> string list \<Rightarrow> hook_call \<Rightarrow> hook_reply" where
  "runHook sv ld args c =
     (case parse_flags args hook_defaults of
        (Some FlagHelp, f) \<Rightarrow> (None, None)
      | (Some FlagInvalid, f) \<Rightarrow> (Some (failUnattributable f ''flag parse error''), None)
      | (None, f) \<Rightarrow>
          (case read_hook_input c of
             Inl why \<Rightarrow> (Some (failUnattributable f why), None)
           | Inr inp \<Rightarrow> guard_call sv ld f c inp))"

section \<open>What the hook decides\<close>

lemma emitAudited_output: "fst (emitAudited f env r) = Some (fst r)"
  by (simp add: emitAudited_def case_prod_beta)

text \<open>Called with one of the two modes, only the enforced rules gate the call.\<close>

lemma gate_of_modes:
  assumes "slice_sorter policy_less srt" "m = PolicyModeShadow \<or> m = PolicyModeEnforcement"
  shows "hook_decision_of (ev_ActionTaken (Evaluate en srt env ps m)) =
    (if enforced_severity en env ps = 4 then HookDeny else if enforced_severity en env ps = 3 then HookAsk else HookAllow)"
proof (cases "2 \<le> enforced_severity en env ps")
  case True
  then show ?thesis by (simp add: Evaluate_action [OF assms(1)] severity_action_def hook_decision_of_def)
next
  case low: False
  show ?thesis
  proof (cases "(\<exists>(p, r)\<in>firing en env ps. p_Mode p = PolicyModeShadow) \<or> m = PolicyModeShadow")
    case True
    then show ?thesis using low assms(2)
      by (simp add: Evaluate_action [OF assms(1)] ResolveActionTaken_def hook_decision_of_def split: Decision.split)
  next
    case False
    then have "{(p, r). (p, r) \<in> firing en env ps \<and> p_Mode p \<noteq> PolicyModeShadow} = firing en env ps" by auto
    then have "overall_severity en env ps = enforced_severity en env ps"
      by (simp add: overall_severity_def enforced_severity_def)
    with False low show ?thesis
      by (simp add: Evaluate_action [OF assms(1)] severity_decision_def ResolveActionTaken_def hook_decision_of_def)
  qed
qed

text \<open>The hook fails closed on a call: for the tool named, or altogether.\<close>

definition fails_closed :: "hook_flags \<Rightarrow> string \<Rightarrow> bool" where
  "fails_closed f tool \<longleftrightarrow>
     (if csvSet (hf_failClosedTools f) = [] then hf_failClosed f else ToLower tool \<in> set (csvSet (hf_failClosedTools f)))"

lemma failDecide_closed: "fails_closed f tool \<Longrightarrow> fst (failDecide sv f tool) = HookDeny"
  by (simp add: fails_closed_def failDecide_def Let_def split: if_splits)

lemma recover_closed: "fst (recover_hook sv f tool r) = fst (failDecide sv f tool)"
  by (simp add: recover_hook_def case_prod_beta)

text \<open>The policies in force for a call, if it is evaluated at all.\<close>

definition hook_policies :: "services \<Rightarrow> loader \<Rightarrow> hook_flags \<Rightarrow> hook_call \<Rightarrow> string \<Rightarrow> Policy list option" where
  "hook_policies sv ld f c tool =
     (if (hf_policyDir f = [] \<and> hf_policyFile f = []) \<or> hc_panicLoad c \<noteq> None then None
      else case loadPolicySet ld (en_rt (sv_engine sv)) c (hf_policyDir f) (hf_policyFile f) of
          Inl _ \<Rightarrow> None
        | Inr ps \<Rightarrow> (if ps = [] \<or> PolicySetHash ld ps = None then None else Some ps))"

lemma guard_allows:
  assumes "fails_closed f (hook_tool inp)"
    and "ViolatesProtectedPaths (en_rt (sv_engine sv)) (Some env) (protectList f c) = None"
    and "env = hookEnvelope (en_rt (sv_engine sv)) (hook_tool inp) inp (hf_agentID f) c"
  shows "(\<exists>reason. fst (guard_call sv ld f c inp) = Some (HookAllow, reason)) \<longleftrightarrow>
    (\<exists>ps. hook_policies sv ld f c (hook_tool inp) = Some ps \<and> (hf_unknownToolsDeny f \<longrightarrow> ToolNameKnown (hook_tool inp) ps) \<and>
       hc_panicEval c = None \<and>
       hook_decision_of (ev_ActionTaken (Evaluate (sv_engine sv) (sv_sort sv) env ps (hook_mode f))) = HookAllow)"
proof -
  have out: "(\<exists>reason. fst (emitAudited f env r) = Some (HookAllow, reason)) \<longleftrightarrow> fst (fst r) = HookAllow" for r
    by (cases "fst r") (auto simp: emitAudited_output)
  have tool: "e_ToolName env = hook_tool inp" by (simp add: assms(3) hookEnvelope_def)
  have fail: "fst (failDecide sv f (hook_tool inp)) = HookDeny" "fst (recover_hook sv f (hook_tool inp) r) = HookDeny" for r
    using failDecide_closed [OF assms(1)] by (simp_all add: recover_closed)
  have eval: "fst (fst (evalHook sv ld f c env m)) = HookAllow \<longleftrightarrow>
      (hc_panicLoad c = None \<and> (\<exists>ps. loadPolicySet ld (en_rt (sv_engine sv)) c (hf_policyDir f) (hf_policyFile f) = Inr ps \<and> ps \<noteq> [] \<and>
        PolicySetHash ld ps \<noteq> None \<and> (hf_unknownToolsDeny f \<longrightarrow> ToolNameKnown (hook_tool inp) ps) \<and> hc_panicEval c = None \<and>
        hook_decision_of (ev_ActionTaken (Evaluate (sv_engine sv) (sv_sort sv) env ps m)) = HookAllow))" for m
    using fail by (simp add: evalHook_def tool Let_def split: option.split sum.split)
  show ?thesis
  proof (cases "hf_policyDir f = [] \<and> hf_policyFile f = []")
    case True
    have "guard_call sv ld f c inp = emitAudited f env (failDecide sv f (hook_tool inp), None, nil_hash ld)"
      using True assms(2) by (simp add: guard_call_def assms(3) Let_def)
    with out [of "(failDecide sv f (hook_tool inp), None, nil_hash ld)"] fail(1) True show ?thesis
      by (simp add: hook_policies_def)
  next
    case False
    have "guard_call sv ld f c inp = emitAudited f env (evalHook sv ld f c env (hook_mode f))"
      using False assms(2) by (auto simp: guard_call_def assms(3) Let_def)
    with out [of "evalHook sv ld f c env (hook_mode f)"] eval [of "hook_mode f"] False show ?thesis
      by (auto simp: hook_policies_def split: sum.splits if_splits)
  qed
qed

text \<open>C6: where the hook fails closed, it allows a call exactly if the call was read, no guard objects, a
  validated set of policies with a digest is loaded, the tool is known if it has to be, the engine did not
  panic, and no enforcement rule that denies or escalates fires; the mode of the call site plays no
  part.\<close>

theorem hook_fails_closed:
  assumes "slice_sorter policy_less (sv_sort sv)" and "parse_flags args hook_defaults = (None, f)"
    and "case read_hook_input c of Inl _ \<Rightarrow> hf_failClosed f \<or> csvSet (hf_failClosedTools f) \<noteq> []
       | Inr inp \<Rightarrow> fails_closed f (hook_tool inp)"
  shows "(\<exists>reason. fst (runHook sv ld args c) = Some (HookAllow, reason)) \<longleftrightarrow>
    (case read_hook_input c of
       Inl _ \<Rightarrow> False
     | Inr inp \<Rightarrow>
         (let env = hookEnvelope (en_rt (sv_engine sv)) (hook_tool inp) inp (hf_agentID f) c in
          ViolatesProtectedPaths (en_rt (sv_engine sv)) (Some env) (protectList f c) = None \<and>
          (case hook_policies sv ld f c (hook_tool inp) of
             None \<Rightarrow> False
           | Some ps \<Rightarrow> (hf_unknownToolsDeny f \<longrightarrow> ToolNameKnown (hook_tool inp) ps) \<and> hc_panicEval c = None \<and>
               enforced_severity (sv_engine sv) env ps < 3)))"
proof (cases "read_hook_input c")
  case (Inl why)
  with assms(2,3) show ?thesis by (auto simp: runHook_def failUnattributable_def)
next
  case (Inr inp)
  let ?env = "hookEnvelope (en_rt (sv_engine sv)) (hook_tool inp) inp (hf_agentID f) c"
  have run: "runHook sv ld args c = guard_call sv ld f c inp" using assms(2) Inr by (simp add: runHook_def)
  have m: "hook_mode f = PolicyModeShadow \<or> hook_mode f = PolicyModeEnforcement" by (simp add: hook_mode_def)
  have low: "(hook_decision_of (ev_ActionTaken (Evaluate (sv_engine sv) (sv_sort sv) ?env ps (hook_mode f))) = HookAllow) \<longleftrightarrow>
      enforced_severity (sv_engine sv) ?env ps < 3" for ps
    using gate_of_modes [OF assms(1) m, of "sv_engine sv" ?env ps] severities_le(1) [of "sv_engine sv" ?env ps] by auto
  show ?thesis
  proof (cases "ViolatesProtectedPaths (en_rt (sv_engine sv)) (Some ?env) (protectList f c)")
    case None
    have "fails_closed f (hook_tool inp)" using assms(3) Inr by simp
    from guard_allows [OF this None refl, of ld] low show ?thesis
      by (auto simp: run Inr Let_def None split: option.splits)
  next
    case (Some v)
    then show ?thesis by (simp add: run Inr guard_call_def Let_def emitAudited_output)
  qed
qed

text \<open>The settings that make the hook fail closed count only up to the first flag that does not parse.
  After a misspelt flag the hook allows every call it is asked about, whatever flags follow.\<close>

theorem misspelt_flag_fails_open:
  "runHook sv ld (''-failclosed'' # args) c = (Some (HookAllow, []), None)"
proof -
  have "parse_flags (''-failclosed'' # args) hook_defaults = (Some FlagInvalid, hook_defaults)"
    by (simp add: flag_name_def HasPrefix_def flag_parts_def hook_flag_def Let_def)
  moreover have "csvSet (hf_failClosedTools hook_defaults) = []" "\<not> hf_failClosed hook_defaults"
    by (simp_all add: hook_defaults_def csvSet_def csv_parts_def TrimSpace_def)
  ultimately show ?thesis by (simp add: runHook_def failUnattributable_def)
qed

text \<open>A number the decoder cannot hold hides the whole call. If one member of the tool input is out of
  the range of a \<open>float64\<close>, the call is guarded and evaluated with empty parameters: no protected path
  is found in it, and every policy sees the same call as for an empty input.\<close>

theorem hook_number_hides_input:
  assumes "json_to_map (en_rt (sv_engine sv)) ms [] = None"
  shows "guard_call sv ld f c \<lparr> hi_ToolName = n, hi_ToolInput = RawJson (JObj ms) \<rparr> =
      guard_call sv ld f c \<lparr> hi_ToolName = n, hi_ToolInput = RawJson (JObj []) \<rparr> \<and>
    ViolatesProtectedPaths (en_rt (sv_engine sv))
      (Some (hookEnvelope (en_rt (sv_engine sv)) tool \<lparr> hi_ToolName = n, hi_ToolInput = RawJson (JObj ms) \<rparr> agent c)) pfxs = None"
proof -
  let ?rt = "en_rt (sv_engine sv)"
  have p: "hook_params ?rt (RawJson (JObj ms)) = RawJson (JObj [])" "hook_params ?rt (RawJson (JObj [])) = RawJson (JObj [])"
    using assms by (simp_all add: hook_params_def unmarshal_map_def)
  let ?env = "hookEnvelope ?rt tool \<lparr> hi_ToolName = n, hi_ToolInput = RawJson (JObj ms) \<rparr> agent c"
  have "parseParams ?rt (e_Parameters ?env) = []"
    by (simp add: hookEnvelope_def p parseParams_def unmarshal_map_def)
  then have "\<not> ViolatesProtectedPaths ?rt (Some ?env) pfxs \<noteq> None"
    by (subst violates_iff [OF refl refl])
      (simp add: file_target_protected_def collectFilePaths_def path_keys_def edit_keys_def)
  moreover have "hook_tool \<lparr> hi_ToolName = n, hi_ToolInput = RawJson (JObj ms) \<rparr> = hook_tool \<lparr> hi_ToolName = n, hi_ToolInput = RawJson (JObj []) \<rparr>"
    "hookEnvelope ?rt t \<lparr> hi_ToolName = n, hi_ToolInput = RawJson (JObj ms) \<rparr> a c =
     hookEnvelope ?rt t \<lparr> hi_ToolName = n, hi_ToolInput = RawJson (JObj []) \<rparr> a c" for t a
    by (simp_all add: hook_tool_def hookEnvelope_def p)
  ultimately show ?thesis by (simp only: guard_call_def) simp
qed

text \<open>The hook does not tell apart two spellings of a tool name that differ in case, so that the exact
  comparison of the unknown-tools gate never refuses a case variant of a declared lower-case name.\<close>

theorem hook_folds_tool_names:
  "guard_call sv ld f c (inp \<lparr> hi_ToolName := ToLower n \<rparr>) = guard_call sv ld f c (inp \<lparr> hi_ToolName := n \<rparr>)"
proof -
  have t: "hook_tool (inp \<lparr> hi_ToolName := ToLower n \<rparr>) = hook_tool (inp \<lparr> hi_ToolName := n \<rparr>)"
    by (simp add: hook_tool_def TrimSpace_ToLower)
  have "hookEnvelope rt tool (inp \<lparr> hi_ToolName := ToLower n \<rparr>) a c = hookEnvelope rt tool (inp \<lparr> hi_ToolName := n \<rparr>) a c" for rt tool a
    by (simp add: hookEnvelope_def)
  with t show ?thesis by (simp only: guard_call_def)
qed

section \<open>Witnesses\<close>

definition hook_services :: services where
  "hook_services = \<lparr> sv_engine = number_engine, sv_sort = insertion_sorter, sv_codec = sample_codec, sv_Quote = id,
     sv_Details = (\<lambda>_. []), sv_Violation = (\<lambda>_. ''protected''), sv_Delims = (\<lambda>_. []), sv_Envelope = Inl,
     sv_Approval = (\<lambda>_. \<lparr> ap_Approver = [], ap_Reason = [] \<rparr>) \<rparr>"

definition read_call :: hook_call where
  "read_call = \<lparr> hc_stdin = Inr ''{}'', hc_input = (\<lambda>_. Some \<lparr> hi_ToolName = '' Read'', hi_ToolInput = RawJson (JObj []) \<rparr>),
     hc_home = None, hc_idTime = 1, hc_stamp = 1, hc_glob = (\<lambda>_. None), hc_file = (\<lambda>_. Some ''x''), hc_panicLoad = None,
     hc_panicEval = None \<rparr>"

definition closed_flags :: hook_flags where
  "closed_flags = hook_defaults \<lparr> hf_failClosed := True, hf_policyFile := ''p.yaml'' \<rparr>"

lemma closed_flags_parsed: "parse_flags [''-fail-closed'', ''--policy=p.yaml''] hook_defaults = (None, closed_flags)"
  by (simp add: closed_flags_def flag_name_def HasPrefix_def flag_parts_def hook_flag_def set_flag_def is_bool_flag_def ParseBool_def Let_def)

lemma read_call_read: "read_hook_input read_call = Inr \<lparr> hi_ToolName = '' Read'', hi_ToolInput = RawJson (JObj []) \<rparr>"
  by (simp add: read_hook_input_def read_call_def maxHookStdin_def)

lemma read_call_policies:
  "case hook_policies hook_services sample_loader closed_flags read_call tool of Some ps \<Rightarrow> list_all (\<lambda>p. p_Rules p = []) ps | None \<Rightarrow> False"
proof -
  have "case loadPolicySet sample_loader number_runtime read_call [] ''p.yaml'' of
      Inr ps \<Rightarrow> ps \<noteq> [] \<and> PolicySetHash sample_loader ps \<noteq> None \<and> list_all (\<lambda>p. p_Rules p = []) ps | Inl _ \<Rightarrow> False"
    by code_simp
  moreover have "hf_policyDir closed_flags = []" "hf_policyFile closed_flags = ''p.yaml''" "hc_panicLoad read_call = None"
    "en_rt (sv_engine hook_services) = number_runtime"
    by (simp_all add: closed_flags_def hook_defaults_def read_call_def hook_services_def number_engine_def)
  ultimately show ?thesis by (auto simp: hook_policies_def split: sum.splits)
qed

lemma no_rules_quiet: "list_all (\<lambda>p. p_Rules p = []) ps \<Longrightarrow> enforced_severity en env ps = 0"
proof -
  assume "list_all (\<lambda>p. p_Rules p = []) ps"
  then have none: "\<And>p r. (p, r) \<notin> firing en env ps" by (auto simp: firing_def list_all_iff)
  then have "{(p, r). (p, r) \<in> firing en env ps \<and> p_Mode p \<noteq> PolicyModeShadow} = {}" by auto
  then show ?thesis by (simp only: enforced_severity_def severities_def image_empty) simp
qed

theorem hook_fails_closed_witness:
  "\<exists>reason. fst (runHook hook_services sample_loader [''-fail-closed'', ''--policy=p.yaml''] read_call) = Some (HookAllow, reason)"
proof -
  let ?inp = "\<lparr> hi_ToolName = '' Read'', hi_ToolInput = RawJson (JObj []) \<rparr>"
  have srt: "slice_sorter policy_less (sv_sort hook_services)"
    using policies.slice_sorter_axioms by (simp add: hook_services_def)
  have flags: "hf_failClosed closed_flags" "csvSet (hf_failClosedTools closed_flags) = []" "protectList closed_flags read_call = []"
    "\<not> hf_unknownToolsDeny closed_flags" "hc_panicEval read_call = None"
    by (simp_all add: closed_flags_def hook_defaults_def csvSet_def csv_parts_def TrimSpace_def protectList_def splitCSVPaths_def read_call_def)
  have closed: "fails_closed closed_flags (hook_tool ?inp)" using flags by (simp add: fails_closed_def)
  obtain ps where ps: "hook_policies hook_services sample_loader closed_flags read_call (hook_tool ?inp) = Some ps" "list_all (\<lambda>p. p_Rules p = []) ps"
    using read_call_policies [of "hook_tool ?inp"] by (auto split: option.splits)
  show ?thesis
    using hook_fails_closed [OF srt closed_flags_parsed, of read_call sample_loader] closed flags ps no_rules_quiet [OF ps(2)]
    by (simp add: read_call_read Let_def ViolatesProtectedPaths_def)
qed

theorem hook_number_hides_input_witness:
  "ViolatesProtectedPaths number_runtime (Some (hookEnvelope number_runtime ''write''
     \<lparr> hi_ToolName = ''Write'', hi_ToolInput = RawJson (JObj [(''file_path'', JStr ''/etc/x''), (''n'', JNum ''1e999'')]) \<rparr> ''a'' read_call)) [''/etc''] = None"
proof -
  have "json_to_map (en_rt (sv_engine hook_services)) [(''file_path'', JStr ''/etc/x''), (''n'', JNum ''1e999'')] [] = None"
    by (simp add: hook_services_def number_engine_def number_runtime_def)
  from hook_number_hides_input [OF this, where tool = "''write''" and n = "''Write''" and agent = "''a''" and c = read_call and pfxs = "[''/etc'']"]
  show ?thesis by (simp add: hook_services_def number_engine_def)
qed

end
