(* ===== verification/Hook_Audit.thy ===== *)
theory Hook_Audit
  imports Hook
begin

text \<open>
  The audit log of the hook (\<open>cmd/tg/hook_audit.go\<close>): every decision is appended to one file by a process
  of its own, which takes a lock, verifies the whole log, links its record and writes it with one call.
  The answers of the system are in \<open>hook_io\<close>; \<open>hook_system\<close> interleaves any number of processes, each of
  which may die at any point.
\<close>

section \<open>The record of a decision\<close>

definition hookDecisionToDomain :: "hook_decision \<Rightarrow> Decision \<times> ActionTaken" where
  "hookDecisionToDomain d =
     (case d of HookDeny \<Rightarrow> (DecisionDenied, ActionDenied) | HookAsk \<Rightarrow> (DecisionEscalated, ActionEscalated)
      | HookAllow \<Rightarrow> (DecisionAllowed, ActionAllowed))"

text \<open>\<open>now\<close> and \<open>idTime\<close> are the two readings of the clock; the redacted parameters of a hook's envelope
  are nil.\<close>

definition hook_trace :: "services \<Rightarrow> time \<Rightarrow> time \<Rightarrow> hook_entry \<Rightarrow> DecisionTrace" where
  "hook_trace sv now idTime he =
     (let env = he_Envelope he;
          env = (if e_Timestamp env = 0 then env \<lparr> e_Timestamp := now \<rparr> else env);
          t = (case he_Result he of
                 None \<Rightarrow>
                   (let (d, a) = hookDecisionToDomain (he_Decision he)
                    in (envelope_trace sv idTime (e_Timestamp env) env)
                         \<lparr> dt_Decision := decision_string d, dt_ActionTaken := action_string a, dt_DecisionReason := he_Reason he \<rparr>)
               | Some res \<Rightarrow> evaluation_trace sv idTime env res)
      in t \<lparr> dt_CanonicalVersion := CanonicalTraceVersion \<rparr>)"

definition hook_stamp :: "services \<Rightarrow> loader \<Rightarrow> string \<Rightarrow> time \<Rightarrow> time \<Rightarrow> hook_entry \<Rightarrow> audit_error + DecisionTrace" where
  "hook_stamp sv ld version now idTime he =
     StampProvenance version (if he_PolicySetHash he = [] then nil_hash ld else he_PolicySetHash he)
       (hook_trace sv now idTime he)"

section \<open>Appending\<close>

record hook_io =
  ho_lock :: bool
  ho_open :: bool
  ho_read :: bool
  ho_reopen :: bool
  ho_written :: nat
  ho_writeOk :: bool
  ho_sync :: bool

datatype hook_audit_error =
    HookStamp audit_error | HookLock | HookOpen | HookRead | HookPruned | HookBroken "stream_fault option"
  | HookHash audit_error | HookOversize | HookReopen | HookWrite | HookSync

text \<open>The file is missing or has some content. The result is the verified tail and whether a separator is
  needed.\<close>

definition verifyHookAuditChain :: "codec \<Rightarrow> hook_io \<Rightarrow> string option \<Rightarrow> hook_audit_error + (string \<times> bool)" where
  "verifyHookAuditChain cd io file =
     (case file of
        None \<Rightarrow> Inr ([], False)
      | Some b \<Rightarrow>
          (if \<not> ho_open io then Inl HookOpen
           else
             let report = VerifyChainFromReader cd b in
             if sr_Pruned report then Inl HookPruned
             else if \<not> sr_Intact report then Inl (HookBroken (sr_FailureReason report))
             else if \<not> ho_read io then Inl HookRead
             else Inr (sr_Tail report, NeedsRecordSeparator b)))"

text \<open>The bytes to append: the record, behind a separator if the file does not end in one.\<close>

definition plan_record :: "codec \<Rightarrow> hook_io \<Rightarrow> DecisionTrace \<Rightarrow> string option \<Rightarrow> hook_audit_error + string" where
  "plan_record cd io t file =
     (case verifyHookAuditChain cd io file of
        Inl e \<Rightarrow> Inl e
      | Inr (prev, sep) \<Rightarrow>
          (let t = t \<lparr> dt_PreviousTraceHash := prev \<rparr> in
           case ComputeCanonicalTraceHash cd t of
             Inl e \<Rightarrow> Inl (HookHash e)
           | Inr h \<Rightarrow>
               (case MarshalTraceRecord cd (t \<lparr> dt_TraceHash := h \<rparr>) of
                  None \<Rightarrow> Inl HookOversize
                | Some raw \<Rightarrow> Inr (record_bytes sep raw))))"

text \<open>Opening creates a missing file; a write may stop short, and is not taken back.\<close>

definition file_content :: "string option \<Rightarrow> string" where
  "file_content file = (case file of None \<Rightarrow> [] | Some b \<Rightarrow> b)"

definition commit_record :: "hook_io \<Rightarrow> string \<Rightarrow> string option \<Rightarrow> hook_audit_error option \<times> string option" where
  "commit_record io rec file =
     (if \<not> ho_reopen io then (Some HookReopen, file)
      else
        let n = min (ho_written io) (length rec);
            file' = Some (file_content file @ take n rec)
        in if \<not> ho_writeOk io \<or> n \<noteq> length rec then (Some HookWrite, file')
           else if \<not> ho_sync io then (Some HookSync, file')
           else (None, file'))"

definition append_record :: "codec \<Rightarrow> hook_io \<Rightarrow> DecisionTrace \<Rightarrow> string option \<Rightarrow> hook_audit_error option \<times> string option" where
  "append_record cd io t file =
     (if \<not> ho_lock io then (Some HookLock, file)
      else case plan_record cd io t file of Inl e \<Rightarrow> (Some e, file) | Inr rec \<Rightarrow> commit_record io rec file)"

definition appendHookAudit ::
  "services \<Rightarrow> loader \<Rightarrow> string \<Rightarrow> time \<Rightarrow> time \<Rightarrow> hook_io \<Rightarrow> hook_entry \<Rightarrow> string option \<Rightarrow> hook_audit_error option \<times> string option" where
  "appendHookAudit sv ld version now idTime io he file =
     (case hook_stamp sv ld version now idTime he of
        Inl e \<Rightarrow> (Some (HookStamp e), file)
      | Inr t \<Rightarrow> append_record (sv_codec sv) io t file)"

text \<open>The whole process: the decision is written first, and no answer of the log changes it.\<close>

definition hook_process ::
  "services \<Rightarrow> loader \<Rightarrow> string \<Rightarrow> time \<Rightarrow> time \<Rightarrow> hook_io \<Rightarrow> string list \<Rightarrow> hook_call \<Rightarrow> string option \<Rightarrow>
     (hook_decision \<times> string) option \<times> string option" where
  "hook_process sv ld version now idTime io args c file =
     (case runHook sv ld args c of
        (out, None) \<Rightarrow> (out, file)
      | (out, Some he) \<Rightarrow> (out, snd (appendHookAudit sv ld version now idTime io he file)))"

section \<open>Several processes\<close>

text \<open>A process waits for the lock, holds it, has planned its record, or has left.\<close>

datatype hook_phase = Waiting DecisionTrace | Holding DecisionTrace | Planned string | Gone

record hook_system =
  hs_file :: "string option"
  hs_holder :: "nat option"
  hs_phase :: "nat \<Rightarrow> hook_phase"

text \<open>Leaving covers the release of the lock, every error, giving up, and the death of the process, whose
  lock the kernel releases.\<close>

definition leaves :: "nat \<Rightarrow> hook_system \<Rightarrow> hook_system" where
  "leaves i s = s \<lparr> hs_holder := (if hs_holder s = Some i then None else hs_holder s), hs_phase := (hs_phase s)(i := Gone) \<rparr>"

inductive hook_step :: "codec \<Rightarrow> hook_system \<Rightarrow> hook_system \<Rightarrow> bool" for cd where
  locks: "hs_phase s i = Waiting t \<Longrightarrow> hs_holder s = None \<Longrightarrow>
    hook_step cd s (s \<lparr> hs_holder := Some i, hs_phase := (hs_phase s)(i := Holding t) \<rparr>)"
| plans: "hs_phase s i = Holding t \<Longrightarrow> plan_record cd io t (hs_file s) = Inr rec \<Longrightarrow>
    hook_step cd s (s \<lparr> hs_phase := (hs_phase s)(i := Planned rec) \<rparr>)"
| writes: "hs_phase s i = Planned rec \<Longrightarrow> commit_record io rec (hs_file s) = (err, file) \<Longrightarrow>
    hook_step cd s (leaves i (s \<lparr> hs_file := file \<rparr>))"
| leaving: "hook_step cd s (leaves i s)"

inductive_cases hook_stepE: "hook_step cd s s'"

section \<open>Interleavings are sequences of appends\<close>

definition one_append :: "codec \<Rightarrow> string option \<Rightarrow> string option \<Rightarrow> bool" where
  "one_append cd f f' \<longleftrightarrow> (\<exists>io t err. append_record cd io t f = (err, f'))"

definition busy :: "hook_phase \<Rightarrow> bool" where
  "busy ph \<longleftrightarrow> (case ph of Holding _ \<Rightarrow> True | Planned _ \<Rightarrow> True | _ \<Rightarrow> False)"

lemma busy_simps [simp]: "\<not> busy (Waiting t)" "\<not> busy Gone" "busy (Holding t)" "busy (Planned rec)"
  by (simp_all add: busy_def)

text \<open>Only the holder of the lock is past waiting, and what it has planned still fits the file.\<close>

definition exclusive :: "codec \<Rightarrow> hook_system \<Rightarrow> bool" where
  "exclusive cd s \<longleftrightarrow> (\<forall>i. busy (hs_phase s i) \<longrightarrow> hs_holder s = Some i) \<and>
     (\<forall>i rec. hs_phase s i = Planned rec \<longrightarrow> (\<exists>io t. plan_record cd io t (hs_file s) = Inr rec))"

lemma exclusive_leaves:
  "exclusive cd s \<Longrightarrow> hs_file s = hs_file s' \<or> hs_holder s = Some i \<Longrightarrow> hs_holder s' = hs_holder s \<Longrightarrow> hs_phase s' = hs_phase s \<Longrightarrow>
   exclusive cd (leaves i s')"
  unfolding exclusive_def leaves_def by (auto split: if_splits) force+

lemma planned_append:
  assumes "plan_record cd io t file = Inr rec" "commit_record io' rec file = (err, file')"
  shows "one_append cd file file'"
proof -
  let ?io = "io' \<lparr> ho_lock := True, ho_open := ho_open io, ho_read := ho_read io \<rparr>"
  have "plan_record cd ?io t file = Inr rec"
    using assms(1) by (simp add: plan_record_def verifyHookAuditChain_def cong: option.case_cong if_cong)
  moreover have "commit_record ?io rec file = (err, file')"
    using assms(2) by (auto simp: commit_record_def Let_def split: if_splits)
  ultimately show ?thesis unfolding one_append_def append_record_def
    by (intro exI [of _ ?io] exI [of _ t] exI [of _ err]) simp
qed

lemma hook_step_serial:
  assumes "hook_step cd s s'" "exclusive cd s"
  shows "exclusive cd s' \<and> (hs_file s' = hs_file s \<or> one_append cd (hs_file s) (hs_file s'))"
  using assms(1)
proof (cases rule: hook_step.cases)
  case (locks i t)
  with assms(2) show ?thesis by (auto simp: exclusive_def)
next
  case (plans i t io rec)
  with assms(2) show ?thesis unfolding exclusive_def by (auto split: if_splits)
next
  case (writes i rec io err f)
  have h: "hs_holder s = Some i" "\<exists>io t. plan_record cd io t (hs_file s) = Inr rec"
    using assms(2) writes(2) by (auto simp: exclusive_def)
  have "exclusive cd s'"
    unfolding writes(1) by (rule exclusive_leaves [OF assms(2)]) (use h in simp_all)
  with h(2) writes planned_append show ?thesis by (auto simp: leaves_def)
next
  case (leaving i)
  have "exclusive cd s'" unfolding leaving by (rule exclusive_leaves [OF assms(2)]) simp_all
  then show ?thesis by (simp add: leaving leaves_def)
qed

lemma hook_run_serial:
  "(hook_step cd)\<^sup>*\<^sup>* s s' \<Longrightarrow> exclusive cd s \<Longrightarrow> exclusive cd s' \<and> (one_append cd)\<^sup>*\<^sup>* (hs_file s) (hs_file s')"
proof (induction rule: rtranclp_induct)
  case (step b c)
  from hook_step_serial [OF step(2)] step.IH step.prems show ?case by (metis rtranclp.rtrancl_into_rtrancl)
qed simp

text \<open>C7: the lock makes the hooks of one log take turns. However the processes interleave, and wherever one
  of them dies, the log is what some sequence of complete turns, one process after the other, leaves.\<close>

theorem hook_processes_serialize:
  assumes "hs_holder s = None" and "\<And>i. hs_phase s i = Gone \<or> (\<exists>t. hs_phase s i = Waiting t)"
    and "(hook_step cd)\<^sup>*\<^sup>* s s'"
  shows "(one_append cd)\<^sup>*\<^sup>* (hs_file s) (hs_file s')"
proof -
  have "\<not> busy (hs_phase s i)" for i using assms(2) [of i] by auto
  then have "exclusive cd s" unfolding exclusive_def by (metis busy_simps(4))
  with hook_run_serial [OF assms(3)] show ?thesis by blast
qed

section \<open>What a turn does to the log\<close>

definition hook_log :: "codec \<Rightarrow> DecisionTrace list \<Rightarrow> string option \<Rightarrow> bool" where
  "hook_log cd ts file \<longleftrightarrow> (case file of None \<Rightarrow> ts = [] | Some b \<Rightarrow> stream_traces cd b = Some ts \<and> intact_chain cd ts)"

lemma hook_log_content: "hook_log cd ts file \<Longrightarrow> stream_traces cd (file_content file) = Some ts \<and> intact_chain cd ts"
  by (auto simp: hook_log_def file_content_def stream_traces_raw intact_chain_def split: option.splits)

lemma verified_log:
  assumes "verifyHookAuditChain cd io file = Inr (prev, sep)" "hook_log cd ts file"
  shows "prev = tail_from [] ts" "sep = NeedsRecordSeparator (file_content file)"
  using assms verify_chain_exact(2) [of cd "file_content file" ts]
  by (auto simp: verifyHookAuditChain_def hook_log_def file_content_def Let_def NeedsRecordSeparator_def split: option.splits if_splits)

lemma planned_record:
  assumes "plan_record cd io t file = Inr rec" "hook_log cd ts file" "dt_CanonicalVersion t = CanonicalTraceVersion"
  obtains u raw where "link_trace cd (tail_from [] ts) t = Inr u" "MarshalTraceRecord cd u = Some raw"
    "rec = record_bytes (NeedsRecordSeparator (file_content file)) raw"
proof -
  obtain prev sep where v: "verifyHookAuditChain cd io file = Inr (prev, sep)"
    using assms(1) by (auto simp: plan_record_def split: sum.splits)
  note vl = verified_log [OF v assms(2)]
  have self: "t \<lparr> dt_CanonicalVersion := CanonicalTraceVersion, dt_PreviousTraceHash := p \<rparr> = t \<lparr> dt_PreviousTraceHash := p \<rparr>" for p
    using assms(3) by (cases t) simp
  from assms(1) v obtain h raw where "ComputeCanonicalTraceHash cd (t \<lparr> dt_PreviousTraceHash := prev \<rparr>) = Inr h"
    "MarshalTraceRecord cd (t \<lparr> dt_PreviousTraceHash := prev, dt_TraceHash := h \<rparr>) = Some raw" "rec = record_bytes sep raw"
    by (auto simp: plan_record_def Let_def split: sum.splits option.splits)
  with that vl self show thesis by (auto simp: link_trace_def)
qed

lemma appended_log:
  assumes "hook_log cd ts file" "link_trace cd (tail_from [] ts) t = Inr u" "MarshalTraceRecord cd u = Some raw" "round_trips cd u"
  shows "hook_log cd (ts @ [u]) (Some (file_content file @ record_bytes (NeedsRecordSeparator (file_content file)) raw))"
proof -
  let ?b = "file_content file"
  note log = hook_log_content [OF assms(1)]
  have "boundary ?b (record_bytes (NeedsRecordSeparator ?b) raw)" by (simp add: boundary_def record_bytes_def)
  from stream_traces_append [OF this] record_stream [OF assms(4,3)] log
  have "stream_traces cd (?b @ record_bytes (NeedsRecordSeparator ?b) raw) = Some (ts @ [u])" by simp
  with link_trace_extends [OF _ assms(2)] log show ?thesis by (simp add: hook_log_def)
qed

text \<open>An append on a verified log either adds one linked record, or leaves the log as it was, or, when
  the system cuts the write short, leaves a part of the record behind it.\<close>

theorem hook_append_effect:
  assumes "hook_log cd ts file" and "dt_CanonicalVersion t = CanonicalTraceVersion"
    and "\<And>u. link_trace cd (tail_from [] ts) t = Inr u \<Longrightarrow> round_trips cd u"
    and "append_record cd io t file = (err, file')"
  shows "case err of
      None \<Rightarrow> \<exists>u. link_trace cd (tail_from [] ts) t = Inr u \<and> hook_log cd (ts @ [u]) file'
    | Some HookSync \<Rightarrow> \<exists>u. link_trace cd (tail_from [] ts) t = Inr u \<and> hook_log cd (ts @ [u]) file'
    | Some HookWrite \<Rightarrow> \<exists>u raw n. link_trace cd (tail_from [] ts) t = Inr u \<and> MarshalTraceRecord cd u = Some raw \<and>
        file' = Some (file_content file @ take n (record_bytes (NeedsRecordSeparator (file_content file)) raw))
    | Some _ \<Rightarrow> file' = file"
proof (cases "ho_lock io \<and> ho_reopen io \<and> (\<exists>rec. plan_record cd io t file = Inr rec)")
  case False
  then have "file' = file \<and> err \<noteq> None \<and> err \<noteq> Some HookSync \<and> err \<noteq> Some HookWrite"
    using assms(4)
    by (auto simp: append_record_def plan_record_def verifyHookAuditChain_def commit_record_def Let_def split: if_splits sum.splits option.splits)
  then show ?thesis by (cases err) (auto split: hook_audit_error.splits)
next
  case True
  then obtain rec where plan: "plan_record cd io t file = Inr rec" by blast
  obtain u raw where u: "link_trace cd (tail_from [] ts) t = Inr u" "MarshalTraceRecord cd u = Some raw"
    "rec = record_bytes (NeedsRecordSeparator (file_content file)) raw"
    by (rule planned_record [OF plan assms(1,2)])
  have whole: "hook_log cd (ts @ [u]) (Some (file_content file @ rec))"
    unfolding u(3) by (rule appended_log [OF assms(1) u(1,2) assms(3) [OF u(1)]])
  have "commit_record io rec file = (err, file')" using assms(4) True plan by (simp add: append_record_def)
  with True consider "err = None \<or> err = Some HookSync" "file' = Some (file_content file @ rec)"
    | n where "err = Some HookWrite" "file' = Some (file_content file @ take n rec)"
    by (auto simp: commit_record_def Let_def split: if_splits)
  then show ?thesis
  proof cases
    case 1
    with whole u(1) show ?thesis by auto
  next
    case 2
    with u show ?thesis by auto
  qed
qed

section \<open>A torn write\<close>

lemma broken_stays: "\<not> sr_Intact (VerifyChainFromReader cd b) \<Longrightarrow> one_append cd (Some b) f \<Longrightarrow> f = Some b"
  by (auto simp: one_append_def append_record_def plan_record_def verifyHookAuditChain_def Let_def split: if_splits sum.splits)

lemma cut_not_intact:
  assumes "hook_log cd ts file" "p \<noteq> []" "CHR 0x0A \<notin> set p" "last p \<noteq> CHR 0x0D" "cd_record_type cd p = None"
  shows "\<not> sr_Intact (VerifyChainFromReader cd
    (file_content file @ (if NeedsRecordSeparator (file_content file) then [CHR 0x0A] else []) @ p))"
proof -
  let ?b = "file_content file" and ?sep = "if NeedsRecordSeparator (file_content file) then [CHR 0x0A] else []"
  have "raw_lines p = [p]" using assms(2,3) by (simp add: raw_lines_def SplitByte_noocc)
  then have "raw_traces cd (raw_lines p) = None"
    using assms(2,4,5) by (simp add: raw_traces_def lines_traces_scanned drop_cr_id)
  then have "stream_traces cd (?sep @ p) = None"
    using raw_lines_terminated [of "[]" p] by (simp add: stream_traces_raw)
  moreover have "boundary ?b (?sep @ p)" by (simp add: boundary_def)
  ultimately have "stream_traces cd (?b @ ?sep @ p) = None"
    using stream_traces_append [of ?b "?sep @ p" cd] hook_log_content [OF assms(1)] by simp
  then show ?thesis by (simp add: verify_chain_exact(1))
qed

text \<open>C14: a write that the system cuts short ends the log. If a part of the record reached the file, no hook
  ever appends a byte again, whatever processes follow; the decisions go on.\<close>

theorem torn_write_ends_hook_log:
  assumes "hook_log cd ts file" and "0 < k" and "k \<le> length raw" and "CHR 0x0A \<notin> set raw" and "CHR 0x0D \<notin> set raw"
    and "cd_record_type cd (take k raw) = None"
    and "append_record cd io t file =
      (Some HookWrite, Some (file_content file @ (if NeedsRecordSeparator (file_content file) then [CHR 0x0A] else []) @ take k raw))"
    and "(one_append cd)\<^sup>*\<^sup>* (snd (append_record cd io t file)) file'"
  shows "file' = Some (file_content file @ (if NeedsRecordSeparator (file_content file) then [CHR 0x0A] else []) @ take k raw)"
proof -
  have p: "take k raw \<noteq> []" "CHR 0x0A \<notin> set (take k raw)" using assms(2-4) by (auto dest: in_set_takeD)
  have "last (take k raw) \<in> set raw" using last_in_set [OF p(1)] by (rule in_set_takeD)
  then have "last (take k raw) \<noteq> CHR 0x0D" using assms(5) by metis
  note p = p this
  note broken = cut_not_intact [OF assms(1) p assms(6)]
  have "file' = snd (append_record cd io t file)"
    using assms(8)
  proof (induction rule: rtranclp_induct)
    case (step f f')
    with broken_stays [OF broken] assms(7) show ?case by simp
  qed simp
  with assms(7) show ?thesis by simp
qed

section \<open>Witnesses\<close>

definition good_io :: hook_io where
  "good_io = \<lparr> ho_lock = True, ho_open = True, ho_read = True, ho_reopen = True, ho_written = 100, ho_writeOk = True, ho_sync = True \<rparr>"

text \<open>A codec whose only line is \<open>{}\<close>.\<close>

definition strict_codec :: codec where
  "strict_codec = store_codec \<lparr> cd_record_type := (\<lambda>l. if l = ''{}'' then Some [] else None) \<rparr>"

lemma sample_plan:
  assumes "cd_marshal cd = (\<lambda>_. ''{}'')"
  shows "plan_record cd io sample_trace None = Inr (''{}'' @ [CHR 0x0A])"
proof -
  let ?t = "sample_trace \<lparr> dt_PreviousTraceHash := [] \<rparr>"
  have self: "sample_trace \<lparr> dt_CanonicalVersion := CanonicalTraceVersion, dt_PreviousTraceHash := [] \<rparr> = ?t"
    by (simp add: sample_trace_def CanonicalTraceVersion_def canonicalTraceVersionV2_def)
  have link: "link_trace cd [] sample_trace =
      (case ComputeCanonicalTraceHash cd ?t of Inl e \<Rightarrow> Inl e | Inr h \<Rightarrow> Inr (?t \<lparr> dt_TraceHash := h \<rparr>))"
    by (simp only: link_trace_def Let_def self)
  obtain h where "ComputeCanonicalTraceHash cd ?t = Inr h"
    using link sample_link [of cd] by (cases "ComputeCanonicalTraceHash cd ?t") simp_all
  then show ?thesis using assms
    by (simp add: plan_record_def verifyHookAuditChain_def MarshalTraceRecord_def MaxTraceRecordBytes_def record_bytes_def)
qed

lemma store_marshal: "cd_marshal store_codec = (\<lambda>_. ''{}'')" "cd_marshal strict_codec = (\<lambda>_. ''{}'')"
  by (simp_all add: store_codec_def strict_codec_def)

lemma sample_version: "dt_CanonicalVersion sample_trace = CanonicalTraceVersion"
  by (simp add: sample_trace_def CanonicalTraceVersion_def canonicalTraceVersionV2_def)

lemma sample_commit: "commit_record good_io [CHR ''{'', CHR ''}'', CHR 0x0A] None = (None, Some [CHR ''{'', CHR ''}'', CHR 0x0A])"
  by code_simp

definition two_hooks :: hook_system where
  "two_hooks = \<lparr> hs_file = None, hs_holder = None, hs_phase = (\<lambda>i. if i < 2 then Waiting sample_trace else Gone) \<rparr>"

theorem hook_processes_serialize_witness:
  "(one_append store_codec)\<^sup>*\<^sup>* None (Some (''{}'' @ [CHR 0x0A]))"
proof -
  let ?s1 = "two_hooks \<lparr> hs_holder := Some 1, hs_phase := (hs_phase two_hooks)(1 := Holding sample_trace) \<rparr>"
  let ?s2 = "?s1 \<lparr> hs_phase := (hs_phase ?s1)(1 := Planned (''{}'' @ [CHR 0x0A])) \<rparr>"
  let ?s3 = "leaves 1 (?s2 \<lparr> hs_file := Some (''{}'' @ [CHR 0x0A]) \<rparr>)"
  have "hook_step store_codec two_hooks ?s1" by (rule hook_step.locks) (simp_all add: two_hooks_def)
  moreover have "hook_step store_codec ?s1 ?s2"
    by (rule hook_step.plans [where io = good_io and t = sample_trace]) (simp_all add: two_hooks_def sample_plan [OF store_marshal(1)])
  moreover have "hook_step store_codec ?s2 ?s3"
    by (rule hook_step.writes [where io = good_io and err = None and rec = "''{}'' @ [CHR 0x0A]"])
      (simp_all add: two_hooks_def sample_commit)
  ultimately have run: "(hook_step store_codec)\<^sup>*\<^sup>* two_hooks ?s3"
    by (meson rtranclp.rtrancl_into_rtrancl rtranclp.rtrancl_refl)
  have start: "hs_holder two_hooks = None" "hs_phase two_hooks i = Gone \<or> (\<exists>t. hs_phase two_hooks i = Waiting t)" for i
    by (simp_all add: two_hooks_def)
  from hook_processes_serialize [OF start run] show ?thesis by (simp add: leaves_def two_hooks_def)
qed

theorem hook_append_effect_witness:
  "hook_log store_codec [sample_linked sample_codec] (snd (append_record store_codec good_io sample_trace None))"
proof -
  have log: "hook_log store_codec [] None" by (simp add: hook_log_def)
  have rt: "link_trace store_codec (tail_from [] []) sample_trace = Inr u \<Longrightarrow> round_trips store_codec u" for u
    using store_link store_round_trips by simp
  have app: "append_record store_codec good_io sample_trace None = (None, Some (''{}'' @ [CHR 0x0A]))"
    using sample_plan [OF store_marshal(1), of good_io] sample_commit by (simp add: append_record_def) (simp add: good_io_def)
  from hook_append_effect [OF log sample_version rt app] app store_link show ?thesis by simp
qed

theorem torn_write_ends_hook_log_witness:
  "snd (append_record strict_codec good_io sample_trace
     (snd (append_record strict_codec (good_io \<lparr> ho_written := 1 \<rparr>) sample_trace None))) = Some ''{''"
proof -
  let ?torn = "append_record strict_codec (good_io \<lparr> ho_written := 1 \<rparr>) sample_trace None"
  have log: "hook_log strict_codec [] None" by (simp add: hook_log_def)
  have torn: "?torn = (Some HookWrite, Some (file_content None @ (if NeedsRecordSeparator (file_content None) then [CHR 0x0A] else []) @ take 1 ''{}''))"
    by (simp add: append_record_def good_io_def sample_plan [OF store_marshal(2)] commit_record_def file_content_def NeedsRecordSeparator_def Let_def)
  have next_turn: "(one_append strict_codec)\<^sup>*\<^sup>* (snd ?torn) (snd (append_record strict_codec good_io sample_trace (snd ?torn)))"
    by (rule r_into_rtranclp) (metis one_append_def prod.collapse)
  have c: "(0 :: nat) < 1" "1 \<le> length ''{}''" "CHR 0x0A \<notin> set ''{}''" "CHR 0x0D \<notin> set ''{}''"
    "cd_record_type strict_codec (take 1 ''{}'') = None" by (simp_all add: strict_codec_def)
  from torn_write_ends_hook_log [OF log c torn next_turn]
  show ?thesis by (simp add: file_content_def NeedsRecordSeparator_def)
qed

end
