(* ===== verification/Prune.thy ===== *)
theory Prune
  imports Audit_History
begin

text \<open>
  Pruning a closed log, \<open>tg prune\<close> (\<open>cmd/tg/prune.go\<close>): the prefix of records older than a cutoff is
  replaced by a checkpoint, and the rest is copied byte for byte. The input may be read differently each
  time; every read and every answer of the file system is a member of \<open>prune_fs\<close>. The time of a record
  and the encoding of a checkpoint are in \<open>prune_env\<close>.
\<close>

section \<open>Lines with their ends\<close>

text \<open>\<open>pruneRawLines\<close>: a line keeps its LF, and the last one may have none.\<close>

fun pruneRawLines :: "string \<Rightarrow> string list" where
  "pruneRawLines [] = []"
| "pruneRawLines (c # s) =
     (if c = CHR 0x0A then [c] # pruneRawLines s
      else case pruneRawLines s of [] \<Rightarrow> [[c]] | l # ls \<Rightarrow> (c # l) # ls)"

text \<open>A line must fit the scanner's buffer, which is one byte larger than the verifier's. Without an end
  it must leave room for one.\<close>

definition fits_prune :: "string \<Rightarrow> bool" where
  "fits_prune raw \<longleftrightarrow> length raw \<le> (if last raw = CHR 0x0A then Suc MaxTraceRecordScanBytes else MaxTraceRecordScanBytes)"

definition blank_line :: "string \<Rightarrow> bool" where
  "blank_line raw \<longleftrightarrow> list_all (\<lambda>c. c = CHR 0x0D \<or> c = CHR 0x0A) raw"

text \<open>The document on a line; white space after it means nothing to the decoder.\<close>

definition line_of :: "string \<Rightarrow> string" where
  "line_of raw = drop_cr (TrimSuffix raw [CHR 0x0A])"

section \<open>Selecting the prefix\<close>

record prune_env =
  pe_time :: "string \<Rightarrow> int"
  pe_encode :: "PruneCheckpoint \<Rightarrow> string"

datatype prune_error =
    BecomesSibling | HasSiblings | OutputExists | OutputSiblings | InputUnreadable | NotRegular | ChangedOpening
  | InputBroken "stream_fault option" | LineTooLong | BadRecordType | BadPrior checkpoint_fault | BadRecord
  | NoTimestamp | CountOverflow | ChangedSelecting | InputChanged | TempFailed | CopyFailed | OutputBroken "stream_fault option"
  | PublishFailed

record prune_state =
  ps_offset :: nat
  ps_retainOffset :: nat
  ps_removed :: nat
  ps_retaining :: bool
  ps_cp :: PruneCheckpoint

definition maxInt64 :: int where
  "maxInt64 = 2 ^ 63 - 1"

definition prune_start :: "codec \<Rightarrow> int \<Rightarrow> string \<Rightarrow> prune_state" where
  "prune_start cd cutoff tail_hash = \<lparr> ps_offset = 0, ps_retainOffset = 0, ps_removed = 0, ps_retaining = False,
     ps_cp = \<lparr> cp_RecordType = ''prune_checkpoint'', cp_Version = 1, cp_RemovedCount = 0, cp_LastRemovedIndex = 0,
       cp_LastRemovedHash = [], cp_LastRemovedTimestamp = cd_zero_time cd, cp_BoundaryCanonicalVersion = [],
       cp_Cutoff = cutoff, cp_RetainedCount = 0, cp_RetainedTailHash = tail_hash, cp_CheckpointHash = [] \<rparr> \<rparr>"

definition remove_record :: "prune_env \<Rightarrow> DecisionTrace \<Rightarrow> prune_state \<Rightarrow> prune_error + prune_state" where
  "remove_record pe t s =
     (let cp = ps_cp s in
      if cp_RemovedCount cp = maxInt64 then Inl CountOverflow
      else Inr (s \<lparr> ps_removed := Suc (ps_removed s),
             ps_cp := cp \<lparr> cp_RemovedCount := cp_RemovedCount cp + 1, cp_LastRemovedHash := dt_TraceHash t,
               cp_LastRemovedTimestamp := pe_time pe (dt_Timestamp t),
               cp_BoundaryCanonicalVersion := (if dt_CanonicalVersion t = [] then ''v1'' else dt_CanonicalVersion t) \<rparr> \<rparr>))"

definition retain_record :: "string \<Rightarrow> prune_state \<Rightarrow> prune_state" where
  "retain_record raw s =
     (let s = (if ps_retaining s then s else s \<lparr> ps_retainOffset := ps_offset s - length raw, ps_retaining := True \<rparr>);
          cp = ps_cp s
      in s \<lparr> ps_cp := cp \<lparr> cp_RetainedCount := cp_RetainedCount cp + 1 \<rparr> \<rparr>)"

definition prune_line :: "prune_env \<Rightarrow> codec \<Rightarrow> int \<Rightarrow> prune_state \<Rightarrow> string \<Rightarrow> prune_error + prune_state" where
  "prune_line pe cd cutoff s0 raw =
     (let s = s0 \<lparr> ps_offset := ps_offset s0 + length raw \<rparr> in
      if blank_line raw then Inr s
      else case cd_record_type cd (line_of raw) of
          None \<Rightarrow> Inl BadRecordType
        | Some kind \<Rightarrow>
            (if kind = ''prune_checkpoint'' then
               (case ParsePruneCheckpoint cd (line_of raw) of
                  Inl e \<Rightarrow> Inl (BadPrior e)
                | Inr prior \<Rightarrow> Inr (s \<lparr> ps_cp := (ps_cp s) \<lparr> cp_RemovedCount := cp_RemovedCount prior \<rparr> \<rparr>))
             else case cd_trace cd (line_of raw) of
                 None \<Rightarrow> Inl BadRecord
               | Some t \<Rightarrow>
                   (if pe_time pe (dt_Timestamp t) = cd_zero_time cd then Inl NoTimestamp
                    else if \<not> ps_retaining s \<and> pe_time pe (dt_Timestamp t) < cutoff then remove_record pe t s
                    else Inr (retain_record raw s))))"

fun prune_loop :: "prune_env \<Rightarrow> codec \<Rightarrow> int \<Rightarrow> prune_state \<Rightarrow> string list \<Rightarrow> prune_error + prune_state" where
  "prune_loop pe cd cutoff s [] = Inr s"
| "prune_loop pe cd cutoff s (raw # ls) =
     (if \<not> fits_prune raw then Inl LineTooLong
      else case prune_line pe cd cutoff s raw of Inl e \<Rightarrow> Inl e | Inr s \<Rightarrow> prune_loop pe cd cutoff s ls)"

text \<open>What follows the loop: the offset of the suffix and the checkpoint with its hash.\<close>

definition finish_checkpoint :: "codec \<Rightarrow> prune_state \<Rightarrow> nat \<times> PruneCheckpoint" where
  "finish_checkpoint cd s =
     (let cp = (ps_cp s) \<lparr> cp_LastRemovedIndex := cp_RemovedCount (ps_cp s) \<rparr>
      in (if ps_retaining s then ps_retainOffset s else ps_offset s, cp \<lparr> cp_CheckpointHash := checkpoint_hash cd cp \<rparr>))"

section \<open>The file\<close>

datatype lstat_result = LstatMissing | LstatPresent | LstatFailed

text \<open>\<open>None\<close> is an error of the call; the bytes of the two stability checks are those hashed while size,
  identity and modification time were unchanged.\<close>

record prune_fs =
  pf_in :: string
  pf_inBase :: string
  pf_outBase :: string
  pf_inDir :: "string option"
  pf_outDir :: "string option"
  pf_inDirStat :: bool
  pf_sameDir :: "bool option"
  pf_inSet :: "string list option"
  pf_outStat :: lstat_result
  pf_outSet :: "string list option"
  pf_regular :: "bool option"
  pf_opened :: "bool option"
  pf_read :: "string option"
  pf_reread :: "string option"
  pf_stable :: "string option"
  pf_temp :: bool
  pf_copy :: "string option"
  pf_back :: bool
  pf_stableAgain :: "string option"
  pf_inSetAgain :: "string list option"
  pf_outSetAgain :: "string list option"
  pf_closed :: bool
  pf_publish :: bool

definition rejectPruneRotationSibling :: "prune_fs \<Rightarrow> prune_error option" where
  "rejectPruneRotationSibling fs =
     (let pre = pf_inBase fs @ ''.'' in
      if \<not> HasPrefix (pf_outBase fs) pre \<or> Atoi (drop (length pre) (pf_outBase fs)) = None then None
      else case (pf_inDir fs, pf_outDir fs) of
          (Some i, Some o') \<Rightarrow>
            (if \<not> pf_inDirStat fs then Some InputUnreadable
             else if (case pf_sameDir fs of Some same \<Rightarrow> same | None \<Rightarrow> i = o') then Some BecomesSibling else None)
        | _ \<Rightarrow> Some InputUnreadable)"

definition standalonePrunePath :: "string \<Rightarrow> string list option \<Rightarrow> prune_error option" where
  "standalonePrunePath path members =
     (case members of None \<Rightarrow> Some InputUnreadable | Some ms \<Rightarrow> if ms = [path] then None else Some HasSiblings)"

definition pruneInputStable :: "codec \<Rightarrow> string option \<Rightarrow> string \<Rightarrow> prune_error option" where
  "pruneInputStable cd bytes digest =
     (case bytes of None \<Rightarrow> Some InputChanged | Some b \<Rightarrow> if cd_sha256 cd b \<noteq> digest then Some InputChanged else None)"

definition has_members :: "string list option \<Rightarrow> bool" where
  "has_members members \<longleftrightarrow> (case members of Some (_ # _) \<Rightarrow> True | _ \<Rightarrow> False)"

text \<open>The checks before the input is read.\<close>

definition prune_checks :: "prune_fs \<Rightarrow> prune_error option" where
  "prune_checks fs =
     (case rejectPruneRotationSibling fs of
        Some e \<Rightarrow> Some e
      | None \<Rightarrow>
          (case standalonePrunePath (pf_in fs) (pf_inSet fs) of
             Some e \<Rightarrow> Some e
           | None \<Rightarrow>
               (if pf_outStat fs = LstatFailed then Some InputUnreadable
                else if pf_outStat fs = LstatPresent then Some OutputExists
                else if has_members (pf_outSet fs) then Some OutputSiblings
                else case pf_regular fs of
                    None \<Rightarrow> Some InputUnreadable
                  | Some regular \<Rightarrow>
                      (if \<not> regular then Some NotRegular
                       else case pf_opened fs of
                           None \<Rightarrow> Some InputUnreadable
                         | Some same \<Rightarrow> if \<not> same then Some ChangedOpening else None))))"

datatype prune_result = NothingEligible | DryRun nat PruneCheckpoint | Published string nat PruneCheckpoint

text \<open>Writing, checking and publishing the output.\<close>

definition publish_output ::
  "prune_env \<Rightarrow> codec \<Rightarrow> prune_fs \<Rightarrow> string \<Rightarrow> nat \<Rightarrow> nat \<Rightarrow> PruneCheckpoint \<Rightarrow> prune_error + prune_result" where
  "publish_output pe cd fs digest retainOffset removed cp =
     (if \<not> pf_temp fs then Inl TempFailed
      else case pf_copy fs of
          None \<Rightarrow> Inl CopyFailed
        | Some bytes \<Rightarrow>
            (let out = pe_encode pe cp @ [CHR 0x0A] @ drop retainOffset bytes;
                 verified = VerifyPrunedChainFromReader cd [] out
             in if \<not> pf_back fs then Inl TempFailed
                else if \<not> sr_Intact verified then Inl (OutputBroken (sr_FailureReason verified))
                else case pruneInputStable cd (pf_stableAgain fs) digest of
                    Some e \<Rightarrow> Inl e
                  | None \<Rightarrow>
                      (case standalonePrunePath (pf_in fs) (pf_inSetAgain fs) of
                         Some e \<Rightarrow> Inl e
                       | None \<Rightarrow>
                           (if has_members (pf_outSetAgain fs) then Inl OutputSiblings
                            else if \<not> pf_closed fs then Inl TempFailed
                            else case rejectPruneRotationSibling fs of
                                Some e \<Rightarrow> Inl e
                              | None \<Rightarrow> (if pf_publish fs then Inr (Published out removed cp) else Inl PublishFailed)))))"

definition pruneFile ::
  "prune_env \<Rightarrow> codec \<Rightarrow> prune_fs \<Rightarrow> int \<Rightarrow> bool \<Rightarrow> prune_error + prune_result" where
  "pruneFile pe cd fs cutoff yes =
     (case prune_checks fs of
        Some e \<Rightarrow> Inl e
      | None \<Rightarrow>
          (case pf_read fs of
             None \<Rightarrow> Inl (InputBroken (Some ScanError))
           | Some b \<Rightarrow>
               (let report = VerifyPrunedChainFromReader cd [] b in
                if \<not> sr_Intact report then Inl (InputBroken (sr_FailureReason report))
                else
                  case pf_reread fs of
                    None \<Rightarrow> Inl InputUnreadable
                  | Some b' \<Rightarrow>
                      (case prune_loop pe cd cutoff (prune_start cd cutoff (sr_Tail report)) (pruneRawLines b') of
                         Inl e \<Rightarrow> Inl e
                       | Inr s \<Rightarrow>
                           (let digest = cd_sha256 cd b in
                            if digest \<noteq> cd_sha256 cd b' then Inl ChangedSelecting
                            else case pruneInputStable cd (pf_stable fs) digest of
                                Some e \<Rightarrow> Inl e
                              | None \<Rightarrow>
                                  (if ps_removed s = 0 then Inr NothingEligible
                                   else
                                     let (retainOffset, cp) = finish_checkpoint cd s
                                     in if \<not> yes then Inr (DryRun (ps_removed s) cp)
                                        else publish_output pe cd fs digest retainOffset (ps_removed s) cp))))))"

text \<open>The command, with its flags parsed.\<close>

definition runPrune ::
  "prune_env \<Rightarrow> codec \<Rightarrow> prune_fs \<Rightarrow> string \<Rightarrow> string \<Rightarrow> int \<Rightarrow> bool \<Rightarrow> nat \<Rightarrow> bool \<Rightarrow> int \<Rightarrow> nat" where
  "runPrune pe cd fs inp out age closed nargs yes now =
     (if inp = [] \<or> out = [] \<or> age \<le> 0 \<or> \<not> closed \<or> nargs \<noteq> 0 then 2
      else case pruneFile pe cd fs (now - age) yes of Inl _ \<Rightarrow> 1 | Inr _ \<Rightarrow> 0)"

end
