(* ===== verification/Prune_Sound.thy ===== *)
theory Prune_Sound
  imports Prune
begin

text \<open>
  Pruning keeps a log verifiable: the output of \<open>pruneFile\<close> on a verified log is verified again, with the
  same last hash, and holds the retained records byte for byte.
\<close>

section \<open>Lines\<close>

lemma concat_pruneRawLines [simp]: "concat (pruneRawLines s) = s"
  by (induction s) (auto split: list.split)

lemma pruneRawLines_nonempty: "[] \<notin> set (pruneRawLines s)"
  by (induction s) (auto split: list.splits)

lemma pruneRawLines_drop: "pruneRawLines s = raw # ls \<Longrightarrow> pruneRawLines (drop (length raw) s) = ls"
proof (induction s arbitrary: raw ls)
  case (Cons c s)
  show ?case
  proof (cases "c = CHR 0x0A")
    case True
    with Cons.prems show ?thesis by auto
  next
    case False
    then show ?thesis
      using Cons by (cases "pruneRawLines s") (auto simp: drop_eq_Nil dest: arg_cong [of _ _ concat])
  qed
qed simp

lemma pruneRawLines_suffix:
  "pruneRawLines s = pre @ post \<Longrightarrow> pruneRawLines (drop (length (concat pre)) s) = post"
proof (induction pre arbitrary: s)
  case (Cons raw pre)
  then show ?case using pruneRawLines_drop [of s raw "pre @ post"] Cons.IH [of "drop (length raw) s"] by (simp add: add.commute)
qed simp

lemma raw_lines_Cons: "raw_lines (c # s) =
  (if c = CHR 0x0A then [] # raw_lines s else case raw_lines s of [] \<Rightarrow> [[c]] | l # ls \<Rightarrow> (c # l) # ls)"
proof (cases "c = CHR 0x0A")
  case True
  then show ?thesis using raw_lines_terminated [of "[]" s] by simp
next
  case False
  obtain l ls where p: "SplitByte s (CHR 0x0A) = l # ls" using SplitByte_not_Nil by (cases "SplitByte s (CHR 0x0A)") auto
  with False show ?thesis by (cases ls) (auto simp: raw_lines_def Let_def)
qed

lemma strip_snoc: "TrimSuffix (l @ [x]) [y] = (if x = y then l else l @ [x])"
  by (simp add: TrimSuffix_def HasSuffix_def)

lemma strip_end: "TrimSuffix (l @ [CHR 0x0A]) [CHR 0x0A] = l" "TrimSuffix [] [y] = []"
  by (simp_all add: strip_snoc) (simp add: TrimSuffix_def HasSuffix_def)

lemma strip_Cons:
  assumes "c \<noteq> CHR 0x0A \<or> l \<noteq> []"
  shows "TrimSuffix (c # l) [CHR 0x0A] = c # TrimSuffix l [CHR 0x0A]"
proof (cases l rule: rev_cases)
  case Nil
  with assms strip_snoc [of "[]" c "CHR 0x0A"] show ?thesis by (simp add: strip_end(2))
next
  case (snoc xs x)
  with strip_snoc [of "c # xs" x "CHR 0x0A"] strip_snoc [of xs x "CHR 0x0A"] show ?thesis by simp
qed

lemma raw_lines_stripped: "raw_lines s = map (\<lambda>r. TrimSuffix r [CHR 0x0A]) (pruneRawLines s)"
proof (induction s)
  case (Cons c s)
  show ?case
  proof (cases "pruneRawLines s")
    case Nil
    with Cons show ?thesis by (auto simp: raw_lines_Cons strip_Cons strip_end(1) [of "[]", simplified] strip_end(2))
  next
    case (Cons l ls)
    moreover from this have "l \<noteq> []" using pruneRawLines_nonempty [of s] by auto
    ultimately show ?thesis
      using Cons.IH by (auto simp: raw_lines_Cons strip_Cons strip_end(1) [of "[]", simplified])
  qed
qed simp

section \<open>The verifier, line by line\<close>

abbreviation scan :: "codec \<Rightarrow> scan_state \<Rightarrow> string list \<Rightarrow> StreamReport + scan_state" where
  "scan cd s ls \<equiv> scan_loop cd True [] s (map Some ls)"

abbreviation records_of :: "scan_state \<Rightarrow> nat" where
  "records_of s \<equiv> sr_Records (sc_report s)"

text \<open>A scan has started when a record or a checkpoint has been read; no checkpoint may follow.\<close>

definition started :: "scan_state \<Rightarrow> bool" where
  "started s \<longleftrightarrow> sc_checkpoint s \<noteq> None \<or> records_of s \<noteq> 0"

lemma scan_append: "scan cd s (xs @ ys) = (case scan cd s xs of Inl r \<Rightarrow> Inl r | Inr s' \<Rightarrow> scan cd s' ys)"
  by (induction xs arbitrary: s) (auto split: sum.split)

lemma line_step_cases:
  assumes "line_step cd True [] s l = Inr s'"
  obtains (blank) "l = []" "s' = s \<lparr> sc_line := Suc (sc_line s) \<rparr>"
    | (checkpoint) c where "cd_record_type cd l = Some ''prune_checkpoint''" "\<not> started s" "ParsePruneCheckpoint cd l = Inr c"
        "sc_checkpoint s' = Some c" "records_of s' = 0" "l \<noteq> []"
    | (trace) k t where "cd_record_type cd l = Some k" "k \<noteq> ''prune_checkpoint''" "cd_trace cd l = Some t"
        "trace_step cd (s \<lparr> sc_line := Suc (sc_line s) \<rparr>) t = Inr s'" "l \<noteq> []"
  using assms
  by (auto simp: line_step_def checkpoint_step_def started_def Let_def split: if_splits option.splits sum.splits)

lemma trace_step_result:
  assumes "trace_step cd s t = Inr s'"
  shows "sc_prevHash s' = dt_TraceHash t" "records_of s' = Suc (records_of s)" "sc_checkpoint s' = sc_checkpoint s"
    "canonicalTraceVersionRank (effectiveCanonicalTraceVersion t) = Some (fst (sc_highest s'))"
    "\<exists>b. dt_TraceHash t = ''sha256:'' @ cd_sha256 cd b" "sr_Intact (sc_report s') = sr_Intact (sc_report s)"
proof -
  obtain h where h: "ComputeCanonicalTraceHash cd t = Inr h" "\<not> is_downgrade (sc_highest s) (effectiveCanonicalTraceVersion t)"
      "sc_highest s' = version_step (sc_highest s) (effectiveCanonicalTraceVersion t)"
    using assms by (auto simp: trace_step_def Let_def split: if_splits sum.splits)
  have "canonicalTraceVersionRank (effectiveCanonicalTraceVersion t) \<noteq> None"
    using h(1) by (auto simp: ComputeCanonicalTraceHash_def CanonicalTraceBytes_def canonicalTraceVersionRank_def
        effectiveCanonicalTraceVersion_def Let_def split: if_splits)
  with h(2,3) show "canonicalTraceVersionRank (effectiveCanonicalTraceVersion t) = Some (fst (sc_highest s'))"
    by (auto simp: is_downgrade_def version_step_def)
  have "\<exists>b. h = ''sha256:'' @ cd_sha256 cd b" "dt_TraceHash t = h"
    using h(1) assms by (auto simp: ComputeCanonicalTraceHash_def trace_step_def Let_def split: sum.splits if_splits)
  then show "\<exists>b. dt_TraceHash t = ''sha256:'' @ cd_sha256 cd b" by simp
  show "sc_prevHash s' = dt_TraceHash t" "records_of s' = Suc (records_of s)" "sc_checkpoint s' = sc_checkpoint s"
    "sr_Intact (sc_report s') = sr_Intact (sc_report s)"
    using assms by (auto simp: trace_step_def Let_def split: if_splits sum.splits)
qed

text \<open>Two scans that have started agree on what follows if they agree on the last hash and the rank of the
  version. The second scan counts from its own number of records.\<close>

definition rebased :: "scan_state \<Rightarrow> scan_state \<Rightarrow> bool" where
  "rebased s u \<longleftrightarrow> started s \<and> started u \<and> sc_prevHash s = sc_prevHash u \<and> fst (sc_highest s) = fst (sc_highest u)"

lemma trace_step_rebased:
  assumes "rebased s u" "trace_step cd s t = Inr s'"
  obtains u' where "trace_step cd u t = Inr u'" "rebased s' u'"
proof -
  have base: "is_downgrade (sc_highest s) v = is_downgrade (sc_highest u) v"
    "fst (version_step (sc_highest s) v) = fst (version_step (sc_highest u) v)" for v
    using assms(1) by (auto simp: rebased_def is_downgrade_def version_step_def split: option.splits)
  from assms(2) obtain h where h: "ComputeCanonicalTraceHash cd t = Inr h" "dt_TraceHash t = h"
      "dt_PreviousTraceHash t = sc_prevHash s" "\<not> is_downgrade (sc_highest s) (effectiveCanonicalTraceVersion t)"
      "sc_highest s' = version_step (sc_highest s) (effectiveCanonicalTraceVersion t)" "sc_prevHash s' = dt_TraceHash t"
      "records_of s' \<noteq> 0"
    using assms(1) by (auto simp: trace_step_def rebased_def started_def Let_def split: if_splits sum.splits)
  with assms(1) base(1) obtain u' where u: "trace_step cd u t = Inr u'"
    by (auto simp: trace_step_def rebased_def started_def Let_def)
  then have "sc_highest u' = version_step (sc_highest u) (effectiveCanonicalTraceVersion t)" "sc_prevHash u' = dt_TraceHash t"
      "records_of u' \<noteq> 0"
    by (auto simp: trace_step_def Let_def split: if_splits sum.splits)
  with h base(2) have "rebased s' u'" by (simp add: rebased_def started_def)
  with u that show thesis by blast
qed

lemma line_step_rebased:
  assumes "rebased s u" "line_step cd True [] s l = Inr s'"
  obtains u' where "line_step cd True [] u l = Inr u'" "rebased s' u'" "sc_checkpoint u' = sc_checkpoint u"
    "sr_Intact (sc_report u') = sr_Intact (sc_report u)" "records_of u' + records_of s = records_of u + records_of s'"
  using assms(2)
proof (cases rule: line_step_cases)
  case blank
  with assms(1) that [of "u \<lparr> sc_line := Suc (sc_line u) \<rparr>"] show thesis
    by (simp add: line_step_def rebased_def started_def)
next
  case checkpoint
  with assms(1) show thesis by (simp add: rebased_def)
next
  case (trace k t)
  have "rebased (s \<lparr> sc_line := Suc (sc_line s) \<rparr>) (u \<lparr> sc_line := Suc (sc_line u) \<rparr>)"
    using assms(1) by (simp add: rebased_def started_def)
  from trace_step_rebased [OF this trace(4)] obtain u' where
    u: "trace_step cd (u \<lparr> sc_line := Suc (sc_line u) \<rparr>) t = Inr u'" "rebased s' u'" .
  have "line_step cd True [] u l = trace_step cd (u \<lparr> sc_line := Suc (sc_line u) \<rparr>) t"
    using trace(1,2,3,5) assms(2) by (auto simp: line_step_def Let_def split: if_splits)
  with u that [of u'] trace_step_result [OF u(1)] trace_step_result [OF trace(4)] show thesis by simp
qed

lemma scan_rebased:
  assumes "rebased s u" "scan cd s ls = Inr s'"
  obtains u' where "scan cd u ls = Inr u'" "rebased s' u'" "sc_checkpoint u' = sc_checkpoint u"
    "sr_Intact (sc_report u') = sr_Intact (sc_report u)" "records_of u' + records_of s = records_of u + records_of s'"
  using assms
proof (induction ls arbitrary: s u thesis)
  case Nil
  then show ?case by simp
next
  case (Cons l ls)
  obtain s1 where s1: "line_step cd True [] s l = Inr s1" "scan cd s1 ls = Inr s'"
    using Cons.prems(3) by (auto split: sum.splits)
  obtain u1 where u1: "line_step cd True [] u l = Inr u1" "rebased s1 u1" "sc_checkpoint u1 = sc_checkpoint u"
    "sr_Intact (sc_report u1) = sr_Intact (sc_report u)" "records_of u1 + records_of s = records_of u + records_of s1"
    by (rule line_step_rebased [OF Cons.prems(2) s1(1)])
  obtain u' where u': "scan cd u1 ls = Inr u'" "rebased s' u'" "sc_checkpoint u' = sc_checkpoint u1"
    "sr_Intact (sc_report u') = sr_Intact (sc_report u1)" "records_of u' + records_of s1 = records_of u1 + records_of s'"
    by (rule Cons.IH [OF _ u1(2) s1(2)])
  show ?case by (rule Cons.prems(1) [of u']) (use u1 u' in \<open>simp_all\<close>)
qed

section \<open>The selection against the verifier\<close>

lemma strip_sub: "TrimSuffix s [c] = s \<or> s = TrimSuffix s [c] @ [c]"
  by (cases s rule: rev_cases) (simp_all add: strip_end(2) strip_snoc)

lemma line_of_blank: "line_of raw = [] \<Longrightarrow> blank_line raw"
proof -
  assume "line_of raw = []"
  then have "TrimSuffix raw [CHR 0x0A] = [] \<or> TrimSuffix raw [CHR 0x0A] = [CHR 0x0D]"
    using strip_sub [of "TrimSuffix raw [CHR 0x0A]" "CHR 0x0D"] by (auto simp: line_of_def drop_cr_def)
  with strip_sub [of raw "CHR 0x0A"] have "raw \<in> {[], [CHR 0x0D], [CHR 0x0A], [CHR 0x0D, CHR 0x0A]}" by auto
  then show ?thesis by (auto simp: blank_line_def)
qed

lemma set_line_of: "set (line_of raw) \<subseteq> set raw"
proof -
  have sub: "set (TrimSuffix s [c]) \<subseteq> set s" for s :: string and c
    using strip_sub [of s c] by (metis Un_upper1 order_refl set_append)
  show ?thesis unfolding line_of_def drop_cr_def by (rule subset_trans [OF sub sub])
qed

text \<open>White space is no document.\<close>

definition white_refused :: "codec \<Rightarrow> bool" where
  "white_refused cd \<longleftrightarrow> (\<forall>l. set l \<subseteq> {CHR 0x0D, CHR 0x0A} \<longrightarrow> cd_record_type cd l = None)"

lemma blank_refused: "white_refused cd \<Longrightarrow> blank_line raw \<Longrightarrow> cd_record_type cd (line_of raw) = None"
proof -
  assume w: "white_refused cd" and b: "blank_line raw"
  have "set raw \<subseteq> {CHR 0x0D, CHR 0x0A}" using b by (simp add: blank_line_def list_all_iff subset_iff)
  with set_line_of have "set (line_of raw) \<subseteq> {CHR 0x0D, CHR 0x0A}" by (rule subset_trans)
  with w show ?thesis by (simp only: white_refused_def)
qed

text \<open>One line, read by the selection and by the verifier.\<close>

lemma both_lines:
  assumes "prune_line pe cd cutoff p raw = Inr p'" "line_step cd True [] s (line_of raw) = Inr s'"
    and "white_refused cd" and "q = p \<lparr> ps_offset := ps_offset p + length raw \<rparr>"
  obtains (blank) "p' = q" "s' = s \<lparr> sc_line := Suc (sc_line s) \<rparr>"
    | (checkpoint) c where "\<not> started s" "ParsePruneCheckpoint cd (line_of raw) = Inr c" "sc_checkpoint s' = Some c"
        "records_of s' = 0" "p' = q \<lparr> ps_cp := (ps_cp q) \<lparr> cp_RemovedCount := cp_RemovedCount c \<rparr> \<rparr>"
    | (removed) t where "trace_step cd (s \<lparr> sc_line := Suc (sc_line s) \<rparr>) t = Inr s'" "\<not> ps_retaining p"
        "pe_time pe (dt_Timestamp t) \<noteq> cd_zero_time cd" "pe_time pe (dt_Timestamp t) < cutoff" "remove_record pe t q = Inr p'"
    | (retained) t where "trace_step cd (s \<lparr> sc_line := Suc (sc_line s) \<rparr>) t = Inr s'" "p' = retain_record raw q"
  using assms(2)
proof (cases rule: line_step_cases)
  case blank
  with assms(1,4) line_of_blank [of raw] that(1) show thesis by (simp add: prune_line_def)
next
  case (checkpoint c)
  have "\<not> blank_line raw" using blank_refused [OF assms(3), of raw] checkpoint(1) by auto
  with assms(1,4) checkpoint that(2) show thesis by (simp add: prune_line_def Let_def)
next
  case (trace k t)
  have "\<not> blank_line raw" using blank_refused [OF assms(3), of raw] trace(1) by auto
  with assms(1,4) trace that(3,4) show thesis by (auto simp: prune_line_def Let_def split: if_splits)
qed

text \<open>After the first retained record only the counter of the checkpoint moves.\<close>

lemma loop_retaining:
  assumes "prune_loop pe cd cutoff p rs = Inr p'" "scan cd s (map line_of rs) = Inr s'" "ps_retaining p" "started s"
    and white: "white_refused cd"
  shows "ps_retaining p' \<and> ps_retainOffset p' = ps_retainOffset p \<and> ps_removed p' = ps_removed p \<and>
    ps_cp p' = (ps_cp p) \<lparr> cp_RetainedCount := cp_RetainedCount (ps_cp p) + int (records_of s') - int (records_of s) \<rparr>"
  using assms(1-4)
proof (induction rs arbitrary: p s)
  case Nil
  then show ?case by simp
next
  case (Cons raw rs)
  obtain p1 where p1: "prune_line pe cd cutoff p raw = Inr p1" "prune_loop pe cd cutoff p1 rs = Inr p'"
    using Cons.prems(1) by (auto split: if_splits sum.splits)
  obtain s1 where s1: "line_step cd True [] s (line_of raw) = Inr s1" "scan cd s1 (map line_of rs) = Inr s'"
    using Cons.prems(2) by (auto split: sum.splits)
  from p1(1) s1(1) white refl show ?case
  proof (cases rule: both_lines)
    case blank
    with Cons.IH [OF p1(2) s1(2)] Cons.prems(3,4) show ?thesis by (simp add: started_def)
  next
    case checkpoint
    with Cons.prems(4) show ?thesis by simp
  next
    case (removed t)
    with Cons.prems(3) show ?thesis by simp
  next
    case (retained t)
    from trace_step_result [OF retained(1)] have "records_of s1 = Suc (records_of s)" "started s1" by (simp_all add: started_def)
    with Cons.IH [OF p1(2) s1(2)] retained(2) Cons.prems(3) show ?thesis by (simp add: retain_record_def Let_def)
  qed
qed

text \<open>The removed prefix: what the selection keeps about it is what the verifier knows.\<close>

definition prefix_matches :: "codec \<Rightarrow> int \<Rightarrow> string \<Rightarrow> scan_state \<Rightarrow> prune_state \<Rightarrow> bool" where
  "prefix_matches cd cutoff tail s p \<longleftrightarrow>
     (let cp = ps_cp p in
      \<not> ps_retaining p \<and> ps_removed p = records_of s \<and> cp_RecordType cp = ''prune_checkpoint'' \<and> cp_Version cp = 1 \<and>
      cp_Cutoff cp = cutoff \<and> cp_RetainedCount cp = 0 \<and> cp_RetainedTailHash cp = tail \<and>
      int (ps_removed p) \<le> cp_RemovedCount cp \<and>
      (ps_removed p \<noteq> 0 \<longrightarrow>
         cp_LastRemovedHash cp = sc_prevHash s \<and> validCheckpointHash (sc_prevHash s) \<and>
         canonicalTraceVersionRank (cp_BoundaryCanonicalVersion cp) = Some (fst (sc_highest s)) \<and>
         cp_LastRemovedTimestamp cp \<noteq> cd_zero_time cd \<and> cp_LastRemovedTimestamp cp < cutoff))"

definition hex_digests :: "codec \<Rightarrow> bool" where
  "hex_digests cd \<longleftrightarrow> (\<forall>b. validCheckpointHash (''sha256:'' @ cd_sha256 cd b))"

lemma removed_matches:
  assumes "prefix_matches cd cutoff tail s p" "trace_step cd (s \<lparr> sc_line := n \<rparr>) t = Inr s'"
    and "pe_time pe (dt_Timestamp t) \<noteq> cd_zero_time cd" "pe_time pe (dt_Timestamp t) < cutoff"
    and "remove_record pe t (p \<lparr> ps_offset := k \<rparr>) = Inr p'" and "hex_digests cd"
  shows "prefix_matches cd cutoff tail s' p'" "ps_offset p' = k"
proof -
  note r = trace_step_result [OF assms(2)]
  from r(5) assms(6) have "validCheckpointHash (dt_TraceHash t)" by (auto simp: hex_digests_def)
  with assms(1,3-5) r show "prefix_matches cd cutoff tail s' p'" "ps_offset p' = k"
    by (auto simp: prefix_matches_def remove_record_def effectiveCanonicalTraceVersion_def canonicalTraceVersionV1_def Let_def
        split: if_splits)
qed

text \<open>The selection cuts a verified log in two: a prefix described by its checkpoint, and a suffix whose
  records it counts.\<close>

lemma loop_splits:
  assumes "prune_loop pe cd cutoff p rs = Inr p'" "scan cd s (map line_of rs) = Inr s'" "prefix_matches cd cutoff tail s p"
    and rules: "white_refused cd" "hex_digests cd"
  obtains pre post sm pm where "rs = pre @ post" "scan cd sm (map line_of post) = Inr s'" "prefix_matches cd cutoff tail sm pm"
    "ps_removed p' = ps_removed pm"
    "ps_cp p' = (ps_cp pm) \<lparr> cp_RetainedCount := int (records_of s') - int (records_of sm) \<rparr>"
    "(if ps_retaining p' then ps_retainOffset p' else ps_offset p') = ps_offset p + length (concat pre)"
    "sr_Intact (sc_report sm) = sr_Intact (sc_report s)"
  using assms(1-3)
proof (induction rs arbitrary: p s thesis)
  case Nil
  show ?case by (rule Nil(1) [of "[]" "[]" s p]) (use Nil(2-4) in \<open>auto simp: prefix_matches_def Let_def\<close>)
next
  case (Cons raw rs)
  obtain p1 where p1: "prune_line pe cd cutoff p raw = Inr p1" "prune_loop pe cd cutoff p1 rs = Inr p'"
    using Cons.prems(2) by (auto split: if_splits sum.splits)
  obtain s1 where s1: "line_step cd True [] s (line_of raw) = Inr s1" "scan cd s1 (map line_of rs) = Inr s'"
    using Cons.prems(3) by (auto split: sum.splits)
  have go: ?case if "prefix_matches cd cutoff tail s1 p1" "ps_offset p1 = ps_offset p + length raw"
    "sr_Intact (sc_report s1) = sr_Intact (sc_report s)"
  proof (rule Cons.IH [OF _ p1(2) s1(2) that(1)])
    fix pre post sm pm
    assume "rs = pre @ post" "scan cd sm (map line_of post) = Inr s'" "prefix_matches cd cutoff tail sm pm"
      "ps_removed p' = ps_removed pm"
      "ps_cp p' = (ps_cp pm) \<lparr> cp_RetainedCount := int (records_of s') - int (records_of sm) \<rparr>"
      "(if ps_retaining p' then ps_retainOffset p' else ps_offset p') = ps_offset p1 + length (concat pre)"
      "sr_Intact (sc_report sm) = sr_Intact (sc_report s1)"
    with that(2,3) show ?case by (intro Cons.prems(1) [of "raw # pre" post sm pm]) simp_all
  qed
  from p1(1) s1(1) rules(1) refl show ?case
  proof (cases rule: both_lines)
    case blank
    with go Cons.prems(4) show ?thesis by (simp add: prefix_matches_def Let_def)
  next
    case (checkpoint c)
    have "0 < cp_RemovedCount c" using checkpoint(2) by (auto simp: ParsePruneCheckpoint_def split: option.splits if_splits)
    moreover have "sr_Intact (sc_report s1) = sr_Intact (sc_report s)"
      using s1(1) by (auto simp: line_step_def checkpoint_step_def trace_step_def Let_def split: if_splits option.splits sum.splits)
    ultimately show ?thesis using go checkpoint Cons.prems(4) by (simp add: prefix_matches_def started_def Let_def)
  next
    case (removed t)
    from removed_matches [OF Cons.prems(4) removed(1,3,4,5) rules(2)] trace_step_result(6) [OF removed(1)] go show ?thesis by simp
  next
    case (retained t)
    have st: "started s1" and ret: "ps_retaining p1" using trace_step_result(2) [OF retained(1)] retained(2)
      by (simp_all add: started_def retain_record_def Let_def)
    from loop_retaining [OF p1(2) s1(2) ret st rules(1)] trace_step_result(2) [OF retained(1)] retained(2) Cons.prems(4) st
    show ?thesis
      by (intro Cons.prems(1) [of "[]" "raw # rs" s p])
        (use Cons.prems(3) in \<open>auto simp: prefix_matches_def retain_record_def Let_def\<close>)
  qed
qed

section \<open>Input and output\<close>

lemma line_step_fails: "line_step cd a pin s l = Inl r \<Longrightarrow> \<not> sr_Intact r"
  by (auto simp: line_step_def checkpoint_step_def trace_step_def failAt_def Let_def split: if_splits option.splits sum.splits)

lemma scan_fails: "scan_loop cd a pin s ls = Inl r \<Longrightarrow> \<not> sr_Intact r"
  by (induction cd a pin s ls rule: scan_loop.induct) (auto simp: failAt_def split: sum.splits dest: line_step_fails)

lemma scan_overlong: "scan_loop cd a pin s (xs @ [None]) \<noteq> Inr s'"
proof (induction xs arbitrary: s)
  case (Cons x xs)
  then show ?case by (cases x) (auto split: sum.split)
qed simp

lemma scanned_fits: "list_all line_fits ls \<Longrightarrow> scanned ls = map (\<lambda>l. Some (drop_cr l)) ls"
  by (induction ls) (simp_all add: scanned_def)

lemma scan_lines_raw:
  "scan_lines b = (if list_all line_fits (raw_lines b) then map Some (map line_of (pruneRawLines b)) else
     map (\<lambda>l. Some (drop_cr l)) (takeWhile line_fits (raw_lines b)) @ [None])"
proof (cases "list_all line_fits (raw_lines b)")
  case True
  then show ?thesis by (simp add: scan_lines_scanned scanned_fits) (simp add: raw_lines_stripped line_of_def comp_def)
next
  case False
  then show ?thesis by (simp add: scan_lines_scanned scanned_def)
qed

lemma intact_scan:
  assumes "sr_Intact (VerifyPrunedChainFromReader cd [] b)"
  obtains s where "list_all line_fits (raw_lines b)" "scan cd scan_start (map line_of (pruneRawLines b)) = Inr s"
    "sr_Tail (VerifyPrunedChainFromReader cd [] b) = sc_prevHash s" "sr_Records (VerifyPrunedChainFromReader cd [] b) = records_of s"
    "sr_Intact (sc_report s)"
proof (cases "scan_loop cd True [] scan_start (scan_lines b)")
  case (Inl r)
  with assms scan_fails [OF Inl] show thesis by (simp add: VerifyPrunedChainFromReader_def verifyChainFromReader_def)
next
  case (Inr s)
  then have fits: "list_all line_fits (raw_lines b)" using scan_overlong by (auto simp: scan_lines_raw split: if_splits)
  with Inr have "scan cd scan_start (map line_of (pruneRawLines b)) = Inr s" by (simp add: scan_lines_raw)
  moreover have "scan_finish [] s = (sc_report s) \<lparr> sr_Tail := sc_prevHash s \<rparr>"
    using assms Inr by (auto simp: VerifyPrunedChainFromReader_def verifyChainFromReader_def scan_finish_def failAt_def split: option.splits if_splits)
  ultimately show thesis using that fits Inr assms by (simp add: VerifyPrunedChainFromReader_def verifyChainFromReader_def)
qed

text \<open>The last hash moves only with the number of records, and stays a digest.\<close>

lemma scan_hash:
  assumes "scan cd s ls = Inr s'" "started s" "hex_digests cd" "validCheckpointHash (sc_prevHash s)"
  shows "validCheckpointHash (sc_prevHash s') \<and> records_of s \<le> records_of s' \<and>
    (records_of s = records_of s' \<longrightarrow> sc_prevHash s = sc_prevHash s')"
  using assms(1,2,4)
proof (induction ls arbitrary: s)
  case Nil
  then show ?case by simp
next
  case (Cons l ls)
  obtain s1 where s1: "line_step cd True [] s l = Inr s1" "scan cd s1 ls = Inr s'"
    using Cons.prems(1) by (auto split: sum.splits)
  from s1(1) show ?case
  proof (cases rule: line_step_cases)
    case blank
    with Cons.IH [OF s1(2)] Cons.prems(2,3) show ?thesis by (simp add: started_def)
  next
    case checkpoint
    with Cons.prems(2) show ?thesis by simp
  next
    case (trace k t)
    note r = trace_step_result [OF trace(4)]
    from r(5) assms(3) have "validCheckpointHash (dt_TraceHash t)" by (auto simp: hex_digests_def)
    with Cons.IH [OF s1(2)] r(1,2) show ?thesis by (simp add: started_def)
  qed
qed

text \<open>The encoder writes one line that the decoder reads back.\<close>

definition reads_back :: "prune_env \<Rightarrow> codec \<Rightarrow> PruneCheckpoint \<Rightarrow> bool" where
  "reads_back pe cd cp \<longleftrightarrow>
     (let l = pe_encode pe cp in
      l \<noteq> [] \<and> CHR 0x0A \<notin> set l \<and> last l \<noteq> CHR 0x0D \<and> length l \<le> MaxTraceRecordBytes \<and>
      cd_record_type cd l = Some ''prune_checkpoint'' \<and> cd_checkpoint cd l = Some cp)"

lemma checkpoint_hash_own: "checkpoint_hash cd (c \<lparr> cp_CheckpointHash := h \<rparr>) = checkpoint_hash cd c"
  by (simp add: checkpoint_hash_def)

lemma output_lines:
  assumes "reads_back pe cd cp" "list_all line_fits (raw_lines b)" "pruneRawLines b = pre @ post"
  shows "scan_lines (pe_encode pe cp @ CHR 0x0A # drop (length (concat pre)) b) = map Some (pe_encode pe cp # map line_of post)"
proof -
  let ?l = "pe_encode pe cp" and ?rest = "drop (length (concat pre)) b"
  have rest: "pruneRawLines ?rest = post" by (rule pruneRawLines_suffix [OF assms(3)])
  have "raw_lines (?l @ CHR 0x0A # ?rest) = ?l # raw_lines ?rest"
    using assms(1) by (simp add: raw_lines_terminated SplitByte_noocc reads_back_def Let_def)
  moreover have "line_fits ?l" "drop_cr ?l = ?l"
    using assms(1) by (auto simp: reads_back_def Let_def line_fits_def MaxTraceRecordScanBytes_def drop_cr_id)
  moreover have "list_all line_fits (raw_lines ?rest)"
    using assms(2,3) rest by (simp add: raw_lines_stripped list_all_iff)
  ultimately have "scan_lines (?l @ CHR 0x0A # ?rest) = map (\<lambda>l. Some (drop_cr l)) (?l # raw_lines ?rest)"
    using scanned_fits [of "?l # raw_lines ?rest"] by (simp add: scan_lines_scanned)
  with \<open>drop_cr ?l = ?l\<close> show ?thesis by (simp add: raw_lines_stripped rest line_of_def comp_def)
qed

text \<open>The records of the lines, in order, and how many of them the selection removes.\<close>

definition line_record :: "codec \<Rightarrow> string \<Rightarrow> DecisionTrace option" where
  "line_record cd raw =
     (if blank_line raw \<or> cd_record_type cd (line_of raw) = Some ''prune_checkpoint'' then None else cd_trace cd (line_of raw))"

definition log_records :: "codec \<Rightarrow> string \<Rightarrow> DecisionTrace list" where
  "log_records cd b = List.map_filter (line_record cd) (pruneRawLines b)"

lemma loop_removed:
  "prune_loop pe cd cutoff p rs = Inr p' \<Longrightarrow> ps_removed p' = ps_removed p +
    (if ps_retaining p then 0
     else length (takeWhile (\<lambda>t. pe_time pe (dt_Timestamp t) < cutoff) (List.map_filter (line_record cd) rs)))"
proof (induction rs arbitrary: p)
  case (Cons raw rs)
  obtain p1 where p1: "prune_line pe cd cutoff p raw = Inr p1" "prune_loop pe cd cutoff p1 rs = Inr p'"
    using Cons.prems by (auto split: if_splits sum.splits)
  from p1(1) Cons.IH [OF p1(2)] show ?case
    by (auto simp: prune_line_def line_record_def remove_record_def retain_record_def Let_def List.map_filter_simps
        split: if_splits option.splits sum.splits)
qed (simp add: List.map_filter_simps)

lemma start_matches: "prefix_matches cd cutoff tail scan_start (prune_start cd cutoff tail)"
  by (simp add: prefix_matches_def prune_start_def scan_start_def)

text \<open>The state of the verifier behind the checkpoint line.\<close>

definition resumed :: "PruneCheckpoint \<Rightarrow> scan_state" where
  "resumed cp = scan_start \<lparr> sc_line := 1, sc_checkpoint := Some cp, sc_prevHash := cp_LastRemovedHash cp,
     sc_highest := (case canonicalTraceVersionRank (cp_BoundaryCanonicalVersion cp) of Some r \<Rightarrow> r | None \<Rightarrow> 0,
       cp_BoundaryCanonicalVersion cp), sc_report := sc_report scan_start \<lparr> sr_Pruned := True \<rparr> \<rparr>"

lemma checkpoint_line:
  assumes "reads_back pe cd cp" "ParsePruneCheckpoint cd (pe_encode pe cp) = Inr cp"
  shows "line_step cd True [] scan_start (pe_encode pe cp) = Inr (resumed cp)"
  using assms by (simp add: line_step_def checkpoint_step_def reads_back_def scan_start_def resumed_def Let_def)

lemma scan_pruned: "scan cd s ls = Inr s' \<Longrightarrow> sr_Pruned (sc_report s) \<Longrightarrow> sr_Pruned (sc_report s')"
proof (induction ls arbitrary: s)
  case (Cons l ls)
  then obtain s1 where s1: "line_step cd True [] s l = Inr s1" "scan cd s1 ls = Inr s'" by (auto split: sum.splits)
  from s1(1) Cons.prems(2) have "sr_Pruned (sc_report s1)"
    by (auto simp: line_step_def checkpoint_step_def trace_step_def Let_def split: if_splits option.splits sum.splits)
  with Cons.IH [OF s1(2)] show ?case .
qed simp

lemma output_verifies:
  assumes "sr_Intact (VerifyPrunedChainFromReader cd [] b)" and rules: "white_refused cd" "hex_digests cd"
    and "cutoff \<noteq> cd_zero_time cd"
    and "prune_loop pe cd cutoff (prune_start cd cutoff (sr_Tail (VerifyPrunedChainFromReader cd [] b))) (pruneRawLines b) = Inr s"
    and "ps_removed s \<noteq> 0" and "finish_checkpoint cd s = (k, cp)" and "reads_back pe cd cp"
    and v: "v = VerifyPrunedChainFromReader cd [] (pe_encode pe cp @ CHR 0x0A # drop k b)"
  shows "sr_Intact v \<and> sr_Pruned v \<and> sr_Tail v = sr_Tail (VerifyPrunedChainFromReader cd [] b) \<and>
    sr_Records v + ps_removed s = sr_Records (VerifyPrunedChainFromReader cd [] b)"
proof -
  let ?r = "VerifyPrunedChainFromReader cd [] b"
  obtain e where e: "list_all line_fits (raw_lines b)" "scan cd scan_start (map line_of (pruneRawLines b)) = Inr e"
      "sr_Tail ?r = sc_prevHash e" "sr_Records ?r = records_of e" "sr_Intact (sc_report e)"
    by (rule intact_scan [OF assms(1)])
  obtain pre post sm pm where split: "pruneRawLines b = pre @ post" "scan cd sm (map line_of post) = Inr e"
      "prefix_matches cd cutoff (sr_Tail ?r) sm pm" "ps_removed s = ps_removed pm"
      "ps_cp s = (ps_cp pm) \<lparr> cp_RetainedCount := int (records_of e) - int (records_of sm) \<rparr>"
      "(if ps_retaining s then ps_retainOffset s else ps_offset s) =
        ps_offset (prune_start cd cutoff (sr_Tail ?r)) + length (concat pre)"
      "sr_Intact (sc_report sm) = sr_Intact (sc_report scan_start)"
    by (rule loop_splits [OF assms(5) e(2) start_matches rules])
  have k: "k = length (concat pre)" and cp: "cp_RecordType cp = ''prune_checkpoint''" "cp_Version cp = 1"
    "cp_LastRemovedIndex cp = cp_RemovedCount cp" "0 < cp_RemovedCount cp" "cp_Cutoff cp = cutoff"
    "cp_RetainedCount cp = int (records_of e) - int (records_of sm)" "cp_RetainedTailHash cp = sc_prevHash e"
    "cp_LastRemovedHash cp = sc_prevHash sm" "validCheckpointHash (sc_prevHash sm)"
    "canonicalTraceVersionRank (cp_BoundaryCanonicalVersion cp) = Some (fst (sc_highest sm))"
    "cp_LastRemovedTimestamp cp \<noteq> cd_zero_time cd" "cp_LastRemovedTimestamp cp < cutoff"
    "cp_CheckpointHash cp = checkpoint_hash cd cp" "records_of sm = ps_removed s"
    using assms(6,7) split(3-6) e(3)
    by (auto simp: finish_checkpoint_def prefix_matches_def prune_start_def checkpoint_hash_own Let_def)
  have "started sm" using cp(14) assms(6) by (simp add: started_def)
  then have "rebased sm (resumed cp)" using cp(8,10) by (simp add: rebased_def resumed_def started_def)
  then obtain u where u: "scan cd (resumed cp) (map line_of post) = Inr u" "rebased e u"
      "sc_checkpoint u = sc_checkpoint (resumed cp)" "sr_Intact (sc_report u) = sr_Intact (sc_report (resumed cp))"
      "records_of u + records_of sm = records_of (resumed cp) + records_of e"
    by (rule scan_rebased [OF _ split(2)])
  have hash: "validCheckpointHash (sc_prevHash e)" "records_of sm \<le> records_of e"
      "records_of sm = records_of e \<longrightarrow> sc_prevHash sm = sc_prevHash e"
    using scan_hash [OF split(2) \<open>started sm\<close> rules(2) cp(9)] by simp_all
  have "ParsePruneCheckpoint cd (pe_encode pe cp) = Inr cp"
    using assms(4,8) cp hash by (simp add: ParsePruneCheckpoint_def reads_back_def Let_def)
  from checkpoint_line [OF assms(8) this] u(1) output_lines [OF assms(8) e(1) split(1)]
  have "scan_loop cd True [] scan_start (scan_lines (pe_encode pe cp @ CHR 0x0A # drop k b)) = Inr u"
    by (simp add: k)
  moreover have "int (records_of u) = cp_RetainedCount cp" "sc_prevHash u = cp_RetainedTailHash cp"
    "sr_Intact (sc_report u)" "sc_checkpoint u = Some cp"
    using u(2-5) cp(6,7) hash(2) by (simp_all add: rebased_def resumed_def scan_start_def)
  moreover have "sr_Pruned (sc_report u)" by (rule scan_pruned [OF u(1)]) (simp add: resumed_def)
  ultimately show ?thesis
    using e(3,4) cp(6,7,14) hash(2) by (simp add: v VerifyPrunedChainFromReader_def verifyChainFromReader_def scan_finish_def)
qed

text \<open>Only the check of the output reports a broken output.\<close>

lemma other_errors:
  "rejectPruneRotationSibling fs \<noteq> Some (OutputBroken x)" "standalonePrunePath path ms \<noteq> Some (OutputBroken x)"
  "pruneInputStable cd bytes digest \<noteq> Some (OutputBroken x)"
  by (auto simp: rejectPruneRotationSibling_def standalonePrunePath_def pruneInputStable_def Let_def
      split: if_splits option.splits)

lemma checks_errors: "prune_checks fs \<noteq> Some (OutputBroken x)"
  using other_errors(1) [of fs x] other_errors(2) [of "pf_in fs" "pf_inSet fs" x]
  by (auto simp: prune_checks_def split: option.splits if_splits)

lemma loop_errors: "prune_loop pe cd cutoff p rs \<noteq> Inl (OutputBroken x)"
proof (induction rs arbitrary: p)
  case (Cons raw rs)
  have "prune_line pe cd cutoff p raw \<noteq> Inl (OutputBroken x)"
    by (simp add: prune_line_def remove_record_def Let_def split: option.split sum.split)
  with Cons show ?case by (auto split: sum.split)
qed simp

lemma publish_cases:
  assumes "publish_output pe cd fs digest k n cp = x" "pf_copy fs = Some b"
    and "sr_Intact (VerifyPrunedChainFromReader cd [] (pe_encode pe cp @ CHR 0x0A # drop k b))"
  shows "(\<exists>e. x = Inl e \<and> (\<forall>y. e \<noteq> OutputBroken y)) \<or> x = Inr (Published (pe_encode pe cp @ CHR 0x0A # drop k b) n cp)"
  using assms(2,3) other_errors unfolding assms(1) [symmetric]
  by (simp add: publish_output_def Let_def split: option.split) blast

lemma prune_cases:
  assumes "pf_read fs = Some b" "pf_reread fs = Some b"
  obtains (refused) e where "pruneFile pe cd fs cutoff True = Inl e" "\<And>y. e \<noteq> OutputBroken y"
    | (idle) "pruneFile pe cd fs cutoff True = Inr NothingEligible"
    | (written) s k cp where "sr_Intact (VerifyPrunedChainFromReader cd [] b)"
        "prune_loop pe cd cutoff (prune_start cd cutoff (sr_Tail (VerifyPrunedChainFromReader cd [] b))) (pruneRawLines b) = Inr s"
        "ps_removed s \<noteq> 0" "finish_checkpoint cd s = (k, cp)"
        "pruneFile pe cd fs cutoff True = publish_output pe cd fs (cd_sha256 cd b) k (ps_removed s) cp"
proof (cases "prune_checks fs")
  case (Some e)
  then show thesis using checks_errors [of fs] by (intro refused [of e]) (auto simp: pruneFile_def)
next
  case None
  let ?r = "VerifyPrunedChainFromReader cd [] b"
  show thesis
  proof (cases "sr_Intact ?r")
    case False
    then show thesis using None assms by (intro refused [of "InputBroken (sr_FailureReason ?r)"]) (simp_all add: pruneFile_def)
  next
    case intact: True
    show thesis
    proof (cases "prune_loop pe cd cutoff (prune_start cd cutoff (sr_Tail ?r)) (pruneRawLines b)")
      case (Inl e)
      then show thesis using None assms intact loop_errors [of pe cd cutoff _ "pruneRawLines b"]
        by (intro refused [of e]) (auto simp: pruneFile_def)
    next
      case (Inr s)
      obtain k cp where f: "finish_checkpoint cd s = (k, cp)" by fastforce
      show thesis
      proof (cases "pruneInputStable cd (pf_stable fs) (cd_sha256 cd b)")
        case (Some e)
        then show thesis using None assms intact Inr other_errors(3) by (intro refused [of e]) (auto simp: pruneFile_def)
      next
        case stable: None
        show thesis
        proof (cases "ps_removed s = 0")
          case True
          then show thesis using None assms intact Inr stable by (intro idle) (simp add: pruneFile_def)
        next
          case False
          then show thesis using None assms intact Inr stable f by (intro written [of s k cp]) (simp_all add: pruneFile_def)
        qed
      qed
    qed
  qed
qed

text \<open>C15: pruning a closed log, whose every read gives the same bytes. The check of the output never fails.
  What is published is verified, has the last hash of the log and all its records but the removed ones,
  which are exactly the leading records older than the cutoff; behind the checkpoint line it is the end of
  the log byte for byte.\<close>

theorem prune_output_verifies:
  assumes "pf_read fs = Some b" and "pf_reread fs = Some b" and "pf_copy fs = Some b"
    and "white_refused cd" and "hex_digests cd" and "cutoff \<noteq> cd_zero_time cd"
    and "\<And>s. prune_loop pe cd cutoff (prune_start cd cutoff (sr_Tail (VerifyPrunedChainFromReader cd [] b))) (pruneRawLines b) = Inr s \<Longrightarrow>
      ps_removed s \<noteq> 0 \<Longrightarrow> reads_back pe cd (snd (finish_checkpoint cd s))"
  shows "case pruneFile pe cd fs cutoff True of
      Inl (OutputBroken _) \<Rightarrow> False
    | Inr (Published out n cp) \<Rightarrow>
        (let r = VerifyPrunedChainFromReader cd [] b; v = VerifyPrunedChainFromReader cd [] out in
         sr_Intact r \<and> sr_Intact v \<and> sr_Pruned v \<and> sr_Tail v = sr_Tail r \<and> sr_Records v + n = sr_Records r \<and>
         n = length (takeWhile (\<lambda>t. pe_time pe (dt_Timestamp t) < cutoff) (log_records cd b)) \<and>
         (\<exists>k. out = pe_encode pe cp @ CHR 0x0A # drop k b))
    | _ \<Rightarrow> True"
proof (cases rule: prune_cases [OF assms(1,2), of pe cd cutoff])
  case (1 e)
  then show ?thesis by (auto split: prune_error.split)
next
  case 2
  then show ?thesis by simp
next
  case written: (3 s k cp)
  let ?out = "pe_encode pe cp @ CHR 0x0A # drop k b"
  have "reads_back pe cd cp" using assms(7) [OF written(2,3)] written(4) by simp
  note ok = output_verifies [OF written(1) assms(4-6) written(2-4) this refl]
  have "ps_removed s = length (takeWhile (\<lambda>t. pe_time pe (dt_Timestamp t) < cutoff) (log_records cd b))"
    using loop_removed [OF written(2)] by (simp add: log_records_def prune_start_def)
  moreover have "(\<exists>e. pruneFile pe cd fs cutoff True = Inl e \<and> (\<forall>y. e \<noteq> OutputBroken y)) \<or>
      pruneFile pe cd fs cutoff True = Inr (Published ?out (ps_removed s) cp)"
    using publish_cases [OF written(5) [symmetric] assms(3)] ok by simp
  ultimately show ?thesis using ok written(1) by (auto simp: Let_def split: prune_error.split)
qed

section \<open>Witness\<close>

text \<open>A log of two lines, whose records are those of the lines \<open>1\<close> and \<open>2\<close>; the first one is old.\<close>

definition old_digest :: string where
  "old_digest = ''sha256:'' @ replicate 64 CHR ''a''"

definition old_record :: DecisionTrace where
  "old_record = sample_trace \<lparr> dt_Timestamp := ''1'', dt_TraceHash := old_digest \<rparr>"

definition new_record :: DecisionTrace where
  "new_record = sample_trace \<lparr> dt_Timestamp := ''9'', dt_PreviousTraceHash := old_digest, dt_TraceHash := old_digest \<rparr>"

definition cut_checkpoint :: PruneCheckpoint where
  "cut_checkpoint = \<lparr> cp_RecordType = ''prune_checkpoint'', cp_Version = 1, cp_RemovedCount = 1, cp_LastRemovedIndex = 1,
     cp_LastRemovedHash = old_digest, cp_LastRemovedTimestamp = 1, cp_BoundaryCanonicalVersion = ''v2'', cp_Cutoff = 5,
     cp_RetainedCount = 1, cp_RetainedTailHash = old_digest, cp_CheckpointHash = old_digest \<rparr>"

definition prune_codec :: codec where
  "prune_codec = sample_codec \<lparr> cd_sha256 := (\<lambda>_. replicate 64 CHR ''a''),
     cd_record_type := (\<lambda>l. if l = ''1'' \<or> l = ''2'' then Some [] else if l = ''C'' then Some ''prune_checkpoint'' else None),
     cd_trace := (\<lambda>l. if l = ''1'' then Some old_record else if l = ''2'' then Some new_record else None),
     cd_checkpoint := (\<lambda>l. Some cut_checkpoint) \<rparr>"

definition sample_prune :: prune_env where
  "sample_prune = \<lparr> pe_time = (\<lambda>s. if s = ''1'' then 1 else 9), pe_encode = (\<lambda>_. ''C'') \<rparr>"

definition two_lines :: string where
  "two_lines = [CHR ''1'', CHR 0x0A, CHR ''2'', CHR 0x0A]"

definition closed_file :: prune_fs where
  "closed_file = \<lparr> pf_in = ''log'', pf_inBase = ''log'', pf_outBase = ''out'', pf_inDir = Some [], pf_outDir = Some [], pf_inDirStat = True,
     pf_sameDir = None, pf_inSet = Some [''log''], pf_outStat = LstatMissing, pf_outSet = Some [], pf_regular = Some True,
     pf_opened = Some True, pf_read = Some two_lines, pf_reread = Some two_lines, pf_stable = Some two_lines, pf_temp = True,
     pf_copy = Some two_lines, pf_back = True, pf_stableAgain = Some two_lines, pf_inSetAgain = Some [''log''],
     pf_outSetAgain = Some [], pf_closed = True, pf_publish = True \<rparr>"

lemma record_hashes:
  "ComputeCanonicalTraceHash prune_codec old_record = Inr old_digest" "ComputeCanonicalTraceHash prune_codec new_record = Inr old_digest"
proof -
  have "CanonicalTraceBytes srt (sample_trace \<lparr> dt_Timestamp := x, dt_PreviousTraceHash := y, dt_TraceHash := [] \<rparr>) \<noteq> Inl e" for srt x y e
  proof -
    let ?t = "sample_trace \<lparr> dt_Timestamp := x, dt_PreviousTraceHash := y, dt_TraceHash := [] \<rparr>"
    have "effectiveCanonicalTraceVersion ?t = canonicalTraceVersionV2" "canonicalTraceVersionV2 \<noteq> canonicalTraceVersionV1"
      "dt_SchemaVersion ?t = canonicalTraceVersionV2" "validateTraceProvenance ?t = validateTraceProvenance sample_trace"
      "validateTraceProvenance sample_trace = None"
      by (simp_all add: effectiveCanonicalTraceVersion_def sample_trace_def canonicalTraceVersionV2_def canonicalTraceVersionV1_def
          validateTraceProvenance_def) code_simp
    then show ?thesis unfolding CanonicalTraceBytes_def by simp
  qed
  note ok = this
  have same: "old_record \<lparr> dt_TraceHash := [] \<rparr> = sample_trace \<lparr> dt_Timestamp := ''1'', dt_PreviousTraceHash := [], dt_TraceHash := [] \<rparr>"
    "new_record \<lparr> dt_TraceHash := [] \<rparr> = sample_trace \<lparr> dt_Timestamp := ''9'', dt_PreviousTraceHash := old_digest, dt_TraceHash := [] \<rparr>"
    by (simp_all add: old_record_def new_record_def sample_trace_def)
  show "ComputeCanonicalTraceHash prune_codec old_record = Inr old_digest" "ComputeCanonicalTraceHash prune_codec new_record = Inr old_digest"
    using ok unfolding ComputeCanonicalTraceHash_def same by (auto simp: prune_codec_def old_digest_def split: sum.split)
qed

lemma prune_codec_ok: "white_refused prune_codec" "hex_digests prune_codec"
proof -
  show "white_refused prune_codec" by (auto simp: white_refused_def prune_codec_def)
  have "validCheckpointHash (''sha256:'' @ replicate 64 CHR ''a'')" by code_simp
  then show "hex_digests prune_codec" by (simp add: hex_digests_def prune_codec_def)
qed

lemma prune_codec_reads:
  "cd_record_type prune_codec ''1'' = Some []" "cd_record_type prune_codec ''2'' = Some []"
  "cd_trace prune_codec ''1'' = Some old_record" "cd_trace prune_codec ''2'' = Some new_record" "cd_zero_time prune_codec = - 1"
  by (simp_all add: prune_codec_def sample_codec_def)

lemma two_lines_intact:
  "VerifyPrunedChainFromReader prune_codec [] two_lines = \<lparr> sr_Pruned = False, sr_Intact = True, sr_Records = 2,
     sr_FirstTraceID = dt_TraceID sample_trace, sr_Tail = old_digest, sr_FirstFailureAt = 0, sr_FailureReason = None \<rparr>"
proof -
  have "raw_lines two_lines = [''1'', ''2'']" "drop_cr ''1'' = ''1''" "drop_cr ''2'' = ''2''" by code_simp+
  then have lines: "scan_lines two_lines = [Some ''1'', Some ''2'']"
    by (simp add: scan_lines_scanned scanned_def line_fits_def MaxTraceRecordScanBytes_def MaxTraceRecordBytes_def)
  have r: "effectiveCanonicalTraceVersion old_record = ''v2''" "effectiveCanonicalTraceVersion new_record = ''v2''"
    "dt_PreviousTraceHash old_record = []" "dt_PreviousTraceHash new_record = old_digest" "dt_TraceHash old_record = old_digest"
    "dt_TraceHash new_record = old_digest" "dt_TraceID old_record = dt_TraceID sample_trace"
    by (simp_all add: old_record_def new_record_def effectiveCanonicalTraceVersion_def sample_trace_def)
  have rank: "canonicalTraceVersionRank ''v2'' = Some 2" by code_simp
  show ?thesis
    by (simp add: VerifyPrunedChainFromReader_def verifyChainFromReader_def lines line_step_def trace_step_def scan_start_def
        scan_finish_def prune_codec_reads
        MaxTraceRecordBytes_def is_downgrade_def version_step_def rank r record_hashes Let_def)
qed

lemma two_lines_loop:
  "prune_loop sample_prune prune_codec 5 (prune_start prune_codec 5 old_digest) (pruneRawLines two_lines) =
    Inr \<lparr> ps_offset = 4, ps_retainOffset = 2, ps_removed = Suc 0, ps_retaining = True,
      ps_cp = cut_checkpoint \<lparr> cp_LastRemovedIndex := 0, cp_CheckpointHash := [] \<rparr> \<rparr>"
proof -
  have lines: "pruneRawLines two_lines = [[CHR ''1'', CHR 0x0A], [CHR ''2'', CHR 0x0A]]"
    "\<not> blank_line [CHR ''1'', CHR 0x0A]" "\<not> blank_line [CHR ''2'', CHR 0x0A]"
    "line_of [CHR ''1'', CHR 0x0A] = ''1''" "line_of [CHR ''2'', CHR 0x0A] = ''2''"
    by code_simp+
  have fit: "fits_prune [CHR ''1'', CHR 0x0A]" "fits_prune [CHR ''2'', CHR 0x0A]"
    by (simp_all add: fits_prune_def MaxTraceRecordScanBytes_def MaxTraceRecordBytes_def)
  have t: "pe_time sample_prune (dt_Timestamp old_record) = 1" "pe_time sample_prune (dt_Timestamp new_record) = 9"
    "dt_CanonicalVersion old_record = ''v2''" "dt_TraceHash old_record = old_digest"
    by (simp_all add: sample_prune_def old_record_def new_record_def sample_trace_def)
  show ?thesis
    by (simp add: lines fit prune_line_def prune_codec_reads t remove_record_def retain_record_def prune_start_def maxInt64_def cut_checkpoint_def Let_def)
qed

lemma cut_finished:
  "finish_checkpoint prune_codec \<lparr> ps_offset = 4, ps_retainOffset = 2, ps_removed = Suc 0, ps_retaining = True,
      ps_cp = cut_checkpoint \<lparr> cp_LastRemovedIndex := 0, cp_CheckpointHash := [] \<rparr> \<rparr> = (2, cut_checkpoint)"
  by (simp add: finish_checkpoint_def checkpoint_hash_def cut_checkpoint_def prune_codec_def old_digest_def Let_def)

theorem prune_output_verifies_witness:
  "pruneFile sample_prune prune_codec closed_file 5 True = Inr (Published (''C'' @ CHR 0x0A # ''2'' @ [CHR 0x0A]) 1 cut_checkpoint) \<and>
   sr_Tail (VerifyPrunedChainFromReader prune_codec [] (''C'' @ CHR 0x0A # ''2'' @ [CHR 0x0A])) = old_digest"
proof -
  let ?out = "''C'' @ CHR 0x0A # ''2'' @ [CHR 0x0A]"
  note tail = arg_cong [OF two_lines_intact, of sr_Tail, simplified]
  have reads: "pf_read closed_file = Some two_lines" "pf_reread closed_file = Some two_lines" "pf_copy closed_file = Some two_lines"
    by (simp_all add: closed_file_def)
  have written: "reads_back sample_prune prune_codec cut_checkpoint"
    by (simp add: reads_back_def sample_prune_def prune_codec_def MaxTraceRecordBytes_def)
  have zero: "(5 :: int) \<noteq> cd_zero_time prune_codec" by (simp add: prune_codec_def sample_codec_def)
  have whole: "reads_back sample_prune prune_codec (snd (finish_checkpoint prune_codec s))"
    if "prune_loop sample_prune prune_codec 5 (prune_start prune_codec 5 (sr_Tail (VerifyPrunedChainFromReader prune_codec [] two_lines)))
      (pruneRawLines two_lines) = Inr s" for s
    using that two_lines_loop cut_finished written by (simp add: tail)
  note applied = prune_output_verifies [OF reads prune_codec_ok zero whole]
  have "prune_checks closed_file = None" by (simp add: prune_checks_def closed_file_def rejectPruneRotationSibling_def
      standalonePrunePath_def has_members_def HasPrefix_def)
  moreover have "rejectPruneRotationSibling closed_file = None" "standalonePrunePath (pf_in closed_file) (pf_inSetAgain closed_file) = None"
    "\<not> has_members (pf_outSetAgain closed_file)"
    "pruneInputStable prune_codec (pf_stable closed_file) (cd_sha256 prune_codec two_lines) = None"
    "pruneInputStable prune_codec (pf_stableAgain closed_file) (cd_sha256 prune_codec two_lines) = None"
    "pf_temp closed_file" "pf_back closed_file" "pf_closed closed_file" "pf_publish closed_file"
    by (simp_all add: closed_file_def rejectPruneRotationSibling_def standalonePrunePath_def has_members_def HasPrefix_def
        pruneInputStable_def prune_codec_def)
  moreover have "pe_encode sample_prune cut_checkpoint = ''C''" "drop 2 two_lines = [CHR ''2'', CHR 0x0A]"
    by (simp_all add: sample_prune_def two_lines_def)
  ultimately have "pruneFile sample_prune prune_codec closed_file 5 True =
      (if sr_Intact (VerifyPrunedChainFromReader prune_codec [] ?out) then Inr (Published ?out 1 cut_checkpoint)
       else Inl (OutputBroken (sr_FailureReason (VerifyPrunedChainFromReader prune_codec [] ?out))))"
    by (simp add: pruneFile_def reads tail two_lines_loop two_lines_intact cut_finished publish_output_def Let_def)
  with applied show ?thesis by (simp add: tail Let_def split: if_splits)
qed

end
