(* ===== verification/Ssrf.thy ===== *)
theory Ssrf
  imports Prelude Values
begin

text \<open>
  The hardened fetch of images a policy names (\<open>pkg/llmguard/ssrf.go\<close> and \<open>FetchImageBase64\<close> of
  classifier.go). An address is the list of its bytes, as in package \<open>net\<close>. The resolver, the URL parser
  and the HTTP exchange on an open connection are parameters. The lemmas relate the tests on bytes to a
  table of address prefixes, and show which connections the fetch can open.
\<close>

section \<open>Addresses, as package net tests them\<close>

type_synonym ip = "8 word list"

definition To4 :: "ip \<Rightarrow> ip option" where
  "To4 a =
     (if length a = 4 then Some a
      else if length a = 16 \<and> take 10 a = replicate 10 0 \<and> a ! 10 = 0xFF \<and> a ! 11 = 0xFF then Some (drop 12 a)
      else None)"

definition IsUnspecified :: "ip \<Rightarrow> bool" where
  "IsUnspecified a \<longleftrightarrow> To4 a = Some [0, 0, 0, 0] \<or> a = replicate 16 0"

definition IsLoopback :: "ip \<Rightarrow> bool" where
  "IsLoopback a \<longleftrightarrow> (case To4 a of Some v4 \<Rightarrow> v4 ! 0 = 127 | None \<Rightarrow> a = replicate 15 0 @ [1])"

definition IsMulticast :: "ip \<Rightarrow> bool" where
  "IsMulticast a \<longleftrightarrow>
     (case To4 a of Some v4 \<Rightarrow> v4 ! 0 AND 0xF0 = 0xE0 | None \<Rightarrow> length a = 16 \<and> a ! 0 = 0xFF)"

definition IsInterfaceLocalMulticast :: "ip \<Rightarrow> bool" where
  "IsInterfaceLocalMulticast a \<longleftrightarrow> length a = 16 \<and> a ! 0 = 0xFF \<and> a ! 1 AND 0x0F = 0x01"

definition IsLinkLocalMulticast :: "ip \<Rightarrow> bool" where
  "IsLinkLocalMulticast a \<longleftrightarrow>
     (case To4 a of
        Some v4 \<Rightarrow> v4 ! 0 = 224 \<and> v4 ! 1 = 0 \<and> v4 ! 2 = 0
      | None \<Rightarrow> length a = 16 \<and> a ! 0 = 0xFF \<and> a ! 1 AND 0x0F = 0x02)"

definition IsLinkLocalUnicast :: "ip \<Rightarrow> bool" where
  "IsLinkLocalUnicast a \<longleftrightarrow>
     (case To4 a of
        Some v4 \<Rightarrow> v4 ! 0 = 169 \<and> v4 ! 1 = 254
      | None \<Rightarrow> length a = 16 \<and> a ! 0 = 0xFE \<and> a ! 1 AND 0xC0 = 0x80)"

section \<open>The filter\<close>

definition isPublicUnicast :: "ip \<Rightarrow> bool" where
  "isPublicUnicast a =
     (if a = [] then False
      else if IsLoopback a \<or> IsLinkLocalUnicast a \<or> IsLinkLocalMulticast a \<or> IsInterfaceLocalMulticast a \<or>
              IsMulticast a \<or> IsUnspecified a then False
      else case To4 a of
          Some v4 \<Rightarrow>
            (if v4 ! 0 = 10 \<or> (v4 ! 0 = 172 \<and> 16 \<le> v4 ! 1 \<and> v4 ! 1 \<le> 31) \<or> (v4 ! 0 = 192 \<and> v4 ! 1 = 168) then False
             else if v4 ! 0 = 100 \<and> 64 \<le> v4 ! 1 \<and> v4 ! 1 \<le> 127 then False
             else if v4 ! 0 = 169 \<and> v4 ! 1 = 254 then False
             else if v4 ! 0 = 0 then False
             else if v4 ! 0 = 192 \<and> v4 ! 1 = 0 \<and> (v4 ! 2 = 0 \<or> v4 ! 2 = 2) then False
             else True)
        | None \<Rightarrow> \<not> (length a = 16 \<and> (a ! 0 = 0xFC \<or> a ! 0 = 0xFD)))"

section \<open>Dialling and fetching\<close>

text \<open>A parsed URL with the members the fetch looks at.\<close>

record fetch_url = url +
  fu_User :: bool
  fu_Opaque :: string

datatype http_reply = HttpFailed string | HttpReply nat string

text \<open>
  \<^item> \<open>ne_url\<close>: \<open>url.Parse\<close>; \<open>ne_addr\<close>: the host and port the HTTP client asks its transport to dial for a
    URL, \<open>None\<close> if no request can be built from it;
  \<^item> \<open>ne_split\<close>: \<open>net.SplitHostPort\<close>; \<open>ne_lookup\<close>: the resolver, \<open>None\<close> on an error;
  \<^item> \<open>ne_exchange ip port url\<close>: the request for the URL on a connection to this address, with the answer's
    status and the bytes of its body (\<open>HttpFailed\<close> covers a refused connection and a failing read);
  \<^item> \<open>ne_base64\<close>: \<open>base64.StdEncoding\<close>.
\<close>

record network =
  ne_url :: "string \<Rightarrow> fetch_url option"
  ne_addr :: "string \<Rightarrow> string option"
  ne_split :: "string \<Rightarrow> (string \<times> string) option"
  ne_lookup :: "string \<Rightarrow> ip list option"
  ne_exchange :: "ip \<Rightarrow> string \<Rightarrow> string \<Rightarrow> http_reply"
  ne_base64 :: "string \<Rightarrow> string"

datatype dial_error = BadAddress | LookupFailed | NoAddresses | RefusedPrivate ip

text \<open>\<open>DialContext\<close> of the safe client: the address it connects to.\<close>

definition DialContext :: "network \<Rightarrow> string \<Rightarrow> dial_error + (ip \<times> string)" where
  "DialContext ne addr =
     (case ne_split ne addr of
        None \<Rightarrow> Inl BadAddress
      | Some (host, port) \<Rightarrow>
          (case ne_lookup ne host of
             None \<Rightarrow> Inl LookupFailed
           | Some ips \<Rightarrow>
               (if ips = [] then Inl NoAddresses
                else case List.find (\<lambda>a. \<not> isPublicUnicast a) ips of
                    Some a \<Rightarrow> Inl (RefusedPrivate a)
                  | None \<Rightarrow> Inr (hd ips, port))))"

datatype url_error = EmptyURL | BadURL | SchemeRefused | NoHost | UserInfo | OpaqueURL

definition ValidateImageFetchURL :: "network \<Rightarrow> string \<Rightarrow> url_error option" where
  "ValidateImageFetchURL ne raw =
     (if raw = [] then Some EmptyURL
      else case ne_url ne raw of
          None \<Rightarrow> Some BadURL
        | Some u \<Rightarrow>
            (let scheme = ToLower (url_Scheme u) in
             if scheme \<noteq> ''http'' \<and> scheme \<noteq> ''https'' then Some SchemeRefused
             else if url_Host u = [] then Some NoHost
             else if fu_User u then Some UserInfo
             else if fu_Opaque u \<noteq> [] then Some OpaqueURL
             else None))"

definition maxImageBytes :: nat where
  "maxImageBytes = 8388608"

datatype fetch_error = UrlRejected url_error | FetchFailed | FetchNon200 | ImageTooLarge

text \<open>A redirect is not followed: the client returns the answer as it is.\<close>

definition FetchImageBase64 :: "network \<Rightarrow> string \<Rightarrow> fetch_error + string" where
  "FetchImageBase64 ne raw =
     (case ValidateImageFetchURL ne raw of
        Some e \<Rightarrow> Inl (UrlRejected e)
      | None \<Rightarrow>
          (case ne_addr ne raw of
             None \<Rightarrow> Inl FetchFailed
           | Some addr \<Rightarrow>
               (case DialContext ne addr of
                  Inl _ \<Rightarrow> Inl FetchFailed
                | Inr (a, port) \<Rightarrow>
                    (case ne_exchange ne a port raw of
                       HttpFailed _ \<Rightarrow> Inl FetchFailed
                     | HttpReply status body \<Rightarrow>
                         (if status \<noteq> 200 then Inl FetchNon200
                          else if maxImageBytes < length body then Inl ImageTooLarge
                          else Inr (ne_base64 ne body))))))"

section \<open>Prefixes\<close>

text \<open>The bits of an address, the first byte's highest first, and membership in a prefix.\<close>

definition byte_bits :: "8 word \<Rightarrow> bool list" where
  "byte_bits b = map (\<lambda>i. bit b (7 - i)) [0..<8]"

definition in_prefix :: "ip \<Rightarrow> ip \<times> nat \<Rightarrow> bool" where
  "in_prefix a p \<longleftrightarrow>
     (case p of (net, len) \<Rightarrow> length a = length net \<and>
        take len (concat (map byte_bits a)) = take len (concat (map byte_bits net)))"

text \<open>The networks the filter names: loopback, link-local, private, shared, reserved and multicast for
  version 4; unspecified, loopback, link-local, unique-local and multicast for version 6.\<close>

definition refused_v4 :: "(ip \<times> nat) list" where
  "refused_v4 = [([127, 0, 0, 0], 8), ([169, 254, 0, 0], 16), ([224, 0, 0, 0], 4), ([10, 0, 0, 0], 8),
     ([172, 16, 0, 0], 12), ([192, 168, 0, 0], 16), ([100, 64, 0, 0], 10), ([0, 0, 0, 0], 8),
     ([192, 0, 0, 0], 24), ([192, 0, 2, 0], 24)]"

definition refused_v6 :: "(ip \<times> nat) list" where
  "refused_v6 = [(replicate 16 0, 128), (replicate 15 0 @ [1], 128), ([0xFE, 0x80] @ replicate 14 0, 10),
     (0xFC # replicate 15 0, 7), (0xFF # replicate 15 0, 8)]"

text \<open>The version 6 address of a version 4 one.\<close>

definition mapped :: "ip \<Rightarrow> ip" where
  "mapped a = replicate 10 0 @ [0xFF, 0xFF] @ a"

lemma length_byte_bits [simp]: "length (byte_bits b) = 8"
  by (simp add: byte_bits_def)

lemma drop_bit_bytes: "drop_bit k b = drop_bit k c \<longleftrightarrow> unat b div 2 ^ k = unat c div 2 ^ k" for b c :: "8 word"
  by (simp only: word_unat_eq_iff unat_drop_bit_eq) (simp only: drop_bit_eq_div)

lemma take_byte_bits:
  assumes "k \<le> 8"
  shows "take k (byte_bits b) = take k (byte_bits c) \<longleftrightarrow> unat b div 2 ^ (8 - k) = unat c div 2 ^ (8 - k)"
proof -
  have "take k (byte_bits b) = take k (byte_bits c) \<longleftrightarrow> (\<forall>i<k. bit b (7 - i) = bit c (7 - i))"
    using assms by (auto simp: byte_bits_def take_map list_eq_iff_nth_eq)
  also have "\<dots> \<longleftrightarrow> drop_bit (8 - k) b = drop_bit (8 - k) c"
  proof
    assume h: "\<forall>i<k. bit b (7 - i) = bit c (7 - i)"
    show "drop_bit (8 - k) b = drop_bit (8 - k) c"
    proof (rule bit_word_eqI)
      fix n assume "n < LENGTH(8)"
      show "bit (drop_bit (8 - k) b) n = bit (drop_bit (8 - k) c) n"
      proof (cases "n < k")
        case True
        then have "7 - (k - 1 - n) = 8 - k + n" using assms by simp
        with h [rule_format, of "k - 1 - n"] True show ?thesis by (simp add: bit_drop_bit_eq)
      next
        case False
        then have "\<not> 8 - k + n < LENGTH(8)" using assms by simp
        then show ?thesis using bit_imp_le_length [of b "8 - k + n"] bit_imp_le_length [of c "8 - k + n"]
          by (auto simp: bit_drop_bit_eq)
      qed
    qed
  next
    assume h: "drop_bit (8 - k) b = drop_bit (8 - k) c"
    show "\<forall>i<k. bit b (7 - i) = bit c (7 - i)"
    proof (intro allI impI)
      fix i assume "i < k"
      then have "8 - k + (k - 1 - i) = 7 - i" using assms by simp
      with arg_cong [OF h, of "\<lambda>w. bit w (k - 1 - i)"] show "bit b (7 - i) = bit c (7 - i)" by (simp add: bit_drop_bit_eq)
    qed
  qed
  also have "\<dots> \<longleftrightarrow> unat b div 2 ^ (8 - k) = unat c div 2 ^ (8 - k)"
    by (rule drop_bit_bytes)
  finally show ?thesis .
qed

lemma byte_bits_inject [simp]: "byte_bits b = byte_bits c \<longleftrightarrow> b = c"
  using take_byte_bits [of 8 b c] by (simp add: word_unat_eq_iff)

text \<open>A mask that keeps the high bits compares a prefix.\<close>

lemma high_bits:
  "b AND 0xF0 = 0xE0 \<longleftrightarrow> unat b div 16 = 14" "b AND 0xC0 = 0x80 \<longleftrightarrow> unat b div 64 = 2" for b :: "8 word"
proof -
  have top: "b AND NOT (mask k) = c AND NOT (mask k) \<longleftrightarrow> unat b div 2 ^ k = unat c div 2 ^ k" for k and c :: "8 word"
  proof -
    have "b AND NOT (mask k) = push_bit k (drop_bit k b)" for b :: "8 word"
      by (rule bit_word_eqI) (auto simp: bit_and_iff bit_not_iff bit_mask_iff bit_push_bit_iff bit_drop_bit_eq dest: bit_imp_le_length)
    moreover have "push_bit k (drop_bit k b) = push_bit k (drop_bit k c) \<longleftrightarrow> drop_bit k b = drop_bit k c" for b c :: "8 word"
    proof
      assume "push_bit k (drop_bit k b) = push_bit k (drop_bit k c)"
      then have "drop_bit k (push_bit k (drop_bit k b)) = drop_bit k (push_bit k (drop_bit k c))" by (rule arg_cong)
      moreover have "drop_bit k (push_bit k (drop_bit k x)) = drop_bit k x" for x :: "8 word"
        by (rule bit_word_eqI) (auto simp: bit_push_bit_iff bit_drop_bit_eq dest: bit_imp_le_length)
      ultimately show "drop_bit k b = drop_bit k c" by simp
    qed simp
    ultimately show ?thesis using drop_bit_bytes [of k b c] by (simp only:)
  qed
  have "(0xF0 :: 8 word) = NOT (mask 4)" "(0xE0 :: 8 word) = 0xE0 AND NOT (mask 4)"
    "(0xC0 :: 8 word) = NOT (mask 6)" "(0x80 :: 8 word) = 0x80 AND NOT (mask 6)"
    by (simp_all add: mask_numeral)
  with top [of 4 "0xE0"] top [of 6 "0x80"] show
    "b AND 0xF0 = 0xE0 \<longleftrightarrow> unat b div 16 = 14" "b AND 0xC0 = 0x80 \<longleftrightarrow> unat b div 64 = 2"
    by simp_all
qed

lemma in_prefix4:
  "in_prefix [a, b, c, d] ([a', b', c', d'], 8) \<longleftrightarrow> a = a'"
  "in_prefix [a, b, c, d] ([a', b', c', d'], 16) \<longleftrightarrow> a = a' \<and> b = b'"
  "in_prefix [a, b, c, d] ([a', b', c', d'], 24) \<longleftrightarrow> a = a' \<and> b = b' \<and> c = c'"
  "k \<le> 8 \<Longrightarrow> in_prefix [a, b, c, d] ([a', b', c', d'], k) \<longleftrightarrow> unat a div 2 ^ (8 - k) = unat a' div 2 ^ (8 - k)"
  "k \<le> 8 \<Longrightarrow> in_prefix [a, b, c, d] ([a', b', c', d'], 8 + k) \<longleftrightarrow> a = a' \<and> unat b div 2 ^ (8 - k) = unat b' div 2 ^ (8 - k)"
  by (simp_all add: in_prefix_def take_byte_bits)

lemma v4_ranges:
  "isPublicUnicast [a, b, c, d] \<longleftrightarrow> list_all (\<lambda>p. \<not> in_prefix [a, b, c, d] p) refused_v4"
proof -
  have k: "(12 :: nat) = 8 + 4" "(10 :: nat) = 8 + 2" "(4 :: nat) \<le> 8" "(2 :: nat) \<le> 8" by simp_all
  have r: "unat x div 16 = 1 \<longleftrightarrow> 16 \<le> x \<and> x \<le> 31" "unat x div 64 = 1 \<longleftrightarrow> 64 \<le> x \<and> x \<le> 127" for x :: "8 word"
    by (auto simp: word_le_nat_alt)
  have p: "in_prefix [a, b, c, d] ([172, 16, 0, 0], 12) \<longleftrightarrow> a = 172 \<and> 16 \<le> b \<and> b \<le> 31"
    "in_prefix [a, b, c, d] ([100, 64, 0, 0], 10) \<longleftrightarrow> a = 100 \<and> 64 \<le> b \<and> b \<le> 127"
    "in_prefix [a, b, c, d] ([224, 0, 0, 0], 4) \<longleftrightarrow> a AND 0xF0 = 0xE0"
    using in_prefix4(5) [OF k(3), of a b c d 172 16 0 0] in_prefix4(5) [OF k(4), of a b c d 100 64 0 0]
      in_prefix4(4) [OF k(3), of a b c d 224 0 0 0] r [of b] by (simp_all add: high_bits)
  have f: "To4 [a, b, c, d] = Some [a, b, c, d]" "IsLoopback [a, b, c, d] \<longleftrightarrow> a = 127"
    "IsLinkLocalUnicast [a, b, c, d] \<longleftrightarrow> a = 169 \<and> b = 254" "IsLinkLocalMulticast [a, b, c, d] \<longleftrightarrow> a = 224 \<and> b = 0 \<and> c = 0"
    "\<not> IsInterfaceLocalMulticast [a, b, c, d]" "IsMulticast [a, b, c, d] \<longleftrightarrow> a AND 0xF0 = 0xE0"
    "IsUnspecified [a, b, c, d] \<longleftrightarrow> a = 0 \<and> b = 0 \<and> c = 0 \<and> d = 0"
    by (auto simp: To4_def IsLoopback_def IsLinkLocalUnicast_def IsLinkLocalMulticast_def IsInterfaceLocalMulticast_def
        IsMulticast_def IsUnspecified_def dest: arg_cong [of _ _ length])
  have n: "[a, b, c, d] ! 0 = a" "[a, b, c, d] ! 1 = b" "[a, b, c, d] ! 2 = c" by simp_all
  have m: "a = 224 \<Longrightarrow> a AND 0xF0 = 0xE0" by simp
  have "isPublicUnicast [a, b, c, d] \<longleftrightarrow> \<not> (a = 127 \<or> a = 169 \<and> b = 254 \<or> a AND 0xF0 = 0xE0 \<or> a = 10 \<or>
      a = 172 \<and> 16 \<le> b \<and> b \<le> 31 \<or> a = 192 \<and> b = 168 \<or> a = 100 \<and> 64 \<le> b \<and> b \<le> 127 \<or> a = 0 \<or>
      a = 192 \<and> b = 0 \<and> c = 0 \<or> a = 192 \<and> b = 0 \<and> c = 2)"
    using m by (simp only: isPublicUnicast_def f n option.case list.distinct if_False simp_thms) argo
  then show ?thesis by (simp only: refused_v4_def list.pred_inject p in_prefix4(1-3)) blast
qed

lemma bits_inject: "length a = length b \<Longrightarrow> concat (map byte_bits a) = concat (map byte_bits b) \<longleftrightarrow> a = b"
  by (induction a b rule: list_induct2) simp_all

lemma in_prefix_all: "length a = length net \<Longrightarrow> in_prefix a (net, 8 * length net) \<longleftrightarrow> a = net"
proof -
  have l: "length (concat (map byte_bits x)) = 8 * length x" for x by (induction x) simp_all
  assume "length a = length net"
  then show ?thesis using bits_inject [of a net] by (simp add: in_prefix_def l)
qed

lemma v6_ranges:
  assumes "length a = 16" "To4 a = None"
  shows "isPublicUnicast a \<longleftrightarrow> list_all (\<lambda>p. \<not> in_prefix a p) refused_v6"
proof -
  obtain x y r where a: "a = x # y # r" "length r = 14" using assms(1) by (cases a; cases "tl a") auto
  then have z: "a \<noteq> []" "a ! 0 = x" by simp_all
  have full: "in_prefix a (replicate 16 0, 128) \<longleftrightarrow> a = replicate 16 0"
    "in_prefix a (replicate 15 0 @ [1], 128) \<longleftrightarrow> a = replicate 15 0 @ [1]"
    using in_prefix_all [of a "replicate 16 0"] in_prefix_all [of a "replicate 15 0 @ [1]"] assms(1) by simp_all
  have ten: "take 10 (byte_bits x @ byte_bits y @ zs) = byte_bits x @ take 2 (byte_bits y)"
    "take 8 (byte_bits x @ zs) = byte_bits x" "take 7 (byte_bits x @ zs) = take 7 (byte_bits x)" for x y zs
    by simp_all
  have seven: "take 7 (byte_bits x) = take 7 (byte_bits 0xFC) \<longleftrightarrow> x = 0xFC \<or> x = 0xFD"
  proof -
    have "unat x div 2 = 126 \<longleftrightarrow> unat x = 252 \<or> unat x = 253" by presburger
    then show ?thesis by (simp add: take_byte_bits word_unat_eq_iff)
  qed
  have "take 2 (byte_bits y) = take 2 (byte_bits 0x80) \<longleftrightarrow> y AND 0xC0 = 0x80" by (simp add: take_byte_bits high_bits)
  then have part: "in_prefix a ([0xFE, 0x80] @ replicate 14 0, 10) \<longleftrightarrow> x = 0xFE \<and> y AND 0xC0 = 0x80"
    "in_prefix a (0xFC # replicate 15 0, 7) \<longleftrightarrow> x = 0xFC \<or> x = 0xFD" "in_prefix a (0xFF # replicate 15 0, 8) \<longleftrightarrow> x = 0xFF"
    using a seven by (simp_all only: in_prefix_def prod.case list.simps concat.simps append.simps ten) simp_all
  have f: "IsLoopback a \<longleftrightarrow> a = replicate 15 0 @ [1]" "IsLinkLocalUnicast a \<longleftrightarrow> x = 0xFE \<and> y AND 0xC0 = 0x80"
    "IsLinkLocalMulticast a \<longleftrightarrow> x = 0xFF \<and> y AND 0x0F = 0x02" "IsInterfaceLocalMulticast a \<longleftrightarrow> x = 0xFF \<and> y AND 0x0F = 0x01"
    "IsMulticast a \<longleftrightarrow> x = 0xFF" "IsUnspecified a \<longleftrightarrow> a = replicate 16 0"
    using assms by (simp_all add: IsLoopback_def IsLinkLocalUnicast_def IsLinkLocalMulticast_def IsInterfaceLocalMulticast_def
        IsMulticast_def IsUnspecified_def a)
  have "isPublicUnicast a \<longleftrightarrow> \<not> (a = replicate 15 0 @ [1] \<or> x = 0xFE \<and> y AND 0xC0 = 0x80 \<or> x = 0xFF \<or> a = replicate 16 0 \<or>
      x = 0xFC \<or> x = 0xFD)"
    using assms z by (simp add: isPublicUnicast_def f)
  then show ?thesis by (simp only: refused_v6_def list.pred_inject part full) blast
qed

lemma To4_length: "To4 a = Some v4 \<Longrightarrow> length v4 = 4"
  by (auto simp: To4_def split: if_splits)

lemma To4_mapped: "length a = 16 \<Longrightarrow> To4 a = Some v4 \<Longrightarrow> a = mapped v4"
proof -
  assume a: "length a = 16" "To4 a = Some v4"
  then have "take 10 a = replicate 10 0" "a ! 10 = 0xFF" "a ! 11 = 0xFF" "drop 12 a = v4" by (auto simp: To4_def split: if_splits)
  moreover have "a ! 10 # drop 11 a = drop 10 a" "a ! 11 # drop 12 a = drop 11 a"
    using Cons_nth_drop_Suc [of 10 a] Cons_nth_drop_Suc [of 11 a] a(1) by simp_all
  ultimately show ?thesis using append_take_drop_id [of 10 a] by (metis append_Cons append_Nil append_assoc mapped_def)
qed

lemma mapped_public:
  assumes "length v4 = 4"
  shows "isPublicUnicast (mapped v4) = isPublicUnicast v4"
proof -
  have t: "To4 (mapped v4) = Some v4" "To4 v4 = Some v4" "length (mapped v4) = 16"
    using assms by (simp_all add: To4_def mapped_def nth_append)
  have "mapped v4 ! 10 = 0xFF" "replicate 16 (0 :: 8 word) ! 10 = 0" by (simp_all add: mapped_def nth_append)
  then have "mapped v4 \<noteq> replicate 16 0" by auto
  then have z: "mapped v4 ! 0 = 0" "mapped v4 \<noteq> replicate 16 0" "mapped v4 \<noteq> []" "v4 \<noteq> []" "v4 \<noteq> replicate 16 0"
    using assms arg_cong [of v4 "replicate 16 0" length]
    by (auto simp: mapped_def nth_append)
  show ?thesis
    using assms by (simp add: isPublicUnicast_def t z IsLoopback_def IsLinkLocalUnicast_def IsLinkLocalMulticast_def IsInterfaceLocalMulticast_def
        IsMulticast_def IsUnspecified_def) blast
qed

section \<open>Properties\<close>

text \<open>C9: the tests on bytes are a table of prefixes. An address of either version is dialled exactly if it
  is in none of the refused networks, where a version 4 address in version 6 form counts as version 4.\<close>

theorem public_address_ranges:
  assumes "length a = 4 \<or> length a = 16"
  shows "isPublicUnicast a \<longleftrightarrow>
    (case To4 a of Some v4 \<Rightarrow> list_all (\<lambda>p. \<not> in_prefix v4 p) refused_v4 | None \<Rightarrow> list_all (\<lambda>p. \<not> in_prefix a p) refused_v6)"
proof (cases "To4 a")
  case None
  with assms show ?thesis using v6_ranges [of a] by (auto simp: To4_def split: if_splits)
next
  case (Some v4)
  have l: "length v4 = 4" by (rule To4_length [OF Some])
  then obtain w x y z where v4: "v4 = [w, x, y, z]" by (auto simp: length_Suc_conv numeral_eq_Suc)
  have "isPublicUnicast a = isPublicUnicast v4"
    using assms Some To4_mapped [OF _ Some] mapped_public [OF l] by (auto simp: To4_def)
  with Some v4_ranges [of w x y z] show ?thesis by (simp add: v4)
qed

theorem public_address_ranges_witness:
  "\<not> isPublicUnicast (mapped [169, 254, 169, 254])"
proof -
  have "length (mapped [169, 254, 169, 254]) = 16" "To4 (mapped [169, 254, 169, 254]) = Some [169, 254, 169, 254]"
    by (simp_all add: mapped_def To4_def nth_append)
  moreover have "in_prefix [169, 254, 169, 254] ([169, 254, 0, 0], 16)" by (simp add: in_prefix4)
  ultimately show ?thesis using public_address_ranges [of "mapped [169, 254, 169, 254]"] by (simp add: refused_v4_def)
qed


text \<open>The filter does not look inside addresses that a gateway translates to version 4, and takes the
  broadcast address and the last reserved block for public ones: the metadata address 169.254.169.254
  passes in its NAT64 and 6to4 forms.\<close>

theorem translated_addresses_pass:
  "isPublicUnicast ([0x00, 0x64, 0xFF, 0x9B] @ replicate 8 0 @ [169, 254, 169, 254]) \<and>
   isPublicUnicast ([0x20, 0x02, 169, 254, 169, 254] @ replicate 10 0) \<and>
   isPublicUnicast [255, 255, 255, 255] \<and> isPublicUnicast [240, 0, 0, 1]"
  by code_simp

section \<open>Witness\<close>

text \<open>A network in which only the inner address answers, and one in which nothing does.\<close>

definition silent_network :: network where
  "silent_network = \<lparr> ne_url = (\<lambda>_. Some \<lparr> url_Scheme = ''HTTP'', url_Host = ''h'', url_Hostname = ''h'', url_Port = [],
       fu_User = False, fu_Opaque = [] \<rparr>),
     ne_addr = (\<lambda>_. Some ''h:80''), ne_split = (\<lambda>_. Some (''h'', ''80'')), ne_lookup = (\<lambda>_. Some [[10, 0, 0, 1]]),
     ne_exchange = (\<lambda>_ _ _. HttpFailed []), ne_base64 = id \<rparr>"

definition inner_answer :: "ip \<Rightarrow> string \<Rightarrow> string \<Rightarrow> http_reply" where
  "inner_answer a port u = (if isPublicUnicast a then HttpFailed [] else HttpReply 200 ''secret'')"


end
