(* ===== verification/System_One.thy ===== *)
theory System_One
  imports Llm_Client Float64
begin

text \<open>
  The second back end of \<open>llm_classify\<close>, a System One endpoint (\<open>pkg/llmguard/systemone.go\<close> and its use in
  llm\_classify.go): one typed question whose options are the labels of the policy and \<open>safe\<close>, answered by
  a distribution over them. The exchange, the URL parser, the printing of floats, the order in which a map
  is walked and the environment are parameters.
\<close>

section \<open>Base URL and client\<close>

record base_url = fetch_url +
  bu_Path :: string
  bu_RawQuery :: string
  bu_Fragment :: string

datatype base_error = BaseInvalid | BaseNotAbsolute | BaseUserInfo | BaseQuery | BasePlainHttp | BaseScheme

text \<open>\<open>parse_ip\<close> is \<open>net.ParseIP\<close>; \<open>strings.EqualFold\<close> folds like the member names of a struct.\<close>

definition isLoopbackHost :: "(string \<Rightarrow> ip option) \<Rightarrow> string \<Rightarrow> bool" where
  "isLoopbackHost parse_ip h \<longleftrightarrow>
     key_is ''localhost'' h \<or> (case parse_ip h of Some a \<Rightarrow> IsLoopback a | None \<Rightarrow> False)"

definition systemOnePath :: string where
  "systemOnePath = ''/v1/systemone''"

definition ValidateSystemOneBaseURL ::
  "(string \<Rightarrow> base_url option) \<Rightarrow> (string \<Rightarrow> ip option) \<Rightarrow> string \<Rightarrow> base_error + string" where
  "ValidateSystemOneBaseURL parse_url parse_ip raw =
     (case parse_url (TrimSpace raw) of
        None \<Rightarrow> Inl BaseInvalid
      | Some u \<Rightarrow>
          (if fu_Opaque u \<noteq> [] \<or> url_Host u = [] then Inl BaseNotAbsolute
           else if fu_User u then Inl BaseUserInfo
           else if bu_RawQuery u \<noteq> [] \<or> bu_Fragment u \<noteq> [] then Inl BaseQuery
           else if url_Scheme u \<noteq> ''https'' \<and> url_Scheme u \<noteq> ''http'' then Inl BaseScheme
           else if url_Scheme u = ''http'' \<and> \<not> isLoopbackHost parse_ip (url_Hostname u) then Inl BasePlainHttp
           else Inr (url_Scheme u @ ''://'' @ url_Host u @ trim_slashes (TrimSuffix (trim_slashes (bu_Path u)) systemOnePath))))"

definition SystemOneBaseURLFromEnv :: "string \<Rightarrow> string" where
  "SystemOneBaseURLFromEnv value = (let v = TrimSpace value in if v \<noteq> [] then v else ''https://api.typesafe.ai'')"

text \<open>A client, and the one the process keeps with the environment it was made for.\<close>

record system_one_client =
  sy_BaseURL :: string
  sy_APIKey :: string

type_synonym client_cache = "((string \<times> string) \<times> system_one_client) option"

definition getSystemOneClient ::
  "(string \<Rightarrow> base_url option) \<Rightarrow> (string \<Rightarrow> ip option) \<Rightarrow> string \<Rightarrow> string \<Rightarrow> client_cache \<Rightarrow>
     (base_error + system_one_client) \<times> client_cache" where
  "getSystemOneClient parse_url parse_ip env_url env_key cache =
     (let cfg = (SystemOneBaseURLFromEnv env_url, env_key) in
      case cache of
        Some (c, cli) \<Rightarrow>
          (if c = cfg then (Inr cli, cache)
           else case ValidateSystemOneBaseURL parse_url parse_ip (fst cfg) of
               Inl e \<Rightarrow> (Inl e, cache)
             | Inr base \<Rightarrow> (let cli = \<lparr> sy_BaseURL = base, sy_APIKey = snd cfg \<rparr> in (Inr cli, Some (cfg, cli))))
      | None \<Rightarrow>
          (case ValidateSystemOneBaseURL parse_url parse_ip (fst cfg) of
             Inl e \<Rightarrow> (Inl e, cache)
           | Inr base \<Rightarrow> (let cli = \<lparr> sy_BaseURL = base, sy_APIKey = snd cfg \<rparr> in (Inr cli, Some (cfg, cli)))))"

section \<open>The response\<close>

record system_one_answer =
  sa_Type :: string
  sa_Choice :: string
  sa_Probabilities :: "f64 option gomap"

record system_one_response =
  sp_Model :: string
  sp_Answers :: "system_one_answer gomap"

datatype system_one_fault =
    SoEmptyModel | SoBase base_error | SoBuild | SoCancelled string | SoCall string | SoUnread | SoTooLarge | SoRetryable nat
  | SoStatus nat | SoMalformed | SoRepeatedKey | SoTrailing | SoNoAnswer | SoNotChoice | SoEmptyChoice
  | SoNotOffered | SoDuplicate string | SoNullProbability string | SoOutside string | SoMissing nat nat | SoSum f64
  | SoNotMostProbable string | SoDone string system_one_fault

definition systemOneMaxDepth :: nat where
  "systemOneMaxDepth = 32"

text \<open>\<open>checkJSONValue\<close> over the tokens of a document. A number out of the range of a \<open>float64\<close> is no token.\<close>

fun checkJSONValue :: "runtime \<Rightarrow> nat \<Rightarrow> json \<Rightarrow> system_one_fault option"
  and check_elements :: "runtime \<Rightarrow> nat \<Rightarrow> json list \<Rightarrow> system_one_fault option"
  and check_members :: "runtime \<Rightarrow> nat \<Rightarrow> string set \<Rightarrow> (string \<times> json) list \<Rightarrow> system_one_fault option" where
  "checkJSONValue rt depth j =
     (if systemOneMaxDepth < depth then Some SoMalformed
      else case j of
          JNum n \<Rightarrow> (if rt_parse_float rt n = None then Some SoMalformed else None)
        | JArr js \<Rightarrow> check_elements rt (Suc depth) js
        | JObj ms \<Rightarrow> check_members rt (Suc depth) {} ms
        | _ \<Rightarrow> None)"
| "check_elements rt depth [] = None"
| "check_elements rt depth (j # js) =
     (case checkJSONValue rt depth j of Some e \<Rightarrow> Some e | None \<Rightarrow> check_elements rt depth js)"
| "check_members rt depth seen [] = None"
| "check_members rt depth seen ((k, j) # ms) =
     (if fold_key k \<in> seen then Some SoRepeatedKey
      else case checkJSONValue rt depth j of
          Some e \<Rightarrow> Some e
        | None \<Rightarrow> check_members rt depth (insert (fold_key k) seen) ms)"

definition into_map :: "(json \<Rightarrow> 'v option) \<Rightarrow> json \<Rightarrow> 'v gomap \<Rightarrow> 'v gomap option" where
  "into_map dec j m =
     (case j of
        JObj ms \<Rightarrow> fold (\<lambda>(k, x) acc. case (acc, dec x) of (Some a, Some v) \<Rightarrow> Some (mput k v a) | _ \<Rightarrow> None) ms (Some m)
      | _ \<Rightarrow> None)"

definition probability :: "runtime \<Rightarrow> json \<Rightarrow> f64 option option" where
  "probability rt j =
     (case j of JNull \<Rightarrow> Some None | JNum n \<Rightarrow> map_option Some (rt_parse_float rt n) | _ \<Rightarrow> None)"

definition answer_of :: "runtime \<Rightarrow> json \<Rightarrow> system_one_answer option" where
  "answer_of rt j =
     (case j of
        JNull \<Rightarrow> Some \<lparr> sa_Type = [], sa_Choice = [], sa_Probabilities = [] \<rparr>
      | JObj ms \<Rightarrow>
          (case (decode_field into_string ''type'' ms [], decode_field into_string ''choice'' ms [],
                 decode_field (into_map (probability rt)) ''probabilities'' ms []) of
             (Some t, Some c, Some p) \<Rightarrow> Some \<lparr> sa_Type = t, sa_Choice = c, sa_Probabilities = p \<rparr>
           | _ \<Rightarrow> None)
      | _ \<Rightarrow> None)"

definition response_of :: "runtime \<Rightarrow> json \<Rightarrow> system_one_response option" where
  "response_of rt j =
     (case j of
        JNull \<Rightarrow> Some \<lparr> sp_Model = [], sp_Answers = [] \<rparr>
      | JObj ms \<Rightarrow>
          (case (decode_field into_string ''model'' ms [], decode_field (into_map (answer_of rt)) ''answers'' ms []) of
             (Some m, Some a) \<Rightarrow> Some \<lparr> sp_Model = m, sp_Answers = a \<rparr>
           | _ \<Rightarrow> None)
      | _ \<Rightarrow> None)"

text \<open>Bytes that are no document at all are malformed; the source may find a repeated key in them first,
  which is refused as well.\<close>

definition decodeSystemOneResponse :: "llm_host \<Rightarrow> string \<Rightarrow> system_one_fault + system_one_response" where
  "decodeSystemOneResponse lh body =
     (let first = (case lh_raw lh body of RawJson j \<Rightarrow> Some j | RawTrailing j \<Rightarrow> Some j | _ \<Rightarrow> None)
      in case first of
           None \<Rightarrow> Inl SoMalformed
         | Some j \<Rightarrow>
             (case checkJSONValue (lh_rt lh) 0 j of
                Some e \<Rightarrow> Inl e
              | None \<Rightarrow>
                  (case response_of (lh_rt lh) j of
                     None \<Rightarrow> Inl SoMalformed
                   | Some out \<Rightarrow> (case lh_raw lh body of RawTrailing _ \<Rightarrow> Inl SoTrailing | _ \<Rightarrow> Inr out))))"

section \<open>Reading the answer\<close>

definition sumTolerance :: f64 where
  "sumTolerance = 0x3F847AE147AE147B"

definition tieTolerance :: f64 where
  "tieTolerance = 0x3F50624DD2F1A9FC"

definition f64_one :: f64 where
  "f64_one = 0x3FF0000000000000"

definition f64_abs :: "f64 \<Rightarrow> f64" where
  "f64_abs f = word_of_int (f64_mag f)"

definition off_one :: "f64 \<Rightarrow> f64" where
  "off_one s = f64_abs (f64_add s 0xBFF0000000000000)"

text \<open>The labels offered: normalised, each once, without \<open>safe\<close>.\<close>

fun add_labels :: "string list \<Rightarrow> string list \<Rightarrow> string list" where
  "add_labels out [] = out"
| "add_labels out (l # ls) =
     (let n = normLabel l in
      add_labels (if n \<noteq> [] \<and> n \<noteq> ''safe'' \<and> n \<notin> set out then out @ [n] else out) ls)"

definition offered_labels :: "string list \<Rightarrow> string list" where
  "offered_labels forbidden = add_labels [] forbidden"

text \<open>One pass over the probabilities, in the order in which the map is walked.\<close>

fun distribution_loop ::
  "string list \<Rightarrow> (string \<times> f64 option) list \<Rightarrow> f64 gomap \<Rightarrow> f64 \<Rightarrow> system_one_fault + (f64 gomap \<times> f64)" where
  "distribution_loop labels [] out acc = Inr (out, acc)"
| "distribution_loop labels ((k, pv) # raws) out acc =
     (let n = normLabel k in
      if n \<noteq> ''safe'' \<and> n \<notin> set labels then Inl SoNotOffered
      else if mget out n \<noteq> None then Inl (SoDuplicate n)
      else case pv of
          None \<Rightarrow> Inl (SoNullProbability n)
        | Some v \<Rightarrow>
            (if f64_IsNaN v \<or> f64_lt v 0 \<or> f64_lt f64_one v then Inl (SoOutside n)
             else distribution_loop labels raws (mput n v out) (f64_add acc v)))"

definition systemOneDistribution :: "string list \<Rightarrow> (string \<times> f64 option) list \<Rightarrow> system_one_fault + f64 gomap" where
  "systemOneDistribution labels raws =
     (case distribution_loop labels raws [] 0 of
        Inl e \<Rightarrow> Inl e
      | Inr (out, acc) \<Rightarrow>
          (if length out \<noteq> length labels + 1 then Inl (SoMissing (length out) (length labels + 1))
           else if f64_lt sumTolerance (off_one acc) then Inl (SoSum acc)
           else Inr out))"

definition model_char :: "char \<Rightarrow> bool" where
  "model_char c \<longleftrightarrow> is_lower c \<or> is_upper c \<or> is_digit c \<or> c \<in> set ''._:-/''"

text \<open>Only ASCII characters are kept, so a rune is one byte.\<close>

definition modelChars :: "string \<Rightarrow> nat \<Rightarrow> string" where
  "modelChars s limit = take limit (filter model_char (TrimSpace s))"

definition modelID :: "string \<Rightarrow> string" where
  "modelID s = (let m = modelChars s 64 in if m = [] then ''unreported'' else m)"

definition echoWindow :: nat where
  "echoWindow = 8"

definition echoes :: "string \<Rightarrow> string \<Rightarrow> bool" where
  "echoes key lm \<longleftrightarrow>
     (let w = min echoWindow (length key)
      in list_ex (\<lambda>i. i + w \<le> length lm \<and> Contains key (take w (drop i lm))) [0..<Suc (length lm)])"

definition reportedModel :: "(string \<Rightarrow> base_url option) \<Rightarrow> system_one_client \<Rightarrow> string \<Rightarrow> string" where
  "reportedModel parse_url c s =
     (let m = modelID s; key = ToLower (modelChars (sy_APIKey c) (length (sy_APIKey c))) in
      if key \<noteq> [] \<and> echoes key (ToLower m) then ''redacted''
      else case parse_url (sy_BaseURL c) of
          Some u \<Rightarrow>
            (if url_Hostname u \<noteq> [] \<and> Contains (ToLower m) (ToLower (url_Hostname u)) then ''redacted'' else m)
        | None \<Rightarrow> m)"

text \<open>\<open>show3\<close> is the verb \<open>%.3f\<close>, \<open>walk\<close> the order of the map.\<close>

record so_env =
  se_show3 :: "f64 \<Rightarrow> string"
  se_walk :: "(string \<times> f64 option) list \<Rightarrow> (string \<times> f64 option) list"
  se_url :: "string \<Rightarrow> base_url option"
  se_ip :: "string \<Rightarrow> ip option"
  se_text :: "system_one_fault \<Rightarrow> string"

definition interpretSystemOneAnswer ::
  "so_env \<Rightarrow> system_one_response \<Rightarrow> string list \<Rightarrow> system_one_fault + ClassifyResult" where
  "interpretSystemOneAnswer se resp labels =
     (case mget (sp_Answers resp) ''category'' of
        None \<Rightarrow> Inl SoNoAnswer
      | Some ans \<Rightarrow>
          (if sa_Type ans \<noteq> ''choice'' then Inl SoNotChoice
           else
             let choice = normLabel (sa_Choice ans) in
             if choice = [] then Inl SoEmptyChoice
             else case systemOneDistribution labels (se_walk se (sa_Probabilities ans)) of
                 Inl e \<Rightarrow> Inl e
               | Inr probs \<Rightarrow>
                   (case mget probs choice of
                      None \<Rightarrow> Inr \<lparr> lr_Category = ''unknown_label'', lr_Confidence = 0,
                        lr_Reasoning = capReasoning (''system one model='' @ modelID (sp_Model resp) @ '' choice outside the offered options'') \<rparr>
                    | Some p \<Rightarrow>
                        (if list_ex (\<lambda>(_, q). f64_lt (f64_add p tieTolerance) q) probs then Inl (SoNotMostProbable choice)
                         else Inr \<lparr> lr_Category = verdict choice p labels [], lr_Confidence = p,
                           lr_Reasoning = capReasoning (''system one model='' @ modelID (sp_Model resp) @ '' choice='' @ choice @ '' p='' @
                             se_show3 se p @ '' p_safe='' @ se_show3 se (case mget probs ''safe'' of Some q \<Rightarrow> q | None \<Rightarrow> 0)) \<rparr>))))"

section \<open>The exchange\<close>

text \<open>The request: the prompt is the state, the options are the criteria.\<close>

record so_request =
  rq_model :: string
  rq_state :: string
  rq_criteria :: "(string \<times> string option) list"

definition so_request_of :: "string \<Rightarrow> string list \<Rightarrow> string \<Rightarrow> so_request" where
  "so_request_of model labels prompt =
     \<lparr> rq_model = model, rq_state = prompt,
       rq_criteria = mput ''safe'' (Some ''None of the other options apply to the request.'') (map (\<lambda>l. (l, None)) labels) \<rparr>"

text \<open>One attempt: the request cannot be built, the context ended, the call failed with a kind of failure,
  the body cannot be read, or there is an answer. \<open>sn_wait\<close> is the end of the context while waiting.\<close>

datatype so_outcome = OutBuild | OutCancelled string | OutFailed string | OutUnread | OutReply nat string

record so_net =
  sn_post :: "nat \<Rightarrow> string \<Rightarrow> string \<Rightarrow> so_request \<Rightarrow> so_outcome"
  sn_wait :: "nat \<Rightarrow> string option"

definition systemOneMaxBody :: nat where
  "systemOneMaxBody = 1048576"

definition once :: "llm_host \<Rightarrow> so_net \<Rightarrow> system_one_client \<Rightarrow> so_request \<Rightarrow> nat \<Rightarrow> system_one_fault + system_one_response" where
  "once lh sn c req attempt =
     (case sn_post sn attempt (sy_BaseURL c @ systemOnePath) (sy_APIKey c) req of
        OutBuild \<Rightarrow> Inl SoBuild
      | OutCancelled e \<Rightarrow> Inl (SoCancelled e)
      | OutFailed kind \<Rightarrow> Inl (SoCall kind)
      | OutUnread \<Rightarrow> Inl SoUnread
      | OutReply status body \<Rightarrow>
          (if systemOneMaxBody < length body then Inl SoTooLarge
           else if status = 200 then decodeSystemOneResponse lh body
           else if status = 429 \<or> status = 503 \<or> status = 529 then Inl (SoRetryable status)
           else Inl (SoStatus status)))"

definition systemOneMaxAttempts :: nat where
  "systemOneMaxAttempts = 3"

text \<open>The attempts from \<open>attempt\<close> on, with the number of requests made.\<close>

function attempts ::
  "llm_host \<Rightarrow> so_net \<Rightarrow> system_one_client \<Rightarrow> so_request \<Rightarrow> nat \<Rightarrow> nat \<times> (system_one_fault + system_one_response)" where
  "attempts lh sn c req attempt =
     (case once lh sn c req attempt of
        Inr out \<Rightarrow> (1, Inr out)
      | Inl e \<Rightarrow>
          (case e of
             SoRetryable _ \<Rightarrow>
               (if systemOneMaxAttempts \<le> attempt then (1, Inl e)
                else case sn_wait sn attempt of
                    Some why \<Rightarrow> (1, Inl (SoDone why e))
                  | None \<Rightarrow> (case attempts lh sn c req (Suc attempt) of (n, r) \<Rightarrow> (Suc n, r)))
           | _ \<Rightarrow> (1, Inl e)))"
  by pat_completeness auto
termination
  by (relation "measure (\<lambda>(lh, sn, c, req, attempt). systemOneMaxAttempts - attempt)") auto

declare attempts.simps [simp del]

text \<open>\<open>SystemOneClassifier.ClassifyPrompt\<close> and \<open>evalSystemOneClassify\<close>.\<close>

definition SystemOneClassify ::
  "llm_host \<Rightarrow> so_net \<Rightarrow> so_env \<Rightarrow> system_one_client \<Rightarrow> string \<Rightarrow> string list \<Rightarrow> string \<Rightarrow> system_one_fault + ClassifyResult" where
  "SystemOneClassify lh sn se c model forbidden prompt =
     (if model = [] then Inl SoEmptyModel
      else
        let labels = offered_labels forbidden in
        case snd (attempts lh sn c (so_request_of model labels prompt) 1) of
          Inl e \<Rightarrow> Inl e
        | Inr resp \<Rightarrow>
            interpretSystemOneAnswer se (resp \<lparr> sp_Model := reportedModel (se_url se) c (sp_Model resp) \<rparr>) labels)"

definition evalSystemOneClassify ::
  "llm_host \<Rightarrow> so_net \<Rightarrow> so_env \<Rightarrow> string \<Rightarrow> string \<Rightarrow> client_cache \<Rightarrow> string \<Rightarrow> string list \<Rightarrow> string \<Rightarrow> llm_answer" where
  "evalSystemOneClassify lh sn se env_url env_key cache model forbidden prompt =
     (case fst (getSystemOneClient (se_url se) (se_ip se) env_url env_key cache) of
        Inl e \<Rightarrow> LlmErr (''TYPESAFE_BASE_URL: '' @ se_text se (SoBase e))
      | Inr c \<Rightarrow>
          (case SystemOneClassify lh sn se c model forbidden prompt of
             Inl e \<Rightarrow> LlmErr (se_text se e)
           | Inr out \<Rightarrow> LlmResult (lr_Category out) (lr_Confidence out) (lr_Reasoning out)))"

text \<open>The back ends of the engine, over a network and an environment.\<close>

definition host_llm ::
  "llm_host \<Rightarrow> network \<Rightarrow> so_net \<Rightarrow> so_env \<Rightarrow> string \<Rightarrow> string \<Rightarrow> client_cache \<Rightarrow> llm_service" where
  "host_llm lh ne sn se env_url env_key cache =
     \<lparr> llm_hook = None, llm_system_one = evalSystemOneClassify lh sn se env_url env_key cache,
       llm_fetch_image = fetch_image ne, llm_ollama = ollama_classify lh \<rparr>"

end
