(* ===== verification/Llm_Sound.thy ===== *)
theory Llm_Sound
  imports System_One "HOL-Library.Sublist" "HOL-Library.Multiset"
begin

text \<open>
  What the two back ends of \<open>llm_classify\<close> guarantee: a leaf is silent only if a model said \<open>safe\<close> with the
  confidence asked for; a System One response is read in one way only; the key of the operator does not
  reach the audit detail; the retries are bounded.
\<close>

lemma normLabel_normLabel: "normLabel (normLabel s) = normLabel s"
  by (simp add: normLabel_def TrimSpace_ToLower TrimSpace_TrimSpace)

section \<open>The distribution\<close>

definition is_probability :: "f64 \<Rightarrow> bool" where
  "is_probability v \<longleftrightarrow> \<not> f64_IsNaN v \<and> \<not> f64_lt v 0 \<and> \<not> f64_lt f64_one v"

lemma set_add_labels: "set (add_labels out ls) = set out \<union> {n. n \<in> normLabel ` set ls \<and> n \<noteq> [] \<and> n \<noteq> ''safe''}"
  by (induction out ls rule: add_labels.induct) (auto simp: Let_def)

lemma distinct_add_labels: "distinct out \<Longrightarrow> ''safe'' \<notin> set out \<Longrightarrow> distinct (add_labels out ls) \<and> ''safe'' \<notin> set (add_labels out ls)"
  by (induction out ls rule: add_labels.induct) (auto simp: Let_def)

lemma offered_distinct: "distinct (offered_labels forbidden)" "''safe'' \<notin> set (offered_labels forbidden)"
  using distinct_add_labels [of "[]" forbidden] by (simp_all add: offered_labels_def)

lemma mput_new: "mget m k = None \<Longrightarrow> mput k v m = m @ [(k, v)]"
  unfolding mput_def by (induction m) (auto split: if_splits)

lemma distribution_loop_ok:
  assumes "distribution_loop labels raws out acc = Inr (out', acc')"
    and "distinct (map fst out)" "set (map fst out) \<subseteq> insert ''safe'' (set labels)" "list_all (\<lambda>a. is_probability (snd a)) out"
  shows "distinct (map fst out') \<and> set (map fst out') \<subseteq> insert ''safe'' (set labels) \<and> list_all (\<lambda>a. is_probability (snd a)) out'"
  using assms
proof (induction labels raws out acc rule: distribution_loop.induct)
  case (2 labels k pv raws out acc)
  let ?n = "normLabel k"
  from "2.prems"(1) obtain v where v: "?n = ''safe'' \<or> ?n \<in> set labels" "mget out ?n = None" "pv = Some v" "is_probability v"
      "distribution_loop labels raws (mput ?n v out) (f64_add acc v) = Inr (out', acc')"
    by (auto simp: Let_def is_probability_def split: if_splits option.splits)
  have "?n \<notin> fst ` set out" using v(2) by (simp add: map_of_eq_None_iff)
  with v "2.prems"(2-4) have "distinct (map fst (mput ?n v out)) \<and> set (map fst (mput ?n v out)) \<subseteq> insert ''safe'' (set labels) \<and>
      list_all (\<lambda>a. is_probability (snd a)) (mput ?n v out)"
    by (simp add: mput_new)
  moreover have "\<not> (?n \<noteq> ''safe'' \<and> ?n \<notin> set labels)" "\<not> (f64_IsNaN v \<or> f64_lt v 0 \<or> f64_lt f64_one v)"
    using v(1,4) by (auto simp: is_probability_def)
  moreover have "\<not> mget out ?n \<noteq> None" using v(2) by simp
  ultimately show ?case using "2.IH" [OF refl _ _ v(3)] v(5) by blast
qed simp

text \<open>One probability for each option, and the sum within the tolerance.\<close>

definition is_distribution :: "string list \<Rightarrow> f64 gomap \<Rightarrow> bool" where
  "is_distribution labels probs \<longleftrightarrow>
     distinct (map fst probs) \<and> set (map fst probs) = insert ''safe'' (set labels) \<and> list_all (\<lambda>a. is_probability (snd a)) probs"

lemma distribution_ok:
  assumes "systemOneDistribution labels raws = Inr probs" "distinct labels" "''safe'' \<notin> set labels"
  shows "is_distribution labels probs"
proof -
  obtain acc where l: "distribution_loop labels raws [] 0 = Inr (probs, acc)" "length probs = length labels + 1"
    using assms(1) by (auto simp: systemOneDistribution_def split: sum.splits if_splits)
  from distribution_loop_ok [OF l(1)] have d: "distinct (map fst probs)" "set (map fst probs) \<subseteq> insert ''safe'' (set labels)"
    "list_all (\<lambda>a. is_probability (snd a)) probs" by simp_all
  moreover have "card (insert ''safe'' (set labels)) = length probs" using assms(2,3) l(2) by (simp add: distinct_card)
  moreover have "card (set (map fst probs)) = length probs" using distinct_card [OF d(1)] by simp
  ultimately show ?thesis unfolding is_distribution_def by (metis List.finite_set card_subset_eq finite.insertI)
qed

section \<open>A silent leaf\<close>

text \<open>What the answer of each back end must be for its leaf to be silent.\<close>

definition ollama_says_safe :: "llm_host \<Rightarrow> string \<Rightarrow> string \<Rightarrow> string list \<Rightarrow> string \<Rightarrow> string \<Rightarrow> bool" where
  "ollama_says_safe lh base model forbidden prompt img \<longleftrightarrow>
     (\<exists>reply out. Chat lh base (chat_request model forbidden prompt img) = Inr reply \<and>
        parseClassifyJSON lh (TrimSpace reply) = Inr out \<and> normLabel (lr_Category out) = ''safe'' \<and>
        \<not> f64_lt (lr_Confidence out) minConfidence)"

definition system_one_says_safe ::
  "llm_host \<Rightarrow> so_net \<Rightarrow> so_env \<Rightarrow> system_one_client \<Rightarrow> string \<Rightarrow> string list \<Rightarrow> string \<Rightarrow> bool" where
  "system_one_says_safe lh sn se c model forbidden prompt \<longleftrightarrow>
     (\<exists>resp ans probs p. snd (attempts lh sn c (so_request_of model (offered_labels forbidden) prompt) 1) = Inr resp \<and>
        mget (sp_Answers resp) ''category'' = Some ans \<and> normLabel (sa_Choice ans) = ''safe'' \<and>
        systemOneDistribution (offered_labels forbidden) (se_walk se (sa_Probabilities ans)) = Inr probs \<and>
        is_distribution (offered_labels forbidden) probs \<and> mget probs ''safe'' = Some p \<and> \<not> f64_lt p minConfidence \<and>
        list_all (\<lambda>(l, q). \<not> f64_lt (f64_add p tieTolerance) q) probs)"

lemma ollama_safe:
  assumes "ollama_classify lh endpoint model forbidden prompt img = LlmResult ''safe'' conf reason"
  shows "ollama_says_safe lh (trim_slashes endpoint) model forbidden prompt img"
  using assms verdict_safe
  by (auto simp: ollama_classify_def ClassifyPrompt_def ollama_says_safe_def Let_def split: if_splits sum.splits)

lemma system_one_safe:
  assumes "SystemOneClassify lh sn se c model forbidden prompt = Inr out" "lr_Category out = ''safe''"
  shows "system_one_says_safe lh sn se c model forbidden prompt"
proof -
  let ?labels = "offered_labels forbidden"
  from assms obtain resp ans probs p where r: "snd (attempts lh sn c (so_request_of model ?labels prompt) 1) = Inr resp"
      "mget (sp_Answers resp) ''category'' = Some ans" "systemOneDistribution ?labels (se_walk se (sa_Probabilities ans)) = Inr probs"
      "mget probs (normLabel (sa_Choice ans)) = Some p" "\<not> list_ex (\<lambda>(_, q). f64_lt (f64_add p tieTolerance) q) probs"
      "verdict (normLabel (sa_Choice ans)) p ?labels [] = ''safe''"
    by (auto simp: SystemOneClassify_def interpretSystemOneAnswer_def Let_def split: if_splits option.splits sum.splits)
  from r(6) have "normLabel (sa_Choice ans) = ''safe''" "\<not> f64_lt p minConfidence" by (simp_all add: verdict_safe normLabel_normLabel)
  with r distribution_ok [OF r(3) offered_distinct] show ?thesis
    by (auto simp: system_one_says_safe_def list_ex_iff list_all_iff)
qed

text \<open>C8: When an \<open>llm_classify\<close> leaf of the running process is silent, its prompt is a string and a model
  has called it \<open>safe\<close>: an Ollama model in one well-formed verdict with confidence 0.6 or more, or a
  System One model in an answer that gives every offered option exactly one probability in [0,1] and
  \<open>safe\<close> one of 0.6 or more that no other option exceeds by more than the tolerance. A network error, a refused image, a status, a
  malformed, incomplete or unknown answer all fire the leaf.\<close>

theorem silence_is_a_safe_verdict:
  assumes "evalLLMClassifyWithDetail (host_llm lh ne sn se env_url env_key cache) s flds = None"
  shows "\<exists>prompt model. resolveField (lc_PromptField s) flds = Some (VStr prompt) \<and>
    (if lc_Backend s = LLMBackendSystemOne
     then \<exists>c. fst (getSystemOneClient (se_url se) (se_ip se) env_url env_key cache) = Inr c \<and>
       system_one_says_safe lh sn se c model (lc_Forbidden s) prompt
     else \<exists>base img. ollama_says_safe lh base model (lc_Forbidden s) prompt img)"
  using assms
proof (rule llm_classify_fails_closed)
  fix prompt conf reason imageURL model
  let ?llm = "host_llm lh ne sn se env_url env_key cache"
  assume p: "resolveField (lc_PromptField s) flds = Some (VStr prompt)"
    and h: "case llm_hook ?llm of
       Some h \<Rightarrow> h prompt imageURL (lc_Forbidden s) model = LlmResult ''safe'' conf reason
     | None \<Rightarrow>
         if lc_Backend s = LLMBackendSystemOne
         then llm_system_one ?llm model (lc_Forbidden s) prompt = LlmResult ''safe'' conf reason
         else \<exists>endpoint image. (imageURL = [] \<or> llm_fetch_image ?llm imageURL = Some image) \<and>
           llm_ollama ?llm endpoint model (lc_Forbidden s) prompt image = LlmResult ''safe'' conf reason"
  show ?thesis
  proof (cases "lc_Backend s = LLMBackendSystemOne")
    case True
    with h have "evalSystemOneClassify lh sn se env_url env_key cache model (lc_Forbidden s) prompt = LlmResult ''safe'' conf reason"
      by (simp add: host_llm_def)
    then obtain c out where "fst (getSystemOneClient (se_url se) (se_ip se) env_url env_key cache) = Inr c"
        "SystemOneClassify lh sn se c model (lc_Forbidden s) prompt = Inr out" "lr_Category out = ''safe''"
      by (auto simp: evalSystemOneClassify_def split: sum.splits)
    with True p system_one_safe show ?thesis by fastforce
  next
    case False
    with h obtain endpoint image where "ollama_classify lh endpoint model (lc_Forbidden s) prompt image = LlmResult ''safe'' conf reason"
      by (auto simp: host_llm_def)
    with False p ollama_safe show ?thesis by fastforce
  qed
qed

section \<open>One reading of a response\<close>

lemma check_members_None:
  "check_members rt d seen ms = None \<longleftrightarrow>
     distinct (map (\<lambda>m. fold_key (fst m)) ms) \<and> (\<forall>m\<in>set ms. fold_key (fst m) \<notin> seen \<and> checkJSONValue rt d (snd m) = None)"
proof (induction ms arbitrary: seen)
  case (Cons m ms)
  obtain k j where m: "m = (k, j)" by fastforce
  have "check_members rt d seen (m # ms) = None \<longleftrightarrow>
      fold_key k \<notin> seen \<and> checkJSONValue rt d j = None \<and> check_members rt d (insert (fold_key k) seen) ms = None"
    by (auto simp: m simp del: checkJSONValue.simps split: option.splits if_splits)
  then show ?case unfolding Cons.IH by (simp add: m image_iff del: checkJSONValue.simps) metis
qed simp

lemma decode_field_unique:
  assumes "distinct (map (\<lambda>m. fold_key (fst m)) ms)" "(k, j) \<in> set ms" "key_is name k"
  shows "decode_field dec name ms v = (if j = JNull then Some v else dec j v)"
proof -
  have skip: "\<forall>m\<in>set xs. \<not> key_is name (fst m) \<Longrightarrow> decode_field dec name xs u = Some u" for xs u
    by (induction xs) auto
  have skip2: "\<forall>m\<in>set xs. \<not> key_is name (fst m) \<Longrightarrow> decode_field dec name (xs @ ys) u = decode_field dec name ys u" for xs ys u
    by (induction xs) auto
  from assms(2) obtain xs ys where ms: "ms = xs @ (k, j) # ys" by (meson split_list)
  with assms(1,3) have "\<forall>m\<in>set xs. \<not> key_is name (fst m)" "\<forall>m\<in>set ys. \<not> key_is name (fst m)"
    by (auto simp: key_is_def image_iff)
  with ms assms(3) show ?thesis by (auto simp: skip skip2 split: option.split)
qed

lemma decode_field_absent: "\<forall>m\<in>set ms. \<not> key_is name (fst m) \<Longrightarrow> decode_field dec name ms v = Some v"
  by (induction ms) auto

lemma decode_field_reordered:
  assumes "distinct (map (\<lambda>m. fold_key (fst m)) ms)" "mset ms' = mset ms"
  shows "decode_field dec name ms' v = decode_field dec name ms v"
proof -
  have d: "distinct (map (\<lambda>m. fold_key (fst m)) ms')" using assms by (metis mset_eq_imp_distinct_iff mset_map)
  have s: "set ms' = set ms" using assms(2) by (rule mset_eq_setD)
  show ?thesis
  proof (cases "\<exists>m\<in>set ms. key_is name (fst m)")
    case True
    then obtain k j where "(k, j) \<in> set ms" "key_is name k" by auto
    then show ?thesis using assms(1) d s decode_field_unique by metis
  qed (use s decode_field_absent in metis)
qed

text \<open>C25: A response that passes \<open>checkNoRepeatedKeys\<close> has one reading: the order of the members of an object
  changes neither the check nor what is decoded from it, so no second \<open>choice\<close> or \<open>probabilities\<close>, in
  whatever case, replaces a first.\<close>

theorem response_has_one_reading:
  assumes "checkJSONValue rt d (JObj ms) = None" "mset ms' = mset ms"
  shows "checkJSONValue rt d (JObj ms') = None \<and> response_of rt (JObj ms') = response_of rt (JObj ms) \<and>
    answer_of rt (JObj ms') = answer_of rt (JObj ms)"
proof -
  from assms(1) have dist: "distinct (map (\<lambda>m. fold_key (fst m)) ms)" and c: "check_members rt (Suc d) {} ms = None"
    and deep: "\<not> systemOneMaxDepth < d"
    by (auto simp: check_members_None split: if_splits)
  have "distinct (map (\<lambda>m. fold_key (fst m)) ms')" using dist assms(2) by (metis mset_eq_imp_distinct_iff mset_map)
  then have "check_members rt (Suc d) {} ms' = None" using c mset_eq_setD [OF assms(2)] by (simp add: check_members_None)
  with deep show ?thesis by (simp add: response_of_def answer_of_def decode_field_reordered [OF dist assms(2)])
qed

section \<open>The key of the operator\<close>

lemma Contains_sublist: "Contains s p \<longleftrightarrow> sublist p s"
proof -
  have pre: "HasPrefix t p \<longleftrightarrow> prefix p t" for t by (metis HasPrefix_def append_eq_conv_conj prefix_def take_is_prefix)
  have "Index s p \<noteq> None \<longleftrightarrow> sublist p s" by (induction s) (auto simp: pre sublist_Cons_right)
  then show ?thesis by (simp add: Contains_def)
qed

text \<open>C26: No run of eight characters of the API key (as compared: filtered and in lower case) reaches the
  audit detail inside the model name an endpoint reports, however the endpoint echoes it.\<close>

theorem key_not_echoed:
  assumes "8 \<le> length w" "sublist w (ToLower (modelChars (sy_APIKey c) (length (sy_APIKey c))))"
    and "reportedModel parse_url c s \<noteq> ''redacted''"
  shows "\<not> sublist w (ToLower (reportedModel parse_url c s))"
proof
  let ?key = "ToLower (modelChars (sy_APIKey c) (length (sy_APIKey c)))"
  assume "sublist w (ToLower (reportedModel parse_url c s))"
  moreover from assms(3) have r: "reportedModel parse_url c s = modelID s" "?key = [] \<or> \<not> echoes ?key (ToLower (modelID s))"
    by (auto simp: reportedModel_def Let_def split: if_splits option.splits)
  ultimately obtain ps ss where w: "ToLower (modelID s) = ps @ w @ ss" by (auto simp: sublist_def)
  from assms(1,2) have "8 \<le> length ?key" by (meson order_trans sublist_length_le)
  then have win: "min echoWindow (length ?key) = 8" by (simp add: echoWindow_def)
  have "sublist (take 8 w) ?key" using assms(2) by (meson sublist_order.order_trans sublist_take)
  moreover have "take 8 (drop (length ps) (ToLower (modelID s))) = take 8 w" using w assms(1) by simp
  ultimately have "echoes ?key (ToLower (modelID s))"
    unfolding echoes_def Let_def win list_ex_iff Contains_sublist
    using w assms(1) by (intro bexI [of _ "length ps"]) auto
  with r \<open>8 \<le> length ?key\<close> show False by auto
qed

section \<open>Retries\<close>

definition retryable :: "system_one_fault + 'a \<Rightarrow> bool" where
  "retryable r = (case r of Inl (SoRetryable _) \<Rightarrow> True | _ \<Rightarrow> False)"

text \<open>A question is sent at least once and at most three times; each attempt but the last was answered
  with a retryable status, and the result is that of the last attempt (kept as the reason when the context
  ended while waiting).\<close>

theorem retries_are_bounded:
  "case attempts lh sn c req 1 of (n, r) \<Rightarrow>
     1 \<le> n \<and> n \<le> systemOneMaxAttempts \<and> list_all (\<lambda>i. retryable (once lh sn c req i)) [1..<n] \<and>
     (r = once lh sn c req n \<or> (\<exists>why e. r = Inl (SoDone why e) \<and> once lh sn c req n = Inl e))"
proof -
  have step: "attempts lh sn c req i =
      (if retryable (once lh sn c req i) \<and> i < 3
       then case sn_wait sn i of
           Some why \<Rightarrow> (1, Inl (SoDone why (projl (once lh sn c req i))))
         | None \<Rightarrow> (case attempts lh sn c req (Suc i) of (n, r) \<Rightarrow> (Suc n, r))
       else (1, once lh sn c req i))" for i
    by (subst attempts.simps) (auto simp: retryable_def systemOneMaxAttempts_def split: sum.split system_one_fault.split option.split)
  have proj: "retryable r \<Longrightarrow> r = Inl (projl r)" for r :: "system_one_fault + system_one_response"
    by (auto simp: retryable_def split: sum.splits)
  show ?thesis
    by (subst step, subst step, subst step)
      (auto simp: systemOneMaxAttempts_def numeral_2_eq_2 upt_rec numeral_3_eq_3 split: option.split prod.split dest: proj)
qed

section \<open>Where the key goes\<close>

text \<open>The client the process keeps after a series of environments.\<close>

definition clients_after ::
  "(string \<Rightarrow> base_url option) \<Rightarrow> (string \<Rightarrow> ip option) \<Rightarrow> (string \<times> string) list \<Rightarrow> client_cache" where
  "clients_after pu pi envs = fold (\<lambda>(url, key) cache. snd (getSystemOneClient pu pi url key cache)) envs None"

definition cache_true :: "(string \<Rightarrow> base_url option) \<Rightarrow> (string \<Rightarrow> ip option) \<Rightarrow> client_cache \<Rightarrow> bool" where
  "cache_true pu pi cache \<longleftrightarrow>
     (case cache of
        None \<Rightarrow> True
      | Some ((url, key), cli) \<Rightarrow> ValidateSystemOneBaseURL pu pi url = Inr (sy_BaseURL cli) \<and> sy_APIKey cli = key)"

lemma client_step:
  assumes "cache_true pu pi cache"
  shows "cache_true pu pi (snd (getSystemOneClient pu pi url key cache))"
    and "fst (getSystemOneClient pu pi url key cache) =
      map_sum id (\<lambda>base. \<lparr> sy_BaseURL = base, sy_APIKey = key \<rparr>) (ValidateSystemOneBaseURL pu pi (SystemOneBaseURLFromEnv url))"
  using assms by (auto simp: getSystemOneClient_def cache_true_def Let_def split: option.splits sum.splits)

lemma clients_after_true: "cache_true pu pi (clients_after pu pi envs)"
proof -
  have "cache_true pu pi cache \<Longrightarrow> cache_true pu pi (fold (\<lambda>(url, key) cache. snd (getSystemOneClient pu pi url key cache)) envs cache)" for cache
    by (induction envs arbitrary: cache) (auto simp: client_step)
  then show ?thesis by (simp add: clients_after_def cache_true_def)
qed

text \<open>C27: Whatever environments the process has seen before, the client it uses carries the key and the base URL
  of the present one, never those of an earlier one; and that base URL has no user information and no query, and
  is https or names the loopback host, so that the key is never sent in the clear to another host.\<close>

theorem key_stays_private:
  assumes "fst (getSystemOneClient pu pi url key (clients_after pu pi envs)) = Inr c"
  shows "sy_APIKey c = key \<and>
    (\<exists>u path. pu (TrimSpace (SystemOneBaseURLFromEnv url)) = Some u \<and> sy_BaseURL c = url_Scheme u @ ''://'' @ url_Host u @ path \<and>
       url_Host u \<noteq> [] \<and> \<not> fu_User u \<and> bu_RawQuery u = [] \<and>
       (url_Scheme u = ''https'' \<or> url_Scheme u = ''http'' \<and> isLoopbackHost pi (url_Hostname u)))"
  using assms unfolding client_step(2) [OF clients_after_true]
  by (auto simp: ValidateSystemOneBaseURL_def split: option.splits if_splits sum.splits)

section \<open>Witnesses\<close>

definition calm_verdict :: json where
  "calm_verdict = JObj [(''category'', JStr ''Safe''), (''confidence'', JNum ''1''), (''reasoning'', JStr ''a cat'')]"

definition calm_host :: llm_host where
  "calm_host =
     \<lparr> lh_rt = sample_runtime
         \<lparr> rt_parse_float := \<lambda>s. Some (if s = ''1'' then f64_one else 0),
           rt_json := \<lambda>_. Some (JObj [(''message'', JObj [(''role'', JStr ''assistant''), (''content'', JStr ''verdict'')])]) \<rparr>,
       lh_raw = \<lambda>_. RawJson calm_verdict, lh_post = \<lambda>_ _. PostReply 200 ''chat'', lh_text = \<lambda>_. ''error'' \<rparr>"

definition calm_net :: so_net where
  "calm_net = \<lparr> sn_post = \<lambda>_ _ _ _. OutReply 529 [], sn_wait = \<lambda>_. None \<rparr>"

definition calm_env :: so_env where
  "calm_env =
     \<lparr> se_show3 = \<lambda>_. ''p'', se_walk = rev, se_url = \<lambda>s. Some
         \<lparr> url_Scheme = ''https'', url_Host = ''api.example'', url_Hostname = ''api.example'', url_Port = [], fu_User = False, fu_Opaque = [],
           bu_Path = ''/v1/systemone/'', bu_RawQuery = [], bu_Fragment = [] \<rparr>,
       se_ip = \<lambda>_. None, se_text = \<lambda>_. ''error'' \<rparr>"

definition calm_network :: network where
  "calm_network = \<lparr> ne_url = \<lambda>_. None, ne_addr = \<lambda>_. None, ne_split = \<lambda>_. None, ne_lookup = \<lambda>_. None,
     ne_exchange = \<lambda>_ _ _. HttpFailed [], ne_base64 = id \<rparr>"

definition calm_rule :: LLMClassify where
  "calm_rule = sample_llm_rule \<lparr> lc_Backend := LLMBackendOllama, lc_Model := ''gemma'' \<rparr>"

lemma calm_chat: "ollama_classify calm_host e ''gemma'' f p img = LlmResult (verdict ''Safe'' f64_one f [''model_refused'']) f64_one (capReasoning ''a cat'')"
proof -
  have "decode_chat (JObj [(''message'', JObj [(''role'', JStr ''assistant''), (''content'', JStr ''verdict'')])]) = Some ''verdict''"
    by code_simp
  then have "Chat calm_host b r = Inr ''verdict''" for b r by (simp add: Chat_def calm_host_def)
  moreover have "parseClassifyJSON calm_host ''verdict'' = Inr \<lparr> lr_Category = ''Safe'', lr_Confidence = f64_one, lr_Reasoning = ''a cat'' \<rparr>"
    by code_simp
  moreover have "TrimSpace ''verdict'' = ''verdict''" by code_simp
  ultimately show ?thesis by (simp add: ollama_classify_def ClassifyPrompt_def)
qed

theorem silence_is_a_safe_verdict_witness:
  "\<exists>model base img. ollama_says_safe calm_host base model [''violence''] ''draw a cat'' img"
proof -
  have p: "resolveField ''parameters.prompt'' [(''parameters.prompt'', VStr ''draw a cat'')] = Some (VStr ''draw a cat'')" by code_simp
  moreover have "verdict ''Safe'' f64_one [''violence''] [''model_refused''] = ''safe''" by code_simp
  ultimately have "evalLLMClassifyWithDetail (host_llm calm_host calm_network calm_net calm_env ''https://api.example'' ''key'' None)
      calm_rule [(''parameters.prompt'', VStr ''draw a cat'')] = None"
    by (simp add: evalLLMClassifyWithDetail_def calm_rule_def sample_llm_rule_def host_llm_def calm_chat interpretClassifyResult_def
        LLMBackendOllama_def LLMBackendSystemOne_def)
  from silence_is_a_safe_verdict [OF this] p show ?thesis
    by (auto simp: calm_rule_def sample_llm_rule_def LLMBackendOllama_def LLMBackendSystemOne_def)
qed

theorem response_has_one_reading_witness:
  "response_of sample_runtime (JObj [(''answers'', JNull), (''model'', JStr ''m'')]) =
     response_of sample_runtime (JObj [(''model'', JStr ''m''), (''answers'', JNull)])"
proof -
  have "checkJSONValue sample_runtime 0 (JObj [(''model'', JStr ''m''), (''answers'', JNull)]) = None" by code_simp
  from response_has_one_reading [OF this, of "[(''answers'', JNull), (''model'', JStr ''m'')]"] show ?thesis by simp
qed

theorem key_not_echoed_witness:
  "\<not> sublist ''s3cret-k'' (ToLower (reportedModel (\<lambda>_. None) \<lparr> sy_BaseURL = ''https://api.example'', sy_APIKey = ''S3cret-Key-17'' \<rparr> ''jev-1''))"
proof (rule key_not_echoed)
  let ?c = "\<lparr> sy_BaseURL = ''https://api.example'', sy_APIKey = ''S3cret-Key-17'' \<rparr>"
  have "ToLower (modelChars (sy_APIKey ?c) (length (sy_APIKey ?c))) = [] @ ''s3cret-k'' @ ''ey-17''" by code_simp
  then show "sublist ''s3cret-k'' (ToLower (modelChars (sy_APIKey ?c) (length (sy_APIKey ?c))))" unfolding sublist_def by blast
  show "reportedModel (\<lambda>_. None) ?c ''jev-1'' \<noteq> ''redacted''" by code_simp
qed simp

theorem key_stays_private_witness:
  "\<exists>c. fst (getSystemOneClient (se_url calm_env) (se_ip calm_env) [] ''new'' (clients_after (se_url calm_env) (se_ip calm_env) [([], ''old'')])) = Inr c \<and>
     sy_APIKey c = ''new''"
proof -
  let ?c = "\<lparr> sy_BaseURL = ''https://api.example'', sy_APIKey = ''new'' \<rparr>"
  have "fst (getSystemOneClient (se_url calm_env) (se_ip calm_env) [] ''new''
      (clients_after (se_url calm_env) (se_ip calm_env) [([], ''old'')])) = Inr ?c" by code_simp
  then show ?thesis using key_stays_private by blast
qed

end
