(* ===== verification/Claude_Settings.thy ===== *)
theory Claude_Settings
  imports Values
begin

text \<open>
  The edit that \<open>tg protect\<close> and \<open>tg unprotect\<close> make to the settings of Claude Code
  (\<open>cmd/tg/protect.go\<close>): the managed hook is removed from \<open>hooks.PreToolUse\<close> wherever it stands, and one
  entry with it is appended. A decoded document is a tree, so the edit of a nested map is written out as an
  update of its parent.
\<close>

section \<open>Values\<close>

text \<open>What the code keeps in an interface of its own making or of the decoder's: a nil slice in an interface is
  not nil, and \<open>[]string\<close> is not \<open>[]any\<close>.\<close>

datatype any =
    ANil
  | ABool bool
  | AFloat f64
  | AInt int
  | AStr string
  | AStrs "string list"
  | ANilList
  | AList "any list"
  | AMap "(string \<times> any) list"

type_synonym settings = "any gomap"

text \<open>What a value is after \<open>json.Marshal\<close> and \<open>json.Unmarshal\<close>. A nil slice comes back as \<open>null\<close>.\<close>

primrec norm :: "any \<Rightarrow> any" where
  "norm ANil = ANil"
| "norm (ABool b) = ABool b"
| "norm (AFloat f) = AFloat f"
| "norm (AInt n) = AFloat (f64_of_int n)"
| "norm (AStr s) = AStr s"
| "norm (AStrs ss) = AList (map AStr ss)"
| "norm ANilList = ANil"
| "norm (AList vs) = AList (map norm vs)"
| "norm (AMap m) = AMap (map (map_prod id norm) m)"

definition cloneMap :: "settings \<Rightarrow> settings" where
  "cloneMap m = map (map_prod id norm) m"

definition as_list :: "any \<Rightarrow> any list option" where
  "as_list v = (case v of AList vs \<Rightarrow> Some vs | ANilList \<Rightarrow> Some [] | _ \<Rightarrow> None)"

definition as_string :: "any \<Rightarrow> string option" where
  "as_string v = (case v of AStr s \<Rightarrow> Some s | _ \<Rightarrow> None)"

section \<open>The managed hook\<close>

definition managedAgent :: string where
  "managedAgent = ''tool-guard-claude''"

fun containsManagedAgentArgs :: "string list \<Rightarrow> bool" where
  "containsManagedAgentArgs (a # b # args) \<longleftrightarrow>
     a = ''-agent-id'' \<and> b = managedAgent \<or> containsManagedAgentArgs (b # args)"
| "containsManagedAgentArgs _ \<longleftrightarrow> False"

definition isManagedClaudeHook :: "settings \<Rightarrow> bool" where
  "isManagedClaudeHook hook \<longleftrightarrow>
     (let command = (case mget hook ''command'' of Some (AStr s) \<Rightarrow> s | _ \<Rightarrow> []) in
      if Contains command (''-agent-id '' @ managedAgent) then True
      else case mget hook ''args'' of
          Some (AStrs args) \<Rightarrow> containsManagedAgentArgs args
        | Some v \<Rightarrow>
            (case as_list v of
               None \<Rightarrow> False
             | Some vs \<Rightarrow> (case those (map as_string vs) of None \<Rightarrow> False | Some args \<Rightarrow> containsManagedAgentArgs args))
        | None \<Rightarrow> False)"

definition managed :: "any \<Rightarrow> bool" where
  "managed v \<longleftrightarrow> (case v of AMap hook \<Rightarrow> isManagedClaudeHook hook | _ \<Rightarrow> False)"

section \<open>Removing and appending\<close>

datatype settings_error = MustBeObject string | MustBeArray string

text \<open>One group of \<open>PreToolUse\<close>: what remains of it, and the hooks it holds.\<close>

definition group_hooks :: "any \<Rightarrow> any list option" where
  "group_hooks item =
     (case item of AMap grp \<Rightarrow> Option.bind (mget grp ''hooks'') as_list | _ \<Rightarrow> None)"

definition clean_group :: "any \<Rightarrow> any option" where
  "clean_group item =
     (case group_hooks item of
        None \<Rightarrow> Some item
      | Some nested \<Rightarrow>
          (let kept = filter (\<lambda>v. \<not> managed v) nested in
           if kept = [] then None
           else case item of AMap grp \<Rightarrow> Some (AMap (mput ''hooks'' (AList kept) grp)) | _ \<Rightarrow> None))"

definition group_managed :: "any \<Rightarrow> bool" where
  "group_managed item = (case group_hooks item of None \<Rightarrow> False | Some nested \<Rightarrow> list_ex managed nested)"

definition slice_of :: "any list \<Rightarrow> any" where
  "slice_of vs = (if vs = [] then ANilList else AList vs)"

definition removeManagedClaudeHooks :: "settings \<Rightarrow> settings_error + (settings \<times> bool)" where
  "removeManagedClaudeHooks root =
     (case mget root ''hooks'' of
        None \<Rightarrow> Inr (root, False)
      | Some (AMap hooks) \<Rightarrow>
          (case mget hooks ''PreToolUse'' of
             None \<Rightarrow> Inr (root, False)
           | Some v \<Rightarrow>
               (case as_list v of
                  None \<Rightarrow> Inl (MustBeArray ''hooks.PreToolUse'')
                | Some pre \<Rightarrow>
                    Inr (mput ''hooks'' (AMap (mput ''PreToolUse'' (slice_of (List.map_filter clean_group pre)) hooks)) root,
                         list_ex group_managed pre)))
      | Some _ \<Rightarrow> Inl (MustBeObject ''hooks''))"

definition hasManagedClaudeHook :: "settings \<Rightarrow> bool" where
  "hasManagedClaudeHook root =
     (case removeManagedClaudeHooks (cloneMap root) of Inr (_, found) \<Rightarrow> found | Inl _ \<Rightarrow> False)"

definition objectChild :: "settings \<Rightarrow> string \<Rightarrow> settings_error + settings" where
  "objectChild parent key =
     (case mget parent key of None \<Rightarrow> Inr [] | Some (AMap child) \<Rightarrow> Inr child | Some _ \<Rightarrow> Inl (MustBeObject key))"

definition arrayChild :: "settings \<Rightarrow> string \<Rightarrow> settings_error + any list" where
  "arrayChild parent key =
     (case mget parent key of
        None \<Rightarrow> Inr []
      | Some v \<Rightarrow> (case as_list v of Some vs \<Rightarrow> Inr vs | None \<Rightarrow> Inl (MustBeArray key)))"

definition managed_entry :: "settings \<Rightarrow> any" where
  "managed_entry handler = AMap [(''matcher'', AStr []), (''hooks'', AList [AMap handler])]"

text \<open>
  A nil root map, which a document \<open>null\<close> decodes to, is written to and panics. \<open>text_of\<close> is
  \<open>json.Marshal\<close>, by which a change is told.
\<close>

datatype 'a attempt = Returned 'a | Refused settings_error | Panicked

definition mergeClaudeHook :: "(settings \<Rightarrow> string) \<Rightarrow> settings option \<Rightarrow> settings \<Rightarrow> (settings \<times> bool) attempt" where
  "mergeClaudeHook text_of root handler =
     (case root of
        None \<Rightarrow> Panicked
      | Some r \<Rightarrow>
          (case removeManagedClaudeHooks (cloneMap r) of
             Inl e \<Rightarrow> Refused e
           | Inr (cleaned, found) \<Rightarrow>
               (case objectChild cleaned ''hooks'' of
                  Inl e \<Rightarrow> Refused e
                | Inr hooks \<Rightarrow>
                    (case arrayChild hooks ''PreToolUse'' of
                       Inl e \<Rightarrow> Refused e
                     | Inr pre \<Rightarrow>
                         (let merged = mput ''hooks'' (AMap (mput ''PreToolUse'' (AList (pre @ [managed_entry handler])) hooks)) cleaned
                          in Returned (merged, if found then text_of r \<noteq> text_of merged else True))))))"

section \<open>The hooks of a document\<close>

text \<open>The groups of \<open>PreToolUse\<close>, and all hooks in their order.\<close>

definition pre_groups :: "settings \<Rightarrow> any list" where
  "pre_groups root =
     (case mget root ''hooks'' of
        Some (AMap hooks) \<Rightarrow> (case Option.bind (mget hooks ''PreToolUse'') as_list of Some vs \<Rightarrow> vs | None \<Rightarrow> [])
      | _ \<Rightarrow> [])"

definition hooks_of :: "any list \<Rightarrow> any list" where
  "hooks_of groups = concat (map (\<lambda>g. case group_hooks g of Some vs \<Rightarrow> vs | None \<Rightarrow> []) groups)"

abbreviation foreign :: "any list \<Rightarrow> any list" where
  "foreign vs \<equiv> filter (\<lambda>v. \<not> managed v) vs"

lemma norm_norm [simp]: "norm (norm v) = norm v"
  by (induction v) (auto simp: map_prod_def)

lemma mget_clone: "mget (cloneMap m) k = map_option norm (mget m k)"
  by (induction m) (auto simp: cloneMap_def)

lemma clone_clone [simp]: "cloneMap (cloneMap m) = cloneMap m"
  by (induction m) (auto simp: cloneMap_def)

lemma clone_mput: "cloneMap (mput k v m) = mput k (norm v) (cloneMap m)"
  by (induction m) (auto simp: cloneMap_def mput_def)

lemma norm_AMap: "norm (AMap m) = AMap (cloneMap m)"
  by (simp add: cloneMap_def)

declare norm.simps(9) [simp del]

lemma as_list_norm: "as_list v = Some vs \<Longrightarrow> vs \<noteq> [] \<Longrightarrow> as_list (norm v) = Some (map norm vs)"
  by (cases v) (auto simp: as_list_def)

lemma as_list_slice [simp]: "as_list (slice_of vs) = Some vs"
  by (simp add: slice_of_def as_list_def)

lemma norm_slice: "norm (slice_of vs) = (if vs = [] then ANil else AList (map norm vs))"
  by (simp add: slice_of_def)

lemma mput_mput [simp]: "mput k v (mput k u m) = mput k v m"
  by (induction m) (auto simp: mput_def)

lemma mput_same: "mget m k = Some v \<Longrightarrow> mput k v m = m"
  by (induction m) (auto simp: mput_def split: if_splits)

definition held :: "any option \<Rightarrow> any list" where
  "held g = (case Option.bind g group_hooks of Some vs \<Rightarrow> vs | None \<Rightarrow> [])"

lemma held_simps [simp]:
  "held None = []"
  "held (Some g) = (case group_hooks g of Some vs \<Rightarrow> vs | None \<Rightarrow> [])"
  by (simp_all add: held_def)

lemma group_hooks_map: "group_hooks g = Some nested \<Longrightarrow> \<exists>grp. g = AMap grp"
  by (auto simp: group_hooks_def split: any.splits)

lemma clean_group_hooks: "held (clean_group g) = foreign (held (Some g))"
proof (cases "group_hooks g")
  case (Some nested)
  with group_hooks_map obtain grp where g: "g = AMap grp" by blast
  with Some show ?thesis by (simp add: clean_group_def Let_def) (simp add: group_hooks_def as_list_def)
qed (simp add: clean_group_def)

lemma hooks_of_simps [simp]: "hooks_of [] = []" "hooks_of (g # gs) = held (Some g) @ hooks_of gs"
  by (auto simp: hooks_of_def held_def)

lemma hooks_of_append: "hooks_of (gs @ hs) = hooks_of gs @ hooks_of hs"
  by (simp add: hooks_of_def)

lemma hooks_clean: "hooks_of (List.map_filter clean_group gs) = foreign (hooks_of gs)"
proof (induction gs)
  case (Cons g gs)
  have "hooks_of (List.map_filter clean_group (g # gs)) = held (clean_group g) @ hooks_of (List.map_filter clean_group gs)"
    by (cases "clean_group g") (simp_all add: map_filter_simps)
  with Cons clean_group_hooks show ?case by simp
qed (simp add: map_filter_simps)

lemma found_iff: "list_ex group_managed gs \<longleftrightarrow> (\<exists>v\<in>set (hooks_of gs). managed v)"
  by (induction gs) (auto simp: group_managed_def list_ex_iff split: option.splits)

section \<open>The edit on decoded documents\<close>

text \<open>A document as the decoder leaves it.\<close>

definition decoded :: "settings \<Rightarrow> bool" where
  "decoded m \<longleftrightarrow> cloneMap m = m"

lemma decoded_mget: "decoded m \<Longrightarrow> mget m k = Some v \<Longrightarrow> norm v = v"
  using mget_clone [of m k] by (simp add: decoded_def)

lemma norm_AMap_iff: "norm (AMap m) = AMap m \<longleftrightarrow> decoded m"
  by (simp add: norm_AMap decoded_def)

lemma norm_AList_iff: "norm (AList vs) = AList vs \<longleftrightarrow> map norm vs = vs"
  by simp

lemma as_list_decoded: "norm v = v \<Longrightarrow> as_list v = Some vs \<Longrightarrow> v = AList vs \<and> map norm vs = vs"
  by (cases v) (auto simp: as_list_def)

lemma as_string_norm [simp]: "as_string (norm v) = as_string v"
  by (cases v) (auto simp: as_string_def norm_AMap)

lemma managed_norm [simp]: "managed (norm v) = managed v"
proof (cases v)
  case (AMap hook)
  have s: "map (as_string \<circ> norm) vs = map as_string vs" for vs by simp
  have "those (map as_string (map AStr ss)) = Some ss" for ss by (induction ss) (simp_all add: as_string_def)
  then have "isManagedClaudeHook (cloneMap hook) = isManagedClaudeHook hook"
    unfolding isManagedClaudeHook_def Let_def mget_clone
    by (cases "mget hook ''command''"; cases "mget hook ''args''")
      (auto simp: as_list_def s norm_AMap split: any.split option.split)
  with AMap show ?thesis by (simp add: managed_def norm_AMap)
qed (auto simp: managed_def)

lemma clean_group_norm: "norm g = g \<Longrightarrow> clean_group g = Some g' \<Longrightarrow> norm g' = g'"
proof (cases "group_hooks g")
  case (Some nested)
  assume g: "norm g = g" "clean_group g = Some g'"
  obtain grp where grp: "g = AMap grp" using group_hooks_map [OF Some] by blast
  with g have d: "decoded grp" by (simp only: norm_AMap_iff)
  from Some grp obtain v where v: "mget grp ''hooks'' = Some v" "as_list v = Some nested"
    by (auto simp: group_hooks_def bind_eq_Some_conv)
  with as_list_decoded [OF decoded_mget [OF d v(1)]] have "map norm nested = nested" by blast
  then have "\<forall>x\<in>set nested. norm x = x" by (metis in_set_conv_nth nth_map)
  then have "map norm (foreign nested) = foreign nested" by (intro map_idI) auto
  with g(2) Some grp d show ?thesis by (auto simp: clean_group_def Let_def norm_AMap clone_mput decoded_def split: if_splits)
qed (simp add: clean_group_def)

lemma clean_group_again: "clean_group g = Some g' \<Longrightarrow> clean_group g' = Some g' \<and> \<not> group_managed g'"
proof (cases "group_hooks g")
  case (Some nested)
  assume g: "clean_group g = Some g'"
  obtain grp where grp: "g = AMap grp" using group_hooks_map [OF Some] by blast
  with g Some have g': "g' = AMap (mput ''hooks'' (AList (foreign nested)) grp)" "foreign nested \<noteq> []"
    by (auto simp: clean_group_def Let_def split: if_splits)
  then have "group_hooks g' = Some (foreign nested)" by (simp add: group_hooks_def as_list_def)
  with g' show ?thesis by (simp add: clean_group_def group_managed_def list_ex_iff Let_def)
qed (simp add: clean_group_def group_managed_def)

definition settings_hooks :: "settings \<Rightarrow> settings" where
  "settings_hooks root = (case mget root ''hooks'' of Some (AMap hooks) \<Rightarrow> hooks | _ \<Rightarrow> [])"

definition with_groups :: "any \<Rightarrow> settings \<Rightarrow> settings" where
  "with_groups v root = mput ''hooks'' (AMap (mput ''PreToolUse'' v (settings_hooks root))) root"

definition clean_groups :: "settings \<Rightarrow> any list" where
  "clean_groups root = List.map_filter clean_group (pre_groups root)"

lemma merge_shape:
  assumes "decoded r" "mergeClaudeHook text_of (Some r) handler = Returned (m, changed)"
  shows "m = with_groups (AList (clean_groups r @ [managed_entry handler])) r"
  using assms
  by (auto simp: mergeClaudeHook_def decoded_def removeManagedClaudeHooks_def objectChild_def arrayChild_def Let_def as_list_def
      with_groups_def settings_hooks_def clean_groups_def pre_groups_def slice_of_def map_filter_simps
      split: option.splits any.splits sum.splits if_splits)

lemma clean_groups_norm: "decoded r \<Longrightarrow> map norm (clean_groups r) = clean_groups r"
proof -
  assume r: "decoded r"
  have "map norm (pre_groups r) = pre_groups r"
  proof (cases "mget r ''hooks''")
    case (Some v)
    show ?thesis
    proof (cases v)
      case (AMap hooks)
      with r Some decoded_mget have h: "decoded hooks" by (metis norm_AMap_iff)
      then show ?thesis using Some AMap decoded_mget [OF h, of "''PreToolUse''"]
        by (cases "mget hooks ''PreToolUse''") (auto simp: pre_groups_def dest: as_list_decoded split: option.split)
    qed (use Some in \<open>simp_all add: pre_groups_def\<close>)
  qed (simp add: pre_groups_def)
  then have n: "\<forall>g\<in>set (pre_groups r). norm g = g" by (metis in_set_conv_nth nth_map)
  have "map norm (List.map_filter clean_group gs) = List.map_filter clean_group gs" if "\<forall>g\<in>set gs. norm g = g" for gs
    using that by (induction gs) (auto simp: map_filter_simps clean_group_norm split: option.split)
  with n show ?thesis by (simp add: clean_groups_def)
qed

lemma clean_groups_again:
  "List.map_filter clean_group (clean_groups r) = clean_groups r" "\<not> list_ex group_managed (clean_groups r)"
proof -
  have "List.map_filter clean_group (List.map_filter clean_group gs) = List.map_filter clean_group gs \<and>
      \<not> list_ex group_managed (List.map_filter clean_group gs)" for gs
    by (induction gs) (auto simp: map_filter_simps dest: clean_group_again split: option.split)
  then show "List.map_filter clean_group (clean_groups r) = clean_groups r" "\<not> list_ex group_managed (clean_groups r)"
    by (simp_all add: clean_groups_def)
qed

section \<open>Installing, again, and removing\<close>

lemma settings_hooks_decoded: "decoded r \<Longrightarrow> decoded (settings_hooks r)"
  using decoded_mget [of r "''hooks''"]
  by (auto simp: settings_hooks_def norm_AMap_iff decoded_def cloneMap_def split: option.split any.split)

lemma settings_hooks_with [simp]: "settings_hooks (with_groups v r) = mput ''PreToolUse'' v (settings_hooks r)"
  by (simp add: with_groups_def settings_hooks_def)

lemma with_with [simp]: "with_groups v (with_groups u r) = with_groups v r"
  by (simp add: with_groups_def settings_hooks_def)

lemma clone_with: "decoded r \<Longrightarrow> cloneMap (with_groups v r) = with_groups (norm v) r"
  using settings_hooks_decoded [of r] by (simp add: with_groups_def clone_mput norm_AMap decoded_def)

lemma pre_groups_with [simp]: "pre_groups (with_groups v r) = (case as_list v of Some vs \<Rightarrow> vs | None \<Rightarrow> [])"
  by (simp add: pre_groups_def with_groups_def)

lemma remove_with:
  "removeManagedClaudeHooks (with_groups v r) =
     (case as_list v of
        None \<Rightarrow> Inl (MustBeArray ''hooks.PreToolUse'')
      | Some pre \<Rightarrow> Inr (with_groups (slice_of (List.map_filter clean_group pre)) r, list_ex group_managed pre))"
  by (simp add: removeManagedClaudeHooks_def with_groups_def settings_hooks_def split: option.split)

lemma merge_with:
  assumes "decoded r" "norm v = v"
  shows "mergeClaudeHook text_of (Some (with_groups v r)) handler =
     (case as_list v of
        None \<Rightarrow> Refused (MustBeArray ''hooks.PreToolUse'')
      | Some pre \<Rightarrow>
          let m = with_groups (AList (List.map_filter clean_group pre @ [managed_entry handler])) r
          in Returned (m, if list_ex group_managed pre then text_of (with_groups v r) \<noteq> text_of m else True))"
proof -
  have "objectChild (with_groups u r) ''hooks'' = Inr (settings_hooks (with_groups u r))" for u
    by (simp add: objectChild_def with_groups_def settings_hooks_def)
  moreover have "arrayChild (mput ''PreToolUse'' (slice_of vs) h) ''PreToolUse'' = Inr vs" for vs h by (simp add: arrayChild_def)
  moreover have "mput ''hooks'' (AMap (mput ''PreToolUse'' u (settings_hooks r))) (with_groups w r) = with_groups u r" for u w
    by (simp add: with_groups_def)
  ultimately show ?thesis
    by (simp add: mergeClaudeHook_def clone_with assms remove_with split: option.split)
qed

lemma entry_clean:
  assumes "isManagedClaudeHook handler"
  shows "clean_group (managed_entry handler) = None" "clean_group (norm (managed_entry handler)) = None"
    "group_managed (managed_entry handler)" "group_managed (norm (managed_entry handler))"
proof -
  have m1: "managed (AMap handler)" using assms by (simp add: managed_def)
  note m = m1 m1 [folded managed_norm [of "AMap handler"]]
  have e: "group_hooks (managed_entry handler) = Some [AMap handler]"
      "group_hooks (norm (managed_entry handler)) = Some [norm (AMap handler)]"
    by (simp_all add: managed_entry_def group_hooks_def as_list_def norm_AMap cloneMap_def)
  show "clean_group (managed_entry handler) = None" "clean_group (norm (managed_entry handler)) = None"
    using e m by (simp_all add: clean_group_def)
  show "group_managed (managed_entry handler)" "group_managed (norm (managed_entry handler))"
    using e m by (simp_all add: group_managed_def)
qed

lemma map_filter_append: "List.map_filter f (xs @ ys) = List.map_filter f xs @ List.map_filter f ys"
  by (induction xs) (auto simp: map_filter_simps split: option.split)

text \<open>What the settings file holds after an installation, and what the next commands make of it.\<close>

lemma installed:
  assumes "decoded r" "isManagedClaudeHook handler" "mergeClaudeHook text_of (Some r) handler = Returned (m, changed)"
  shows "removeManagedClaudeHooks (cloneMap m) = Inr (with_groups (slice_of (clean_groups r)) r, True)"
    and "mergeClaudeHook text_of (Some (cloneMap m)) handler = Returned (m, text_of (cloneMap m) \<noteq> text_of m)"
proof -
  let ?e = "norm (managed_entry handler)"
  have m: "m = with_groups (AList (clean_groups r @ [managed_entry handler])) r" using merge_shape [OF assms(1,3)] .
  then have c: "cloneMap m = with_groups (AList (clean_groups r @ [?e])) r"
    by (simp add: clone_with [OF assms(1)] clean_groups_norm [OF assms(1)])
  have f: "List.map_filter clean_group (clean_groups r @ [?e]) = clean_groups r" "list_ex group_managed (clean_groups r @ [?e])"
    using entry_clean [OF assms(2)] by (simp_all add: map_filter_append clean_groups_again map_filter_simps)
  then show "removeManagedClaudeHooks (cloneMap m) = Inr (with_groups (slice_of (clean_groups r)) r, True)"
    by (simp add: c remove_with as_list_def)
  have n: "norm (AList (clean_groups r @ [?e])) = AList (clean_groups r @ [?e])"
    using clean_groups_norm [OF assms(1)] by simp
  from f show "mergeClaudeHook text_of (Some (cloneMap m)) handler = Returned (m, text_of (cloneMap m) \<noteq> text_of m)"
    unfolding c merge_with [OF assms(1) n] by (simp add: as_list_def m Let_def)
qed

text \<open>C17: Installing the managed hook keeps what the operator has configured: the hooks of others stay, in
  their order, in front of the one managed hook; every other member of the settings and every other event
  stays as it was. Removing it leaves exactly the hooks of others.\<close>

definition hooks_in :: "settings \<Rightarrow> any list" where
  "hooks_in root = hooks_of (pre_groups root)"


text \<open>Installing twice is installing once: the second run finds its own hook in the file it wrote, replaces it by the
  same entry, and reports no change if the encoder writes both the same.\<close>

theorem install_is_idempotent:
  assumes "decoded r" "isManagedClaudeHook handler" "mergeClaudeHook text_of (Some r) handler = Returned (m, changed)"
    and "text_of (cloneMap m) = text_of m"
  shows "mergeClaudeHook text_of (Some (cloneMap m)) handler = Returned (m, False)"
  using installed(2) [OF assms(1-3)] assms(4) by simp

text \<open>C20: A removal leaves a nil slice when nobody else has a hook. It is written as \<open>null\<close>, and the file cannot be
  protected again: the next installation finds no array and is refused.\<close>

theorem removal_blocks_reinstall:
  assumes "decoded r" "isManagedClaudeHook handler" "mergeClaudeHook text_of (Some r) handler = Returned (m, changed)"
    and "clean_groups r = []"
  shows "\<exists>m'. removeManagedClaudeHooks (cloneMap m) = Inr (m', True) \<and>
    mergeClaudeHook text_of (Some (cloneMap m')) handler = Refused (MustBeArray ''hooks.PreToolUse'')"
proof -
  have "cloneMap (with_groups (slice_of []) r) = with_groups ANil r" by (simp add: clone_with [OF assms(1)] slice_of_def)
  then show ?thesis
    using installed(1) [OF assms(1-3)] assms(4) merge_with [OF assms(1), of ANil text_of handler] by (simp add: as_list_def)
qed

text \<open>A settings file that holds \<open>null\<close> makes the command panic.\<close>

theorem null_settings_panic: "mergeClaudeHook text_of None handler = Panicked"
  by (simp add: mergeClaudeHook_def)

end
