(* ===== verification/Claude_Protect.thy ===== *)
theory Claude_Protect
  imports Claude_Settings Policy_Load
begin

text \<open>
  \<open>tg protect\<close>, \<open>tg status\<close> and \<open>tg unprotect\<close> (\<open>cmd/tg/protect.go\<close>) over an explicit disk: the resolution of the paths,
  the files written and their order, the state kept beside the settings, and what is undone when a write
  fails. The encoders, paths and permissions of the host are parameters.
\<close>

section \<open>The disk\<close>

text \<open>Regular files with their permission bits, directories, and those of them that are symbolic links.\<close>

record disk =
  dk_files :: "string \<Rightarrow> (string \<times> nat) option"
  dk_dirs :: "string list"
  dk_links :: "string list"

datatype access = Reading | Statting | Writing | Removing | MakingDir

text \<open>What \<open>claude --version\<close> did.\<close>

datatype probe = NotOnPath | TimedOut | ProbeFailed | Printed string

record protectState =
  pst_Version :: int
  pst_Target :: string
  pst_ConfigPath :: string
  pst_PolicyPath :: string
  pst_AuditPath :: string
  pst_BackupPath :: string
  pst_Command :: string
  pst_Args :: "string list"
  pst_InstalledSHA256 :: string
  pst_OriginalExisted :: bool
  pst_OriginalMode :: nat
  pst_ExactRestoreSafe :: bool

text \<open>
  \<^item> \<open>ch_denied a p\<close>: the system refuses access \<open>a\<close> to \<open>p\<close>;
  \<^item> \<open>ch_Dir\<close>, \<open>ch_Join\<close>, \<open>ch_Ext\<close>: package \<open>filepath\<close>; \<open>ch_Abs\<close>: \<open>filepath.Abs(filepath.Clean(p))\<close>;
    \<open>ch_ancestors\<close>: a directory and those above it;
  \<^item> \<open>ch_decode\<close>: \<open>json.Unmarshal\<close> into a map, \<open>Some None\<close> for \<open>null\<close>; \<open>ch_marshal\<close>, \<open>ch_indent\<close>: the two
    encoders; \<open>ch_state_text\<close>, \<open>ch_state_of\<close>: the same for the state; \<open>ch_sha256\<close>: the digest in hex.
\<close>

record claude_host =
  ch_denied :: "access \<Rightarrow> string \<Rightarrow> bool"
  ch_Dir :: "string \<Rightarrow> string"
  ch_Join :: "string list \<Rightarrow> string"
  ch_Ext :: "string \<Rightarrow> string"
  ch_Abs :: "string \<Rightarrow> string option"
  ch_ancestors :: "string \<Rightarrow> string list"
  ch_home :: "string option"
  ch_config_dir :: "string option"
  ch_exe :: "string option"
  ch_windows :: bool
  ch_claude :: probe
  ch_decode :: "string \<Rightarrow> settings option option"
  ch_marshal :: "settings \<Rightarrow> string"
  ch_indent :: "settings \<Rightarrow> string"
  ch_state_text :: "protectState \<Rightarrow> string"
  ch_state_of :: "string \<Rightarrow> protectState option"
  ch_sha256 :: "string \<Rightarrow> string"
  ch_loader :: loader
  ch_rt :: runtime

definition dirExists :: "disk \<Rightarrow> string \<Rightarrow> bool" where
  "dirExists dk path \<longleftrightarrow> path \<in> set (dk_dirs dk)"

definition realDirExists :: "disk \<Rightarrow> string \<Rightarrow> bool" where
  "realDirExists dk path \<longleftrightarrow> path \<in> set (dk_dirs dk) \<and> path \<notin> set (dk_links dk)"

text \<open>\<open>os.ReadFile\<close>: a file that is not there is told from one that cannot be read.\<close>

datatype file_read = Absent | Unreadable | Contents string

definition read_file :: "claude_host \<Rightarrow> disk \<Rightarrow> string \<Rightarrow> file_read" where
  "read_file ch dk path =
     (if dirExists dk path \<or> ch_denied ch Reading path then Unreadable
      else case dk_files dk path of None \<Rightarrow> Absent | Some (b, _) \<Rightarrow> Contents b)"

definition MkdirAll :: "claude_host \<Rightarrow> string \<Rightarrow> disk \<Rightarrow> bool \<times> disk" where
  "MkdirAll ch path dk =
     (if ch_denied ch MakingDir path then (False, dk) else (True, dk \<lparr> dk_dirs := ch_ancestors ch path @ dk_dirs dk \<rparr>))"

text \<open>A temporary file takes the place of the target at the end, or is removed.\<close>

definition atomicWrite :: "claude_host \<Rightarrow> string \<Rightarrow> string \<Rightarrow> nat \<Rightarrow> disk \<Rightarrow> bool \<times> disk" where
  "atomicWrite ch path data mode dk =
     (case MkdirAll ch (ch_Dir ch path) dk of
        (False, dk) \<Rightarrow> (False, dk)
      | (True, dk) \<Rightarrow>
          (if ch_denied ch Writing path \<or> dirExists dk path then (False, dk)
           else (True, dk \<lparr> dk_files := (dk_files dk)(path \<mapsto> (data, mode)) \<rparr>)))"

definition writeIfAbsent :: "claude_host \<Rightarrow> string \<Rightarrow> string \<Rightarrow> nat \<Rightarrow> disk \<Rightarrow> bool \<times> disk" where
  "writeIfAbsent ch path data mode dk =
     (if ch_denied ch Statting path then (False, dk)
      else if dirExists dk path \<or> dk_files dk path \<noteq> None then (True, dk)
      else atomicWrite ch path data mode dk)"

text \<open>\<open>os.Remove\<close>, where the callers take a missing file for removed.\<close>

definition remove_file :: "claude_host \<Rightarrow> string \<Rightarrow> disk \<Rightarrow> bool \<times> disk" where
  "remove_file ch path dk =
     (if dk_files dk path = None \<and> \<not> dirExists dk path then (True, dk)
      else if ch_denied ch Removing path \<or> dirExists dk path then (False, dk)
      else (True, dk \<lparr> dk_files := (dk_files dk)(path := None) \<rparr>))"

section \<open>The version of Claude Code\<close>

fun splitN :: "nat \<Rightarrow> string \<Rightarrow> string list" where
  "splitN n [] = [[]]"
| "splitN n (c # s) =
     (if c = CHR ''.'' \<and> 1 < n then [] # splitN (n - 1) s
      else case splitN n s of w # ws \<Rightarrow> (c # w) # ws | [] \<Rightarrow> [[c]])"

definition trailing_trim :: "string \<Rightarrow> string" where
  "trailing_trim s = rev (dropWhile (\<lambda>c. \<not> is_digit c) (rev s))"

definition parseThreePartVersion :: "string \<Rightarrow> (int \<times> int \<times> int) option" where
  "parseThreePartVersion version =
     (case splitN 3 (TrimPrefix version ''v'') of
        [a, b, c] \<Rightarrow>
          (case (Atoi (trailing_trim a), Atoi (trailing_trim b), Atoi (trailing_trim c)) of
             (Some x, Some y, Some z) \<Rightarrow> Some (x, y, z)
           | _ \<Rightarrow> None)
      | _ \<Rightarrow> None)"

definition trim_brackets :: "string \<Rightarrow> string" where
  "trim_brackets s =
     (let cutset = set ''()[]{}<>,;:'' in rev (dropWhile (\<lambda>c. c \<in> cutset) (rev (dropWhile (\<lambda>c. c \<in> cutset) s))))"

definition parseClaudeVersionOutput :: "string \<Rightarrow> (int \<times> int \<times> int) option" where
  "parseClaudeVersionOutput out =
     (case List.map_filter (\<lambda>f. parseThreePartVersion (trim_brackets f)) (FieldsFunc out is_space) of v # _ \<Rightarrow> Some v | [] \<Rightarrow> None)"

definition versionLess :: "int \<times> int \<times> int \<Rightarrow> int \<times> int \<times> int \<Rightarrow> bool" where
  "versionLess a b =
     (case (a, b) of ((aMajor, aMinor, aPatch), (bMajor, bMinor, bPatch)) \<Rightarrow>
        if aMajor \<noteq> bMajor then aMajor < bMajor else if aMinor \<noteq> bMinor then aMinor < bMinor else aPatch < bPatch)"

definition minClaudeExecHook :: "int \<times> int \<times> int" where
  "minClaudeExecHook = (2, 1, 139)"

datatype claude_fault =
    ClaudeMissing | ClaudeTimeout | ClaudeProbe | ClaudeVersion | ClaudeTooOld int int int
  | NoHome | NoExecutable | NoConfigRoot | NoAbsolutePath | TgUnavailable | TgNotExecutable
  | ConfigUnreadable | ConfigInvalid | ConfigShape settings_error
  | StateUnreadable | PolicyWrite | PolicyNotFile | PolicyInvalid | BackupWrite | AuditDir | ConfigWrite | StateWrite
  | NoInstallation | HookMissing | BackupUnavailable | RestoreFailed | StateCleanup

definition requireClaudeExecHookSupport :: "claude_host \<Rightarrow> claude_fault option" where
  "requireClaudeExecHookSupport ch =
     (case ch_claude ch of
        NotOnPath \<Rightarrow> Some ClaudeMissing
      | TimedOut \<Rightarrow> Some ClaudeTimeout
      | ProbeFailed \<Rightarrow> Some ClaudeProbe
      | Printed out \<Rightarrow>
          (case parseClaudeVersionOutput out of
             None \<Rightarrow> Some ClaudeVersion
           | Some (major, minor, patch) \<Rightarrow>
               (if versionLess (major, minor, patch) minClaudeExecHook then Some (ClaudeTooOld major minor patch) else None)))"

section \<open>Paths\<close>

record protectPaths =
  pp_config :: string
  pp_policy :: string
  pp_audit :: string
  pp_backup :: string
  pp_state :: string
  pp_tg :: string

text \<open>The flags that \<open>flag.Parse\<close> read.\<close>

record protect_flags =
  pf_apply :: bool
  pf_config :: string
  pf_policy :: string
  pf_tg :: string

definition state_path :: "string \<Rightarrow> string" where
  "state_path config = config @ ''.tool-guard-state.json''"

definition validateTGExecutable :: "claude_host \<Rightarrow> disk \<Rightarrow> string \<Rightarrow> claude_fault option" where
  "validateTGExecutable ch dk path =
     (if ch_denied ch Statting path then Some TgUnavailable
      else if dirExists dk path then Some TgNotExecutable
      else case dk_files dk path of
          None \<Rightarrow> Some TgUnavailable
        | Some (_, mode) \<Rightarrow>
            (if \<not> ch_windows ch \<and> mode AND 73 = 0 then Some TgNotExecutable
             else if ch_windows ch \<and> \<not> EqualFold (ch_Ext ch path) ''.exe'' then Some TgNotExecutable
             else None))"

definition resolveConfigPath :: "claude_host \<Rightarrow> string \<Rightarrow> claude_fault + string" where
  "resolveConfigPath ch configOverride =
     (case (if configOverride \<noteq> [] then Some configOverride
            else map_option (\<lambda>home. ch_Join ch [home, ''.claude'', ''settings.json'']) (ch_home ch)) of
        None \<Rightarrow> Inl NoHome
      | Some config \<Rightarrow> (case ch_Abs ch config of None \<Rightarrow> Inl NoAbsolutePath | Some p \<Rightarrow> Inr p))"

definition legacyManagedRoot :: "claude_host \<Rightarrow> disk \<Rightarrow> string \<times> bool" where
  "legacyManagedRoot ch dk =
     (case ch_home ch of
        None \<Rightarrow> ([], False)
      | Some home \<Rightarrow>
          (let root = ch_Join ch [home, ''.config'', ''tool-guard'']
           in (root, realDirExists dk root \<and>
                 (realDirExists dk (ch_Join ch [root, ''policies'']) \<or> realDirExists dk (ch_Join ch [root, ''audit''])))))"

definition resolveManagedRoot :: "claude_host \<Rightarrow> disk \<Rightarrow> string option" where
  "resolveManagedRoot ch dk =
     (let (legacyRoot, legacyEvidence) = legacyManagedRoot ch dk in
      case ch_config_dir ch of
        None \<Rightarrow> (if legacyEvidence then Some legacyRoot else None)
      | Some native \<Rightarrow>
          (let nativeRoot = ch_Join ch [native, ''tool-guard'']
           in if legacyEvidence \<and> legacyRoot \<noteq> nativeRoot \<and> \<not> dirExists dk nativeRoot then Some legacyRoot
              else Some nativeRoot))"

definition resolveProtectPaths :: "claude_host \<Rightarrow> disk \<Rightarrow> protect_flags \<Rightarrow> claude_fault + (protectPaths \<times> bool)" where
  "resolveProtectPaths ch dk f =
     (if pf_config f = [] \<and> ch_home ch = None then Inl NoHome
      else case (if pf_tg f \<noteq> [] then Some (pf_tg f) else ch_exe ch) of
          None \<Rightarrow> Inl NoExecutable
        | Some tgPath \<Rightarrow>
            (case resolveManagedRoot ch dk of
               None \<Rightarrow> Inl NoConfigRoot
             | Some base \<Rightarrow>
                 (let defaultPolicy = (pf_policy f = []);
                      policy = (if defaultPolicy then ch_Join ch [base, ''policies'', ''coding-agent-baseline.yaml''] else pf_policy f)
                  in case resolveConfigPath ch (pf_config f) of
                       Inl e \<Rightarrow> Inl e
                     | Inr config \<Rightarrow>
                         (case (ch_Abs ch policy, ch_Abs ch tgPath) of
                            (Some policy, Some tg) \<Rightarrow>
                              (case validateTGExecutable ch dk tg of
                                 Some e \<Rightarrow> Inl e
                               | None \<Rightarrow>
                                   Inr (\<lparr> pp_config = config, pp_policy = policy, pp_audit = ch_Join ch [base, ''audit'', ''claude.jsonl''],
                                          pp_backup = config @ ''.tool-guard.bak'', pp_state = state_path config, pp_tg = tg \<rparr>,
                                        defaultPolicy))
                          | _ \<Rightarrow> Inl NoAbsolutePath))))"

section \<open>What is read\<close>

datatype state_read = NoState | BadState | State protectState

definition claudeTarget :: string where
  "claudeTarget = ''claude''"

definition loadProtectState :: "claude_host \<Rightarrow> disk \<Rightarrow> string \<Rightarrow> state_read" where
  "loadProtectState ch dk path =
     (case read_file ch dk path of
        Absent \<Rightarrow> NoState
      | Unreadable \<Rightarrow> BadState
      | Contents raw \<Rightarrow>
          (case ch_state_of ch raw of
             None \<Rightarrow> BadState
           | Some st \<Rightarrow>
               (if pst_Version st \<noteq> 1 \<and> pst_Version st \<noteq> 2 \<or> pst_Target st \<noteq> claudeTarget then BadState else State st)))"

text \<open>The bytes, whether there are any, and the map; a file of white space is an empty map.\<close>

definition readJSONConfig :: "claude_host \<Rightarrow> disk \<Rightarrow> string \<Rightarrow> claude_fault + (string \<times> bool \<times> settings option)" where
  "readJSONConfig ch dk path =
     (case read_file ch dk path of
        Absent \<Rightarrow> Inr ([], False, Some [])
      | Unreadable \<Rightarrow> Inl ConfigUnreadable
      | Contents raw \<Rightarrow>
          (if TrimSpace raw = [] then Inr (raw, True, Some [])
           else case ch_decode ch raw of None \<Rightarrow> Inl ConfigInvalid | Some root \<Rightarrow> Inr (raw, True, root)))"

definition policy_valid :: "claude_host \<Rightarrow> disk \<Rightarrow> string \<Rightarrow> bool" where
  "policy_valid ch dk path =
     (case Load (ch_loader ch) (case read_file ch dk path of Contents b \<Rightarrow> Some b | _ \<Rightarrow> None) of
        Inl _ \<Rightarrow> False
      | Inr p \<Rightarrow> ValidatePolicy (ch_rt ch) p = None)"

definition validPolicyFile :: "claude_host \<Rightarrow> disk \<Rightarrow> string \<Rightarrow> bool" where
  "validPolicyFile ch dk path \<longleftrightarrow> TrimSpace path \<noteq> [] \<and> policy_valid ch dk path"

definition claudeHookArgs :: "claude_host \<Rightarrow> protectPaths \<Rightarrow> string list" where
  "claudeHookArgs ch p =
     [''hook'', ''-policy'', pp_policy p, ''-agent-id'', managedAgent] @
     concat (map (\<lambda>path. [''-protect-path'', path]) [pp_config p, pp_backup p, pp_state p, ch_Dir ch (pp_audit p)]) @
     [''-protect-self'', ''-fail-closed-tools'', ''bash,write,edit,notebookedit'', ''-audit-log'', pp_audit p]"

definition claudeHookHandler :: "claude_host \<Rightarrow> protectPaths \<Rightarrow> settings" where
  "claudeHookHandler ch p =
     [(''type'', AStr ''command''), (''command'', AStr (pp_tg p)), (''args'', AStrs (claudeHookArgs ch p)), (''timeout'', AInt 10)]"

definition protectTarget :: "string list \<Rightarrow> (string \<times> string list) option" where
  "protectTarget args =
     (case args of
        [] \<Rightarrow> None
      | a # rest \<Rightarrow> (if HasPrefix a ''-'' \<or> ToLower a \<noteq> claudeTarget then None else Some (ToLower a, rest)))"

section \<open>tg protect\<close>

datatype report = Silent | Plan settings bool | Protected | Unprotected | Status bool bool bool bool | Problem claude_fault

datatype ending = Exit nat | Crash

type_synonym run = "ending \<times> report \<times> disk"

definition failing :: "claude_fault \<Rightarrow> disk \<Rightarrow> run" where
  "failing e dk = (Exit 1, Problem e, dk)"

definition and_then :: "bool \<times> disk \<Rightarrow> claude_fault \<Rightarrow> (disk \<Rightarrow> run) \<Rightarrow> run" where
  "and_then r e k = (if fst r then k (snd r) else failing e (snd r))"

definition pin_prior :: "state_read \<Rightarrow> protect_flags \<Rightarrow> protectPaths \<Rightarrow> protectPaths" where
  "pin_prior prior f p =
     (case prior of
        State st \<Rightarrow>
          (let p = (if pf_policy f = [] \<and> pst_PolicyPath st \<noteq> [] then p \<lparr> pp_policy := pst_PolicyPath st \<rparr> else p)
           in if pst_AuditPath st \<noteq> [] then p \<lparr> pp_audit := pst_AuditPath st \<rparr> else p)
      | _ \<Rightarrow> p)"

text \<open>The policy that is installed by default.\<close>

definition codingAgentStarterPolicy :: string where
  "codingAgentStarterPolicy = concat (map (\<lambda>l. l @ [CHR 0x0A]) [
     ''schema_version: 1'',
     ''policy_id: pol-coding-agent-baseline'',
     ''status: approved'',
     ''mode: enforcement'',
     ''scope:'',
     ''  tool_names: [bash, shell, run_command]'',
     ''  tool_groups: [shell]'',
     ''rules:'',
     ''  - rule_id: deny-recursive-root-delete'',
     ''    rule_type: regex'',
     ''    conditions:'',
     ''      and:'',
     ''        - field: parameters.command'',
     ''          operator: regex'',
     ''          value: '' @ [CHR 0x27] @ ''(^|['' @ [CHR 0x5C] @ ''s;&|(])('' @ [CHR 0x5C] @ ''S+/)?rm('' @ [CHR 0x5C] @ ''s|$)'' @ [CHR 0x27],
     ''        - field: parameters.command'',
     ''          operator: regex'',
     ''          value: '' @ [CHR 0x27] @ ''(--recursive|-[a-zA-Z]*[rR])'' @ [CHR 0x27],
     ''        - field: parameters.command'',
     ''          operator: regex'',
     ''          value: '' @ [CHR 0x27] @ ''('' @ [CHR 0x5C] @ ''s|['' @ [CHR 0x22] @ [CHR 0x27] @ [CHR 0x27] @ ''=])(/'' @ [CHR 0x5C]
        @ ''*?|/(bin|boot|dev|etc|home|lib|lib64|opt|proc|root|sbin|srv|sys|usr|var)/?|'' @ [CHR 0x5C] @ ''$'' @ [CHR 0x5C] @ ''{?HOME'' @ [CHR 0x5C]
        @ ''}?|~)('' @ [CHR 0x5C] @ ''s|['' @ [CHR 0x22] @ [CHR 0x27] @ [CHR 0x27] @ '';&|]|$)'' @ [CHR 0x27],
     ''    effect: deny'',
     ''    citation:'',
     ''      excerpt: '' @ [CHR 0x22] @ ''Recursive deletion of root, a system directory, or HOME is forbidden.'' @ [CHR 0x22],
     ''  - rule_id: review-recursive-or-forced-delete'',
     ''    rule_type: regex'',
     ''    conditions:'',
     ''      and:'',
     ''        - field: parameters.command'',
     ''          operator: regex'',
     ''          value: '' @ [CHR 0x27] @ ''(^|['' @ [CHR 0x5C] @ ''s;&|(])('' @ [CHR 0x5C] @ ''S+/)?rm('' @ [CHR 0x5C] @ ''s|$)'' @ [CHR 0x27],
     ''        - or:'',
     ''            - field: parameters.command'',
     ''              operator: regex'',
     ''              value: '' @ [CHR 0x27] @ ''(--recursive|-[a-zA-Z]*[rR])'' @ [CHR 0x27],
     ''            - field: parameters.command'',
     ''              operator: regex'',
     ''              value: '' @ [CHR 0x27] @ ''(--force|-[a-zA-Z]*f)'' @ [CHR 0x27],
     ''    effect: escalate'',
     ''    citation:'',
     ''      excerpt: '' @ [CHR 0x22] @ ''Recursive or forced deletion requires human review.'' @ [CHR 0x22],
     ''  - rule_id: review-dangerous-git-mutation'',
     ''    rule_type: regex'',
     ''    conditions:'',
     ''      field: parameters.command'',
     ''      operator: regex'',
     ''      value: '' @ [CHR 0x27] @ [CHR 0x5C] @ ''bgit'' @ [CHR 0x5C] @ ''s+(push'' @ [CHR 0x5C] @ ''b|reset'' @ [CHR 0x5C] @ ''s+--hard|clean''
        @ [CHR 0x5C] @ ''b[^|;&]*'' @ [CHR 0x5C] @ ''s-[a-zA-Z]*f|rebase'' @ [CHR 0x5C] @ ''b|filter-repo|filter-branch|update-ref'' @ [CHR 0x5C]
        @ ''s+-d|branch'' @ [CHR 0x5C] @ ''s+-D)'' @ [CHR 0x27],
     ''    effect: escalate'',
     ''    citation:'',
     ''      excerpt: '' @ [CHR 0x22] @ ''Outbound or history-rewriting Git actions require human review.'' @ [CHR 0x22]])"

definition ensure_policy :: "claude_host \<Rightarrow> protectPaths \<Rightarrow> bool \<Rightarrow> disk \<Rightarrow> claude_fault option \<times> disk" where
  "ensure_policy ch p defaultPolicy dk =
     (let (e, dk) =
        (if defaultPolicy
         then (case writeIfAbsent ch (pp_policy p) codingAgentStarterPolicy 384 dk of (ok, dk) \<Rightarrow> (if ok then None else Some PolicyWrite, dk))
         else if ch_denied ch Statting (pp_policy p) \<or> dirExists dk (pp_policy p) \<or> dk_files dk (pp_policy p) = None
         then (Some PolicyNotFile, dk)
         else (None, dk))
      in case e of Some e \<Rightarrow> (Some e, dk) | None \<Rightarrow> (if policy_valid ch dk (pp_policy p) then None else Some PolicyInvalid, dk))"

definition file_mode :: "claude_host \<Rightarrow> disk \<Rightarrow> string \<Rightarrow> nat option" where
  "file_mode ch dk path = (if ch_denied ch Statting path then None else map_option snd (dk_files dk path))"

definition settings_text :: "claude_host \<Rightarrow> settings \<Rightarrow> string" where
  "settings_text ch m = ch_indent ch m @ [CHR 0x0A]"

definition new_state :: "claude_host \<Rightarrow> protectPaths \<Rightarrow> state_read \<Rightarrow> string \<Rightarrow> bool \<Rightarrow> nat \<Rightarrow> settings \<Rightarrow> protectState" where
  "new_state ch p prior original existed originalMode proposed =
     (let st = \<lparr> pst_Version = 2, pst_Target = claudeTarget, pst_ConfigPath = pp_config p, pst_PolicyPath = pp_policy p,
           pst_AuditPath = pp_audit p, pst_BackupPath = pp_backup p, pst_Command = pp_tg p, pst_Args = claudeHookArgs ch p,
           pst_InstalledSHA256 = ch_sha256 ch (settings_text ch proposed), pst_OriginalExisted = existed,
           pst_OriginalMode = originalMode, pst_ExactRestoreSafe = True \<rparr>
      in case prior of
           State old \<Rightarrow>
             st \<lparr> pst_OriginalExisted := pst_OriginalExisted old, pst_OriginalMode := pst_OriginalMode old,
                  pst_ExactRestoreSafe := (pst_ExactRestoreSafe old \<and> ch_sha256 ch original = pst_InstalledSHA256 old) \<rparr>
         | _ \<Rightarrow> st)"

text \<open>The last two writes. When the state cannot be kept, the settings are put back, whatever comes of it.\<close>

definition install_files ::
  "claude_host \<Rightarrow> protectPaths \<Rightarrow> state_read \<Rightarrow> string \<Rightarrow> bool \<Rightarrow> settings \<Rightarrow> bool \<Rightarrow> disk \<Rightarrow> run" where
  "install_files ch p prior original existed proposed changed dk =
     (let originalMode = (if existed then (case file_mode ch dk (pp_config p) of Some m \<Rightarrow> m | None \<Rightarrow> 384) else 384)
      in and_then (if changed then atomicWrite ch (pp_config p) (settings_text ch proposed) 384 dk else (True, dk)) ConfigWrite
           (\<lambda>dk. case atomicWrite ch (pp_state p)
                   (ch_state_text ch (new_state ch p prior original existed originalMode proposed) @ [CHR 0x0A]) 384 dk of
                (True, dk) \<Rightarrow> (Exit 0, Protected, dk)
              | (False, dk) \<Rightarrow>
                  failing StateWrite
                    (if \<not> changed then dk
                     else if existed then snd (atomicWrite ch (pp_config p) original originalMode dk)
                     else snd (remove_file ch (pp_config p) dk))))"

definition apply_protect ::
  "claude_host \<Rightarrow> protectPaths \<Rightarrow> bool \<Rightarrow> string \<Rightarrow> bool \<Rightarrow> settings \<Rightarrow> bool \<Rightarrow> disk \<Rightarrow> run" where
  "apply_protect ch p defaultPolicy original existed proposed changed dk =
     (let prior = loadProtectState ch dk (pp_state p) in
      if prior = BadState then failing StateUnreadable dk
      else case ensure_policy ch p defaultPolicy dk of
          (Some e, dk) \<Rightarrow> failing e dk
        | (None, dk) \<Rightarrow>
            and_then (if prior = NoState \<and> existed then writeIfAbsent ch (pp_backup p) original 384 dk else (True, dk)) BackupWrite
              (\<lambda>dk. and_then (MkdirAll ch (ch_Dir ch (pp_audit p)) dk) AuditDir
                (install_files ch p prior original existed proposed changed)))"

definition protect_paths :: "claude_host \<Rightarrow> disk \<Rightarrow> protect_flags \<Rightarrow> claude_fault + (protectPaths \<times> bool)" where
  "protect_paths ch dk f =
     (case resolveProtectPaths ch dk f of
        Inl e \<Rightarrow> Inl e
      | Inr (p, defaultPolicy) \<Rightarrow> Inr (pin_prior (loadProtectState ch dk (pp_state p)) f p, defaultPolicy))"

definition runProtect :: "claude_host \<Rightarrow> (string list \<Rightarrow> protect_flags option) \<Rightarrow> string list \<Rightarrow> disk \<Rightarrow> run" where
  "runProtect ch parse args dk =
     (case Option.bind (protectTarget args) (\<lambda>(target, rest). parse rest) of
        None \<Rightarrow> (Exit 2, Silent, dk)
      | Some f \<Rightarrow>
          (case (if pf_config f = [] then requireClaudeExecHookSupport ch else None) of
             Some e \<Rightarrow> failing e dk
           | None \<Rightarrow>
               (case protect_paths ch dk f of
                  Inl e \<Rightarrow> failing e dk
                | Inr (p, defaultPolicy) \<Rightarrow>
                    (case readJSONConfig ch dk (pp_config p) of
                       Inl e \<Rightarrow> failing e dk
                     | Inr (original, existed, root) \<Rightarrow>
                         (case mergeClaudeHook (ch_marshal ch) root (claudeHookHandler ch p) of
                            Refused e \<Rightarrow> failing (ConfigShape e) dk
                          | Panicked \<Rightarrow> (Crash, Silent, dk)
                          | Returned (proposed, changed) \<Rightarrow>
                              (if \<not> pf_apply f then (Exit 0, Plan proposed changed, dk)
                               else apply_protect ch p defaultPolicy original existed proposed changed dk))))))"

section \<open>tg status and tg unprotect\<close>

definition runProtectStatus :: "claude_host \<Rightarrow> (string list \<Rightarrow> protect_flags option) \<Rightarrow> string list \<Rightarrow> disk \<Rightarrow> run" where
  "runProtectStatus ch parse args dk =
     (let (target, rest) = (case args of a # as \<Rightarrow> (if HasPrefix a ''-'' then (claudeTarget, args) else (ToLower a, as)) | [] \<Rightarrow> (claudeTarget, []))
      in if target \<noteq> claudeTarget then (Exit 2, Silent, dk)
         else case parse rest of
             None \<Rightarrow> (Exit 2, Silent, dk)
           | Some f \<Rightarrow>
               (case resolveConfigPath ch (pf_config f) of
                  Inl e \<Rightarrow> failing e dk
                | Inr config \<Rightarrow>
                    (case loadProtectState ch dk (state_path config) of
                       NoState \<Rightarrow> (Exit 3, Status False False False False, dk)
                     | BadState \<Rightarrow> failing StateUnreadable dk
                     | State st \<Rightarrow>
                         (case readJSONConfig ch dk config of
                            Inl e \<Rightarrow> failing e dk
                          | Inr (raw, _, root) \<Rightarrow>
                              (let executableOK = (pst_Version st = 1 \<or> validateTGExecutable ch dk (pst_Command st) = None);
                                   policyOK = validPolicyFile ch dk (pst_PolicyPath st);
                                   installed = (hasManagedClaudeHook (case root of Some r \<Rightarrow> r | None \<Rightarrow> []) \<and> executableOK \<and> policyOK)
                               in (Exit (if installed then 0 else 3),
                                   Status installed (ch_sha256 ch raw \<noteq> pst_InstalledSHA256 st) executableOK policyOK, dk))))))"

text \<open>The mode a state asks for; 0 stands for no mode.\<close>

definition restored_mode :: "protectState \<Rightarrow> nat" where
  "restored_mode st = (if pst_OriginalMode st = 0 then 384 else pst_OriginalMode st)"

definition restore_settings :: "claude_host \<Rightarrow> string \<Rightarrow> protectState \<Rightarrow> string \<Rightarrow> settings \<Rightarrow> disk \<Rightarrow> claude_fault option \<times> disk" where
  "restore_settings ch config st raw cleaned dk =
     (let as_fault = (\<lambda>r. (if fst r then None else Some RestoreFailed, snd r)) in
      if pst_ExactRestoreSafe st \<and> ch_sha256 ch raw = pst_InstalledSHA256 st
      then if pst_OriginalExisted st
           then (case read_file ch dk (pst_BackupPath st) of
                   Contents backup \<Rightarrow> as_fault (atomicWrite ch config backup (restored_mode st) dk)
                 | _ \<Rightarrow> (Some BackupUnavailable, dk))
           else as_fault (remove_file ch config dk)
      else as_fault (atomicWrite ch config (settings_text ch cleaned)
             (if pst_OriginalExisted st \<and> pst_OriginalMode st \<noteq> 0 then pst_OriginalMode st else 384) dk))"

definition runUnprotect :: "claude_host \<Rightarrow> (string list \<Rightarrow> protect_flags option) \<Rightarrow> string list \<Rightarrow> disk \<Rightarrow> run" where
  "runUnprotect ch parse args dk =
     (case Option.bind (protectTarget args) (\<lambda>(target, rest). parse rest) of
        None \<Rightarrow> (Exit 2, Silent, dk)
      | Some f \<Rightarrow>
          (case resolveConfigPath ch (pf_config f) of
             Inl e \<Rightarrow> failing e dk
           | Inr config \<Rightarrow>
               (case loadProtectState ch dk (state_path config) of
                  State st \<Rightarrow>
                    (case readJSONConfig ch dk config of
                       Inl e \<Rightarrow> failing e dk
                     | Inr (raw, _, root) \<Rightarrow>
                         (case removeManagedClaudeHooks (case root of Some r \<Rightarrow> r | None \<Rightarrow> []) of
                            Inr (cleaned, True) \<Rightarrow>
                              (if \<not> pf_apply f then (Exit 0, Plan cleaned True, dk)
                               else case restore_settings ch config st raw cleaned dk of
                                   (Some e, dk) \<Rightarrow> failing e dk
                                 | (None, dk) \<Rightarrow>
                                     and_then (remove_file ch (state_path config) dk) StateCleanup (\<lambda>dk. (Exit 0, Unprotected, dk)))
                          | _ \<Rightarrow> failing HookMissing dk))
                | _ \<Rightarrow> failing NoInstallation dk)))"

end
