(* ===== verification/Claude_Runs.thy ===== *)
theory Claude_Runs
  imports Claude_Protect
begin

text \<open>
  Runs of \<open>tg protect\<close> and \<open>tg unprotect\<close>: what a failed or dry run leaves behind, and what an installation and its
  removal make of the settings file.
\<close>

section \<open>What the operations touch\<close>

lemma MkdirAll_files [simp]: "dk_files (snd (MkdirAll ch d dk)) = dk_files dk"
  by (simp add: MkdirAll_def)

lemma atomicWrite_files:
  "dk_files (snd (atomicWrite ch path data mode dk)) =
     (if fst (atomicWrite ch path data mode dk) then (dk_files dk)(path \<mapsto> (data, mode)) else dk_files dk)"
  by (simp add: atomicWrite_def MkdirAll_def)

lemma writeIfAbsent_other: "q \<noteq> path \<Longrightarrow> dk_files (snd (writeIfAbsent ch path data mode dk)) q = dk_files dk q"
  by (simp add: writeIfAbsent_def atomicWrite_files)

lemma ensure_policy_other: "q \<noteq> pp_policy p \<Longrightarrow> dk_files (snd (ensure_policy ch p d dk)) q = dk_files dk q"
  using writeIfAbsent_other [of q "pp_policy p" ch codingAgentStarterPolicy 384 dk]
  by (auto simp: ensure_policy_def Let_def split: prod.split option.split if_split)

lemma and_then_cases:
  assumes "and_then r e k = (x, rep, dk')"
  obtains "fst r" "k (snd r) = (x, rep, dk')" | "\<not> fst r" "rep = Problem e" "dk' = snd r" "x = Exit 1"
  using assms by (auto simp: and_then_def failing_def split: if_splits)

text \<open>The settings and the files beside them are not directories on the way to anything.\<close>

definition tidy :: "claude_host \<Rightarrow> protectPaths \<Rightarrow> bool" where
  "tidy ch p \<longleftrightarrow>
     pp_policy p \<notin> {pp_config p, pp_backup p, pp_state p} \<and>
     distinct [pp_config p, pp_backup p, pp_state p] \<and>
     (\<forall>d. set (ch_ancestors ch d) \<inter> {pp_config p, pp_backup p, pp_state p} = {})"

lemma atomicWrite_dirs:
  "dirExists (snd (atomicWrite ch path data mode dk)) q \<Longrightarrow> \<forall>d. q \<notin> set (ch_ancestors ch d) \<Longrightarrow> dirExists dk q"
  by (auto simp: atomicWrite_def MkdirAll_def dirExists_def split: if_splits)

lemma install_files_failed:
  assumes "install_files ch p prior original existed proposed changed dk = (x, rep, dk')" "rep \<noteq> Protected" "tidy ch p"
    and "\<not> ch_denied ch Removing (pp_config p)" "\<not> ch_denied ch Statting (pp_config p)"
    and "existed = (dk_files dk (pp_config p) \<noteq> None)" "map_option fst (dk_files dk (pp_config p)) = (if existed then Some original else None)"
  shows "dk_files dk' (pp_config p) = dk_files dk (pp_config p)"
proof -
  let ?c = "pp_config p" and ?s = "pp_state p"
  from assms(3) have t: "?s \<noteq> ?c" "\<forall>d. ?c \<notin> set (ch_ancestors ch d)" by (auto simp: tidy_def)
  obtain m where m: "(if existed then (case file_mode ch dk ?c of Some m \<Rightarrow> m | None \<Rightarrow> 384) else 384) = m" by blast
  have was: "dk_files dk ?c = (if existed then Some (original, m) else None)"
    using assms(5-7) m by (auto simp: file_mode_def split: option.splits prod.splits if_splits)
  define w where "w = (if changed then atomicWrite ch ?c (settings_text ch proposed) 384 dk else (True, dk))"
  define content where "content = ch_state_text ch (new_state ch p prior original existed m proposed) @ [CHR 0x0A]"
  define st where "st = atomicWrite ch ?s content 384 (snd w)"
  have run: "and_then w ConfigWrite (\<lambda>dk. case atomicWrite ch ?s content 384 dk of
        (True, dk) \<Rightarrow> (Exit 0, Protected, dk)
      | (False, dk) \<Rightarrow> failing StateWrite (if \<not> changed then dk else if existed then snd (atomicWrite ch ?c original m dk)
          else snd (remove_file ch ?c dk))) = (x, rep, dk')"
    using assms(1) by (simp only: install_files_def Let_def m w_def content_def)
  then show ?thesis
  proof (cases rule: and_then_cases)
    case 2
    then show ?thesis by (auto simp: w_def atomicWrite_files split: if_splits)
  next
    case 1
    then have fst_st: "\<not> fst st" and r: "dk' = (if \<not> changed then snd st else if existed then snd (atomicWrite ch ?c original m (snd st))
        else snd (remove_file ch ?c (snd st)))"
      using assms(2) by (auto simp: st_def [symmetric] failing_def split: prod.splits bool.splits)
    have dks: "dk_files (snd st) ?c = dk_files (snd w) ?c" "dirExists (snd st) ?c \<Longrightarrow> dirExists (snd w) ?c"
      using atomicWrite_files [of ch ?s content 384 "snd w"] atomicWrite_dirs [of ch ?s content 384 "snd w" ?c] t(2) fst_st
      by (auto simp: st_def)
    show ?thesis
    proof (cases changed)
      case True
      then have ok: "\<not> ch_denied ch MakingDir (ch_Dir ch ?c)" "\<not> ch_denied ch Writing ?c" "\<not> dirExists (snd w) ?c"
        using 1(1) by (auto simp: w_def atomicWrite_def MkdirAll_def dirExists_def split: if_splits)
      then have nd: "\<not> dirExists (snd st) ?c" using dks(2) by blast
      then have "\<not> dirExists (snd st \<lparr> dk_dirs := ch_ancestors ch d @ dk_dirs (snd st) \<rparr>) ?c" for d using t(2) by (simp add: dirExists_def)
      with ok have "fst (atomicWrite ch ?c original m (snd st))" by (simp add: atomicWrite_def MkdirAll_def)
      moreover have "dk_files (snd (remove_file ch ?c (snd st))) ?c = None" using assms(4) nd by (auto simp: remove_file_def)
      ultimately show ?thesis using r True was by (simp add: atomicWrite_files)
    qed (use r dks w_def in simp)
  qed
qed


section \<open>A run that does not protect\<close>

lemma read_config_file:
  assumes "readJSONConfig ch dk c = Inr (original, existed, root)"
  shows "existed = (dk_files dk c \<noteq> None)" "map_option fst (dk_files dk c) = (if existed then Some original else None)"
  using assms by (auto simp: readJSONConfig_def read_file_def split: file_read.splits if_splits option.splits)

lemma apply_protect_failed:
  assumes "apply_protect ch p d original existed proposed changed dk = (x, rep, dk')" "rep \<noteq> Protected" "tidy ch p"
    and "\<not> ch_denied ch Removing (pp_config p)" "\<not> ch_denied ch Statting (pp_config p)"
    and "existed = (dk_files dk (pp_config p) \<noteq> None)" "map_option fst (dk_files dk (pp_config p)) = (if existed then Some original else None)"
  shows "dk_files dk' (pp_config p) = dk_files dk (pp_config p)"
proof (cases "loadProtectState ch dk (pp_state p) = BadState")
  case True
  then show ?thesis using assms(1) by (simp add: apply_protect_def failing_def)
next
  case False
  let ?c = "pp_config p"
  define prior where "prior = loadProtectState ch dk (pp_state p)"
  obtain e dka where e: "ensure_policy ch p d dk = (e, dka)" by fastforce
  have t: "?c \<noteq> pp_policy p" "?c \<noteq> pp_backup p" using assms(3) by (auto simp: tidy_def)
  have a: "dk_files dka ?c = dk_files dk ?c" using ensure_policy_other [OF t(1), of ch d dk] e by simp
  show ?thesis
  proof (cases e)
    case (Some fault)
    with assms(1) False e a show ?thesis by (auto simp: apply_protect_def failing_def)
  next
    case None
    define b where "b = (if prior = NoState \<and> existed then writeIfAbsent ch (pp_backup p) original 384 dka else (True, dka))"
    have b: "dk_files (snd b) ?c = dk_files dk ?c" using a writeIfAbsent_other [OF t(2)] by (simp add: b_def)
    have run: "and_then b BackupWrite (\<lambda>dk. and_then (MkdirAll ch (ch_Dir ch (pp_audit p)) dk) AuditDir
        (install_files ch p prior original existed proposed changed)) = (x, rep, dk')"
      using assms(1) False e None by (simp add: apply_protect_def b_def prior_def Let_def)
    then show ?thesis
    proof (cases rule: and_then_cases)
      case 1
      from 1(2) show ?thesis
      proof (cases rule: and_then_cases)
        case 1
        from install_files_failed [OF 1(2) assms(2-5)] assms(6,7) b show ?thesis by simp
      qed (use b in simp)
    qed (use b in simp)
  qed
qed


section \<open>An installation and its removal\<close>

definition quiet :: "claude_host \<Rightarrow> bool" where
  "quiet ch \<longleftrightarrow> (\<forall>a q. \<not> ch_denied ch a q)"

text \<open>A path that is no ancestor of anything becomes no directory.\<close>

definition never_dir :: "claude_host \<Rightarrow> string \<Rightarrow> bool" where
  "never_dir ch q \<longleftrightarrow> (\<forall>d. q \<notin> set (ch_ancestors ch d))"

lemma tidy_dirs: "tidy ch p \<Longrightarrow> q \<in> {pp_config p, pp_backup p, pp_state p} \<Longrightarrow> never_dir ch q"
  by (auto simp: tidy_def never_dir_def)

lemma dirs_kept:
  assumes "never_dir ch q"
  shows "dirExists (snd (MkdirAll ch d dk)) q = dirExists dk q"
    and "dirExists (snd (atomicWrite ch path data mode dk)) q = dirExists dk q"
    and "dirExists (snd (writeIfAbsent ch path data mode dk)) q = dirExists dk q"
    and "dirExists (snd (ensure_policy ch p dp dk)) q = dirExists dk q"
proof -
  show m: "dirExists (snd (MkdirAll ch d dk)) q = dirExists dk q" for d dk
    using assms by (simp add: MkdirAll_def dirExists_def never_dir_def)
  show a: "dirExists (snd (atomicWrite ch path data mode dk)) q = dirExists dk q" for path data mode dk
    using m [of "ch_Dir ch path" dk] by (auto simp: atomicWrite_def dirExists_def split: prod.split bool.split)
  show w: "dirExists (snd (writeIfAbsent ch path data mode dk)) q = dirExists dk q" for path data mode dk
    using a by (simp add: writeIfAbsent_def)
  show "dirExists (snd (ensure_policy ch p dp dk)) q = dirExists dk q"
    using w [of "pp_policy p" codingAgentStarterPolicy 384 dk] by (auto simp: ensure_policy_def Let_def split: prod.split option.split if_split)
qed

lemma atomicWrite_quiet:
  assumes "quiet ch" "never_dir ch path"
  shows "fst (atomicWrite ch path data mode dk) \<longleftrightarrow> \<not> dirExists dk path"
  using assms by (simp add: atomicWrite_def MkdirAll_def quiet_def dirExists_def never_dir_def)

lemma protect_effect:
  assumes "apply_protect ch p d original existed m True dk = (Exit 0, Protected, dk1)" "tidy ch p" "quiet ch"
    and "loadProtectState ch dk (pp_state p) = NoState" "\<not> dirExists dk (pp_backup p)"
    and mode: "mode = (if existed then (case dk_files dk (pp_config p) of Some (_, m) \<Rightarrow> m | None \<Rightarrow> 384) else 384)"
  shows "dk_files dk1 (pp_config p) = Some (settings_text ch m, 384)"
    and "dk_files dk1 (pp_state p) = Some (ch_state_text ch (new_state ch p NoState original existed mode m) @ [CHR 0x0A], 384)"
    and "dk_files dk1 (pp_backup p) =
      (if existed \<and> dk_files dk (pp_backup p) = None then Some (original, 384) else dk_files dk (pp_backup p))"
    and "\<forall>q \<in> {pp_config p, pp_backup p, pp_state p}. \<not> dirExists dk1 q"
proof -
  let ?c = "pp_config p" and ?b = "pp_backup p" and ?s = "pp_state p"
  have nc: "never_dir ch ?c" and nb: "never_dir ch ?b" and ns: "never_dir ch ?s" using tidy_dirs [OF assms(2)] by auto
  obtain e dka where e: "ensure_policy ch p d dk = (e, dka)" by fastforce
  have pol: "?c \<noteq> pp_policy p" "?b \<noteq> pp_policy p" "?s \<noteq> pp_policy p" and ne: "?c \<noteq> ?b" "?c \<noteq> ?s" "?b \<noteq> ?s"
    using assms(2) by (auto simp: tidy_def)
  have a: "dk_files dka ?c = dk_files dk ?c" "dk_files dka ?b = dk_files dk ?b"
    using ensure_policy_other [OF pol(1), of ch d dk] ensure_policy_other [OF pol(2), of ch d dk] e by simp_all
  have ad: "dirExists dka q = dirExists dk q" if "never_dir ch q" for q using dirs_kept(4) [OF that, of p d dk] e by simp
  have none: "e = None" using assms(1,4) e by (cases e) (simp_all add: apply_protect_def failing_def)
  define b where "b = (if existed then writeIfAbsent ch ?b original 384 dka else (True, dka))"
  have bd: "dirExists (snd b) q = dirExists dk q" if "never_dir ch q" for q
    using dirs_kept(3) [OF that, of ?b original 384 dka] ad [OF that] by (simp add: b_def)
  have "\<not> dirExists dka ?b" using ad [OF nb] assms(5) by simp
  then have wb: "writeIfAbsent ch ?b original 384 dka =
      (if dk_files dka ?b = None then atomicWrite ch ?b original 384 dka else (True, dka))" "fst (atomicWrite ch ?b original 384 dka)"
    using assms(3) atomicWrite_quiet [OF assms(3) nb] by (simp_all add: writeIfAbsent_def quiet_def)
  have bf: "dk_files (snd b) ?c = dk_files dk ?c"
      "dk_files (snd b) ?b = (if existed \<and> dk_files dk ?b = None then Some (original, 384) else dk_files dk ?b)"
    using a ne by (simp_all add: b_def wb(1) atomicWrite_files wb(2))
  define k where "k = snd (MkdirAll ch (ch_Dir ch (pp_audit p)) (snd b))"
  have "and_then b BackupWrite (\<lambda>dk. and_then (MkdirAll ch (ch_Dir ch (pp_audit p)) dk) AuditDir
      (install_files ch p NoState original existed m True)) = (Exit 0, Protected, dk1)"
    using assms(1,4) e none by (auto simp: apply_protect_def b_def Let_def)
  then have inst: "install_files ch p NoState original existed m True k = (Exit 0, Protected, dk1)"
    by (auto simp: and_then_def failing_def k_def split: if_splits)
  have kf: "dk_files k = dk_files (snd b)" "never_dir ch q \<Longrightarrow> dirExists k q = dirExists dk q" for q
    using dirs_kept(1) [of ch q] bd by (simp_all add: k_def)
  have om: "(if existed then (case file_mode ch k ?c of Some m \<Rightarrow> m | None \<Rightarrow> 384) else 384) = mode"
    using assms(3) kf(1) bf(1) by (auto simp: mode file_mode_def quiet_def split: option.split)
  define w where "w = atomicWrite ch ?c (settings_text ch m) 384 k"
  define content where "content = ch_state_text ch (new_state ch p NoState original existed mode m) @ [CHR 0x0A]"
  define st where "st = atomicWrite ch ?s content 384 (snd w)"
  have run: "and_then w ConfigWrite (\<lambda>dk. case atomicWrite ch ?s content 384 dk of
        (True, dk) \<Rightarrow> (Exit 0, Protected, dk)
      | (False, dk) \<Rightarrow> failing StateWrite (if \<not> True then dk else if existed then snd (atomicWrite ch ?c original mode dk)
          else snd (remove_file ch ?c dk))) = (Exit 0, Protected, dk1)"
    using inst by (simp only: install_files_def Let_def om w_def content_def if_True)
  then have w: "fst w" by (auto simp: and_then_def failing_def split: if_splits)
  with run have st: "fst st" "dk1 = snd st"
    by (auto simp: and_then_def failing_def st_def [symmetric] split: prod.splits bool.splits)
  from w have c: "\<not> dirExists k ?c" using atomicWrite_quiet [OF assms(3) nc] by (simp add: w_def)
  from st(1) have "\<not> dirExists (snd w) ?s" using atomicWrite_quiet [OF assms(3) ns] by (simp add: st_def)
  then have sd: "\<not> dirExists k ?s" using dirs_kept(2) [OF ns] by (simp add: w_def)
  have d1: "dirExists dk1 q = dirExists k q" if "never_dir ch q" for q
    using dirs_kept(2) [OF that] by (simp add: st(2) st_def w_def)
  have f1: "dk_files dk1 = (dk_files k)(?c \<mapsto> (settings_text ch m, 384), ?s \<mapsto> (content, 384))"
    using w st by (simp add: st_def w_def atomicWrite_files)
  show "dk_files dk1 ?c = Some (settings_text ch m, 384)" "dk_files dk1 ?s = Some (ch_state_text ch (new_state ch p NoState original existed mode m) @ [CHR 0x0A], 384)"
    "dk_files dk1 ?b = (if existed \<and> dk_files dk ?b = None then Some (original, 384) else dk_files dk ?b)"
    using f1 ne bf(2) kf(1) by (simp_all add: content_def)
  show "\<forall>q \<in> {?c, ?b, ?s}. \<not> dirExists dk1 q" using d1 [OF nc] d1 [OF nb] d1 [OF ns] c sd kf(2) [OF nb] assms(5) by simp
qed

lemma protect_paths_config:
  assumes "protect_paths ch dk f = Inr (p, d)"
  shows "resolveConfigPath ch (pf_config f) = Inr (pp_config p)" "pp_state p = state_path (pp_config p)"
  using assms
  by (auto simp: protect_paths_def resolveProtectPaths_def pin_prior_def Let_def split: sum.splits prod.splits option.splits if_splits state_read.splits)

lemma handler_managed: "isManagedClaudeHook (claudeHookHandler ch p)"
  by (simp add: isManagedClaudeHook_def claudeHookHandler_def claudeHookArgs_def)

text \<open>A first installation: what is on the disk and what the encoders make of what is written.\<close>

definition first_install ::
  "claude_host \<Rightarrow> disk \<Rightarrow> protectPaths \<Rightarrow> string \<Rightarrow> bool \<Rightarrow> settings \<Rightarrow> settings \<Rightarrow> bool" where
  "first_install ch dk p original existed r m \<longleftrightarrow>
     quiet ch \<and> tidy ch p \<and> loadProtectState ch dk (pp_state p) = NoState \<and> \<not> dirExists dk (pp_backup p) \<and>
     readJSONConfig ch dk (pp_config p) = Inr (original, existed, Some r) \<and> decoded r \<and> list_all (\<lambda>v. \<not> managed v) (hooks_in r) \<and>
     mergeClaudeHook (ch_marshal ch) (Some r) (claudeHookHandler ch p) = Returned (m, True) \<and>
     TrimSpace (settings_text ch m) \<noteq> [] \<and> ch_decode ch (settings_text ch m) = Some (Some (cloneMap m)) \<and>
     (let mode = (if existed then (case dk_files dk (pp_config p) of Some (_, k) \<Rightarrow> k | None \<Rightarrow> 384) else 384);
          st = new_state ch p NoState original existed mode m
      in ch_state_of ch (ch_state_text ch st @ [CHR 0x0A]) = Some st)"

definition kept_mode :: "nat \<Rightarrow> nat" where
  "kept_mode m = (if m = 0 then 384 else m)"

lemma unprotect_effect:
  assumes fi: "first_install ch dk p original existed r m"
    and cmd: "Option.bind (protectTarget args) (\<lambda>(t, rest). parse rest) = Some f" "protect_paths ch dk f = Inr (p, d)"
      "runProtect ch parse args dk = (Exit 0, Protected, dk1)"
    and off: "Option.bind (protectTarget args') (\<lambda>(t, rest). parse' rest) = Some f'" "pf_apply f'" "pf_config f' = pf_config f"
  shows "\<exists>dk2. runUnprotect ch parse' args' dk1 = (Exit 0, Unprotected, dk2) \<and> dk_files dk2 (pp_state p) = None \<and>
    dk_files dk2 (pp_config p) =
      (case dk_files dk (pp_config p) of
         None \<Rightarrow> None
       | Some (b, k) \<Rightarrow> Some (case dk_files dk (pp_backup p) of None \<Rightarrow> b | Some (old, _) \<Rightarrow> old, kept_mode k)) \<and>
    dk_files dk2 (pp_backup p) = dk_files dk1 (pp_backup p) \<and>
    dk_files dk1 (pp_backup p) = (if existed \<and> dk_files dk (pp_backup p) = None then Some (original, 384) else dk_files dk (pp_backup p))"
proof -
  let ?c = "pp_config p" and ?b = "pp_backup p" and ?s = "pp_state p"
  define mode where "mode = (if existed then (case dk_files dk ?c of Some (_, k) \<Rightarrow> k | None \<Rightarrow> 384) else 384)"
  define st where "st = new_state ch p NoState original existed mode m"
  have h: "quiet ch" "tidy ch p" "loadProtectState ch dk ?s = NoState" "\<not> dirExists dk ?b"
      "readJSONConfig ch dk ?c = Inr (original, existed, Some r)" "decoded r"
      "mergeClaudeHook (ch_marshal ch) (Some r) (claudeHookHandler ch p) = Returned (m, True)"
      "TrimSpace (settings_text ch m) \<noteq> []" "ch_decode ch (settings_text ch m) = Some (Some (cloneMap m))"
      "ch_state_of ch (ch_state_text ch st @ [CHR 0x0A]) = Some st"
    using fi by (simp_all add: first_install_def Let_def st_def mode_def)
  have nc: "never_dir ch ?c" and ne: "?c \<noteq> ?b" "?c \<noteq> ?s" "?b \<noteq> ?s"
    using tidy_dirs [OF h(2)] h(2) by (auto simp: tidy_def)
  have "apply_protect ch p d original existed m True dk = (Exit 0, Protected, dk1)"
    using cmd h(5,7) by (auto simp: runProtect_def failing_def split: option.splits if_splits)
  note eff = protect_effect [OF this h(2,1,3,4) mode_def, folded st_def]
  note cfg = protect_paths_config [OF cmd(2)]
  have state: "loadProtectState ch dk1 (state_path ?c) = State st"
    using eff(2,4) h(1,10) cfg(2) by (simp add: loadProtectState_def read_file_def quiet_def) (simp add: st_def new_state_def)
  have config: "readJSONConfig ch dk1 ?c = Inr (settings_text ch m, True, Some (cloneMap m))"
    using eff(1,4) h(1,8,9) by (simp add: readJSONConfig_def read_file_def quiet_def)
  note removed = installed(1) [OF h(6) handler_managed h(7)]
  have st_fields: "pst_ExactRestoreSafe st" "ch_sha256 ch (settings_text ch m) = pst_InstalledSHA256 st" "pst_OriginalExisted st = existed"
      "pst_BackupPath st = ?b" "restored_mode st = kept_mode mode"
    by (simp_all add: st_def new_state_def restored_mode_def kept_mode_def)
  note orig = read_config_file [OF h(5)]
  define res where "res = (if existed then atomicWrite ch ?c (case dk_files dk1 ?b of Some (b, _) \<Rightarrow> b | None \<Rightarrow> []) (kept_mode mode) dk1
      else remove_file ch ?c dk1)"
  have res: "fst res" "dk_files (snd res) = (dk_files dk1)(?c := (if existed then Some (case dk_files dk1 ?b of Some (b, _) \<Rightarrow> b | None \<Rightarrow> [], kept_mode mode) else None))"
    "\<not> dirExists (snd res) ?s"
    using atomicWrite_quiet [OF h(1) nc] eff(1,4) h(1) dirs_kept(2) [of ch ?s] tidy_dirs [OF h(2), of ?s]
    by (auto simp: res_def atomicWrite_files remove_file_def quiet_def dirExists_def)
  have "restore_settings ch ?c st (settings_text ch m) (with_groups (slice_of (clean_groups r)) r) dk1 = (None, snd res)"
  proof (cases existed)
    case True
    with eff(3) obtain b k where "dk_files dk1 ?b = Some (b, k)" by (cases "dk_files dk ?b") auto
    with True res(1) eff(4) h(1) show ?thesis by (simp add: restore_settings_def st_fields Let_def read_file_def quiet_def res_def)
  qed (use res(1) in \<open>simp add: restore_settings_def st_fields Let_def res_def\<close>)
  moreover have "and_then (remove_file ch ?s (snd res)) StateCleanup (\<lambda>dk. (Exit 0, Unprotected, dk)) =
      (Exit 0, Unprotected, snd (remove_file ch ?s (snd res)))"
    and rm: "dk_files (snd (remove_file ch ?s (snd res))) = (dk_files (snd res))(?s := None)"
    using h(1) res(3) by (auto simp: and_then_def remove_file_def quiet_def)
  ultimately have "runUnprotect ch parse' args' dk1 = (Exit 0, Unprotected, snd (remove_file ch ?s (snd res)))"
    using off cfg state config removed by (simp add: runUnprotect_def)
  moreover have "dk_files (snd (remove_file ch ?s (snd res))) ?c =
      (case dk_files dk ?c of None \<Rightarrow> None | Some (b, k) \<Rightarrow> Some (case dk_files dk ?b of None \<Rightarrow> b | Some (old, _) \<Rightarrow> old, kept_mode k))"
    using rm res(2) ne orig eff(3) by (auto simp: mode_def split: option.splits)
  ultimately show ?thesis using rm res(2) ne eff(3) by auto
qed


text \<open>C19: The backup of an earlier installation is kept by the next one. The settings that were edited in between
  are lost: the removal reports success and restores the old backup in their place.\<close>

theorem stale_backup_wins:
  assumes "first_install ch dk p original existed r m" "dk_files dk (pp_backup p) = Some (old, k0)" "dk_files dk (pp_config p) = Some (b, k)"
    and "Option.bind (protectTarget args) (\<lambda>(t, rest). parse rest) = Some f" "protect_paths ch dk f = Inr (p, d)"
      "runProtect ch parse args dk = (Exit 0, Protected, dk1)"
    and "Option.bind (protectTarget args') (\<lambda>(t, rest). parse' rest) = Some f'" "pf_apply f'" "pf_config f' = pf_config f"
  shows "\<exists>dk2. runUnprotect ch parse' args' dk1 = (Exit 0, Unprotected, dk2) \<and> dk_files dk2 (pp_config p) = Some (old, kept_mode k)"
  using unprotect_effect [OF assms(1,4-9)] assms(2,3) by auto

section \<open>Witnesses\<close>

definition my_settings :: settings where
  "my_settings =
     [(''model'', AStr ''opus''),
      (''hooks'', AMap [(''PreToolUse'', AList [AMap [(''matcher'', AStr ''Bash''), (''hooks'', AList [AMap [(''command'', AStr ''mine'')]])]])])]"

definition my_paths :: protectPaths where
  "my_paths =
     \<lparr> pp_config = ''/h/s'', pp_policy = ''/p'', pp_audit = ''/c/tool-guard/audit/claude.jsonl'',
       pp_backup = ''/h/s.tool-guard.bak'', pp_state = ''/h/s.tool-guard-state.json'', pp_tg = ''/tg'' \<rparr>"

definition plain_host :: claude_host where
  "plain_host =
     \<lparr> ch_denied = \<lambda>_ _. False, ch_Dir = \<lambda>_. ''/d'', ch_Join = \<lambda>ps. Join ps ''/'', ch_Ext = \<lambda>_. [], ch_Abs = Some,
       ch_ancestors = \<lambda>_. [''/''], ch_home = None, ch_config_dir = Some ''/c'', ch_exe = Some ''/tg'', ch_windows = False,
       ch_claude = Printed ''2.1.140 (Claude Code)'', ch_decode = \<lambda>_. Some (Some my_settings), ch_marshal = \<lambda>m. ''x'',
       ch_indent = \<lambda>_. ''new'', ch_state_text = \<lambda>_. ''state'', ch_state_of = \<lambda>_. None, ch_sha256 = id,
       ch_loader = sample_loader, ch_rt = sample_runtime \<rparr>"

definition my_merged :: settings where
  "my_merged = with_groups (AList (clean_groups my_settings @ [managed_entry (claudeHookHandler plain_host my_paths)])) my_settings"

definition my_host :: claude_host where
  "my_host = plain_host
     \<lparr> ch_decode := \<lambda>s. if s = settings_text plain_host my_merged then Some (Some (cloneMap my_merged)) else Some (Some my_settings),
       ch_state_of := \<lambda>_. Some (new_state plain_host my_paths NoState ''old'' True 420 my_merged) \<rparr>"

definition my_disk :: "(string \<times> nat) option \<Rightarrow> disk" where
  "my_disk backup =
     \<lparr> dk_files = (\<lambda>q. if q = ''/h/s'' then Some (''old'', 420) else if q = ''/tg'' then Some ([], 493) else if q = ''/p'' then Some (''policy'', 384)
         else if q = ''/h/s.tool-guard.bak'' then backup else None), dk_dirs = [''/''], dk_links = [] \<rparr>"

definition my_flags :: protect_flags where
  "my_flags = \<lparr> pf_apply = True, pf_config = ''/h/s'', pf_policy = ''/p'', pf_tg = [] \<rparr>"

definition my_parse :: "string list \<Rightarrow> protect_flags option" where
  "my_parse rest = Some my_flags"

lemma my_tidy: "tidy my_host my_paths"
  by (simp add: tidy_def my_host_def plain_host_def my_paths_def)

lemma my_paths_resolved:
  "protect_paths my_host (my_disk None) my_flags = Inr (my_paths, False)"
  "protect_paths my_host (my_disk (Some (''ancient'', 384))) my_flags = Inr (my_paths, False)"
  by code_simp+

lemma my_merge: "mergeClaudeHook (ch_marshal my_host) (Some my_settings) (claudeHookHandler my_host my_paths) = Returned (my_merged, True)"
  by code_simp

lemma my_first_install: "first_install my_host (my_disk backup) my_paths ''old'' True my_settings my_merged"
proof -
  let ?dk = "my_disk backup"
  have config: "pp_config my_paths = ''/h/s''" "dk_files ?dk ''/h/s'' = Some (''old'', 420)" by (simp_all add: my_paths_def my_disk_def)
  then have mode: "(if True then (case dk_files ?dk (pp_config my_paths) of Some (_, k) \<Rightarrow> k | None \<Rightarrow> 384) else 384) = 420" by simp
  have w: "settings_text my_host x = settings_text plain_host x" for x by (simp add: my_host_def settings_text_def)
  have st: "new_state my_host my_paths NoState ''old'' True 420 my_merged = new_state plain_host my_paths NoState ''old'' True 420 my_merged"
    by (simp add: my_host_def new_state_def claudeHookArgs_def settings_text_def)
  have codec: "ch_decode my_host (settings_text plain_host my_merged) = Some (Some (cloneMap my_merged))"
    "ch_state_of my_host x = Some (new_state plain_host my_paths NoState ''old'' True 420 my_merged)" for x
    by (simp_all add: my_host_def)
  have "quiet my_host" by (simp add: quiet_def my_host_def plain_host_def)
  moreover have "loadProtectState my_host ?dk (pp_state my_paths) = NoState"
    "readJSONConfig my_host ?dk (pp_config my_paths) = Inr (''old'', True, Some my_settings)"
    "\<not> dirExists ?dk (pp_backup my_paths)"
    by (simp_all add: loadProtectState_def readJSONConfig_def read_file_def dirExists_def my_paths_def my_disk_def my_host_def plain_host_def
        TrimSpace_def is_space_def byte_def settings_text_def)
  moreover have "cloneMap my_settings = my_settings" "list_all (\<lambda>v. \<not> managed v) (hooks_in my_settings)"
    "TrimSpace (settings_text plain_host my_merged) \<noteq> []"
    by code_simp+
  ultimately show ?thesis
    unfolding first_install_def decoded_def mode Let_def w st by (intro conjI my_tidy my_merge codec)
qed

lemma run_cases: "(case r of (x, rep, _) \<Rightarrow> x = e \<and> rep = q) \<Longrightarrow> \<exists>dk. r = (e, q, dk)"
  by (auto split: prod.splits)

lemma my_args: "Option.bind (protectTarget [''claude'']) (\<lambda>(t, rest). my_parse rest) = Some my_flags"
  by (simp add: protectTarget_def claudeTarget_def my_parse_def HasPrefix_def ToLower_def lower_char_def is_upper_def byte_def)


theorem stale_backup_wins_witness:
  "\<exists>dk1 dk2. runProtect my_host my_parse [''claude''] (my_disk (Some (''ancient'', 384))) = (Exit 0, Protected, dk1) \<and>
     runUnprotect my_host my_parse [''claude''] dk1 = (Exit 0, Unprotected, dk2) \<and> dk_files dk2 ''/h/s'' = Some (''ancient'', 420)"
proof -
  let ?dk = "my_disk (Some (''ancient'', 384))"
  have "case runProtect my_host my_parse [''claude''] ?dk of (x, rep, _) \<Rightarrow> x = Exit 0 \<and> rep = Protected" by code_simp
  then obtain dk1 where r: "runProtect my_host my_parse [''claude''] ?dk = (Exit 0, Protected, dk1)"
    using run_cases by blast
  have b: "dk_files ?dk (pp_backup my_paths) = Some (''ancient'', 384)" by (simp add: my_paths_def my_disk_def)
  have f: "pf_apply my_flags" by (simp add: my_flags_def)
  have c: "pp_config my_paths = ''/h/s''" "dk_files ?dk (pp_config my_paths) = Some (''old'', 420)" by (simp_all add: my_paths_def my_disk_def)
  from stale_backup_wins [OF my_first_install b c(2) my_args my_paths_resolved(2) r my_args f refl] r c(1) show ?thesis
    by (auto simp: kept_mode_def)
qed

text \<open>The state file cannot be written, after the settings have been.\<close>

definition full_host :: claude_host where
  "full_host = my_host \<lparr> ch_denied := \<lambda>a q. a = Writing \<and> q = ''/h/s.tool-guard-state.json'' \<rparr>"



theorem install_is_idempotent_witness:
  "mergeClaudeHook (ch_marshal my_host) (Some (cloneMap my_merged)) (claudeHookHandler my_host my_paths) = Returned (my_merged, False)"
proof -
  have d: "decoded my_settings" "ch_marshal my_host (cloneMap my_merged) = ch_marshal my_host my_merged" by code_simp+
  show ?thesis by (rule install_is_idempotent [OF d(1) handler_managed my_merge d(2)])
qed

theorem removal_blocks_reinstall_witness:
  "\<exists>m m'. mergeClaudeHook (\<lambda>_. []) (Some []) (claudeHookHandler my_host my_paths) = Returned (m, True) \<and>
     removeManagedClaudeHooks (cloneMap m) = Inr (m', True) \<and>
     mergeClaudeHook (\<lambda>_. []) (Some (cloneMap m')) (claudeHookHandler my_host my_paths) = Refused (MustBeArray ''hooks.PreToolUse'')"
proof -
  let ?h = "claudeHookHandler my_host my_paths"
  have m: "mergeClaudeHook (\<lambda>_. []) (Some []) ?h = Returned ([(''hooks'', AMap [(''PreToolUse'', AList [managed_entry ?h])])], True)"
    by code_simp
  have e: "decoded []" "clean_groups [] = []" by (simp_all add: decoded_def cloneMap_def clean_groups_def pre_groups_def map_filter_simps)
  from removal_blocks_reinstall [OF e(1) handler_managed m e(2)] m show ?thesis by blast
qed

end
