(* ===== verification/Spec2Isabelle.thy ===== *)
theory Spec2Isabelle
  imports Proxy_Samples Hook_Audit Prune_Sound Llm_Sound Claude_Runs
begin

text \<open>
  Tool Guard Core, verified. The program decides whether the tool call of an AI agent may run: a call
  arrives as an envelope, the engine evaluates the loaded policies on it, and the proxy answers allow,
  deny or escalate, after it has written the decision to a hash-chained audit log. A person approves or
  denies an escalated call later, and that outcome is written to the log as well.

  \<^bold>\<open>Parts and theories.\<close> Definitions keep the names of the source; the members of a struct are prefixed
  by an abbreviation of its name.

  \<^item> Shared: \<open>Prelude\<close> (Go's \<open>strings\<close>, \<open>path\<close> and maps on byte strings), \<open>Values\<close> (JSON documents,
  dynamic values, the services of the host), \<open>Domain\<close> (\<open>pkg/domain\<close>: policy.go, envelope.go,
  decision.go), \<open>Float64\<close> and \<open>Json\_Text\<close> (arithmetic on \<open>float64\<close>, the text of \<open>encoding/json\<close>).
  \<^item> Engine, \<open>pkg/engine\<close>: \<open>Paths\<close> (path\_classify.go and the paths of protect.go), \<open>Shell\_Tokens\<close>
  (shell\_tokenize.go), \<open>Protect\<close> (protect.go), \<open>Reversibility\<close> and \<open>Reversibility\_Sql\<close>
  (reversibility.go), \<open>Classifiers\<close> (shell, write, http and llm classify), \<open>Conditions\<close> (condition.go),
  \<open>Validate\<close> (validate.go), \<open>Evaluator\<close> (matcher.go, effects.go, evaluator.go).
  \<^item> SQL, \<open>pkg/sqlguard\<close>: \<open>Sql\_Guard\<close> (dialect table and registry), \<open>Sql\_Lite\<close> (lite), \<open>Sql\_Mssql\<close> (mssql).
  \<^item> Audit, \<open>pkg/audit\<close> and \<open>cmd/tg-proxy/audit\_chain.go\<close>: \<open>Audit\_Canonical\<close> (the record and its canonical
  bytes), \<open>Audit\_Chain\<close> (verifiers, checkpoints, receipts), \<open>Audit\_Writer\<close> (open, append, rotate, roll
  back, poison, over an explicit directory), \<open>Audit\_History\<close> (its guarantees over the life of a log).
  \<^item> Proxy, \<open>cmd/tg-proxy\<close>: \<open>Limits\<close> (ratelimit.go, velocity.go), \<open>Escalation\<close> (escalation.go), \<open>Proxy\<close>
  (state, emitters, review endpoints, reaper), \<open>Handlers\<close> (the evaluate handler), \<open>Policy\_Load\<close>
  (\<open>pkg/policyload\<close>, policy\_loader.go), \<open>Approvals\<close>, \<open>Proxy\_Runs\<close>, \<open>Proxy\_Replies\<close> (the composition),
  \<open>Proxy\_Samples\<close> (concrete calls, the witnesses of the composition).
  \<^item> Command line, \<open>cmd/tg\<close>: \<open>Hook\<close> (hook.go, the guard of a coding agent, with \<open>loadPolicySet\<close> of
  simulate.go), \<open>Hook\_Audit\<close> (hook\_audit.go, the log the hook processes share), \<open>Prune\<close> and
  \<open>Prune\_Sound\<close> (prune.go, which replaces the old part of a closed log by a checkpoint), \<open>Claude\_Settings\<close>,
  \<open>Claude\_Protect\<close> and \<open>Claude\_Runs\<close> (protect.go, which installs the hook into the settings of Claude Code).
  \<^item> Language models, \<open>pkg/llmguard\<close> and llm\_classify.go: \<open>Ssrf\<close> (ssrf.go, the image fetch), \<open>Llm\_Client\<close>
  (client.go, classifier.go), \<open>System\_One\<close> (systemone.go), \<open>Llm\_Sound\<close> (what a silent leaf means).

  \<^bold>\<open>How they interact.\<close> \<open>evaluate\<close> passes a call through the rate limiter, the protected-path guard, the
  velocity tracker and \<open>Evaluate\<close>; it stamps a trace, reserves a review if the action is escalated,
  appends the trace to the log, publishes the review, and downgrades the reply to a denial where one of
  these fails. \<open>escalationByID\<close> and \<open>reap\<close> end a review through a callback that appends the outcome first.
  The state of the process is one record, \<open>proxy\<close>; the writer and its directory are part of it. The hook is
  a process per call, which uses the same guards, engine and policy loader, and shares only its log with the
  others: \<open>hook\_system\<close> interleaves them under the lock.

  \<^bold>\<open>What the lemmas show.\<close>

  \<^item> Engine: the decision is the worst effect among the enabled rules that fire, whatever the order of
  policies and rules; shadow policies never block; validated policies fail closed when a classifier is
  down; trusted fields cannot be forged by an agent; the guards see through wrappers and dot segments.
  \<^item> Audit log: an append persists its record, leaves the log as it was, or poisons the writer; what was
  acknowledged is what the verifiers read; a restart resumes the chain; two verified logs with the same
  last hash agree on every committed member.
  \<^item> Reviews: the states of an entry, refined from the store to the log: what a poller reads as approved,
  denied or expired is a record of the log. The contract is the locale \<open>audit\_commit\<close>, interpreted in
  \<open>Approvals\<close> on the writer of the proxy.
  \<^item> Proxy: in every run, no call proceeds unrecorded with the fail-closed setting, an escalated reply is
  backed by a pending review, a poisoned writer lets nothing through, and decisions are counted once.
  \<^item> Hook: when it fails closed and when it does not; its processes append to the log one after the other;
  what a torn write does to the log. Pruning: the published log is verified, with the last hash of the old one.
  \<^item> Installer: it keeps the hooks of others, a failed run leaves the settings as they were, and a removal restores
  them, except where the backup of an earlier installation is still there.
  \<^item> Language models: a silent leaf is a safe verdict of a model; an image is fetched from public addresses only,
  which are spelt out as CIDR blocks; a response is read in one way; the key goes to the endpoint of the
  operator and not into the audit detail.

  \<^bold>\<open>Conventions.\<close> A string is a list of bytes; case mapping and white space are those of Go on ASCII. A
  Go map is an association list; where the source ranges over a map, the order is an argument. Errors
  are values of \<open>sum\<close> or \<open>option\<close> types; message texts are kept where the program records them. A time is
  a number of nanoseconds since Go's zero time. What lies outside the source is a parameter: the regular
  expression compiler, the URL, float and YAML parsers, the file system of the guards (\<open>runtime\<close>), name
  resolution and the exchanges with model servers (\<open>network\<close>, \<open>llm\_host\<close>, \<open>so\_net\<close>), \<open>sort.Slice\<close> (a permutation sorted by the order, ties free), SHA-256 and the
  JSON decoder of the log (\<open>codec\<close>). The clock, the answers of every system call of the writer, the
  order of a map and a panic of the engine come from a script of ticks, over all of which the theorems
  quantify.

  \<^bold>\<open>Bounds and fuel.\<close> Loops are structural or carry a measure, so every definition is total. The only
  fuel the model adds is that of \<open>symlink\_loop\<close>, whose value exceeds the number of parents of the path;
  \<open>symlink\_walk\_terminates\<close> shows it never runs out. The other bounds are the source's: 8 levels of
  nested commands and of wrappers in the guards, 64 levels of conditions, 10000 reviews, 4 MiB records, 1048576
  rotated files. Widths are kept where they matter: timeouts and \<open>UnixNano\<close> wrap at 64 bits, floats are
  64-bit patterns.

  \<^bold>\<open>Not modelled.\<close> Requests are handled one at a time: the locks of the source make the writer, the
  store and each limiter atomic, and interleavings between them inside one request are not modelled,
  so that the window between \<open>aggregate\<close> and \<open>record\<close> of the velocity tracker is not visible here. The HTTP
  server, flags, signals, logging and metrics; the strict SQL dialects behind build tags, which walk the
  trees of third-party parsers; the legacy record hash; of the tg command line all but
  the hook, prune and the installer (reports, exports); load
  generators and examples; Windows branches.
\<close>

end
